(* ===== verification/Parq_Prelude.thy ===== *)
theory Parq_Prelude
  imports
    Main
    "HOL-Library.Word"
    "HOL-Library.Char_ord"
    "HOL-Library.List_Lexorder"
    "HOL-Library.Sublist"
begin

text \<open>
  Shared vocabulary of the development: the collections of rewrite rules, results as sums,
  the string operations of Rust's \<open>str\<close> that the sources use, decimal rendering,
  Rust's \<open>BTreeMap\<close> as a sorted association list, and the generic lemmas the component
  theories rely on.

  A Rust \<open>String\<close> or \<open>Bytes\<close> is a \<^typ>\<open>string\<close>: a list of 8-bit characters, compared
  lexicographically as Rust compares them. Text is taken to be ASCII where the code
  asks for white space.
\<close>

named_theorems parq_split \<open>split rules of the model's enumerations\<close>
named_theorems parq_defs \<open>definitions the component proofs unfold\<close>

section \<open>Results\<close>

text \<open>\<open>Result<T, E>\<close>: \<^const>\<open>Inl\<close> is \<open>Err\<close>, \<^const>\<open>Inr\<close> is \<open>Ok\<close>.\<close>

type_synonym ('e, 'a) res = "'e + 'a"

fun bind_res :: "('e, 'a) res \<Rightarrow> ('a \<Rightarrow> ('e, 'b) res) \<Rightarrow> ('e, 'b) res" where
  "bind_res (Inl e) f = Inl e"
| "bind_res (Inr a) f = f a"

fun map_err :: "('e \<Rightarrow> 'f) \<Rightarrow> ('e, 'a) res \<Rightarrow> ('f, 'a) res" where
  "map_err g (Inl e) = Inl (g e)"
| "map_err g (Inr a) = Inr a"

fun ok_or :: "'e \<Rightarrow> 'a option \<Rightarrow> ('e, 'a) res" where
  "ok_or e None = Inl e"
| "ok_or e (Some a) = Inr a"

fun is_ok :: "('e, 'a) res \<Rightarrow> bool" where
  "is_ok (Inl _) = False"
| "is_ok (Inr _) = True"

lemma bind_res_Inr_iff: "bind_res r f = Inr b \<longleftrightarrow> (\<exists>a. r = Inr a \<and> f a = Inr b)"
  by (cases r) auto

lemma map_err_Inr_iff [simp]: "map_err g r = Inr a \<longleftrightarrow> r = Inr a"
  by (cases r) auto

lemma Inr_map_err_iff [simp]: "Inr a = map_err g r \<longleftrightarrow> r = Inr a"
  by (cases r) auto

lemma map_err_Inl_iff: "map_err g r = Inl f \<longleftrightarrow> (\<exists>e. r = Inl e \<and> f = g e)"
  by (cases r) auto

lemma Inl_map_err_iff: "Inl f = map_err g r \<longleftrightarrow> (\<exists>e. r = Inl e \<and> f = g e)"
  by (cases r) auto

lemma is_ok_iff: "is_ok r \<longleftrightarrow> (\<exists>a. r = Inr a)"
  by (cases r) auto

text \<open>Collecting an iterator of results: the first error wins.\<close>

fun collect_res :: "('e, 'a) res list \<Rightarrow> ('e, 'a list) res" where
  "collect_res [] = Inr []"
| "collect_res (r # rs) =
     (case r of Inl e \<Rightarrow> Inl e
      | Inr a \<Rightarrow> (case collect_res rs of Inl e \<Rightarrow> Inl e | Inr xs \<Rightarrow> Inr (a # xs)))"

lemma collect_res_map_Inr [simp]: "collect_res (map Inr xs) = Inr xs"
  by (induction xs) auto

lemma collect_res_Inr_length: "collect_res rs = Inr xs \<Longrightarrow> length xs = length rs"
  by (induction rs arbitrary: xs) (auto split: sum.splits)

section \<open>Effects\<close>

text \<open>
  Code that changes a state and may return early with an error: a function from the
  state to a result and the new state. What was done before the error stays done.
\<close>

type_synonym ('s, 'e, 'a) eff = "'s \<Rightarrow> ('e, 'a) res \<times> 's"

definition eff_return :: "'a \<Rightarrow> ('s, 'e, 'a) eff" where
  "eff_return a = (\<lambda>s. (Inr a, s))"

definition eff_fail :: "'e \<Rightarrow> ('s, 'e, 'a) eff" where
  "eff_fail e = (\<lambda>s. (Inl e, s))"

definition eff_lift :: "('e, 'a) res \<Rightarrow> ('s, 'e, 'a) eff" where
  "eff_lift r = (\<lambda>s. (r, s))"

definition eff_bind :: "('s, 'e, 'a) eff \<Rightarrow> ('a \<Rightarrow> ('s, 'e, 'b) eff) \<Rightarrow> ('s, 'e, 'b) eff" where
  "eff_bind m f = (\<lambda>s. case m s of (Inl e, s') \<Rightarrow> (Inl e, s') | (Inr a, s') \<Rightarrow> f a s')"

definition eff_map_err :: "('e \<Rightarrow> 'f) \<Rightarrow> ('s, 'e, 'a) eff \<Rightarrow> ('s, 'f, 'a) eff" where
  "eff_map_err g m = (\<lambda>s. case m s of (r, s') \<Rightarrow> (map_err g r, s'))"

text \<open>Running a call on the second component of a state, and reading the state.\<close>

definition on_snd :: "('s, 'e, 'a) eff \<Rightarrow> ('t \<times> 's, 'e, 'a) eff" where
  "on_snd m = (\<lambda>(t, s). case m s of (r, s') \<Rightarrow> (r, (t, s')))"

lemmas eff_defs = eff_return_def eff_fail_def eff_lift_def eff_bind_def eff_map_err_def on_snd_def

lemma eff_bind_apply:
  "eff_bind m f s = (case m s of (Inl e, s') \<Rightarrow> (Inl e, s') | (Inr a, s') \<Rightarrow> f a s')"
  by (simp add: eff_bind_def)

lemma eff_return_apply [simp]: "eff_return a s = (Inr a, s)"
  by (simp add: eff_return_def)

lemma eff_fail_apply [simp]: "eff_fail e s = (Inl e, s)"
  by (simp add: eff_fail_def)

lemma eff_lift_apply [simp]: "eff_lift r s = (r, s)"
  by (simp add: eff_lift_def)

text \<open>
  \<open>hoare P m Q E\<close>: from a state where \<open>P\<close> holds, a normal result \<open>a\<close> leaves
  a state where \<open>Q a\<close> holds and an error leaves one where \<open>E\<close> holds.
\<close>

definition hoare ::
  "('s \<Rightarrow> bool) \<Rightarrow> ('s, 'e, 'a) eff \<Rightarrow> ('a \<Rightarrow> 's \<Rightarrow> bool) \<Rightarrow> ('s \<Rightarrow> bool) \<Rightarrow> bool" where
  "hoare P m Q E \<longleftrightarrow>
     (\<forall>s. P s \<longrightarrow> (case m s of (Inl e, s') \<Rightarrow> E s' | (Inr a, s') \<Rightarrow> Q a s'))"

lemma hoareI:
  assumes "\<And>s e s'. P s \<Longrightarrow> m s = (Inl e, s') \<Longrightarrow> E s'"
    and "\<And>s a s'. P s \<Longrightarrow> m s = (Inr a, s') \<Longrightarrow> Q a s'"
  shows "hoare P m Q E"
  using assms by (auto simp: hoare_def split: prod.splits sum.splits)

lemma hoareD_ok: "hoare P m Q E \<Longrightarrow> P s \<Longrightarrow> m s = (Inr a, s') \<Longrightarrow> Q a s'"
  by (fastforce simp: hoare_def)

lemma hoareD_err: "hoare P m Q E \<Longrightarrow> P s \<Longrightarrow> m s = (Inl e, s') \<Longrightarrow> E s'"
  by (fastforce simp: hoare_def)

lemma hoareD: "hoare P m (\<lambda>_. Q) Q \<Longrightarrow> P s \<Longrightarrow> m s = (r, s') \<Longrightarrow> Q s'"
  by (cases r) (auto dest: hoareD_ok hoareD_err)

lemma hoare_bind:
  "hoare P m R E \<Longrightarrow> (\<And>a. hoare (R a) (f a) Q E) \<Longrightarrow> hoare P (eff_bind m f) Q E"
  by (fastforce simp: hoare_def eff_bind_def split: prod.splits sum.splits)

lemma hoare_return: "hoare (Q a) (eff_return a) Q E"
  by (simp add: hoare_def)

lemma hoare_fail: "hoare E (eff_fail e) Q E"
  by (simp add: hoare_def)

lemma hoare_lift: "hoare (\<lambda>s. E s \<and> (\<forall>a. r = Inr a \<longrightarrow> Q a s)) (eff_lift r) Q E"
  by (auto simp: hoare_def split: sum.splits)

lemma hoare_map_err: "hoare P m Q E \<Longrightarrow> hoare P (eff_map_err g m) Q E"
  by (fastforce simp: hoare_def eff_map_err_def split: prod.splits sum.splits elim: map_err.elims)

lemma hoare_weaken:
  "hoare P m Q E \<Longrightarrow> (\<And>s. P' s \<Longrightarrow> P s) \<Longrightarrow> (\<And>a s. Q a s \<Longrightarrow> Q' a s) \<Longrightarrow> (\<And>s. E s \<Longrightarrow> E' s) \<Longrightarrow>
   hoare P' m Q' E'"
  by (fastforce simp: hoare_def split: prod.splits sum.splits)

lemma hoare_on_snd:
  "(\<And>t. hoare (\<lambda>s. P (t, s)) m (\<lambda>a s. Q a (t, s)) (\<lambda>s. E (t, s))) \<Longrightarrow> hoare P (on_snd m) Q E"
  by (fastforce simp: hoare_def on_snd_def split: prod.splits sum.splits)

section \<open>Machine integers\<close>

type_synonym u32 = "32 word"
type_synonym u64 = "64 word"

definition saturating_add32 :: "u32 \<Rightarrow> u32 \<Rightarrow> u32" where
  "saturating_add32 a b = (if unat a + unat b < 2 ^ 32 then a + b else - 1)"

lemma unat_saturating_add32: "unat (saturating_add32 a b) = min (unat a + unat b) (2 ^ 32 - 1)"
proof -
  have "unat (- 1 :: u32) = 2 ^ 32 - 1" by (simp add: unsigned_minus_1_eq_mask mask_eq_exp_minus_1)
  then show ?thesis by (auto simp: saturating_add32_def unat_word_ariths)
qed

lemma unat_plus1_32: "unat (a :: u32) < 2 ^ 32 - 1 \<Longrightarrow> unat (a + 1) = unat a + 1"
  by (simp add: unat_word_ariths)

section \<open>Strings\<close>

definition str_starts_with :: "string \<Rightarrow> string \<Rightarrow> bool" where
  "str_starts_with s p = (take (length p) s = p)"

lemma str_starts_with_iff: "str_starts_with s p \<longleftrightarrow> (\<exists>r. s = p @ r)"
  unfolding str_starts_with_def
  by (metis append_eq_conv_conj append_take_drop_id)

lemma str_starts_with_append [simp]: "str_starts_with (p @ r) p"
  by (simp add: str_starts_with_def)

definition str_ends_with :: "string \<Rightarrow> string \<Rightarrow> bool" where
  "str_ends_with s p = (length p \<le> length s \<and> drop (length s - length p) s = p)"

fun str_contains :: "string \<Rightarrow> string \<Rightarrow> bool" where
  "str_contains [] p = (p = [])"
| "str_contains (c # s) p = (str_starts_with (c # s) p \<or> str_contains s p)"

definition strip_prefix :: "string \<Rightarrow> string \<Rightarrow> string option" where
  "strip_prefix s p = (if str_starts_with s p then Some (drop (length p) s) else None)"

definition trim_start_matches :: "char \<Rightarrow> string \<Rightarrow> string" where
  "trim_start_matches c s = dropWhile (\<lambda>x. x = c) s"

definition trim_end_matches :: "char \<Rightarrow> string \<Rightarrow> string" where
  "trim_end_matches c s = rev (dropWhile (\<lambda>x. x = c) (rev s))"

definition trim_matches :: "char \<Rightarrow> string \<Rightarrow> string" where
  "trim_matches c s = trim_end_matches c (trim_start_matches c s)"

definition is_ascii_space :: "char \<Rightarrow> bool" where
  "is_ascii_space c = (c = CHR '' '' \<or> (of_char c :: nat) \<in> {9, 10, 11, 12, 13})"

definition str_trim :: "string \<Rightarrow> string" where
  "str_trim s = rev (dropWhile is_ascii_space (rev (dropWhile is_ascii_space s)))"

fun split_on :: "char \<Rightarrow> string \<Rightarrow> string list" where
  "split_on c [] = [[]]"
| "split_on c (x # xs) =
     (if x = c then [] # split_on c xs
      else (case split_on c xs of [] \<Rightarrow> [[x]] | y # ys \<Rightarrow> (x # y) # ys))"

definition split_once :: "char \<Rightarrow> string \<Rightarrow> (string \<times> string) option" where
  "split_once c s =
     (if c \<in> set s then Some (takeWhile (\<lambda>x. x \<noteq> c) s, tl (dropWhile (\<lambda>x. x \<noteq> c) s))
      else None)"

fun str_join :: "string \<Rightarrow> string list \<Rightarrow> string" where
  "str_join sep [] = []"
| "str_join sep [x] = x"
| "str_join sep (x # y # xs) = x @ sep @ str_join sep (y # xs)"

lemma split_on_ne [simp]: "split_on c s \<noteq> []"
  by (induction s) (auto split: list.splits)

lemma split_on_no_sep: "c \<notin> set s \<Longrightarrow> split_on c s = [s]"
  by (induction s) auto

lemma split_on_append: "c \<notin> set x \<Longrightarrow> split_on c (x @ c # r) = x # split_on c r"
  by (induction x) auto

lemma split_on_str_join:
  "xs \<noteq> [] \<Longrightarrow> (\<And>x. x \<in> set xs \<Longrightarrow> c \<notin> set x) \<Longrightarrow> split_on c (str_join [c] xs) = xs"
  by (induction "[c]" xs rule: str_join.induct) (auto simp: split_on_no_sep split_on_append)

lemma split_on_parts_no_sep: "x \<in> set (split_on c s) \<Longrightarrow> c \<notin> set x"
  by (induction s arbitrary: x) (auto split: if_splits list.splits)

lemma split_once_append: "c \<notin> set x \<Longrightarrow> split_once c (x @ c # r) = Some (x, r)"
  by (simp add: split_once_def takeWhile_append dropWhile_append)

lemma trim_start_matches_id: "(s = [] \<or> hd s \<noteq> c) \<Longrightarrow> trim_start_matches c s = s"
  by (cases s) (auto simp: trim_start_matches_def)

lemma trim_start_matches_idem [simp]:
  "trim_start_matches c (trim_start_matches c s) = trim_start_matches c s"
  by (induction s) (auto simp: trim_start_matches_def)

lemma trim_start_matches_hd: "trim_start_matches c s \<noteq> [] \<Longrightarrow> hd (trim_start_matches c s) \<noteq> c"
  using hd_dropWhile [of "\<lambda>x. x = c" s] by (simp add: trim_start_matches_def)

lemma trim_end_matches_id: "(s = [] \<or> last s \<noteq> c) \<Longrightarrow> trim_end_matches c s = s"
  by (cases s rule: rev_cases) (auto simp: trim_end_matches_def)

lemma trim_end_matches_last: "trim_end_matches c s \<noteq> [] \<Longrightarrow> last (trim_end_matches c s) \<noteq> c"
  using hd_dropWhile [of "\<lambda>x. x = c" "rev s"]
  by (auto simp: trim_end_matches_def last_rev)

text \<open>\<open>to_lowercase\<close> on ASCII letters.\<close>

definition ascii_lower_char :: "char \<Rightarrow> char" where
  "ascii_lower_char c = (if of_char c \<ge> (65 :: nat) \<and> of_char c \<le> (90 :: nat) then char_of (of_char c + 32 :: nat) else c)"

definition to_lowercase :: "string \<Rightarrow> string" where
  "to_lowercase = map ascii_lower_char"

section \<open>Decimal rendering\<close>

definition digit_char :: "nat \<Rightarrow> char" where
  "digit_char d = char_of (48 + d)"

fun show_nat :: "nat \<Rightarrow> string" where
  "show_nat n = (if n < 10 then [digit_char n] else show_nat (n div 10) @ [digit_char (n mod 10)])"

declare show_nat.simps [simp del]

lemma digit_char_inj: "d < 10 \<Longrightarrow> e < 10 \<Longrightarrow> digit_char d = digit_char e \<Longrightarrow> d = e"
  by (auto simp: digit_char_def of_char_of dest!: arg_cong [where f = "of_char :: char \<Rightarrow> nat"])

lemma show_nat_ne [simp]: "show_nat n \<noteq> []"
  by (subst show_nat.simps) simp

definition show_int :: "int \<Rightarrow> string" where
  "show_int i = (if i < 0 then ''-'' @ show_nat (nat (- i)) else show_nat (nat i))"

text \<open>The value of a decimal numeral, which inverts the rendering.\<close>

definition nat_of_digits :: "string \<Rightarrow> nat" where
  "nat_of_digits s = foldl (\<lambda>n c. n * 10 + (of_char c - 48)) 0 s"

lemma of_char_digit: "d < 10 \<Longrightarrow> of_char (digit_char d) = 48 + d"
  by (simp add: digit_char_def)

lemma nat_of_digits_snoc: "nat_of_digits (s @ [c]) = nat_of_digits s * 10 + (of_char c - 48)"
  by (simp add: nat_of_digits_def)

lemma nat_of_digits_show: "nat_of_digits (show_nat n) = n"
proof (induction n rule: show_nat.induct)
  case (1 n)
  show ?case
  proof (cases "n < 10")
    case True
    then show ?thesis by (subst show_nat.simps) (simp add: nat_of_digits_def of_char_digit)
  next
    case False
    with 1 show ?thesis by (subst show_nat.simps) (simp add: nat_of_digits_snoc of_char_digit)
  qed
qed

lemma nat_of_digits_zeros: "nat_of_digits (replicate k (CHR ''0'') @ s) = nat_of_digits s"
  by (induction k) (simp_all add: nat_of_digits_def)

lemma show_nat_inj: "show_nat m = show_nat n \<Longrightarrow> m = n"
  by (metis nat_of_digits_show)

text \<open>Rust's \<open>{:04}\<close>: at least four digits, zero-padded.\<close>

definition show_nat04 :: "nat \<Rightarrow> string" where
  "show_nat04 n = (let s = show_nat n in replicate (4 - length s) (CHR ''0'') @ s)"

lemma show_nat04_inj [simp]: "show_nat04 m = show_nat04 n \<longleftrightarrow> m = n"
  by (metis nat_of_digits_show nat_of_digits_zeros show_nat04_def)

section \<open>Ordered maps\<close>

text \<open>
  \<open>BTreeMap\<close> as an association list with strictly increasing keys: insertion keeps the
  order, so that iteration is in key order as in the source.
\<close>

fun bt_insert :: "'k :: linorder \<Rightarrow> 'v \<Rightarrow> ('k \<times> 'v) list \<Rightarrow> ('k \<times> 'v) list" where
  "bt_insert k v [] = [(k, v)]"
| "bt_insert k v ((a, b) # m) =
     (if k < a then (k, v) # (a, b) # m
      else if k = a then (k, v) # m
      else (a, b) # bt_insert k v m)"

definition bt_remove :: "'k \<Rightarrow> ('k \<times> 'v) list \<Rightarrow> ('k \<times> 'v) list" where
  "bt_remove k m = filter (\<lambda>(a, b). a \<noteq> k) m"

definition bt_sorted :: "('k :: linorder \<times> 'v) list \<Rightarrow> bool" where
  "bt_sorted m = sorted_wrt (<) (map fst m)"

lemma map_of_bt_insert [simp]: "map_of (bt_insert k v m) = (map_of m)(k \<mapsto> v)"
  by (induction k v m rule: bt_insert.induct) auto

lemma set_keys_bt_insert: "fst ` set (bt_insert k v m) = insert k (fst ` set m)"
  by (induction k v m rule: bt_insert.induct) auto

lemma bt_sorted_insert [simp]: "bt_sorted m \<Longrightarrow> bt_sorted (bt_insert k v m)"
proof (induction k v m rule: bt_insert.induct)
  case (2 k v a b m)
  have "\<forall>x \<in> fst ` set (bt_insert k v m). a < x" if "a < k"
    using "2.prems" that by (auto simp: bt_sorted_def set_keys_bt_insert)
  with 2 show ?case by (auto simp: bt_sorted_def)
qed (simp add: bt_sorted_def)

lemma bt_sorted_remove [simp]: "bt_sorted m \<Longrightarrow> bt_sorted (bt_remove k m)"
  by (induction m) (auto simp: bt_sorted_def bt_remove_def)

lemma map_of_bt_remove [simp]: "map_of (bt_remove k m) = (map_of m)(k := None)"
  by (induction m) (auto simp: bt_remove_def)

lemma bt_sorted_Nil [simp]: "bt_sorted []"
  by (simp add: bt_sorted_def)

lemma bt_sorted_distinct: "bt_sorted m \<Longrightarrow> distinct (map fst m)"
  by (auto simp: bt_sorted_def strict_sorted_iff)

lemma set_bt_insert: "set (bt_insert k v m) \<subseteq> insert (k, v) (set m)"
  by (induction k v m rule: bt_insert.induct) auto

section \<open>Lists\<close>

lemma filter_length_one:
  "distinct (map f xs) \<Longrightarrow> x \<in> set xs \<Longrightarrow> filter (\<lambda>y. f y = f x) xs = [x]"
  by (induction xs) (auto simp: filter_empty_conv rev_image_eqI)

lemma find_Some_iff_distinct:
  "distinct (map f xs) \<Longrightarrow> List.find (\<lambda>y. f y = k) xs = Some x \<longleftrightarrow> x \<in> set xs \<and> f x = k"
  by (induction xs) (auto split: if_splits intro: rev_image_eqI)

lemma find_append: "find P (xs @ ys) = (case find P xs of None \<Rightarrow> find P ys | Some x \<Rightarrow> Some x)"
  by (induction xs) auto

lemma find_key_None: "i \<notin> key ` set rows \<Longrightarrow> find (\<lambda>r. key r = i) rows = None"
  by (auto simp: find_None_iff)

end
