(* ===== verification/Storage_Location.thy ===== *)
theory Storage_Location
  imports Parq_Prelude
begin

text \<open>
  Dataset and object locations (\<open>parqonaut-storage/src/location.rs\<close>), the storage error
  type (\<open>error.rs\<close>), the part of \<open>std::path::Path\<close> the sources use (components,
  \<open>join\<close>, \<open>starts_with\<close>, \<open>strip_prefix\<close>, on Unix), and the overlap test of
  \<open>parqonaut-repair\<close> (\<open>fingerprint.rs\<close>, \<open>execute_storage.rs\<close>).
  The \<open>url\<close> crate is the parameter \<open>url_parse\<close> of the parsers.
\<close>

section \<open>Storage errors\<close>

datatype retry_class = NeverRetry | Retryable

datatype storage_error =
    NotFound string
  | PermissionDenied string
  | Authentication
  | Conflict string
  | PreconditionFailed string
  | Transient string
  | Unavailable string
  | InvalidLocation string
  | UnsupportedCapability string
  | StorageIo string
  | StorageOther string

fun retry_class_of :: "storage_error \<Rightarrow> retry_class" where
  "retry_class_of (Transient _) = Retryable"
| "retry_class_of (Unavailable _) = Retryable"
| "retry_class_of _ = NeverRetry"

section \<open>Paths\<close>

type_synonym path = string

datatype component = RootDir | CurDir | ParentDir | Normal string

text \<open>The order of components and, by it, of paths: by kind, names by their text.\<close>

fun component_rank :: "component \<Rightarrow> nat" where
  "component_rank RootDir = 0"
| "component_rank CurDir = 1"
| "component_rank ParentDir = 2"
| "component_rank (Normal s) = 3"

fun component_text :: "component \<Rightarrow> string" where
  "component_text (Normal s) = s"
| "component_text _ = []"

lemma component_key_inj: "component_rank a = component_rank b \<Longrightarrow> component_text a = component_text b \<Longrightarrow> a = b"
  by (cases a; cases b) auto

instantiation component :: linorder
begin

definition less_eq_component :: "component \<Rightarrow> component \<Rightarrow> bool" where
  "less_eq_component a b =
     (component_rank a < component_rank b \<or> component_rank a = component_rank b \<and> component_text a \<le> component_text b)"

definition less_component :: "component \<Rightarrow> component \<Rightarrow> bool" where
  "less_component a b =
     (component_rank a < component_rank b \<or> component_rank a = component_rank b \<and> component_text a < component_text b)"

instance
  by standard (auto simp: less_eq_component_def less_component_def intro: component_key_inj)

end

definition trivial_segment :: "string \<Rightarrow> bool" where
  "trivial_segment s = (s = [] \<or> s = ''.'')"

definition segment_component :: "string \<Rightarrow> component" where
  "segment_component s = (if s = ''..'' then ParentDir else Normal s)"

definition is_absolute :: "path \<Rightarrow> bool" where
  "is_absolute p = str_starts_with p ''/''"

definition path_components :: "path \<Rightarrow> component list" where
  "path_components p =
     (let segs = split_on (CHR ''/'') p;
          body = map segment_component (filter (\<lambda>s. \<not> trivial_segment s) segs)
      in if is_absolute p then RootDir # body
         else if hd segs = ''.'' then CurDir # body
         else body)"

definition path_join :: "path \<Rightarrow> path \<Rightarrow> path" where
  "path_join p r =
     (if is_absolute r then r
      else if p \<noteq> [] \<and> last p \<noteq> CHR ''/'' then p @ ''/'' @ r
      else p @ r)"

definition path_starts_with :: "path \<Rightarrow> path \<Rightarrow> bool" where
  "path_starts_with p base = prefix (path_components base) (path_components p)"

text \<open>
  \<open>Path::strip_prefix\<close> returns what is left of the text after the components of the
  prefix: separators and \<open>.\<close> segments are dropped at both ends.
\<close>

fun drop_real :: "nat \<Rightarrow> string list \<Rightarrow> string list" where
  "drop_real 0 segs = segs"
| "drop_real (Suc k) [] = []"
| "drop_real (Suc k) (s # segs) =
     (if trivial_segment s then drop_real (Suc k) segs else drop_real k segs)"

fun is_body_component :: "component \<Rightarrow> bool" where
  "is_body_component RootDir = False"
| "is_body_component CurDir = False"
| "is_body_component _ = True"

definition trim_right_segments :: "string list \<Rightarrow> string list" where
  "trim_right_segments segs = rev (dropWhile trivial_segment (rev segs))"

definition path_strip_prefix :: "path \<Rightarrow> path \<Rightarrow> path option" where
  "path_strip_prefix p base =
     (if path_starts_with p base then
        (let segs = split_on (CHR ''/'') p; bc = path_components base
         in if bc = [] then Some (str_join ''/'' (trim_right_segments segs))
            else Some (str_join ''/'' (trim_right_segments (dropWhile trivial_segment
                   (drop_real (length (filter is_body_component bc)) segs)))))
      else None)"

text \<open>\<open>Path::parent\<close>: the text before the last component; a leading \<open>.\<close> is a component of its own.\<close>

definition path_parent :: "path \<Rightarrow> path option" where
  "path_parent p =
     (let rest = butlast (trim_right_segments (split_on (CHR ''/'') p)); segs = trim_right_segments rest
      in if path_components p \<in> {[], [RootDir]} then None
         else if segs \<noteq> [] then Some (str_join ''/'' segs)
         else if is_absolute p then Some ''/''
         else if rest \<noteq> [] \<and> hd rest = ''.'' then Some ''.''
         else Some [])"

section \<open>Locations\<close>

record s3_location =
  s3_bucket :: string
  s3_prefix :: string

datatype dataset_location = DatasetLocal path | DatasetS3 s3_location

datatype object_location = ObjectLocal path | ObjectS3 string string

fun is_remote :: "object_location \<Rightarrow> bool" where
  "is_remote (ObjectLocal p) = False"
| "is_remote (ObjectS3 b k) = True"

definition s3_display_uri :: "s3_location \<Rightarrow> string" where
  "s3_display_uri s =
     (if s3_prefix s = [] then ''s3://'' @ s3_bucket s @ ''/''
      else ''s3://'' @ s3_bucket s @ ''/'' @ s3_prefix s)"

fun dataset_display_uri :: "dataset_location \<Rightarrow> string" where
  "dataset_display_uri (DatasetLocal p) = ''file://'' @ p"
| "dataset_display_uri (DatasetS3 s) = s3_display_uri s"

fun object_display_uri :: "object_location \<Rightarrow> string" where
  "object_display_uri (ObjectLocal p) = ''file://'' @ p"
| "object_display_uri (ObjectS3 b k) = ''s3://'' @ b @ ''/'' @ k"

fun backend_name :: "dataset_location \<Rightarrow> string" where
  "backend_name (DatasetLocal _) = ''local''"
| "backend_name (DatasetS3 _) = ''s3''"

definition object_key :: "s3_location \<Rightarrow> string \<Rightarrow> (storage_error, string) res" where
  "object_key s relative =
     (let rel = trim_start_matches (CHR ''/'') relative
      in if str_contains rel ''..'' then
           Inl (InvalidLocation (''object key must not contain '' @ [CHR 0x27] @ ''..'' @ [CHR 0x27]))
         else Inr (if s3_prefix s = [] then rel
                   else if rel = [] then s3_prefix s
                   else trim_end_matches (CHR ''/'') (s3_prefix s) @ ''/'' @ rel))"

text \<open>\<open>normalize_local_path\<close>: the output holds an optional root and plain names.\<close>

fun push_component :: "bool \<times> string list \<Rightarrow> component \<Rightarrow> bool \<times> string list" where
  "push_component (rooted, names) RootDir = (True, [])"
| "push_component (rooted, names) CurDir = (rooted, names)"
| "push_component (rooted, names) ParentDir = (rooted, butlast names)"
| "push_component (rooted, names) (Normal c) = (rooted, names @ [c])"

definition render_path :: "bool \<times> string list \<Rightarrow> path" where
  "render_path rn = (if fst rn then ''/'' else []) @ str_join ''/'' (snd rn)"

definition normalize_local_path :: "path \<Rightarrow> path" where
  "normalize_local_path p = render_path (foldl push_component (False, []) (path_components p))"

record url =
  url_scheme :: string
  url_username :: string
  url_password :: "string option"
  url_host :: "string option"
  url_path :: string
  url_file_path :: "path option"

type_synonym url_parser = "string \<Rightarrow> (string, url) res"

definition parse_s3_dataset :: "url_parser \<Rightarrow> string \<Rightarrow> (storage_error, s3_location) res" where
  "parse_s3_dataset url_parse input =
     (case url_parse input of
        Inl e \<Rightarrow> Inl (InvalidLocation (''invalid S3 URI: '' @ e))
      | Inr u \<Rightarrow>
          if url_scheme u \<noteq> ''s3'' then
            Inl (InvalidLocation (''expected s3:// URI, got '' @ input))
          else if url_username u \<noteq> [] \<or> url_password u \<noteq> None then
            Inl (InvalidLocation ''credentials must not be embedded in S3 URIs'')
          else (case url_host u of
              None \<Rightarrow> Inl (InvalidLocation ''S3 URI missing bucket'')
            | Some b \<Rightarrow> Inr \<lparr>s3_bucket = b,
                s3_prefix = trim_end_matches (CHR ''/'')
                  (trim_start_matches (CHR ''/'') (url_path u))\<rparr>))"

definition parse_local_dataset :: "url_parser \<Rightarrow> string \<Rightarrow> (storage_error, path) res" where
  "parse_local_dataset url_parse input =
     bind_res (case url_parse input of
         Inr u \<Rightarrow>
           if url_scheme u = ''file'' then
             (case url_file_path u of
                None \<Rightarrow> Inl (InvalidLocation (''invalid file URI: '' @ input))
              | Some p \<Rightarrow> Inr p)
           else Inl (InvalidLocation (''unsupported URI scheme for local dataset: '' @ input))
       | Inl _ \<Rightarrow> Inr input)
     (\<lambda>p. Inr (normalize_local_path p))"

definition parse_dataset_location ::
  "url_parser \<Rightarrow> string \<Rightarrow> (storage_error, dataset_location) res" where
  "parse_dataset_location url_parse input =
     (let trimmed = str_trim input
      in if trimmed = [] then Inl (InvalidLocation ''location must not be empty'')
         else if str_starts_with trimmed ''s3://'' then
           bind_res (parse_s3_dataset url_parse trimmed) (\<lambda>s. Inr (DatasetS3 s))
         else bind_res (parse_local_dataset url_parse trimmed) (\<lambda>p. Inr (DatasetLocal p)))"

definition parse_object_location ::
  "url_parser \<Rightarrow> string \<Rightarrow> (storage_error, object_location) res" where
  "parse_object_location url_parse input =
     (let trimmed = str_trim input
      in if trimmed = [] then Inl (InvalidLocation ''object location must not be empty'')
         else if str_starts_with trimmed ''s3://'' then
           (case url_parse trimmed of
              Inl e \<Rightarrow> Inl (InvalidLocation (''invalid S3 object URI: '' @ e))
            | Inr u \<Rightarrow>
                if url_username u \<noteq> [] \<or> url_password u \<noteq> None then
                  Inl (InvalidLocation ''credentials must not be embedded in S3 URIs'')
                else (case url_host u of
                    None \<Rightarrow> Inl (InvalidLocation ''S3 object URI missing bucket'')
                  | Some b \<Rightarrow>
                      (let key = trim_start_matches (CHR ''/'') (url_path u)
                       in if key = [] then
                            Inl (InvalidLocation ''S3 object URI must include an object key'')
                          else Inr (ObjectS3 b key))))
         else bind_res (case url_parse trimmed of
             Inr u \<Rightarrow>
               if url_scheme u = ''file'' then
                 (case url_file_path u of
                    None \<Rightarrow> Inl (InvalidLocation (''invalid file URI: '' @ trimmed))
                  | Some p \<Rightarrow> Inr p)
               else Inl (InvalidLocation (''unsupported URI scheme for object: '' @ trimmed))
           | Inl _ \<Rightarrow> Inr trimmed)
         (\<lambda>p. Inr (ObjectLocal (normalize_local_path p))))"

definition object_at :: "dataset_location \<Rightarrow> string \<Rightarrow> (storage_error, object_location) res" where
  "object_at ds relative =
     (case ds of
        DatasetLocal p \<Rightarrow> Inr (ObjectLocal (path_join p relative))
      | DatasetS3 s \<Rightarrow> bind_res (object_key s relative) (\<lambda>k. Inr (ObjectS3 (s3_bucket s) k)))"

section \<open>Overlap of locations\<close>

definition paths_overlap :: "path \<Rightarrow> path \<Rightarrow> bool" where
  "paths_overlap source dest = (path_starts_with source dest \<or> path_starts_with dest source)"

definition normalize_s3_prefix :: "string \<Rightarrow> string" where
  "normalize_s3_prefix p = trim_matches (CHR ''/'') p"

definition s3_prefixes_overlap :: "s3_location \<Rightarrow> s3_location \<Rightarrow> bool" where
  "s3_prefixes_overlap a b =
     (if s3_bucket a \<noteq> s3_bucket b then False
      else (let ap = normalize_s3_prefix (s3_prefix a); bp = normalize_s3_prefix (s3_prefix b)
            in str_starts_with ap bp \<or> str_starts_with bp ap))"

fun locations_overlap :: "dataset_location \<Rightarrow> dataset_location \<Rightarrow> bool" where
  "locations_overlap (DatasetLocal a) (DatasetLocal b) = paths_overlap a b"
| "locations_overlap (DatasetS3 a) (DatasetS3 b) = s3_prefixes_overlap a b"
| "locations_overlap _ _ = False"

definition relativize :: "path \<Rightarrow> path \<Rightarrow> string" where
  "relativize root p =
     (if path_starts_with p root then
        trim_start_matches (CHR ''/'')
          (case path_strip_prefix p root of None \<Rightarrow> p | Some r \<Rightarrow> r)
      else p)"

section \<open>Lemmas\<close>

text \<open>A plain file name: what a normal component of a parsed path looks like.\<close>

definition proper_name :: "string \<Rightarrow> bool" where
  "proper_name s = (s \<noteq> [] \<and> s \<noteq> ''.'' \<and> s \<noteq> ''..'' \<and> CHR ''/'' \<notin> set s)"

definition proper_path :: "bool \<times> string list \<Rightarrow> bool" where
  "proper_path rn = list_all proper_name (snd rn)"

lemma is_absolute_iff: "is_absolute p \<longleftrightarrow> (\<exists>r. p = CHR ''/'' # r)"
  by (auto simp: is_absolute_def str_starts_with_iff)

lemma path_components_proper: "Normal c \<in> set (path_components p) \<Longrightarrow> proper_name c"
  by (auto simp: path_components_def Let_def segment_component_def proper_name_def
      trivial_segment_def dest: split_on_parts_no_sep split: if_splits)

lemma foldl_push_proper:
  "proper_path rn \<Longrightarrow> (\<And>c. Normal c \<in> set cs \<Longrightarrow> proper_name c) \<Longrightarrow>
   proper_path (foldl push_component rn cs)"
proof (induction cs arbitrary: rn)
  case (Cons x cs)
  have "proper_path (push_component rn x)"
    using Cons.prems
    by (cases rn; cases x) (auto simp: proper_path_def list_all_iff dest: in_set_butlastD)
  then show ?case using Cons by simp
qed simp

lemma str_join_hd: "xs \<noteq> [] \<Longrightarrow> hd xs \<noteq> [] \<Longrightarrow> str_join sep xs \<noteq> [] \<and> hd (str_join sep xs) = hd (hd xs)"
  by (induction sep xs rule: str_join.induct) auto

lemma path_components_render:
  assumes "proper_path (r, names)"
  shows "path_components (render_path (r, names)) = (if r then [RootDir] else []) @ map Normal names"
proof -
  have split_names: "split_on (CHR ''/'') (str_join ''/'' names) = (if names = [] then [[]] else names)"
    using assms by (auto simp: proper_path_def list_all_iff proper_name_def intro!: split_on_str_join)
  have keep: "map segment_component (filter (\<lambda>s. \<not> trivial_segment s) names) = map Normal names"
    using assms
    by (induction names) (auto simp: proper_path_def proper_name_def trivial_segment_def segment_component_def)
  have rel: "\<not> is_absolute (str_join ''/'' names)"
    using assms str_join_hd [of names "''/''"]
    by (cases names) (auto simp: is_absolute_iff proper_path_def proper_name_def)
  show ?thesis
  proof (cases r)
    case True
    then show ?thesis using split_names keep
      by (auto simp: render_path_def path_components_def is_absolute_iff trivial_segment_def)
  next
    case False
    then show ?thesis using split_names keep rel assms
      by (cases names)
        (auto simp: render_path_def path_components_def trivial_segment_def proper_path_def
          proper_name_def)
  qed
qed

lemma foldl_push_normals: "foldl push_component (r, ns) (map Normal names) = (r, ns @ names)"
  by (induction names arbitrary: ns) auto

definition normal_form :: "path \<Rightarrow> bool \<times> string list" where
  "normal_form p = foldl push_component (False, []) (path_components p)"

lemma normal_form_proper: "proper_path (normal_form p)"
  unfolding normal_form_def
  by (rule foldl_push_proper) (auto simp: proper_path_def intro: path_components_proper)

lemma normalize_render: "normalize_local_path p = render_path (normal_form p)"
  by (simp add: normalize_local_path_def normal_form_def)

lemma path_components_normalize:
  "path_components (normalize_local_path p) =
     (if fst (normal_form p) then [RootDir] else []) @ map Normal (snd (normal_form p))"
  using path_components_render [of "fst (normal_form p)" "snd (normal_form p)"]
    normal_form_proper [of p]
  by (simp add: normalize_render)

lemma normal_form_normalize: "normal_form (normalize_local_path p) = normal_form p"
  using path_components_normalize [of p] foldl_push_normals
  by (cases "normal_form p") (simp add: normal_form_def [of "normalize_local_path p"])

lemma normalize_idem: "normalize_local_path (normalize_local_path p) = normalize_local_path p"
  by (simp add: normalize_render [of "normalize_local_path p"] normal_form_normalize)
    (simp add: normalize_render)

lemma normalize_no_dots:
  "ParentDir \<notin> set (path_components (normalize_local_path p))"
  "CurDir \<notin> set (path_components (normalize_local_path p))"
  by (auto simp: path_components_normalize)

subsection \<open>Overlap\<close>

lemma paths_overlap_sym: "paths_overlap a b = paths_overlap b a"
  by (auto simp: paths_overlap_def)

lemma s3_prefixes_overlap_sym: "s3_prefixes_overlap a b = s3_prefixes_overlap b a"
  by (auto simp: s3_prefixes_overlap_def Let_def)

lemma locations_overlap_sym: "locations_overlap a b = locations_overlap b a"
  by (cases a; cases b) (auto simp: paths_overlap_sym s3_prefixes_overlap_sym)

lemma locations_overlap_refl: "locations_overlap a a"
  by (cases a) (auto simp: paths_overlap_def path_starts_with_def s3_prefixes_overlap_def
      str_starts_with_def)

text \<open>A prefix as the S3 parser leaves it: no slash at either end.\<close>

definition wf_s3 :: "s3_location \<Rightarrow> bool" where
  "wf_s3 s = (s3_prefix s = [] \<or> hd (s3_prefix s) \<noteq> CHR ''/'' \<and> last (s3_prefix s) \<noteq> CHR ''/'')"

lemma hd_trim_end: "trim_end_matches c s \<noteq> [] \<Longrightarrow> hd (trim_end_matches c s) = hd s"
proof -
  assume ne: "trim_end_matches c s \<noteq> []"
  have "s = trim_end_matches c s @ rev (takeWhile (\<lambda>x. x = c) (rev s))"
    unfolding trim_end_matches_def
    by (metis rev_append rev_rev_ident takeWhile_dropWhile_id)
  with ne show ?thesis by (metis hd_append)
qed

lemma trim_both_ends:
  assumes "trim_end_matches c (trim_start_matches c x) \<noteq> []"
  shows "hd (trim_end_matches c (trim_start_matches c x)) \<noteq> c"
    and "last (trim_end_matches c (trim_start_matches c x)) \<noteq> c"
proof -
  have "trim_start_matches c x \<noteq> []"
    using assms by (auto simp: trim_end_matches_def)
  then show "hd (trim_end_matches c (trim_start_matches c x)) \<noteq> c"
    using assms by (simp add: hd_trim_end trim_start_matches_hd)
  show "last (trim_end_matches c (trim_start_matches c x)) \<noteq> c"
    using assms by (rule trim_end_matches_last)
qed

lemma wf_s3_parse: "parse_s3_dataset url_parse input = Inr s \<Longrightarrow> wf_s3 s"
  by (auto simp: parse_s3_dataset_def wf_s3_def trim_both_ends
      split: sum.splits if_splits option.splits)

lemma wf_s3_normalize: "wf_s3 s \<Longrightarrow> normalize_s3_prefix (s3_prefix s) = s3_prefix s"
  by (auto simp: wf_s3_def normalize_s3_prefix_def trim_matches_def trim_start_matches_id
      trim_end_matches_id)

lemma object_key_under_prefix:
  assumes "wf_s3 s" and "object_key s rel = Inr k"
  shows "str_starts_with k (s3_prefix s)"
  using assms
  by (auto simp: object_key_def wf_s3_def Let_def str_starts_with_iff trim_end_matches_id
      split: if_splits)

lemma common_prefix_comparable:
  "str_starts_with k a \<Longrightarrow> str_starts_with k b \<Longrightarrow> str_starts_with a b \<or> str_starts_with b a"
  unfolding str_starts_with_iff by (metis append_eq_append_conv2)

lemma disjoint_prefixes_disjoint_objects:
  assumes "wf_s3 a" and "wf_s3 b" and "\<not> s3_prefixes_overlap a b"
    and "object_at (DatasetS3 a) r = Inr x" and "object_at (DatasetS3 b) r' = Inr y"
  shows "x \<noteq> y"
proof
  assume "x = y"
  with assms(4,5) obtain k where ka: "object_key a r = Inr k" and kb: "object_key b r' = Inr k"
    and bucket: "s3_bucket a = s3_bucket b"
    by (auto simp: object_at_def bind_res_Inr_iff)
  from ka kb assms(1,2) have "str_starts_with k (s3_prefix a)" "str_starts_with k (s3_prefix b)"
    by (auto intro: object_key_under_prefix)
  then have "s3_prefixes_overlap a b"
    using common_prefix_comparable bucket assms(1,2)
    by (auto simp: s3_prefixes_overlap_def wf_s3_normalize)
  with assms(3) show False by simp
qed

end
