(* ===== verification/Storage_Backend.thy ===== *)
theory Storage_Backend
  imports Storage_Location
begin

text \<open>
  The storage interface of \<open>parqonaut-storage\<close>: capabilities, conditions, metadata and
  metrics (\<open>capabilities.rs\<close>, \<open>conditional.rs\<close>, \<open>metadata.rs\<close>,
  \<open>metrics.rs\<close>), and the trait \<open>StorageBackend\<close> of \<open>backend.rs\<close> as a record of
  operations over a backend state. An operation returns its result and the new state,
  since even a read moves counters.

  Two locales state what clients rely on. \<open>safe_store\<close> holds whatever faults the
  backend reports: a create that succeeds found the object absent, a call that fails
  changes no object, a read that succeeds returns what is stored. \<open>live_store\<close> adds
  that calls on a fault-free backend succeed when their condition holds.
\<close>

section \<open>Capabilities, conditions, metadata\<close>

record storage_capabilities =
  cap_range_reads :: bool
  cap_stream_reads :: bool
  cap_stream_writes :: bool
  cap_multipart_upload :: bool
  cap_conditional_create :: bool
  cap_conditional_replace :: bool
  cap_server_side_copy :: bool
  cap_version_ids :: bool

definition CAPS_LOCAL :: storage_capabilities where
  "CAPS_LOCAL = \<lparr>cap_range_reads = True, cap_stream_reads = True, cap_stream_writes = True,
     cap_multipart_upload = False, cap_conditional_create = True,
     cap_conditional_replace = True, cap_server_side_copy = False, cap_version_ids = False\<rparr>"

definition CAPS_S3 :: storage_capabilities where
  "CAPS_S3 = \<lparr>cap_range_reads = True, cap_stream_reads = True, cap_stream_writes = True,
     cap_multipart_upload = True, cap_conditional_create = True,
     cap_conditional_replace = True, cap_server_side_copy = True, cap_version_ids = True\<rparr>"

definition CAPS_NONE :: storage_capabilities where
  "CAPS_NONE = \<lparr>cap_range_reads = False, cap_stream_reads = False, cap_stream_writes = False,
     cap_multipart_upload = False, cap_conditional_create = False,
     cap_conditional_replace = False, cap_server_side_copy = False, cap_version_ids = False\<rparr>"

type_synonym bytes = string

record object_metadata =
  om_location :: object_location
  om_size :: nat
  om_etag :: "string option"
  om_version_id :: "string option"

record conditional_create =
  if_absent :: bool

definition must_not_exist :: conditional_create where
  "must_not_exist = \<lparr>if_absent = True\<rparr>"

record conditional_replace =
  expected_etag :: "string option"
  expected_version_id :: "string option"

definition matching :: "object_metadata \<Rightarrow> conditional_replace" where
  "matching m = \<lparr>expected_etag = om_etag m, expected_version_id = om_version_id m\<rparr>"

text \<open>Inclusive byte ranges; \<open>len\<close> adds one after a saturating subtraction.\<close>

record byte_range =
  br_start :: u64
  br_end :: u64

definition byte_range_new :: "u64 \<Rightarrow> u64 \<Rightarrow> (storage_error, byte_range) res" where
  "byte_range_new s e =
     (if e < s then Inl (InvalidLocation (''invalid byte range: '' @ show_nat (unat s) @ ''..='' @
        show_nat (unat e)))
      else Inr \<lparr>br_start = s, br_end = e\<rparr>)"

definition byte_range_len :: "byte_range \<Rightarrow> u64" where
  "byte_range_len r = (if br_end r < br_start r then 0 else br_end r - br_start r) + 1"

record list_options =
  recursive :: bool
  max_keys :: "nat option"

record list_page =
  page_objects :: "object_metadata list"
  page_prefixes :: "string list"
  page_truncated :: bool
  page_token :: "string option"

section \<open>Metrics\<close>

record storage_metrics =
  head_requests :: u64
  list_requests :: u64
  range_get_requests :: u64
  full_get_requests :: u64
  put_requests :: u64
  multipart_parts :: u64
  bytes_read :: u64
  bytes_written :: u64
  range_bytes_read :: u64
  retries :: u64

definition metrics_default :: storage_metrics where
  "metrics_default = \<lparr>head_requests = 0, list_requests = 0, range_get_requests = 0,
     full_get_requests = 0, put_requests = 0, multipart_parts = 0, bytes_read = 0,
     bytes_written = 0, range_bytes_read = 0, retries = 0\<rparr>"

definition record_head :: "storage_metrics \<Rightarrow> storage_metrics" where
  "record_head m = m\<lparr>head_requests := head_requests m + 1\<rparr>"

definition record_list :: "storage_metrics \<Rightarrow> storage_metrics" where
  "record_list m = m\<lparr>list_requests := list_requests m + 1\<rparr>"

definition record_range_get :: "nat \<Rightarrow> storage_metrics \<Rightarrow> storage_metrics" where
  "record_range_get n m = m\<lparr>range_get_requests := range_get_requests m + 1,
     range_bytes_read := range_bytes_read m + of_nat n, bytes_read := bytes_read m + of_nat n\<rparr>"

definition record_full_get :: "nat \<Rightarrow> storage_metrics \<Rightarrow> storage_metrics" where
  "record_full_get n m = m\<lparr>full_get_requests := full_get_requests m + 1,
     bytes_read := bytes_read m + of_nat n\<rparr>"

definition record_put :: "nat \<Rightarrow> storage_metrics \<Rightarrow> storage_metrics" where
  "record_put n m = m\<lparr>put_requests := put_requests m + 1,
     bytes_written := bytes_written m + of_nat n\<rparr>"

definition record_multipart_part :: "nat \<Rightarrow> storage_metrics \<Rightarrow> storage_metrics" where
  "record_multipart_part n m = m\<lparr>multipart_parts := multipart_parts m + 1,
     bytes_written := bytes_written m + of_nat n\<rparr>"

definition record_retry :: "storage_metrics \<Rightarrow> storage_metrics" where
  "record_retry m = m\<lparr>retries := retries m + 1\<rparr>"

section \<open>The backend trait\<close>

text \<open>\<open>be_read\<close> is \<open>read_stream(object, None)\<close> read to its end.\<close>

record 's storage_backend =
  be_capabilities :: "'s \<Rightarrow> storage_capabilities"
  be_list :: "dataset_location \<Rightarrow> list_options \<Rightarrow> string option \<Rightarrow> 's \<Rightarrow>
    (storage_error, list_page) res \<times> 's"
  be_head :: "object_location \<Rightarrow> 's \<Rightarrow> (storage_error, object_metadata) res \<times> 's"
  be_read :: "object_location \<Rightarrow> 's \<Rightarrow> (storage_error, bytes) res \<times> 's"
  be_create :: "object_location \<Rightarrow> conditional_create \<Rightarrow> bytes \<Rightarrow> 's \<Rightarrow>
    (storage_error, object_metadata) res \<times> 's"
  be_replace :: "object_location \<Rightarrow> conditional_replace \<Rightarrow> bytes \<Rightarrow> 's \<Rightarrow>
    (storage_error, object_metadata) res \<times> 's"
  be_delete :: "object_location \<Rightarrow> 's \<Rightarrow> (storage_error, unit) res \<times> 's"

section \<open>What clients rely on\<close>

text \<open>
  The contents of a store are a partial map from objects to bytes. The laws are about
  the objects a client addresses, the set \<open>A\<close>: distinct members of it are distinct
  objects of the backend (an in-memory key is a flattened string).
\<close>

locale safe_store =
  fixes B :: "'s storage_backend"
    and objs :: "'s \<Rightarrow> object_location \<rightharpoonup> bytes"
    and A :: "object_location set"
    and ok :: "'s \<Rightarrow> bool"
  assumes ok_head: "ok s \<Longrightarrow> ok (snd (be_head B x s))"
    and ok_read: "ok s \<Longrightarrow> ok (snd (be_read B x s))"
    and ok_create: "ok s \<Longrightarrow> ok (snd (be_create B x c d s))"
    and ok_replace: "ok s \<Longrightarrow> ok (snd (be_replace B x rc d s))"
    and ok_delete: "ok s \<Longrightarrow> ok (snd (be_delete B x s))"
    and head_frame: "ok s \<Longrightarrow> x \<in> A \<Longrightarrow> y \<in> A \<Longrightarrow> objs (snd (be_head B x s)) y = objs s y"
    and head_ok: "ok s \<Longrightarrow> x \<in> A \<Longrightarrow> be_head B x s = (Inr m, s') \<Longrightarrow> objs s x \<noteq> None"
    and read_frame: "ok s \<Longrightarrow> x \<in> A \<Longrightarrow> y \<in> A \<Longrightarrow> objs (snd (be_read B x s)) y = objs s y"
    and read_ok: "ok s \<Longrightarrow> x \<in> A \<Longrightarrow> be_read B x s = (Inr d, s') \<Longrightarrow> objs s x = Some d"
    and create_err: "ok s \<Longrightarrow> x \<in> A \<Longrightarrow> y \<in> A \<Longrightarrow> be_create B x c d s = (Inl e, s') \<Longrightarrow>
      objs s' y = objs s y"
    and create_absent: "ok s \<Longrightarrow> x \<in> A \<Longrightarrow> be_create B x c d s = (Inr m, s') \<Longrightarrow>
      if_absent c \<Longrightarrow> objs s x = None"
    and create_ok: "ok s \<Longrightarrow> x \<in> A \<Longrightarrow> y \<in> A \<Longrightarrow> be_create B x c d s = (Inr m, s') \<Longrightarrow>
      objs s' y = ((objs s)(x \<mapsto> d)) y"
    and replace_err: "ok s \<Longrightarrow> x \<in> A \<Longrightarrow> y \<in> A \<Longrightarrow> be_replace B x rc d s = (Inl e, s') \<Longrightarrow>
      objs s' y = objs s y"
    and replace_present: "ok s \<Longrightarrow> x \<in> A \<Longrightarrow> be_replace B x rc d s = (Inr m, s') \<Longrightarrow> objs s x \<noteq> None"
    and replace_ok: "ok s \<Longrightarrow> x \<in> A \<Longrightarrow> y \<in> A \<Longrightarrow> be_replace B x rc d s = (Inr m, s') \<Longrightarrow>
      objs s' y = ((objs s)(x \<mapsto> d)) y"
    and delete_err: "ok s \<Longrightarrow> x \<in> A \<Longrightarrow> y \<in> A \<Longrightarrow> be_delete B x s = (Inl e, s') \<Longrightarrow>
      objs s' y = objs s y"
    and delete_ok: "ok s \<Longrightarrow> x \<in> A \<Longrightarrow> y \<in> A \<Longrightarrow> be_delete B x s = (Inr u, s') \<Longrightarrow>
      objs s' y = ((objs s)(x := None)) y"

text \<open>A fault-free store: absence and presence decide every result.\<close>

locale live_store = safe_store +
  assumes caps_create: "ok s \<Longrightarrow> cap_conditional_create (be_capabilities B s)"
    and head_absent: "ok s \<Longrightarrow> x \<in> A \<Longrightarrow> objs s x = None \<Longrightarrow> \<exists>l s'. be_head B x s = (Inl (NotFound l), s')"
    and head_present: "ok s \<Longrightarrow> x \<in> A \<Longrightarrow> objs s x \<noteq> None \<Longrightarrow> \<exists>m s'. be_head B x s = (Inr m, s')"
    and read_absent: "ok s \<Longrightarrow> x \<in> A \<Longrightarrow> objs s x = None \<Longrightarrow> \<exists>l s'. be_read B x s = (Inl (NotFound l), s')"
    and read_present: "ok s \<Longrightarrow> x \<in> A \<Longrightarrow> objs s x = Some d \<Longrightarrow> \<exists>s'. be_read B x s = (Inr d, s')"
    and create_fresh: "ok s \<Longrightarrow> x \<in> A \<Longrightarrow> objs s x = None \<Longrightarrow> \<exists>m s'. be_create B x c d s = (Inr m, s')"
    and create_conflict: "ok s \<Longrightarrow> x \<in> A \<Longrightarrow> objs s x \<noteq> None \<Longrightarrow> if_absent c \<Longrightarrow>
      \<exists>g s'. be_create B x c d s = (Inl (Conflict g), s')"
    and replace_matching: "ok s \<Longrightarrow> x \<in> A \<Longrightarrow> be_head B x s = (Inr m, s') \<Longrightarrow>
      \<exists>m' s''. be_replace B x (matching m) d s' = (Inr m', s'')"
    and delete_succeeds: "ok s \<Longrightarrow> x \<in> A \<Longrightarrow> \<exists>s'. be_delete B x s = (Inr (), s')"

section \<open>Byte ranges\<close>

lemma byte_range_new_len:
  assumes "byte_range_new s e = Inr r" and "\<not> (s = 0 \<and> e = - 1)"
  shows "unat (byte_range_len r) = unat e - unat s + 1"
proof -
  from assms(1) have r: "br_start r = s" "br_end r = e" "s \<le> e"
    by (auto simp: byte_range_new_def split: if_splits)
  have diff: "unat (e - s) = unat e - unat s"
    using r(3) by (simp add: unat_sub)
  have "e - s \<noteq> - 1"
  proof
    assume top: "e - s = - 1"
    have "unat e \<le> unat (- 1 :: u64)" by (simp add: word_le_nat_alt [symmetric])
    moreover from top diff have "unat (- 1 :: u64) = unat e - unat s" by simp
    moreover have "unat (- 1 :: u64) > 0" by (simp add: unat_gt_0)
    ultimately have "unat s = 0" and "unat e = unat (- 1 :: u64)" by linarith+
    then have "s = 0" and "e = - 1" by (simp only: unat_eq_zero, simp only: word_unat_eq_iff)
    with assms(2) show False by blast
  qed
  then have "e - s + 1 \<noteq> 0" by (simp add: eq_neg_iff_add_eq_0)
  then have "unat (e - s + 1) = unat (e - s) + 1"
    by (simp add: unat_plus_simple [THEN iffD1] unatSuc add.commute)
  with diff r show ?thesis by (simp add: byte_range_len_def not_less)
qed

end
