(* ===== verification/Memory_Backend.thy ===== *)
theory Memory_Backend
  imports Storage_Backend
begin

text \<open>
  The in-memory backend (\<open>memory.rs\<close>) and the fault-injecting wrapper
  (\<open>chaos.rs\<close>). The memory backend is a fault-free store; the wrapper of any safe
  store is a safe store again, so what is proved of a client over \<open>safe_store\<close>
  holds under every injected fault schedule. \<open>write_stream\<close> is left out of the
  interface: the memory backend refuses it on every path.
\<close>

section \<open>Memory backend\<close>

record stored_object =
  so_data :: bytes
  so_etag :: string
  so_version_id :: nat

record memory_state =
  mem_objects :: "(string \<times> stored_object) list"
  mem_metrics :: storage_metrics
  mem_caps :: storage_capabilities

definition memory_new :: "storage_capabilities \<Rightarrow> memory_state" where
  "memory_new caps = \<lparr>mem_objects = [], mem_metrics = metrics_default, mem_caps = caps\<rparr>"

fun memory_key :: "object_location \<Rightarrow> string" where
  "memory_key (ObjectLocal p) = ''local:'' @ p"
| "memory_key (ObjectS3 b k) = ''s3:'' @ b @ ''/'' @ k"

definition object_metadata_from_key :: "string \<Rightarrow> stored_object \<Rightarrow> object_metadata" where
  "object_metadata_from_key key stored =
     \<lparr>om_location =
        (case strip_prefix key ''local:'' of
           Some rest \<Rightarrow> ObjectLocal rest
         | None \<Rightarrow>
             (case strip_prefix key ''s3:'' of
                Some rest \<Rightarrow>
                  (case split_once (CHR ''/'') rest of
                     Some (b, k) \<Rightarrow> ObjectS3 b k
                   | None \<Rightarrow> ObjectS3 rest [])
              | None \<Rightarrow> ObjectLocal key)),
      om_size = length (so_data stored),
      om_etag = Some (so_etag stored),
      om_version_id = Some (show_nat (so_version_id stored))\<rparr>"

definition memory_list ::
  "dataset_location \<Rightarrow> list_options \<Rightarrow> string option \<Rightarrow> memory_state \<Rightarrow>
   (storage_error, list_page) res \<times> memory_state" where
  "memory_list ds opts token st =
     (let st' = st\<lparr>mem_metrics := record_list (mem_metrics st)\<rparr>;
          pre = (case ds of
              DatasetLocal p \<Rightarrow> ''local:'' @ p
            | DatasetS3 s \<Rightarrow>
                if s3_prefix s = [] then ''s3:'' @ s3_bucket s @ ''/''
                else ''s3:'' @ s3_bucket s @ ''/'' @ s3_prefix s);
          hits = filter (\<lambda>(k, v). str_starts_with k pre \<and>
                    (recursive opts \<or> CHR ''/'' \<notin> set (drop (length pre) k))) (mem_objects st)
      in (Inr \<lparr>page_objects = sort_key (\<lambda>m. object_display_uri (om_location m))
                  (map (\<lambda>(k, v). object_metadata_from_key k v) hits),
                page_prefixes = [], page_truncated = False, page_token = None\<rparr>, st'))"

definition memory_head ::
  "object_location \<Rightarrow> memory_state \<Rightarrow> (storage_error, object_metadata) res \<times> memory_state" where
  "memory_head x st =
     (let st' = st\<lparr>mem_metrics := record_head (mem_metrics st)\<rparr>; key = memory_key x
      in case map_of (mem_objects st) key of
           None \<Rightarrow> (Inl (NotFound (object_display_uri x)), st')
         | Some stored \<Rightarrow> (Inr (object_metadata_from_key key stored), st'))"

text \<open>\<open>read_range\<close>: \<open>start..=end\<close> with the end clamped to the last byte.\<close>

definition memory_read_range ::
  "object_location \<Rightarrow> byte_range \<Rightarrow> memory_state \<Rightarrow> (storage_error, bytes) res \<times> memory_state" where
  "memory_read_range x r st =
     (case memory_head x st of
        (Inl e, st1) \<Rightarrow> (Inl e, st1)
      | (Inr _, st1) \<Rightarrow>
          (case map_of (mem_objects st1) (memory_key x) of
             None \<Rightarrow> (Inl (NotFound (object_display_uri x)), st1)
           | Some stored \<Rightarrow>
               (let start = unat (br_start r);
                    stop = min (unat (br_end r)) (length (so_data stored) - 1)
                in if start \<ge> length (so_data stored) then
                     (Inl (InvalidLocation ''range start beyond object size''), st1)
                   else (let slice = take (stop + 1 - start) (drop start (so_data stored))
                         in (Inr slice, st1\<lparr>mem_metrics :=
                               record_range_get (length slice) (mem_metrics st1)\<rparr>)))))"

definition memory_read ::
  "object_location \<Rightarrow> memory_state \<Rightarrow> (storage_error, bytes) res \<times> memory_state" where
  "memory_read x st =
     (case map_of (mem_objects st) (memory_key x) of
        None \<Rightarrow> (Inl (NotFound (object_display_uri x)), st)
      | Some stored \<Rightarrow> (Inr (so_data stored),
          st\<lparr>mem_metrics := record_full_get (length (so_data stored)) (mem_metrics st)\<rparr>))"

definition memory_create ::
  "object_location \<Rightarrow> conditional_create \<Rightarrow> bytes \<Rightarrow> memory_state \<Rightarrow>
   (storage_error, object_metadata) res \<times> memory_state" where
  "memory_create x cond data st =
     (if \<not> cap_conditional_create (mem_caps st) then
        (Inl (UnsupportedCapability ''conditional_create''), st)
      else
        (let key = memory_key x
         in if if_absent cond \<and> map_of (mem_objects st) key \<noteq> None then
              (Inl (Conflict (''object already exists: '' @ key)), st)
            else
              (let stored = \<lparr>so_data = data, so_etag = ''mem-'' @ show_nat (length data),
                     so_version_id = length (mem_objects st) + 1\<rparr>
               in (Inr (object_metadata_from_key key stored),
                   st\<lparr>mem_objects := bt_insert key stored (mem_objects st),
                      mem_metrics := record_put (length data) (mem_metrics st)\<rparr>))))"

definition memory_replace ::
  "object_location \<Rightarrow> conditional_replace \<Rightarrow> bytes \<Rightarrow> memory_state \<Rightarrow>
   (storage_error, object_metadata) res \<times> memory_state" where
  "memory_replace x cond data st =
     (if \<not> cap_conditional_replace (mem_caps st) then
        (Inl (UnsupportedCapability ''conditional_replace''), st)
      else
        (let key = memory_key x
         in case map_of (mem_objects st) key of
              None \<Rightarrow> (Inl (NotFound (object_display_uri x)), st)
            | Some existing \<Rightarrow>
                if expected_etag cond \<noteq> Some (so_etag existing) then
                  (Inl (PreconditionFailed ''etag mismatch''), st)
                else
                  (let stored = \<lparr>so_data = data, so_etag = ''mem-'' @ show_nat (length data),
                         so_version_id = so_version_id existing + 1\<rparr>
                   in (Inr (object_metadata_from_key key stored),
                       st\<lparr>mem_objects := bt_insert key stored (mem_objects st),
                          mem_metrics := record_put (length data) (mem_metrics st)\<rparr>))))"

definition memory_delete ::
  "object_location \<Rightarrow> memory_state \<Rightarrow> (storage_error, unit) res \<times> memory_state" where
  "memory_delete x st = (Inr (), st\<lparr>mem_objects := bt_remove (memory_key x) (mem_objects st)\<rparr>)"

definition memory_backend :: "memory_state storage_backend" where
  "memory_backend = \<lparr>be_capabilities = mem_caps, be_list = memory_list, be_head = memory_head,
     be_read = memory_read, be_create = memory_create, be_replace = memory_replace,
     be_delete = memory_delete\<rparr>"

subsection \<open>The memory backend is a live store\<close>

definition mem_objs :: "memory_state \<Rightarrow> object_location \<rightharpoonup> bytes" where
  "mem_objs st x = map_option so_data (map_of (mem_objects st) (memory_key x))"

definition mem_ok :: "memory_state \<Rightarrow> bool" where
  "mem_ok st = (cap_conditional_create (mem_caps st) \<and> cap_conditional_replace (mem_caps st))"

text \<open>Bucket names hold no slash (they are URL hosts).\<close>

fun wf_object :: "object_location \<Rightarrow> bool" where
  "wf_object (ObjectLocal p) = True"
| "wf_object (ObjectS3 b k) = (CHR ''/'' \<notin> set b)"

lemma memory_key_inj: "wf_object x \<Longrightarrow> wf_object y \<Longrightarrow> memory_key x = memory_key y \<longleftrightarrow> x = y"
proof (cases x; cases y; clarsimp)
  fix b k b' k'
  assume "CHR ''/'' \<notin> set b" and "CHR ''/'' \<notin> set b'"
  then show "(b @ CHR ''/'' # k = b' @ CHR ''/'' # k') = (b = b' \<and> k = k')"
    by (metis option.inject prod.inject split_once_append)
qed

lemma metadata_etag [simp]: "om_etag (object_metadata_from_key k v) = Some (so_etag v)"
  by (simp add: object_metadata_from_key_def)

lemma memory_backend_simps [simp]:
  "be_capabilities memory_backend = mem_caps" "be_list memory_backend = memory_list"
  "be_head memory_backend = memory_head" "be_read memory_backend = memory_read"
  "be_create memory_backend = memory_create" "be_replace memory_backend = memory_replace"
  "be_delete memory_backend = memory_delete"
  by (simp_all add: memory_backend_def)

lemmas memory_ops = memory_head_def memory_read_def memory_create_def memory_replace_def
  memory_delete_def mem_objs_def mem_ok_def Let_def matching_def

interpretation mem: live_store memory_backend mem_objs "{x. wf_object x}" mem_ok
proof (unfold_locales, goal_cases)
  case 1 then show ?case by (simp add: memory_ops split: option.split)
next
  case 2 then show ?case by (simp add: memory_ops split: option.split)
next
  case 3 then show ?case by (simp add: memory_ops)
next
  case 4 then show ?case by (simp add: memory_ops split: option.split)
next
  case 5 then show ?case by (simp add: memory_ops)
next
  case 6 then show ?case by (simp add: memory_ops split: option.split)
next
  case 7 then show ?case by (simp add: memory_ops split: option.splits)
next
  case 8 then show ?case by (simp add: memory_ops split: option.split)
next
  case 9 then show ?case by (simp add: memory_ops split: option.splits)
next
  case 10 then show ?case by (simp add: memory_ops split: if_splits)
next
  case 11 then show ?case by (simp add: memory_ops split: if_splits)
next
  case 12 then show ?case by (auto simp: memory_ops memory_key_inj split: if_splits)
next
  case 13 then show ?case by (simp add: memory_ops split: if_splits option.splits)
next
  case 14 then show ?case by (simp add: memory_ops split: if_splits option.splits)
next
  case 15 then show ?case by (auto simp: memory_ops memory_key_inj split: if_splits option.splits)
next
  case 16 then show ?case by (simp add: memory_ops)
next
  case 17 then show ?case by (auto simp: memory_ops memory_key_inj)
next
  case 18 then show ?case by (simp add: memory_ops)
next
  case 19 then show ?case by (simp add: memory_ops)
next
  case 20 then show ?case by (auto simp: memory_ops)
next
  case 21 then show ?case by (simp add: memory_ops)
next
  case 22 then show ?case by (auto simp: memory_ops)
next
  case 23 then show ?case by (simp add: memory_ops)
next
  case 24 then show ?case by (auto simp: memory_ops)
next
  case 25 then show ?case by (auto simp: memory_ops split: option.splits)
next
  case 26 then show ?case by (simp add: memory_ops)
qed

section \<open>Fault injection\<close>

datatype fault_target =
    FT_List | FT_Head | FT_ReadRange | FT_ReadStreamOpen | FT_ReadStreamRead
  | FT_WriteStreamOpen | FT_WriteStreamPart | FT_ConditionalCreate | FT_ConditionalReplace
  | FT_DeleteOwned

datatype fault_step = Inject storage_error | Delegate

datatype exhausted_behavior = ExhaustedDelegate | RepeatLast

record fault_rule =
  fr_target :: fault_target
  fr_location_substr :: "string option"
  fr_write_part_index :: "nat option"
  fr_steps :: "fault_step list"
  fr_exhausted :: exhausted_behavior

record fault_context =
  fc_target :: fault_target
  fc_object :: "object_location option"
  fc_dataset :: "dataset_location option"
  fc_write_part_index :: "nat option"

definition fault_location_uri :: "fault_context \<Rightarrow> string" where
  "fault_location_uri ctx =
     (case fc_object ctx of
        Some x \<Rightarrow> object_display_uri x
      | None \<Rightarrow> (case fc_dataset ctx of Some d \<Rightarrow> dataset_display_uri d | None \<Rightarrow> []))"

definition rule_matches :: "fault_rule \<Rightarrow> fault_context \<Rightarrow> bool" where
  "rule_matches r ctx =
     (fr_target r = fc_target ctx \<and>
      (case fr_write_part_index r of None \<Rightarrow> True | Some p \<Rightarrow> fc_write_part_index ctx = Some p) \<and>
      (case fr_location_substr r of None \<Rightarrow> True
       | Some needle \<Rightarrow> str_contains (fault_location_uri ctx) needle))"

fun replay_error :: "storage_error \<Rightarrow> storage_error" where
  "replay_error (StorageIo m) = StorageOther m"
| "replay_error e = e"

fun step_error :: "fault_step \<Rightarrow> storage_error option" where
  "step_error (Inject e) = Some (replay_error e)"
| "step_error Delegate = None"

fun is_inject :: "fault_step \<Rightarrow> bool" where
  "is_inject (Inject _) = True"
| "is_inject Delegate = False"

definition outcome_at :: "fault_rule \<Rightarrow> u64 \<Rightarrow> storage_error option" where
  "outcome_at r n =
     (if fr_steps r = [] then None
      else if unat n < length (fr_steps r) then step_error (fr_steps r ! unat n)
      else (case fr_exhausted r of
              ExhaustedDelegate \<Rightarrow> None
            | RepeatLast \<Rightarrow> (case List.find is_inject (rev (fr_steps r)) of
                  Some s \<Rightarrow> step_error s | None \<Rightarrow> None)))"

text \<open>The first rule that matches consumes one invocation of its counter.\<close>

fun fault_evaluate ::
  "fault_rule list \<Rightarrow> u64 list \<Rightarrow> fault_context \<Rightarrow> storage_error option \<times> u64 list" where
  "fault_evaluate (r # rs) (n # ns) ctx =
     (if rule_matches r ctx then (outcome_at r n, (n + 1) # ns)
      else (case fault_evaluate rs ns ctx of (e, ns') \<Rightarrow> (e, n # ns')))"
| "fault_evaluate _ ns ctx = (None, ns)"

record 'i fault_state =
  fs_inner :: 'i
  fs_rules :: "fault_rule list"
  fs_counters :: "u64 list"

definition fault_new :: "'i \<Rightarrow> fault_rule list \<Rightarrow> 'i fault_state" where
  "fault_new inner rules = \<lparr>fs_inner = inner, fs_rules = rules, fs_counters = map (\<lambda>_. 0) rules\<rparr>"

definition object_ctx :: "fault_target \<Rightarrow> object_location \<Rightarrow> fault_context" where
  "object_ctx t x = \<lparr>fc_target = t, fc_object = Some x, fc_dataset = None, fc_write_part_index = None\<rparr>"

definition with_fault ::
  "fault_context \<Rightarrow> ('i \<Rightarrow> (storage_error, 'a) res \<times> 'i) \<Rightarrow> 'i fault_state \<Rightarrow>
   (storage_error, 'a) res \<times> 'i fault_state" where
  "with_fault ctx call st =
     (case fault_evaluate (fs_rules st) (fs_counters st) ctx of
        (Some e, ns) \<Rightarrow> (Inl e, st\<lparr>fs_counters := ns\<rparr>)
      | (None, ns) \<Rightarrow> (case call (fs_inner st) of
            (r, i) \<Rightarrow> (r, st\<lparr>fs_inner := i, fs_counters := ns\<rparr>)))"

fun storage_error_to_string :: "storage_error \<Rightarrow> string" where
  "storage_error_to_string (NotFound l) = ''object not found: '' @ l"
| "storage_error_to_string (PermissionDenied l) = ''permission denied: '' @ l"
| "storage_error_to_string Authentication = ''authentication failed''"
| "storage_error_to_string (Conflict m) = ''conflict: '' @ m"
| "storage_error_to_string (PreconditionFailed m) = ''precondition failed: '' @ m"
| "storage_error_to_string (Transient m) = ''transient storage error: '' @ m"
| "storage_error_to_string (Unavailable m) = ''storage unavailable: '' @ m"
| "storage_error_to_string (InvalidLocation m) = ''invalid location: '' @ m"
| "storage_error_to_string (UnsupportedCapability c) = ''unsupported capability: '' @ c"
| "storage_error_to_string (StorageIo m) = ''io error: '' @ m"
| "storage_error_to_string (StorageOther m) = ''storage error: '' @ m"

text \<open>
  Reading a stream to its end meets two fault points: opening it and the first poll,
  whose error reaches the caller as an I/O error and becomes \<open>StorageError::Other\<close>.
\<close>

definition fault_read ::
  "'i storage_backend \<Rightarrow> object_location \<Rightarrow> 'i fault_state \<Rightarrow>
   (storage_error, bytes) res \<times> 'i fault_state" where
  "fault_read B x st =
     (case with_fault (object_ctx FT_ReadStreamOpen x) (be_read B x) st of
        (Inl e, st1) \<Rightarrow> (Inl e, st1)
      | (Inr d, st1) \<Rightarrow>
          (case fault_evaluate (fs_rules st1) (fs_counters st1) (object_ctx FT_ReadStreamRead x) of
             (Some e, ns) \<Rightarrow> (Inl (StorageOther (storage_error_to_string e)), st1\<lparr>fs_counters := ns\<rparr>)
           | (None, ns) \<Rightarrow> (Inr d, st1\<lparr>fs_counters := ns\<rparr>)))"

definition fault_backend :: "'i storage_backend \<Rightarrow> 'i fault_state storage_backend" where
  "fault_backend B = \<lparr>be_capabilities = (\<lambda>st. be_capabilities B (fs_inner st)),
     be_list = (\<lambda>ds opts token. with_fault
       \<lparr>fc_target = FT_List, fc_object = None, fc_dataset = Some ds, fc_write_part_index = None\<rparr>
       (be_list B ds opts token)),
     be_head = (\<lambda>x. with_fault (object_ctx FT_Head x) (be_head B x)),
     be_read = fault_read B,
     be_create = (\<lambda>x c d. with_fault (object_ctx FT_ConditionalCreate x) (be_create B x c d)),
     be_replace = (\<lambda>x c d. with_fault (object_ctx FT_ConditionalReplace x) (be_replace B x c d)),
     be_delete = (\<lambda>x. with_fault (object_ctx FT_DeleteOwned x) (be_delete B x))\<rparr>"

lemma with_fault_cases:
  assumes "with_fault ctx call st = (r, st')"
  obtains (injected) e where "r = Inl e" "fs_inner st' = fs_inner st"
  | (delegated) "call (fs_inner st) = (r, fs_inner st')"
  using assms by (auto simp: with_fault_def split: prod.splits option.splits)

lemma with_fault_snd:
  "fs_inner (snd (with_fault ctx call st)) \<in> {fs_inner st, snd (call (fs_inner st))}"
  by (auto simp: with_fault_def split: prod.splits option.splits)

lemma fault_read_snd:
  "fs_inner (snd (fault_read B x st)) \<in> {fs_inner st, snd (be_read B x (fs_inner st))}"
  by (auto simp: fault_read_def with_fault_def split: prod.splits option.splits sum.splits)

lemma fault_read_ok:
  "fault_read B x st = (Inr d, st') \<Longrightarrow> \<exists>i. be_read B x (fs_inner st) = (Inr d, i)"
  by (auto simp: fault_read_def with_fault_def split: prod.splits option.splits sum.splits)

context safe_store
begin

text \<open>Injected faults keep every law of a safe store.\<close>

lemma fault_safe:
  "safe_store (fault_backend B) (\<lambda>st. objs (fs_inner st)) A (\<lambda>st. ok (fs_inner st))"
proof (unfold_locales, goal_cases)
  case (1 st x) then show ?case
    using with_fault_snd [of "object_ctx FT_Head x" "be_head B x" st] ok_head
    by (auto simp: fault_backend_def)
next
  case (2 st x) then show ?case
    using fault_read_snd [of B x st] ok_read by (auto simp: fault_backend_def)
next
  case (3 st x c d) then show ?case
    using with_fault_snd [of "object_ctx FT_ConditionalCreate x" "be_create B x c d" st] ok_create
    by (auto simp: fault_backend_def)
next
  case (4 st x c d) then show ?case
    using with_fault_snd [of "object_ctx FT_ConditionalReplace x" "be_replace B x c d" st] ok_replace
    by (auto simp: fault_backend_def)
next
  case (5 st x) then show ?case
    using with_fault_snd [of "object_ctx FT_DeleteOwned x" "be_delete B x" st] ok_delete
    by (auto simp: fault_backend_def)
next
  case (6 st x y) then show ?case
    using with_fault_snd [of "object_ctx FT_Head x" "be_head B x" st] head_frame
    by (auto simp: fault_backend_def)
next
  case (7 st x m st') then show ?case
    by (auto simp: fault_backend_def elim!: with_fault_cases dest: head_ok)
next
  case (8 st x y) then show ?case
    using fault_read_snd [of B x st] read_frame by (auto simp: fault_backend_def)
next
  case (9 st x d st') then show ?case
    by (auto simp: fault_backend_def dest!: fault_read_ok intro: read_ok)
next
  case (10 st x y c d e st') then show ?case
    by (auto simp: fault_backend_def elim!: with_fault_cases intro: create_err)
next
  case (11 st x c d m st') then show ?case
    by (auto simp: fault_backend_def elim!: with_fault_cases intro: create_absent)
next
  case (12 st x y c d m st') then show ?case
    by (auto simp: fault_backend_def elim!: with_fault_cases dest: create_ok)
next
  case (13 st x y c d e st') then show ?case
    by (auto simp: fault_backend_def elim!: with_fault_cases intro: replace_err)
next
  case (14 st x c d m st') then show ?case
    by (auto simp: fault_backend_def elim!: with_fault_cases dest: replace_present)
next
  case (15 st x y c d m st') then show ?case
    by (auto simp: fault_backend_def elim!: with_fault_cases dest: replace_ok)
next
  case (16 st x y e st') then show ?case
    by (auto simp: fault_backend_def elim!: with_fault_cases intro: delete_err)
next
  case (17 st x y u st') then show ?case
    by (auto simp: fault_backend_def elim!: with_fault_cases dest: delete_ok)
qed

end

interpretation faulty_mem: safe_store "fault_backend memory_backend"
  "\<lambda>st. mem_objs (fs_inner st)" "{x. wf_object x}" "\<lambda>st. mem_ok (fs_inner st)"
  by (rule mem.fault_safe)

end
