(* ===== verification/Publication.thy ===== *)
theory Publication
  imports Memory_Backend
begin

text \<open>
  Transactional publication of a dataset version (\<open>publication.rs\<close>) under an exclusive
  writer lock (\<open>locking.rs\<close>), over any backend. Version data lies under
  \<open>.parqonaut/versions/{version}/data/\<close>, the \<open>COMMITTED\<close> marker is the only commit
  signal, \<open>CURRENT\<close> points at the promoted version.

  \<open>serde_json\<close> is the parameter \<open>C\<close>, a \<open>codec\<close>; \<open>codec_ok\<close> states that decoding
  an encoded value gives it back. A method on \<open>&mut self\<close> is an effect on the pair of
  the session and the store; clock readings are arguments.
\<close>

section \<open>Data\<close>

type_synonym timestamp = int

datatype publication_state =
  Preparing | Uploading | Uploaded | Verified | ManifestWritten | Committed | Current

fun allows_transition :: "publication_state \<Rightarrow> publication_state \<Rightarrow> bool" where
  "allows_transition Preparing Preparing = True"
| "allows_transition Preparing Uploading = True"
| "allows_transition Uploading Uploading = True"
| "allows_transition Uploading Uploaded = True"
| "allows_transition Uploaded Verified = True"
| "allows_transition Verified ManifestWritten = True"
| "allows_transition ManifestWritten Committed = True"
| "allows_transition Committed Current = True"
| "allows_transition _ _ = False"

fun ordinal :: "publication_state \<Rightarrow> nat" where
  "ordinal Preparing = 0"
| "ordinal Uploading = 1"
| "ordinal Uploaded = 2"
| "ordinal Verified = 3"
| "ordinal ManifestWritten = 4"
| "ordinal Committed = 5"
| "ordinal Current = 6"

record publication_state_record =
  psr_contract_version :: nat
  psr_version_id :: string
  psr_run_id :: string
  psr_state :: publication_state
  psr_updated_at :: timestamp

record publication_object_record =
  por_key :: string
  por_size :: nat
  por_etag :: "string option"
  por_version_id :: "string option"

record publication_manifest =
  pm_contract_version :: nat
  pm_version_id :: string
  pm_run_id :: string
  pm_objects :: "publication_object_record list"

record commit_marker =
  cm_version_id :: string
  cm_run_id :: string
  cm_committed_at :: timestamp

record current_pointer =
  cp_version_id :: string

record writer_lock_record =
  wl_run_id :: string
  wl_version_id :: string

datatype publication_error =
    PubStorage storage_error
  | LockHeld string
  | InvalidTransition publication_state publication_state
  | Incomplete string
  | Unsupported string

definition PUBLICATION_CONTRACT_VERSION :: nat where
  "PUBLICATION_CONTRACT_VERSION = 1"

definition WRITER_LOCK_KEY :: string where "WRITER_LOCK_KEY = ''.parqonaut/writer.lock''"
definition CURRENT_KEY :: string where "CURRENT_KEY = ''.parqonaut/CURRENT''"
definition VERSIONS_PREFIX :: string where "VERSIONS_PREFIX = ''.parqonaut/versions''"

definition version_prefix :: "string \<Rightarrow> string" where
  "version_prefix v = VERSIONS_PREFIX @ ''/'' @ v"

definition version_state_key :: "string \<Rightarrow> string" where
  "version_state_key v = version_prefix v @ ''/'' @ ''state.json''"

definition version_manifest_key :: "string \<Rightarrow> string" where
  "version_manifest_key v = version_prefix v @ ''/'' @ ''manifest.json''"

definition version_commit_key :: "string \<Rightarrow> string" where
  "version_commit_key v = version_prefix v @ ''/'' @ ''COMMITTED''"

definition version_data_key :: "string \<Rightarrow> string \<Rightarrow> string" where
  "version_data_key v relative =
     version_prefix v @ ''/'' @ ''data'' @ ''/'' @ trim_start_matches (CHR ''/'') relative"

text \<open>The JSON codec: encoding may fail with a message, decoding with a message.\<close>

record codec =
  enc_state :: "publication_state_record \<Rightarrow> (string, bytes) res"
  dec_state :: "bytes \<Rightarrow> (string, publication_state_record) res"
  enc_manifest :: "publication_manifest \<Rightarrow> (string, bytes) res"
  enc_marker :: "commit_marker \<Rightarrow> (string, bytes) res"
  enc_pointer :: "current_pointer \<Rightarrow> (string, bytes) res"
  dec_pointer :: "bytes \<Rightarrow> (string, current_pointer) res"
  enc_lock :: "writer_lock_record \<Rightarrow> (string, bytes) res"
  dec_lock :: "bytes \<Rightarrow> (string, writer_lock_record) res"

section \<open>Helpers over a backend\<close>

definition json_err :: "string \<Rightarrow> publication_error" where
  "json_err e = PubStorage (StorageOther e)"

definition object_at_eff :: "dataset_location \<Rightarrow> string \<Rightarrow> ('s, publication_error, object_location) eff" where
  "object_at_eff ds rel = eff_lift (map_err PubStorage (object_at ds rel))"

definition read_json_object ::
  "'s storage_backend \<Rightarrow> (bytes \<Rightarrow> (string, 'a) res) \<Rightarrow> object_location \<Rightarrow>
   ('s, publication_error, 'a) eff" where
  "read_json_object B dec x =
     eff_bind (eff_map_err PubStorage (be_read B x)) (\<lambda>d.
     eff_lift (map_err (\<lambda>e. PubStorage (StorageOther
       (''invalid JSON at '' @ object_display_uri x @ '': '' @ e))) (dec d)))"

text \<open>Turning \<open>NotFound\<close> into \<open>None\<close>, any other error is kept.\<close>

definition optional :: "('s, publication_error, 'a) eff \<Rightarrow> ('s, publication_error, 'a option) eff" where
  "optional m = (\<lambda>s. case m s of
       (Inr a, s') \<Rightarrow> (Inr (Some a), s')
     | (Inl (PubStorage (NotFound _)), s') \<Rightarrow> (Inr None, s')
     | (Inl e, s') \<Rightarrow> (Inl e, s'))"

definition is_version_committed ::
  "'s storage_backend \<Rightarrow> dataset_location \<Rightarrow> string \<Rightarrow> ('s, publication_error, bool) eff" where
  "is_version_committed B ds v =
     eff_bind (object_at_eff ds (version_commit_key v)) (\<lambda>x.
     eff_bind (optional (eff_map_err PubStorage (be_head B x))) (\<lambda>m.
     eff_return (m \<noteq> None)))"

definition read_current_version ::
  "'s storage_backend \<Rightarrow> codec \<Rightarrow> dataset_location \<Rightarrow> ('s, publication_error, string option) eff" where
  "read_current_version B C ds =
     eff_bind (object_at_eff ds CURRENT_KEY) (\<lambda>x.
     eff_bind (optional (read_json_object B (dec_pointer C) x)) (\<lambda>p.
     eff_return (map_option cp_version_id p)))"

definition observed_state ::
  "'s storage_backend \<Rightarrow> codec \<Rightarrow> dataset_location \<Rightarrow> string \<Rightarrow>
   ('s, publication_error, publication_state option) eff" where
  "observed_state B C ds v =
     eff_bind (is_version_committed B ds v) (\<lambda>committed.
       if committed then
         eff_bind (read_current_version B C ds) (\<lambda>cur.
         eff_return (Some (if cur = Some v then Current else Committed)))
       else
         eff_bind (object_at_eff ds (version_state_key v)) (\<lambda>x.
         eff_bind (optional (read_json_object B (dec_state C) x)) (\<lambda>r.
         eff_return (case r of
             None \<Rightarrow> None
           | Some rec \<Rightarrow> Some (if ordinal (psr_state rec) \<ge> ordinal Committed
                then ManifestWritten else psr_state rec)))))"

definition load_recovered_state ::
  "'s storage_backend \<Rightarrow> codec \<Rightarrow> timestamp \<Rightarrow> dataset_location \<Rightarrow> string \<Rightarrow>
   ('s, publication_error, publication_state_record option) eff" where
  "load_recovered_state B C now ds v =
     eff_bind (is_version_committed B ds v) (\<lambda>committed.
       if committed then
         eff_bind (read_current_version B C ds) (\<lambda>cur.
         eff_return (Some \<lparr>psr_contract_version = PUBLICATION_CONTRACT_VERSION,
           psr_version_id = v, psr_run_id = v,
           psr_state = (if cur = Some v then Current else Committed), psr_updated_at = now\<rparr>))
       else
         eff_bind (object_at_eff ds (version_state_key v)) (\<lambda>x.
         optional (read_json_object B (dec_state C) x)))"

text \<open>Head, then replace what was seen or create: the write of \<open>state.json\<close> and \<open>CURRENT\<close>.\<close>

definition upsert_object ::
  "'s storage_backend \<Rightarrow> object_location \<Rightarrow> bytes \<Rightarrow> ('s, publication_error, unit) eff" where
  "upsert_object B x payload =
     eff_bind (optional (eff_map_err PubStorage (be_head B x))) (\<lambda>h.
     eff_bind (eff_map_err PubStorage (case h of
         Some m \<Rightarrow> be_replace B x (matching m) payload
       | None \<Rightarrow> be_create B x must_not_exist payload)) (\<lambda>_.
     eff_return ()))"

section \<open>The writer lock\<close>

record publication_lock =
  lk_object :: object_location
  lk_record :: writer_lock_record
  lk_released :: bool

definition reclaim_or_reject ::
  "'s storage_backend \<Rightarrow> codec \<Rightarrow> object_location \<Rightarrow> writer_lock_record \<Rightarrow>
   ('s, publication_error, publication_lock) eff" where
  "reclaim_or_reject B C x rec =
     eff_bind (read_json_object B (dec_lock C) x) (\<lambda>existing.
       if wl_run_id existing \<noteq> wl_run_id rec then eff_fail (LockHeld (wl_run_id existing))
       else
         eff_bind (eff_map_err PubStorage (be_delete B x)) (\<lambda>_.
         eff_bind (eff_lift (map_err json_err (enc_lock C rec))) (\<lambda>payload.
         eff_bind (eff_map_err PubStorage (be_create B x must_not_exist payload)) (\<lambda>_.
         eff_return \<lparr>lk_object = x, lk_record = rec, lk_released = False\<rparr>))))"

definition lock_acquire ::
  "'s storage_backend \<Rightarrow> codec \<Rightarrow> dataset_location \<Rightarrow> string \<Rightarrow>
   ('s, publication_error, publication_lock) eff" where
  "lock_acquire B C ds run_id = (\<lambda>s.
     if \<not> cap_conditional_create (be_capabilities B s) then
       (Inl (Unsupported ''backend lacks conditional_create for writer locks''), s)
     else
       (let rec = \<lparr>wl_run_id = run_id, wl_version_id = run_id\<rparr> in
        eff_bind (object_at_eff ds WRITER_LOCK_KEY) (\<lambda>x.
        eff_bind (eff_lift (map_err json_err (enc_lock C rec))) (\<lambda>payload.
        (\<lambda>s1. case be_create B x must_not_exist payload s1 of
            (Inr _, s2) \<Rightarrow> (Inr \<lparr>lk_object = x, lk_record = rec, lk_released = False\<rparr>, s2)
          | (Inl (Conflict _), s2) \<Rightarrow> reclaim_or_reject B C x rec s2
          | (Inl e, s2) \<Rightarrow> (Inl (PubStorage e), s2)))) s))"

definition lock_release ::
  "'s storage_backend \<Rightarrow> publication_lock \<Rightarrow> ('s, publication_error, unit) eff" where
  "lock_release B lock =
     (if lk_released lock then eff_return ()
      else eff_map_err PubStorage (be_delete B (lk_object lock)))"

section \<open>Sessions\<close>

record session =
  se_dataset :: dataset_location
  se_version_id :: string
  se_run_id :: string
  se_state :: publication_state
  se_lock :: "publication_lock option"

type_synonym ('s, 'a) session_eff = "(session \<times> 's, publication_error, 'a) eff"

definition get_session :: "('s, session) session_eff" where
  "get_session = (\<lambda>(se, s). (Inr se, (se, s)))"

definition set_state :: "publication_state \<Rightarrow> ('s, unit) session_eff" where
  "set_state st = (\<lambda>(se, s). (Inr (), (se\<lparr>se_state := st\<rparr>, s)))"

definition persist_state ::
  "'s storage_backend \<Rightarrow> codec \<Rightarrow> timestamp \<Rightarrow> publication_state \<Rightarrow> ('s, unit) session_eff" where
  "persist_state B C now st =
     eff_bind get_session (\<lambda>se.
     eff_bind (object_at_eff (se_dataset se) (version_state_key (se_version_id se))) (\<lambda>x.
     eff_bind (eff_lift (map_err json_err (enc_state C
       \<lparr>psr_contract_version = PUBLICATION_CONTRACT_VERSION, psr_version_id = se_version_id se,
        psr_run_id = se_run_id se, psr_state = st, psr_updated_at = now\<rparr>))) (\<lambda>payload.
     eff_bind (on_snd (upsert_object B x payload)) (\<lambda>_.
     set_state st))))"

definition session_begin ::
  "'s storage_backend \<Rightarrow> codec \<Rightarrow> timestamp \<Rightarrow> dataset_location \<Rightarrow> string \<Rightarrow>
   ('s, publication_error, session) eff" where
  "session_begin B C now ds run_id =
     eff_bind (lock_acquire B C ds run_id) (\<lambda>lock.
     eff_bind (load_recovered_state B C now ds (wl_run_id (lk_record lock))) (\<lambda>r.
     (\<lambda>s. let se = \<lparr>se_dataset = ds, se_version_id = wl_run_id (lk_record lock),
              se_run_id = run_id,
              se_state = (case r of Some rec \<Rightarrow> psr_state rec | None \<Rightarrow> Preparing),
              se_lock = Some lock\<rparr>
          in if se_state se = Preparing then
               (case persist_state B C now Preparing (se, s) of
                  (Inl e, (se', s')) \<Rightarrow> (Inl e, s')
                | (Inr _, (se', s')) \<Rightarrow> (Inr se', s'))
             else (Inr se, s))))"

definition advance_to ::
  "'s storage_backend \<Rightarrow> codec \<Rightarrow> timestamp \<Rightarrow> publication_state \<Rightarrow> ('s, unit) session_eff" where
  "advance_to B C now nxt =
     eff_bind get_session (\<lambda>se.
       if se_state se = nxt then eff_return ()
       else if \<not> allows_transition (se_state se) nxt then
         eff_fail (InvalidTransition (se_state se) nxt)
       else persist_state B C now nxt)"

definition put_version_object ::
  "'s storage_backend \<Rightarrow> codec \<Rightarrow> timestamp \<Rightarrow> string \<Rightarrow> bytes \<Rightarrow> ('s, object_metadata) session_eff" where
  "put_version_object B C now relative data =
     eff_bind get_session (\<lambda>se.
       if ordinal (se_state se) < ordinal Preparing then
         eff_fail (Incomplete ''session not initialized'')
       else
         eff_bind (if se_state se = Preparing then advance_to B C now Uploading
                   else if ordinal (se_state se) > ordinal Uploading then
                     eff_fail (InvalidTransition (se_state se) Uploading)
                   else eff_return ()) (\<lambda>_.
         eff_bind (object_at_eff (se_dataset se) (version_data_key (se_version_id se) relative)) (\<lambda>x.
         on_snd (eff_map_err PubStorage (be_create B x must_not_exist data)))))"

definition mark_uploaded ::
  "'s storage_backend \<Rightarrow> codec \<Rightarrow> timestamp \<Rightarrow> ('s, unit) session_eff" where
  "mark_uploaded B C now = advance_to B C now Uploaded"

definition mark_verified ::
  "'s storage_backend \<Rightarrow> codec \<Rightarrow> timestamp \<Rightarrow> ('s, unit) session_eff" where
  "mark_verified B C now = advance_to B C now Verified"

definition write_manifest ::
  "'s storage_backend \<Rightarrow> codec \<Rightarrow> timestamp \<Rightarrow> publication_manifest \<Rightarrow> ('s, unit) session_eff" where
  "write_manifest B C now manifest =
     eff_bind get_session (\<lambda>se.
       if se_state se \<noteq> Verified then eff_fail (InvalidTransition (se_state se) ManifestWritten)
       else
         eff_bind (object_at_eff (se_dataset se) (version_manifest_key (se_version_id se))) (\<lambda>x.
         eff_bind (eff_lift (map_err json_err (enc_manifest C manifest))) (\<lambda>payload.
         eff_bind (on_snd (eff_map_err PubStorage (be_create B x must_not_exist payload))) (\<lambda>_.
         persist_state B C now ManifestWritten))))"

definition commit ::
  "'s storage_backend \<Rightarrow> codec \<Rightarrow> timestamp \<Rightarrow> ('s, bool) session_eff" where
  "commit B C now =
     eff_bind get_session (\<lambda>se.
       if se_state se \<noteq> ManifestWritten then
         eff_fail (InvalidTransition (se_state se) Committed)
       else
         eff_bind (on_snd (is_version_committed B (se_dataset se) (se_version_id se))) (\<lambda>already.
           if already then eff_bind (set_state Committed) (\<lambda>_. eff_return False)
           else
             eff_bind (object_at_eff (se_dataset se) (version_commit_key (se_version_id se))) (\<lambda>x.
             eff_bind (eff_lift (map_err json_err (enc_marker C
               \<lparr>cm_version_id = se_version_id se, cm_run_id = se_run_id se,
                cm_committed_at = now\<rparr>))) (\<lambda>payload.
             eff_bind (on_snd (eff_map_err PubStorage (be_create B x must_not_exist payload))) (\<lambda>_.
             eff_bind (persist_state B C now Committed) (\<lambda>_.
             eff_return True))))))"

definition promote_current ::
  "'s storage_backend \<Rightarrow> codec \<Rightarrow> timestamp \<Rightarrow> ('s, unit) session_eff" where
  "promote_current B C now =
     eff_bind get_session (\<lambda>se.
     eff_bind (on_snd (is_version_committed B (se_dataset se) (se_version_id se))) (\<lambda>committed.
       if \<not> committed then
         eff_fail (Incomplete ''cannot promote uncommitted version to CURRENT'')
       else
         eff_bind (object_at_eff (se_dataset se) CURRENT_KEY) (\<lambda>x.
         eff_bind (eff_lift (map_err json_err (enc_pointer C
           \<lparr>cp_version_id = se_version_id se\<rparr>))) (\<lambda>payload.
         eff_bind (on_snd (upsert_object B x payload)) (\<lambda>_.
         persist_state B C now Current)))))"

definition release_session :: "'s storage_backend \<Rightarrow> ('s, unit) session_eff" where
  "release_session B = (\<lambda>(se, s).
     case se_lock se of
       None \<Rightarrow> (Inr (), (se, s))
     | Some lock \<Rightarrow> on_snd (lock_release B lock) (se\<lparr>se_lock := None\<rparr>, s))"

definition session_abandon :: "'s storage_backend \<Rightarrow> ('s, unit) session_eff" where
  "session_abandon B = release_session B"

definition session_finish ::
  "'s storage_backend \<Rightarrow> codec \<Rightarrow> timestamp \<Rightarrow> bool \<Rightarrow> ('s, unit) session_eff" where
  "session_finish B C now promote =
     eff_bind get_session (\<lambda>se.
     eff_bind (if se_state se = ManifestWritten then eff_bind (commit B C now) (\<lambda>_. eff_return ())
               else eff_return ()) (\<lambda>_.
     eff_bind (if promote then promote_current B C now else eff_return ()) (\<lambda>_.
     release_session B)))"

end
