(* ===== verification/Publication_Spec.thy ===== *)
theory Publication_Spec
  imports Publication
begin

text \<open>
  The abstract publication machine and the refinement of the session methods to it.
  A dataset is a partial map from publication keys to bytes; one abstract step is one
  guarded write. Every session method, under any safe store and so under any fault, is
  a sequence of abstract steps (\<open>refines\<close>), and the invariants are proved once on the
  abstract machine.
\<close>

section \<open>Publication keys\<close>

datatype pkey =
  KLock | KCurrent | KState string | KManifest string | KCommit string | KData string string

fun key_string :: "pkey \<Rightarrow> string" where
  "key_string KLock = WRITER_LOCK_KEY"
| "key_string KCurrent = CURRENT_KEY"
| "key_string (KState v) = version_state_key v"
| "key_string (KManifest v) = version_manifest_key v"
| "key_string (KCommit v) = version_commit_key v"
| "key_string (KData v r) = version_data_key v r"

definition wf_run :: "string \<Rightarrow> bool" where
  "wf_run v = (CHR ''/'' \<notin> set v)"

fun wf_pkey :: "pkey \<Rightarrow> bool" where
  "wf_pkey KLock = True"
| "wf_pkey KCurrent = True"
| "wf_pkey (KState v) = wf_run v"
| "wf_pkey (KManifest v) = wf_run v"
| "wf_pkey (KCommit v) = wf_run v"
| "wf_pkey (KData v r) = (wf_run v \<and> (r = [] \<or> hd r \<noteq> CHR ''/''))"

lemmas key_defs = WRITER_LOCK_KEY_def CURRENT_KEY_def VERSIONS_PREFIX_def version_prefix_def
  version_state_key_def version_manifest_key_def version_commit_key_def version_data_key_def

text \<open>What follows \<open>.parqonaut/versions/\<close> in a key, split at the first slash.\<close>

fun key_tail :: "pkey \<Rightarrow> (string \<times> string) option" where
  "key_tail (KState v) = Some (v, ''state.json'')"
| "key_tail (KManifest v) = Some (v, ''manifest.json'')"
| "key_tail (KCommit v) = Some (v, ''COMMITTED'')"
| "key_tail (KData v r) = Some (v, ''data/'' @ r)"
| "key_tail _ = None"

lemma key_tail_split:
  "wf_pkey k \<Longrightarrow> key_tail k = Some p \<Longrightarrow>
   split_once (CHR ''/'') (drop 20 (key_string k)) = Some p \<and>
   take 20 (key_string k) = ''.parqonaut/versions/''"
  by (cases k) (auto simp: key_defs wf_run_def split_once_append trim_start_matches_id)

lemma key_tail_none: "key_tail k = None \<Longrightarrow> take 20 (key_string k) \<noteq> ''.parqonaut/versions/''"
  by (cases k) (auto simp: key_defs)

lemma key_tail_inj: "key_tail k = Some p \<Longrightarrow> key_tail k' = Some p \<Longrightarrow> k = k'"
  by (cases k; cases k') auto

lemma key_string_inj:
  assumes "wf_pkey k" and "wf_pkey k'" and eq: "key_string k = key_string k'"
  shows "k = k'"
proof (cases "key_tail k")
  case None
  with eq key_tail_split [OF assms(2)] key_tail_none [OF None] have "key_tail k' = None"
    by (cases "key_tail k'") auto
  with None eq show ?thesis by (cases k; cases k') (auto simp: key_defs)
next
  case (Some p)
  from key_tail_split [OF assms(1) Some] have tk: "split_once (CHR ''/'') (drop 20 (key_string k)) = Some p"
    and pre: "take 20 (key_string k) = ''.parqonaut/versions/''" by auto
  from pre eq obtain p' where p': "key_tail k' = Some p'"
    using key_tail_none [of k'] by (cases "key_tail k'") auto
  from key_tail_split [OF assms(2) p'] tk eq have "p' = p" by simp
  with Some p' show ?thesis by (blast intro: key_tail_inj)
qed

lemma key_string_relative: "key_string k \<noteq> [] \<and> hd (key_string k) = CHR ''.''"
  by (cases k) (auto simp: key_defs)

lemma object_at_inj:
  assumes "object_at ds r = Inr x" and "object_at ds r' = Inr x"
    and "r \<noteq> []" "hd r \<noteq> CHR ''/''" "r' \<noteq> []" "hd r' \<noteq> CHR ''/''"
  shows "r = r'"
  using assms
  by (cases ds)
    (auto simp: object_at_def path_join_def is_absolute_iff object_key_def Let_def
      trim_start_matches_id bind_res_Inr_iff split: if_splits)

section \<open>The view of a store\<close>

type_synonym view = "pkey \<Rightarrow> bytes option"

definition store_view ::
  "('s \<Rightarrow> object_location \<rightharpoonup> bytes) \<Rightarrow> dataset_location \<Rightarrow> 's \<Rightarrow> view" where
  "store_view objs ds s k =
     (if wf_pkey k then
        (case object_at ds (key_string k) of Inl _ \<Rightarrow> None | Inr x \<Rightarrow> objs s x)
      else None)"

text \<open>The objects of a dataset are objects the store's laws speak of.\<close>

definition addresses :: "object_location set \<Rightarrow> dataset_location \<Rightarrow> bool" where
  "addresses A ds \<longleftrightarrow> (\<forall>r x. object_at ds r = Inr x \<longrightarrow> x \<in> A)"

definition codec_ok :: "codec \<Rightarrow> bool" where
  "codec_ok C \<longleftrightarrow>
     (\<forall>r d. enc_state C r = Inr d \<longrightarrow> dec_state C d = Inr r) \<and>
     (\<forall>p d. enc_pointer C p = Inr d \<longrightarrow> dec_pointer C d = Inr p) \<and>
     (\<forall>l d. enc_lock C l = Inr d \<longrightarrow> dec_lock C d = Inr l)"

lemma object_at_key_inj:
  assumes "wf_pkey k" "wf_pkey k'" "object_at ds (key_string k) = Inr x"
    "object_at ds (key_string k') = Inr x"
  shows "k = k'"
  using key_string_inj object_at_inj [OF assms(3,4)] key_string_relative assms by fastforce

section \<open>The abstract machine\<close>

text \<open>
  The state of one writer with version \<open>v\<close>: its own idea of the publication state and
  the dataset. The guards say when each write may happen.
\<close>

inductive a_step ::
  "codec \<Rightarrow> string \<Rightarrow> publication_state \<times> view \<Rightarrow> publication_state \<times> view \<Rightarrow> bool"
  for C v where
  A_state: "ordinal st < ordinal ManifestWritten \<or> f (KManifest v) \<noteq> None \<or>
      ordinal ManifestWritten \<le> ordinal q \<or> f (KCommit v) \<noteq> None \<Longrightarrow>
    enc_state C rec = Inr d \<Longrightarrow> psr_state rec = st \<Longrightarrow>
    a_step C v (q, f) (st, f(KState v \<mapsto> d))"
| A_data: "q = Uploading \<Longrightarrow> wf_pkey (KData v r) \<Longrightarrow> f (KData v r) = None \<Longrightarrow>
    a_step C v (q, f) (q, f(KData v r \<mapsto> d))"
| A_manifest: "q = Verified \<Longrightarrow> f (KManifest v) = None \<Longrightarrow>
    a_step C v (q, f) (q, f(KManifest v \<mapsto> d))"
| A_commit: "q = ManifestWritten \<Longrightarrow> f (KCommit v) = None \<Longrightarrow>
    a_step C v (q, f) (q, f(KCommit v \<mapsto> d))"
| A_seen: "q = ManifestWritten \<Longrightarrow> f (KCommit v) \<noteq> None \<Longrightarrow>
    a_step C v (q, f) (Committed, f)"
| A_promote: "f (KCommit v) \<noteq> None \<Longrightarrow> enc_pointer C \<lparr>cp_version_id = v\<rparr> = Inr d \<Longrightarrow>
    a_step C v (q, f) (q, f(KCurrent \<mapsto> d))"

abbreviation a_steps :: "codec \<Rightarrow> string \<Rightarrow> publication_state \<times> view \<Rightarrow> publication_state \<times> view \<Rightarrow> bool" where
  "a_steps C v \<equiv> (a_step C v)\<^sup>*\<^sup>*"

fun immutable_key :: "pkey \<Rightarrow> bool" where
  "immutable_key (KManifest _) = True"
| "immutable_key (KCommit _) = True"
| "immutable_key (KData _ _) = True"
| "immutable_key _ = False"

fun key_version :: "pkey \<Rightarrow> string option" where
  "key_version KLock = None"
| "key_version KCurrent = None"
| "key_version (KState v) = Some v"
| "key_version (KManifest v) = Some v"
| "key_version (KCommit v) = Some v"
| "key_version (KData v r) = Some v"

definition pub_inv :: "codec \<Rightarrow> view \<Rightarrow> bool" where
  "pub_inv C f \<longleftrightarrow>
     (\<forall>v. f (KCommit v) \<noteq> None \<longrightarrow> f (KManifest v) \<noteq> None) \<and>
     (\<forall>v d rec. f (KState v) = Some d \<longrightarrow> dec_state C d = Inr rec \<longrightarrow>
        ordinal ManifestWritten \<le> ordinal (psr_state rec) \<longrightarrow> f (KManifest v) \<noteq> None) \<and>
     (\<forall>d p. f KCurrent = Some d \<longrightarrow> dec_pointer C d = Inr p \<longrightarrow> f (KCommit (cp_version_id p)) \<noteq> None)"

definition writer_inv :: "string \<Rightarrow> publication_state \<times> view \<Rightarrow> bool" where
  "writer_inv v qf \<longleftrightarrow>
     (ordinal ManifestWritten \<le> ordinal (fst qf) \<longrightarrow> snd qf (KManifest v) \<noteq> None)"

lemma a_step_inv:
  assumes "codec_ok C" and "a_step C v qf qf'" and "pub_inv C (snd qf)" and "writer_inv v qf"
  shows "pub_inv C (snd qf') \<and> writer_inv v qf'"
  using assms(2,1,3,4)
proof (cases rule: a_step.cases)
  case (A_state st f q rec d)
  have "f (KManifest v) \<noteq> None \<or> ordinal st < ordinal ManifestWritten"
    using A_state assms(3,4) by (auto simp: pub_inv_def writer_inv_def)
  with A_state assms show ?thesis
    by (auto simp: pub_inv_def writer_inv_def codec_ok_def)
next
  case (A_promote f d q)
  then have "dec_pointer C d = Inr \<lparr>cp_version_id = v\<rparr>"
    using assms(1) by (auto simp: codec_ok_def)
  with A_promote assms(3,4) show ?thesis by (auto simp: pub_inv_def writer_inv_def)
qed (auto simp: pub_inv_def writer_inv_def split: if_splits)

lemma a_steps_inv:
  assumes "a_steps C v qf qf'" and "codec_ok C" and "pub_inv C (snd qf)" and "writer_inv v qf"
  shows "pub_inv C (snd qf') \<and> writer_inv v qf'"
  using assms by (induction rule: rtranclp_induct) (blast dest: a_step_inv)+

text \<open>What a writer never does to a dataset.\<close>

definition evolves :: "string \<Rightarrow> view \<Rightarrow> view \<Rightarrow> bool" where
  "evolves v f g \<longleftrightarrow>
     (\<forall>k. immutable_key k \<longrightarrow> f k \<noteq> None \<longrightarrow> g k = f k) \<and>
     (\<forall>k. f k \<noteq> None \<longrightarrow> g k \<noteq> None) \<and>
     (\<forall>k. key_version k \<noteq> Some v \<longrightarrow> k \<noteq> KCurrent \<longrightarrow> g k = f k)"

lemma evolves_refl [simp]: "evolves v f f"
  by (simp add: evolves_def)

lemma evolves_trans: "evolves v f g \<Longrightarrow> evolves v g h \<Longrightarrow> evolves v f h"
  unfolding evolves_def by metis

lemma a_step_evolves: "a_step C v qf qf' \<Longrightarrow> evolves v (snd qf) (snd qf')"
  by (cases rule: a_step.cases, assumption) (auto simp: evolves_def)

lemma a_steps_evolves: "a_steps C v qf qf' \<Longrightarrow> evolves v (snd qf) (snd qf')"
  by (induction rule: rtranclp_induct) (auto intro: evolves_trans a_step_evolves)

end
