(* ===== verification/Publication_Refine.thy ===== *)
theory Publication_Refine
  imports Publication_Spec
begin

text \<open>
  The session methods refine the abstract publication machine over every safe store.
  The lemmas live in the \<open>safe_store\<close> locale; the memory backend and the
  fault-injecting wrapper over it inherit them.
\<close>

text \<open>The part of \<open>lock_acquire\<close> after the capability test, as one effect.\<close>

lemma eff_bind_elim:
  assumes "eff_bind m f s = (r, s')"
  obtains (err) e where "m s = (Inl e, s')" "r = Inl e"
  | (ok) a s1 where "m s = (Inr a, s1)" "f a s1 = (r, s')"
  using assms by (auto simp: eff_bind_def split: prod.splits sum.splits)

lemma eff_map_err_elim:
  assumes "eff_map_err g m s = (r, s')"
  obtains r0 where "m s = (r0, s')" "r = map_err g r0"
  using assms by (auto simp: eff_map_err_def split: prod.splits)

lemma on_snd_elim:
  assumes "on_snd m ts = (r, ts')"
  obtains t s s' where "ts = (t, s)" "ts' = (t, s')" "m s = (r, s')"
  using assms by (auto simp: on_snd_def split: prod.splits)

lemma optional_elim:
  assumes "optional m s = (r, s')"
  obtains (some) a where "m s = (Inr a, s')" "r = Inr (Some a)"
  | (none) l where "m s = (Inl (PubStorage (NotFound l)), s')" "r = Inr None"
  | (err) e where "m s = (Inl e, s')" "r = Inl e"
  using assms
  by (auto simp: optional_def split: prod.splits sum.splits publication_error.splits
      storage_error.splits)

lemma object_at_eff_elim:
  assumes "object_at_eff ds rel s = (r, s')"
  obtains (err) e where "r = Inl (PubStorage e)" "s' = s" "object_at ds rel = Inl e"
  | (ok) x where "r = Inr x" "s' = s" "object_at ds rel = Inr x"
  using assms by (cases "object_at ds rel") (auto simp: object_at_eff_def)

text \<open>
  A session method refines the abstract machine: it keeps the session's identity, and
  the change of the pair of session state and dataset is a sequence of abstract steps.
\<close>

definition refines ::
  "('s \<Rightarrow> bool) \<Rightarrow> ('s \<Rightarrow> view) \<Rightarrow> codec \<Rightarrow> dataset_location \<Rightarrow> string \<Rightarrow> ('s, 'a) session_eff \<Rightarrow> bool" where
  "refines ok V C ds v m \<longleftrightarrow>
     (\<forall>se s r se' s'. ok s \<longrightarrow> se_dataset se = ds \<longrightarrow> se_version_id se = v \<longrightarrow>
        m (se, s) = (r, (se', s')) \<longrightarrow>
        ok s' \<and> se' = se\<lparr>se_state := se_state se'\<rparr> \<and>
        a_steps C v (se_state se, V s) (se_state se', V s'))"

lemma refinesI:
  assumes "\<And>se s r se' s'. ok s \<Longrightarrow> se_dataset se = ds \<Longrightarrow> se_version_id se = v \<Longrightarrow>
     m (se, s) = (r, (se', s')) \<Longrightarrow>
     ok s' \<and> se' = se\<lparr>se_state := se_state se'\<rparr> \<and>
     a_steps C v (se_state se, V s) (se_state se', V s')"
  shows "refines ok V C ds v m"
  using assms unfolding refines_def by blast

lemma refinesD:
  assumes "refines ok V C ds v m" "ok s" "se_dataset se = ds" "se_version_id se = v"
    "m (se, s) = (r, (se', s'))"
  shows "ok s'" "se' = se\<lparr>se_state := se_state se'\<rparr>"
    "a_steps C v (se_state se, V s) (se_state se', V s')"
  using assms unfolding refines_def by blast+

lemma refines_return [simp]: "refines ok V C ds v (eff_return a)"
  by (auto intro!: refinesI)

lemma refines_fail [simp]: "refines ok V C ds v (eff_fail e)"
  by (auto intro!: refinesI)

lemma session_trans:
  "se1 = se\<lparr>se_state := st1\<rparr> \<Longrightarrow> se2 = se1\<lparr>se_state := st2\<rparr> \<Longrightarrow> se2 = se\<lparr>se_state := st2\<rparr>"
  by simp

lemma session_frame:
  "se' = se\<lparr>se_state := st\<rparr> \<Longrightarrow> se_dataset se' = se_dataset se \<and> se_version_id se' = se_version_id se"
  by simp

lemma refines_bind:
  assumes "refines ok V C ds v m" and "\<And>a. refines ok V C ds v (f a)"
  shows "refines ok V C ds v (eff_bind m f)"
proof (rule refinesI)
  fix se s r se' s'
  assume ok: "ok s" and se: "se_dataset se = ds" "se_version_id se = v"
    and run: "eff_bind m f (se, s) = (r, (se', s'))"
  from run show "ok s' \<and> se' = se\<lparr>se_state := se_state se'\<rparr> \<and>
     a_steps C v (se_state se, V s) (se_state se', V s')"
  proof (cases rule: eff_bind_elim)
    case (err e)
    then show ?thesis using refinesD [OF assms(1) ok se] by blast
  next
    case (ok a p)
    obtain se1 s1 where p: "p = (se1, s1)" by (cases p)
    note 1 = refinesD [OF assms(1) \<open>ok s\<close> se ok(1) [unfolded p]]
    have se1: "se_dataset se1 = ds" "se_version_id se1 = v"
      using session_frame [OF 1(2)] se by auto
    note 2 = refinesD [OF assms(2) 1(1) se1 ok(2) [unfolded p]]
    show ?thesis using 2(1) session_trans [OF 1(2) 2(2)] rtranclp_trans [OF 1(3) 2(3)] by blast
  qed
qed

lemma get_session_run: "get_session ts = (r, ts') \<Longrightarrow> r = Inr (fst ts) \<and> ts' = ts"
  by (auto simp: get_session_def split: prod.splits)

lemma eff_bind_get [simp]: "eff_bind get_session f (se, s) = f se (se, s)"
  by (simp add: eff_bind_def get_session_def)

text \<open>The lock object names run \<open>v\<close>.\<close>

definition lock_owner :: "codec \<Rightarrow> view \<Rightarrow> string \<Rightarrow> bool" where
  "lock_owner C f v \<longleftrightarrow> (\<exists>d rec. f KLock = Some d \<and> dec_lock C d = Inr rec \<and> wl_run_id rec = v)"

lemma lock_owner_unique: "lock_owner C f v \<Longrightarrow> lock_owner C f w \<Longrightarrow> v = w"
  by (auto simp: lock_owner_def)

lemma lock_owner_cong: "f KLock = g KLock \<Longrightarrow> lock_owner C f v = lock_owner C g v"
  by (simp add: lock_owner_def)

context safe_store
begin

lemma view_ext:
  assumes "addresses A ds"
    and "\<And>k x. wf_pkey k \<Longrightarrow> object_at ds (key_string k) = Inr x \<Longrightarrow> x \<in> A \<Longrightarrow> objs s' x = g k"
    and "\<And>k. \<not> wf_pkey k \<Longrightarrow> g k = None"
    and "\<And>k e. object_at ds (key_string k) = Inl e \<Longrightarrow> g k = None"
  shows "store_view objs ds s' = g"
proof
  fix k show "store_view objs ds s' k = g k"
    using assms by (auto simp: store_view_def addresses_def split: sum.split)
qed

lemma view_at:
  "wf_pkey k \<Longrightarrow> object_at ds (key_string k) = Inr x \<Longrightarrow> store_view objs ds s k = objs s x"
  by (simp add: store_view_def)

lemma view_same:
  assumes "addresses A ds" and "\<And>y. y \<in> A \<Longrightarrow> objs s' y = objs s y"
  shows "store_view objs ds s' = store_view objs ds s"
  by (rule view_ext [OF assms(1)]) (auto simp: store_view_def assms(2) split: sum.split)

lemma view_upd:
  assumes "addresses A ds" and "wf_pkey k" and "object_at ds (key_string k) = Inr x"
    and "\<And>y. y \<in> A \<Longrightarrow> objs s' y = ((objs s)(x := w)) y"
  shows "store_view objs ds s' = (store_view objs ds s)(k := w)"
  by (rule view_ext [OF assms(1)])
    (use assms object_at_key_inj in \<open>auto simp: store_view_def split: sum.split\<close>)

lemma view_head:
  assumes "addresses A ds" "ok s" "wf_pkey k" "object_at ds (key_string k) = Inr x"
    and "be_head B x s = (r, s')"
  shows "ok s'" and "store_view objs ds s' = store_view objs ds s"
    and "r = Inr m \<Longrightarrow> store_view objs ds s k \<noteq> None"
proof -
  have xA: "x \<in> A" using assms(1,4) by (auto simp: addresses_def)
  show "ok s'" using ok_head [OF assms(2), of x] assms(5) by simp
  show "store_view objs ds s' = store_view objs ds s"
    using head_frame [OF assms(2) xA] assms(5) by (intro view_same [OF assms(1)]) simp
  show "store_view objs ds s k \<noteq> None" if "r = Inr m"
    using head_ok [OF assms(2) xA] assms(3-5) that by (auto simp: view_at)
qed

lemma view_read:
  assumes "addresses A ds" "ok s" "wf_pkey k" "object_at ds (key_string k) = Inr x"
    and "be_read B x s = (r, s')"
  shows "ok s'" and "store_view objs ds s' = store_view objs ds s"
    and "r = Inr d \<Longrightarrow> store_view objs ds s k = Some d"
proof -
  have xA: "x \<in> A" using assms(1,4) by (auto simp: addresses_def)
  show "ok s'" using ok_read [OF assms(2), of x] assms(5) by simp
  show "store_view objs ds s' = store_view objs ds s"
    using read_frame [OF assms(2) xA] assms(5) by (intro view_same [OF assms(1)]) simp
  show "store_view objs ds s k = Some d" if "r = Inr d"
    using read_ok [OF assms(2) xA] assms(3-5) that by (auto simp: view_at)
qed

lemma view_create:
  assumes "addresses A ds" "ok s" "wf_pkey k" "object_at ds (key_string k) = Inr x"
    and "be_create B x must_not_exist d s = (r, s')"
  shows "ok s'" and "r = Inl e \<Longrightarrow> store_view objs ds s' = store_view objs ds s"
    and "r = Inr m \<Longrightarrow> store_view objs ds s k = None"
    and "r = Inr m \<Longrightarrow> store_view objs ds s' = (store_view objs ds s)(k \<mapsto> d)"
proof -
  have xA: "x \<in> A" using assms(1,4) by (auto simp: addresses_def)
  show "ok s'" using ok_create [OF assms(2), of x must_not_exist d] assms(5) by simp
  show "store_view objs ds s' = store_view objs ds s" if "r = Inl e"
    using create_err [OF assms(2) xA] assms(5) that by (intro view_same [OF assms(1)]) blast
  show "store_view objs ds s k = None" if "r = Inr m"
    using create_absent [OF assms(2) xA] assms(3-5) that by (auto simp: view_at must_not_exist_def)
  show "store_view objs ds s' = (store_view objs ds s)(k \<mapsto> d)" if "r = Inr m"
    using create_ok [OF assms(2) xA] assms(5) that by (intro view_upd [OF assms(1,3,4)]) blast
qed

lemma view_replace:
  assumes "addresses A ds" "ok s" "wf_pkey k" "object_at ds (key_string k) = Inr x"
    and "be_replace B x rc d s = (r, s')"
  shows "ok s'" and "r = Inl e \<Longrightarrow> store_view objs ds s' = store_view objs ds s"
    and "r = Inr m \<Longrightarrow> store_view objs ds s' = (store_view objs ds s)(k \<mapsto> d)"
proof -
  have xA: "x \<in> A" using assms(1,4) by (auto simp: addresses_def)
  show "ok s'" using ok_replace [OF assms(2), of x rc d] assms(5) by simp
  show "store_view objs ds s' = store_view objs ds s" if "r = Inl e"
    using replace_err [OF assms(2) xA] assms(5) that by (intro view_same [OF assms(1)]) blast
  show "store_view objs ds s' = (store_view objs ds s)(k \<mapsto> d)" if "r = Inr m"
    using replace_ok [OF assms(2) xA] assms(5) that by (intro view_upd [OF assms(1,3,4)]) blast
qed

lemma view_delete:
  assumes "addresses A ds" "ok s" "wf_pkey k" "object_at ds (key_string k) = Inr x"
    and "be_delete B x s = (r, s')"
  shows "ok s'" and "r = Inl e \<Longrightarrow> store_view objs ds s' = store_view objs ds s"
    and "r = Inr u \<Longrightarrow> store_view objs ds s' = (store_view objs ds s)(k := None)"
proof -
  have xA: "x \<in> A" using assms(1,4) by (auto simp: addresses_def)
  show "ok s'" using ok_delete [OF assms(2), of x] assms(5) by simp
  show "store_view objs ds s' = store_view objs ds s" if "r = Inl e"
    using delete_err [OF assms(2) xA] assms(5) that by (intro view_same [OF assms(1)]) blast
  show "store_view objs ds s' = (store_view objs ds s)(k := None)" if "r = Inr u"
    using delete_ok [OF assms(2) xA] assms(5) that by (intro view_upd [OF assms(1,3,4)]) blast
qed

subsection \<open>Helpers\<close>

lemma read_json_view:
  assumes "addresses A ds" "ok s" "wf_pkey k" "object_at ds (key_string k) = Inr x"
    and "read_json_object B dec x s = (r, s')"
  shows "ok s'" and "store_view objs ds s' = store_view objs ds s"
    and "r = Inr a \<Longrightarrow> \<exists>d. store_view objs ds s k = Some d \<and> dec d = Inr a"
  using assms(5) view_read [OF assms(1-4)]
  by (auto simp: read_json_object_def elim!: eff_bind_elim eff_map_err_elim)

lemma optional_json_view:
  assumes "addresses A ds" "ok s" "wf_pkey k" "object_at ds (key_string k) = Inr x"
    and "optional (read_json_object B dec x) s = (r, s')"
  shows "ok s'" and "store_view objs ds s' = store_view objs ds s"
    and "r = Inr (Some a) \<Longrightarrow> \<exists>d. store_view objs ds s k = Some d \<and> dec d = Inr a"
  using assms(5) read_json_view [OF assms(1-4), of dec]
  by (auto elim!: optional_elim)

lemma committed_view:
  assumes "addresses A ds" "ok s" "wf_run v" and "is_version_committed B ds v s = (r, s')"
  shows "ok s'" and "store_view objs ds s' = store_view objs ds s"
    and "r = Inr True \<Longrightarrow> store_view objs ds s (KCommit v) \<noteq> None"
  using assms(3,4) view_head [OF assms(1,2), of "KCommit v"] assms(2)
  by (auto simp: is_version_committed_def elim!: eff_bind_elim object_at_eff_elim optional_elim
      eff_map_err_elim)

lemma current_view:
  assumes "addresses A ds" "ok s" and "read_current_version B C ds s = (r, s')"
  shows "ok s'" and "store_view objs ds s' = store_view objs ds s"
  using assms(3) optional_json_view [OF assms(1,2), of KCurrent _ "dec_pointer C"] assms(2)
  by (auto simp: read_current_version_def elim!: eff_bind_elim object_at_eff_elim)

lemma upsert_view:
  assumes "addresses A ds" "ok s" "wf_pkey k" "object_at ds (key_string k) = Inr x"
    and "upsert_object B x d s = (r, s')"
  shows "ok s'" and "r = Inl e \<Longrightarrow> store_view objs ds s' = store_view objs ds s"
    and "r = Inr u \<Longrightarrow> store_view objs ds s' = (store_view objs ds s)(k \<mapsto> d)"
proof -
  note h = view_head [OF assms(1,2,3,4)]
  have *: "ok s' \<and> (\<forall>e. r = Inl e \<longrightarrow> store_view objs ds s' = store_view objs ds s) \<and>
    (\<forall>u. r = Inr u \<longrightarrow> store_view objs ds s' = (store_view objs ds s)(k \<mapsto> d))"
    using assms(5) unfolding upsert_object_def
  proof (cases rule: eff_bind_elim)
    case (err e)
    then show ?thesis using h by (auto elim!: optional_elim eff_map_err_elim)
  next
    case (ok hm s1)
    then have s1: "ok s1" "store_view objs ds s1 = store_view objs ds s"
      using h by (auto elim!: optional_elim eff_map_err_elim)
    show ?thesis
      using ok(2) view_create [OF assms(1) s1(1) assms(3,4)] view_replace [OF assms(1) s1(1) assms(3,4)] s1
      by (cases hm) (auto elim!: eff_bind_elim eff_map_err_elim simp: Inl_map_err_iff)
  qed
  then show "ok s'" and "r = Inl e \<Longrightarrow> store_view objs ds s' = store_view objs ds s"
    and "r = Inr u \<Longrightarrow> store_view objs ds s' = (store_view objs ds s)(k \<mapsto> d)"
    by auto
qed

subsection \<open>Session methods\<close>

lemma persist_outcome:
  assumes "addresses A ds" "ok s" "wf_run v" "se_dataset se = ds" "se_version_id se = v"
    and "persist_state B C now st (se, s) = (r, (se', s'))"
  shows "ok s'"
    and "r = Inl e \<Longrightarrow> se' = se \<and> store_view objs ds s' = store_view objs ds s"
    and "r = Inr u \<Longrightarrow> se' = se\<lparr>se_state := st\<rparr> \<and> (\<exists>rec d. enc_state C rec = Inr d \<and>
      psr_state rec = st \<and> store_view objs ds s' = (store_view objs ds s)(KState v \<mapsto> d))"
proof -
  let ?rec = "\<lparr>psr_contract_version = PUBLICATION_CONTRACT_VERSION, psr_version_id = v,
      psr_run_id = se_run_id se, psr_state = st, psr_updated_at = now\<rparr>"
  have "ok s' \<and> (\<forall>e. r = Inl e \<longrightarrow> se' = se \<and> store_view objs ds s' = store_view objs ds s) \<and>
    (\<forall>u. r = Inr u \<longrightarrow> se' = se\<lparr>se_state := st\<rparr> \<and> (\<exists>rec d. enc_state C rec = Inr d \<and>
      psr_state rec = st \<and> store_view objs ds s' = (store_view objs ds s)(KState v \<mapsto> d)))"
  proof (cases "\<exists>x d. object_at ds (version_state_key v) = Inr x \<and> enc_state C ?rec = Inr d")
    case False
    with assms(2,4-6) show ?thesis
      by (cases "object_at ds (version_state_key v)"; cases "enc_state C ?rec")
        (auto simp: persist_state_def eff_bind_apply get_session_def object_at_eff_def)
  next
    case True
    then obtain x d where x: "object_at ds (version_state_key v) = Inr x" and d: "enc_state C ?rec = Inr d"
      by blast
    obtain r1 s1 where up: "upsert_object B x d s = (r1, s1)" by (cases "upsert_object B x d s")
    note view = upsert_view [OF assms(1,2), of "KState v" x d r1 s1]
    have "r = r1 \<and> s' = s1 \<and> se' = (if is_ok r1 then se\<lparr>se_state := st\<rparr> else se)"
      using assms(4-6) x d up
      by (cases r1) (auto simp: persist_state_def eff_bind_apply get_session_def object_at_eff_def on_snd_def set_state_def)
    moreover have "psr_state ?rec = st" by simp
    ultimately show ?thesis
      using view x up assms(3) d by (cases r1) (auto intro!: exI [of _ ?rec] exI [of _ d])
  qed
  then show "ok s'"
    and "r = Inl e \<Longrightarrow> se' = se \<and> store_view objs ds s' = store_view objs ds s"
    and "r = Inr u \<Longrightarrow> se' = se\<lparr>se_state := st\<rparr> \<and> (\<exists>rec d. enc_state C rec = Inr d \<and>
      psr_state rec = st \<and> store_view objs ds s' = (store_view objs ds s)(KState v \<mapsto> d))"
    by auto
qed

lemma persist_steps:
  assumes "addresses A ds" "ok s" "wf_run v" "se_dataset se = ds" "se_version_id se = v"
    and "persist_state B C now st (se, s) = (r, (se', s'))"
    and guard: "ordinal st < ordinal ManifestWritten \<or> store_view objs ds s (KManifest v) \<noteq> None \<or>
      ordinal ManifestWritten \<le> ordinal (se_state se) \<or> store_view objs ds s (KCommit v) \<noteq> None"
  shows "ok s' \<and> se' = se\<lparr>se_state := se_state se'\<rparr> \<and>
    a_steps C v (se_state se, store_view objs ds s) (se_state se', store_view objs ds s')"
proof (cases r)
  case (Inl e)
  then show ?thesis using persist_outcome [OF assms(1-6)] by simp
next
  case (Inr u)
  then obtain rec d where "ok s'" "se' = se\<lparr>se_state := st\<rparr>" "enc_state C rec = Inr d"
    "psr_state rec = st" "store_view objs ds s' = (store_view objs ds s)(KState v \<mapsto> d)"
    using persist_outcome [OF assms(1-6)] by blast
  then show ?thesis
    using a_step.A_state [of st "store_view objs ds s" v "se_state se" C rec d] guard by auto
qed

lemma advance_refines:
  assumes "addresses A ds" "wf_run v" "nxt \<noteq> ManifestWritten"
  shows "refines ok (store_view objs ds) C ds v (advance_to B C now nxt)"
proof (rule refinesI)
  fix se s r se' s'
  assume *: "ok s" "se_dataset se = ds" "se_version_id se = v"
    and run: "advance_to B C now nxt (se, s) = (r, (se', s'))"
  have guard: "ordinal nxt < ordinal ManifestWritten \<or> ordinal ManifestWritten \<le> ordinal (se_state se)"
    if "allows_transition (se_state se) nxt"
    using that assms(3) by (cases nxt; cases "se_state se") simp_all
  show "ok s' \<and> se' = se\<lparr>se_state := se_state se'\<rparr> \<and>
    a_steps C v (se_state se, store_view objs ds s) (se_state se', store_view objs ds s')"
  proof (cases "se_state se \<noteq> nxt \<and> allows_transition (se_state se) nxt")
    case True
    then have "persist_state B C now nxt (se, s) = (r, (se', s'))" using run by (simp add: advance_to_def)
    from persist_steps [OF assms(1) *(1) assms(2) *(2,3) this] guard True show ?thesis by blast
  qed (use run * in \<open>auto simp: advance_to_def split: if_splits\<close>)
qed

text \<open>Whatever state it is asked for, \<open>advance_to\<close> writes nothing but the state record.\<close>

lemma advance_evolves:
  assumes "addresses A ds" "ok s" "wf_run v" "se_dataset se = ds" "se_version_id se = v"
    and "advance_to B C now nxt (se, s) = (r, (se', s'))"
  shows "ok s' \<and> se' = se\<lparr>se_state := se_state se'\<rparr> \<and> evolves v (store_view objs ds s) (store_view objs ds s')"
proof (cases "se_state se \<noteq> nxt \<and> allows_transition (se_state se) nxt")
  case True
  then have "persist_state B C now nxt (se, s) = (r, (se', s'))" using assms(6) by (simp add: advance_to_def)
  note out = persist_outcome [OF assms(1-5) this]
  show ?thesis
  proof (cases r)
    case (Inl e)
    then show ?thesis using out(1,2) by simp
  next
    case (Inr u)
    then show ?thesis using out(1) out(3) by (auto simp: evolves_def)
  qed
qed (use assms in \<open>auto simp: advance_to_def split: if_splits\<close>)

lemma create_eff_run:
  assumes "on_snd (eff_map_err PubStorage (be_create B x must_not_exist d)) (se, s) = (r, (se', s'))"
  obtains r0 where "be_create B x must_not_exist d s = (r0, s')" "r = map_err PubStorage r0" "se' = se"
  using assms by (auto elim!: on_snd_elim eff_map_err_elim)

lemma advance_to_state:
  assumes "addresses A ds" "ok s" "wf_run v" "se_dataset se = ds" "se_version_id se = v"
    and "advance_to B C now nxt (se, s) = (Inr u, (se', s'))"
  shows "se_state se' = nxt"
  using assms persist_outcome(3) [OF assms(1-5), of C now nxt "Inr u"]
  by (auto simp: advance_to_def split: if_splits)

lemma version_data_key_trim [simp]:
  "version_data_key v (trim_start_matches (CHR ''/'') rel) = version_data_key v rel"
  by (simp add: version_data_key_def)

lemma wf_data_key: "wf_run v \<Longrightarrow> wf_pkey (KData v (trim_start_matches (CHR ''/'') rel))"
  unfolding wf_pkey.simps using trim_start_matches_hd by blast

lemma put_data_steps:
  assumes "addresses A ds" "ok s" "wf_run v" "se_state se = Uploading"
    and "eff_bind (object_at_eff ds (version_data_key v rel))
      (\<lambda>x. on_snd (eff_map_err PubStorage (be_create B x must_not_exist d))) (se, s) = (r, (se', s'))"
  shows "ok s' \<and> se' = se\<lparr>se_state := se_state se'\<rparr> \<and>
    a_steps C v (se_state se, store_view objs ds s) (se_state se', store_view objs ds s')"
  using assms(5)
proof (cases rule: eff_bind_elim)
  case (err e)
  then show ?thesis using assms(2) by (auto elim!: object_at_eff_elim)
next
  case (ok x p)
  then have p: "p = (se, s)" and x: "object_at ds (version_data_key v rel) = Inr x"
    by (auto elim!: object_at_eff_elim)
  let ?k = "KData v (trim_start_matches (CHR ''/'') rel)"
  from ok(2) p obtain r0 where run: "be_create B x must_not_exist d s = (r0, s')" "se' = se"
    by (auto elim!: create_eff_run)
  note view = view_create [OF assms(1,2) wf_data_key [OF assms(3)] _ run(1), of rel]
  show ?thesis
  proof (cases r0)
    case (Inl e)
    then show ?thesis using view x run(2) by simp
  next
    case (Inr m)
    then have "ok s'" "store_view objs ds s ?k = None"
      "store_view objs ds s' = (store_view objs ds s)(?k \<mapsto> d)"
      using view x by simp_all
    then show ?thesis
      using a_step.A_data [OF assms(4) wf_data_key [OF assms(3)], of "store_view objs ds s" rel C d] run(2)
      by auto
  qed
qed

lemma put_refines:
  assumes "addresses A ds" "wf_run v"
  shows "refines ok (store_view objs ds) C ds v (put_version_object B C now rel d)"
proof (rule refinesI)
  fix se s r se' s'
  assume ok: "ok s" and se: "se_dataset se = ds" "se_version_id se = v"
    and run: "put_version_object B C now rel d (se, s) = (r, (se', s'))"
  let ?stage1 = "if se_state se = Preparing then advance_to B C now Uploading
     else if ordinal (se_state se) > ordinal Uploading then
       eff_fail (InvalidTransition (se_state se) Uploading) else eff_return ()"
  have r1: "refines ok (store_view objs ds) C ds v ?stage1"
    using advance_refines [OF assms, of Uploading] by simp
  have "eff_bind ?stage1 (\<lambda>_. eff_bind (object_at_eff ds (version_data_key v rel))
      (\<lambda>x. on_snd (eff_map_err PubStorage (be_create B x must_not_exist d)))) (se, s) = (r, (se', s'))"
    using run se by (simp add: put_version_object_def)
  then show "ok s' \<and> se' = se\<lparr>se_state := se_state se'\<rparr> \<and>
    a_steps C v (se_state se, store_view objs ds s) (se_state se', store_view objs ds s')"
  proof (cases rule: eff_bind_elim)
    case (err e)
    then show ?thesis using refinesD [OF r1 ok se] by blast
  next
    case st1: (ok u p)
    obtain se1 s1 where p: "p = (se1, s1)" by (cases p)
    note 1 = refinesD [OF r1 ok se st1(1) [unfolded p]]
    have up: "se_state se1 = Uploading"
      using st1(1) p advance_to_state [OF assms(1) ok assms(2) se] ok
      by (cases "se_state se") (auto split: if_splits)
    note 2 = put_data_steps [OF assms(1) 1(1) assms(2) up st1(2) [unfolded p], of C]
    show ?thesis using 2 session_trans [OF 1(2)] rtranclp_trans [OF 1(3)] by blast
  qed
qed

lemma manifest_refines:
  assumes "addresses A ds" "wf_run v"
  shows "refines ok (store_view objs ds) C ds v (write_manifest B C now m)"
proof (rule refinesI)
  fix se s r se' s'
  assume ok: "ok s" and se: "se_dataset se = ds" "se_version_id se = v"
    and run: "write_manifest B C now m (se, s) = (r, (se', s'))"
  show "ok s' \<and> se' = se\<lparr>se_state := se_state se'\<rparr> \<and>
    a_steps C v (se_state se, store_view objs ds s) (se_state se', store_view objs ds s')"
  proof (cases "se_state se = Verified \<and> (\<exists>x d. object_at ds (version_manifest_key v) = Inr x \<and> enc_manifest C m = Inr d)")
    case False
    then show ?thesis using run ok se
      by (cases "object_at ds (version_manifest_key v)"; cases "enc_manifest C m")
        (auto simp: write_manifest_def eff_bind_apply get_session_def object_at_eff_def split: if_splits)
  next
    case True
    then obtain x d where x: "object_at ds (version_manifest_key v) = Inr x"
      and d: "enc_manifest C m = Inr d" and ver: "se_state se = Verified" by blast
    obtain r0 s1 where cr: "be_create B x must_not_exist d s = (r0, s1)"
      by (cases "be_create B x must_not_exist d s")
    note view = view_create [OF assms(1) ok, of "KManifest v" x d r0 s1]
    show ?thesis
    proof (cases r0)
      case (Inl e)
      then show ?thesis using run se x d ver cr view assms(2)
        by (auto simp: write_manifest_def eff_bind_apply get_session_def object_at_eff_def
            on_snd_def eff_map_err_def)
    next
      case (Inr mt)
      have v1: "ok s1" "store_view objs ds s (KManifest v) = None"
        "store_view objs ds s1 = (store_view objs ds s)(KManifest v \<mapsto> d)"
        using view x cr assms(2) Inr by simp_all
      have "persist_state B C now ManifestWritten (se, s1) = (r, (se', s'))"
        using run se x d ver cr Inr
        by (simp add: write_manifest_def eff_bind_apply get_session_def object_at_eff_def
            on_snd_def eff_map_err_def)
      from persist_steps [OF assms(1) v1(1) assms(2) se this] v1(3)
      have 2: "ok s' \<and> se' = se\<lparr>se_state := se_state se'\<rparr> \<and>
        a_steps C v (se_state se, store_view objs ds s1) (se_state se', store_view objs ds s')" by simp
      have "a_step C v (se_state se, store_view objs ds s) (se_state se, store_view objs ds s1)"
        unfolding v1(3) using ver v1(2) by (rule a_step.A_manifest)
      with 2 show ?thesis by (metis converse_rtranclp_into_rtranclp)
    qed
  qed
qed

lemma commit_refines:
  assumes "addresses A ds" "wf_run v"
  shows "refines ok (store_view objs ds) C ds v (commit B C now)"
proof (rule refinesI)
  fix se s r se' s'
  assume ok: "ok s" and se: "se_dataset se = ds" "se_version_id se = v"
    and run: "commit B C now (se, s) = (r, (se', s'))"
  let ?mk = "\<lparr>cm_version_id = v, cm_run_id = se_run_id se, cm_committed_at = now\<rparr>"
  show "ok s' \<and> se' = se\<lparr>se_state := se_state se'\<rparr> \<and>
    a_steps C v (se_state se, store_view objs ds s) (se_state se', store_view objs ds s')"
  proof (cases "se_state se = ManifestWritten")
    case False
    then show ?thesis using run ok by (auto simp: commit_def)
  next
    case mw: True
    obtain rc s1 where ic: "is_version_committed B ds v s = (rc, s1)"
      by (cases "is_version_committed B ds v s")
    note view1 = committed_view [OF assms(1) ok assms(2) ic]
    consider (err) e where "rc = Inl e" | (already) "rc = Inr True" | (fresh) "rc = Inr False"
      by (cases rc) auto
    then show ?thesis
    proof cases
      case err
      then show ?thesis using run se mw ic view1
        by (auto simp: commit_def eff_bind_apply get_session_def on_snd_def)
    next
      case already
      then have "se' = se\<lparr>se_state := Committed\<rparr>" "s' = s1"
        using run se mw ic
        by (auto simp: commit_def eff_bind_apply get_session_def on_snd_def set_state_def)
      then show ?thesis using view1 already mw
        a_step.A_seen [of ManifestWritten "store_view objs ds s" v C] by auto
    next
      case fresh
      show ?thesis
      proof (cases "\<exists>x d. object_at ds (version_commit_key v) = Inr x \<and> enc_marker C ?mk = Inr d")
        case False
        then show ?thesis using run se mw ic view1 fresh
          by (cases "object_at ds (version_commit_key v)"; cases "enc_marker C ?mk")
            (auto simp: commit_def eff_bind_apply get_session_def on_snd_def object_at_eff_def)
      next
        case True
        then obtain x d where x: "object_at ds (version_commit_key v) = Inr x"
          and d: "enc_marker C ?mk = Inr d" by blast
        obtain r0 s2 where cr: "be_create B x must_not_exist d s1 = (r0, s2)"
          by (cases "be_create B x must_not_exist d s1")
        note view2 = view_create [OF assms(1) view1(1), of "KCommit v" x d r0 s2]
        show ?thesis
        proof (cases r0)
          case (Inl e)
          then show ?thesis using run se mw ic view1 fresh x d cr view2 assms(2)
            by (auto simp: commit_def eff_bind_apply get_session_def on_snd_def object_at_eff_def
                eff_map_err_def)
        next
          case (Inr mt)
          have v2: "ok s2" "store_view objs ds s (KCommit v) = None"
            "store_view objs ds s2 = (store_view objs ds s)(KCommit v \<mapsto> d)"
            using view2 view1 x cr assms(2) Inr by simp_all
          obtain rp sp where pr: "persist_state B C now Committed (se, s2) = (rp, sp)"
            by (cases "persist_state B C now Committed (se, s2)")
          have sp: "sp = (se', s')"
            using run se mw ic fresh x d cr Inr pr
            by (cases rp; cases sp)
              (auto simp: commit_def eff_bind_apply get_session_def on_snd_def object_at_eff_def
                eff_map_err_def)
          have 2: "ok s' \<and> se' = se\<lparr>se_state := se_state se'\<rparr> \<and>
            a_steps C v (se_state se, store_view objs ds s2) (se_state se', store_view objs ds s')"
            using persist_steps [OF assms(1) v2(1) assms(2) se pr [unfolded sp]] mw by simp
          have "a_step C v (se_state se, store_view objs ds s) (se_state se, store_view objs ds s2)"
            unfolding v2(3) using mw v2(2) by (rule a_step.A_commit)
          with 2 show ?thesis by (metis converse_rtranclp_into_rtranclp)
        qed
      qed
    qed
  qed
qed

lemma promote_refines:
  assumes "addresses A ds" "wf_run v"
  shows "refines ok (store_view objs ds) C ds v (promote_current B C now)"
proof (rule refinesI)
  fix se s r se' s'
  assume ok: "ok s" and se: "se_dataset se = ds" "se_version_id se = v"
    and run: "promote_current B C now (se, s) = (r, (se', s'))"
  let ?p = "\<lparr>cp_version_id = v\<rparr>"
  obtain rc s1 where ic: "is_version_committed B ds v s = (rc, s1)"
    by (cases "is_version_committed B ds v s")
  note view1 = committed_view [OF assms(1) ok assms(2) ic]
  show "ok s' \<and> se' = se\<lparr>se_state := se_state se'\<rparr> \<and>
    a_steps C v (se_state se, store_view objs ds s) (se_state se', store_view objs ds s')"
  proof (cases "rc = Inr True \<and> (\<exists>x d. object_at ds CURRENT_KEY = Inr x \<and> enc_pointer C ?p = Inr d)")
    case False
    then show ?thesis using run se ic view1
      by (cases rc; cases "object_at ds CURRENT_KEY"; cases "enc_pointer C ?p")
        (auto simp: promote_current_def eff_bind_apply get_session_def on_snd_def object_at_eff_def
          split: if_splits)
  next
    case True
    then obtain x d where x: "object_at ds CURRENT_KEY = Inr x" and d: "enc_pointer C ?p = Inr d"
      and rc: "rc = Inr True" by blast
    obtain ru s2 where up: "upsert_object B x d s1 = (ru, s2)" by (cases "upsert_object B x d s1")
    note view2 = upsert_view [OF assms(1) view1(1), of KCurrent x d ru s2]
    show ?thesis
    proof (cases ru)
      case (Inl e)
      then show ?thesis using run se ic view1 rc x d up view2
        by (auto simp: promote_current_def eff_bind_apply get_session_def on_snd_def object_at_eff_def)
    next
      case (Inr u)
      have v2: "ok s2" "store_view objs ds s2 = (store_view objs ds s)(KCurrent \<mapsto> d)"
        "store_view objs ds s (KCommit v) \<noteq> None"
        using view2 view1 x up rc Inr by auto
      have "persist_state B C now Current (se, s2) = (r, (se', s'))"
        using run se ic rc x d up Inr
        by (simp add: promote_current_def eff_bind_apply get_session_def on_snd_def object_at_eff_def)
      from persist_steps [OF assms(1) v2(1) assms(2) se this] v2(2,3)
      have 2: "ok s' \<and> se' = se\<lparr>se_state := se_state se'\<rparr> \<and>
        a_steps C v (se_state se, store_view objs ds s2) (se_state se', store_view objs ds s')" by simp
      have "a_step C v (se_state se, store_view objs ds s) (se_state se, store_view objs ds s2)"
        unfolding v2(2) using v2(3) d by (rule a_step.A_promote)
      with 2 show ?thesis by (metis converse_rtranclp_into_rtranclp)
    qed
  qed
qed

subsection \<open>The lock\<close>

lemma reclaim_outcome:
  assumes "addresses A ds" "ok s" "codec_ok C" "object_at ds WRITER_LOCK_KEY = Inr x"
    and "reclaim_or_reject B C x rec s = (r, s')"
  shows "ok s' \<and> (\<forall>k. k \<noteq> KLock \<longrightarrow> store_view objs ds s' k = store_view objs ds s k) \<and>
    (store_view objs ds s' = store_view objs ds s \<or> lock_owner C (store_view objs ds s) (wl_run_id rec)) \<and>
    (\<forall>lock. r = Inr lock \<longrightarrow> lk_object lock = x \<and> lk_record lock = rec \<and> \<not> lk_released lock \<and>
       lock_owner C (store_view objs ds s) (wl_run_id rec) \<and>
       lock_owner C (store_view objs ds s') (wl_run_id rec))"
proof -
  obtain r1 s1 where rd: "read_json_object B (dec_lock C) x s = (r1, s1)"
    by (cases "read_json_object B (dec_lock C) x s")
  note v1 = read_json_view [OF assms(1,2), of KLock x "dec_lock C" r1 s1]
  have v1': "ok s1" "store_view objs ds s1 = store_view objs ds s"
    using v1 assms(4) rd by simp_all
  show ?thesis
  proof (cases "\<exists>ex. r1 = Inr ex \<and> wl_run_id ex = wl_run_id rec")
    case False
    then show ?thesis using assms(5) rd v1'
      by (cases r1) (auto simp: reclaim_or_reject_def eff_bind_apply split: if_splits)
  next
    case True
    then obtain ex where ex: "r1 = Inr ex" "wl_run_id ex = wl_run_id rec" by blast
    have own: "lock_owner C (store_view objs ds s) (wl_run_id rec)"
      using v1(3) [of ex] assms(4) rd ex by (auto simp: lock_owner_def)
    obtain r2 s2 where del: "be_delete B x s1 = (r2, s2)" by (cases "be_delete B x s1")
    note v2 = view_delete [OF assms(1) v1'(1), of KLock x r2 s2]
    show ?thesis
    proof (cases "\<exists>u d. r2 = Inr u \<and> enc_lock C rec = Inr d")
      case False
      then show ?thesis using assms(4,5) rd ex del v2 v1' own
        by (cases r2; cases "enc_lock C rec")
          (auto simp: reclaim_or_reject_def eff_bind_apply eff_map_err_def)
    next
      case True
      then obtain u d where u: "r2 = Inr u" and d: "enc_lock C rec = Inr d" by blast
      have v2': "ok s2" "store_view objs ds s2 = (store_view objs ds s)(KLock := None)"
        using v2 assms(4) del u v1' by simp_all
      obtain r3 s3 where cr: "be_create B x must_not_exist d s2 = (r3, s3)"
        by (cases "be_create B x must_not_exist d s2")
      note v3 = view_create [OF assms(1) v2'(1), of KLock x d r3 s3]
      show ?thesis
        using assms(3-5) rd ex del u d cr v3 v2' own
        by (cases r3) (auto simp: reclaim_or_reject_def eff_bind_apply eff_map_err_def lock_owner_def
            codec_ok_def)
    qed
  qed
qed

lemma acquire_outcome:
  assumes "addresses A ds" "ok s" "codec_ok C" and "lock_acquire B C ds v s = (r, s')"
  shows "ok s' \<and> (\<forall>k. k \<noteq> KLock \<longrightarrow> store_view objs ds s' k = store_view objs ds s k) \<and>
    (store_view objs ds s' = store_view objs ds s \<or> store_view objs ds s KLock = None \<or>
     lock_owner C (store_view objs ds s) v) \<and>
    (\<forall>lock. r = Inr lock \<longrightarrow> object_at ds WRITER_LOCK_KEY = Inr (lk_object lock) \<and>
       wl_run_id (lk_record lock) = v \<and> \<not> lk_released lock \<and>
       (store_view objs ds s KLock = None \<or> lock_owner C (store_view objs ds s) v) \<and>
       lock_owner C (store_view objs ds s') v)"
proof -
  let ?rec = "\<lparr>wl_run_id = v, wl_version_id = v\<rparr>"
  show ?thesis
  proof (cases "cap_conditional_create (be_capabilities B s) \<and>
      (\<exists>x d. object_at ds WRITER_LOCK_KEY = Inr x \<and> enc_lock C ?rec = Inr d)")
    case False
    then show ?thesis using assms(2,4)
      by (cases "object_at ds WRITER_LOCK_KEY"; cases "enc_lock C ?rec")
        (auto simp: lock_acquire_def eff_bind_apply object_at_eff_def split: if_splits)
  next
    case True
    then obtain x d where x: "object_at ds WRITER_LOCK_KEY = Inr x" and d: "enc_lock C ?rec = Inr d"
      by blast
    obtain r1 s1 where cr: "be_create B x must_not_exist d s = (r1, s1)"
      by (cases "be_create B x must_not_exist d s")
    note v1 = view_create [OF assms(1,2), of KLock x d r1 s1]
    consider (made) m where "r1 = Inr m" | (conflict) g where "r1 = Inl (Conflict g)"
      | (other) e where "r1 = Inl e" "\<And>g. e \<noteq> Conflict g"
      by (cases r1) blast+
    then show ?thesis
    proof cases
      case made
      then show ?thesis using assms(3,4) True x d cr v1
        by (auto simp: lock_acquire_def eff_bind_apply object_at_eff_def lock_owner_def codec_ok_def)
    next
      case conflict
      have v1': "ok s1" "store_view objs ds s1 = store_view objs ds s"
        using v1 x cr conflict by simp_all
      have "reclaim_or_reject B C x ?rec s1 = (r, s')"
        using assms(4) True x d cr conflict
        by (simp add: lock_acquire_def eff_bind_apply object_at_eff_def)
      from reclaim_outcome [OF assms(1) v1'(1) assms(3) x this] v1'(2) x show ?thesis by auto
    next
      case other
      then show ?thesis using assms(4) True x d cr v1
        by (auto simp: lock_acquire_def eff_bind_apply object_at_eff_def split: storage_error.splits)
    qed
  qed
qed

lemma recovered_outcome:
  assumes "addresses A ds" "ok s" "wf_run v" and "load_recovered_state B C now ds v s = (r, s')"
  shows "ok s'" and "store_view objs ds s' = store_view objs ds s"
    and "r = Inr (Some rec) \<Longrightarrow> store_view objs ds s (KCommit v) \<noteq> None \<or>
      (\<exists>d. store_view objs ds s (KState v) = Some d \<and> dec_state C d = Inr rec)"
proof -
  obtain r1 s1 where ic: "is_version_committed B ds v s = (r1, s1)"
    by (cases "is_version_committed B ds v s")
  note v1 = committed_view [OF assms(1-3) ic]
  have "ok s' \<and> store_view objs ds s' = store_view objs ds s \<and>
    (\<forall>rec. r = Inr (Some rec) \<longrightarrow> store_view objs ds s (KCommit v) \<noteq> None \<or>
      (\<exists>d. store_view objs ds s (KState v) = Some d \<and> dec_state C d = Inr rec))"
  proof (cases "r1 = Inr False")
    case True
    show ?thesis
    proof (cases "object_at ds (version_state_key v)")
      case (Inl e)
      then show ?thesis using assms(4) ic True v1
        by (auto simp: load_recovered_state_def eff_bind_apply object_at_eff_def)
    next
      case (Inr x)
      then have "optional (read_json_object B (dec_state C) x) s1 = (r, s')"
        using assms(4) ic True
        by (simp add: load_recovered_state_def eff_bind_apply object_at_eff_def)
      from optional_json_view [OF assms(1) v1(1) _ _ this, of "KState v"] Inr assms(3) v1(2)
      show ?thesis by simp
    qed
  next
    case False
    then show ?thesis
      using assms(4) ic v1 current_view [OF assms(1) v1(1), of C]
      by (cases r1) (auto simp: load_recovered_state_def eff_bind_apply split: prod.splits sum.splits)
  qed
  then show "ok s'" and "store_view objs ds s' = store_view objs ds s"
    and "r = Inr (Some rec) \<Longrightarrow> store_view objs ds s (KCommit v) \<noteq> None \<or>
      (\<exists>d. store_view objs ds s (KState v) = Some d \<and> dec_state C d = Inr rec)" by auto
qed

end

end
