(* ===== verification/Publication_System.thy ===== *)
theory Publication_System
  imports Publication_Refine
begin

text \<open>
  Concurrent publication runs over one dataset: any number of sessions, each method of
  a session one step, sessions crash at any point between methods, calls fail at any
  point. One session at a time is open per run id. A predicate says which calls sessions make.
  Whatever they call, live sessions belong to one run and committed objects never change. When no session
  calls \<open>advance_to\<close> with \<open>ManifestWritten\<close>, which skips \<open>write_manifest\<close>, a commit marker implies a manifest and
  \<open>CURRENT\<close> points at a committed version.
\<close>

section \<open>The system\<close>

datatype pub_op =
    OpPut string bytes
  | OpUploaded
  | OpVerified
  | OpManifest publication_manifest
  | OpCommit
  | OpPromote
  | OpAdvance publication_state

fun run_op ::
  "'s storage_backend \<Rightarrow> codec \<Rightarrow> timestamp \<Rightarrow> pub_op \<Rightarrow> ('s, unit) session_eff" where
  "run_op B C now (OpPut rel d) = eff_bind (put_version_object B C now rel d) (\<lambda>_. eff_return ())"
| "run_op B C now OpUploaded = mark_uploaded B C now"
| "run_op B C now OpVerified = mark_verified B C now"
| "run_op B C now (OpManifest m) = write_manifest B C now m"
| "run_op B C now OpCommit = eff_bind (commit B C now) (\<lambda>_. eff_return ())"
| "run_op B C now OpPromote = promote_current B C now"
| "run_op B C now (OpAdvance st) = advance_to B C now st"

text \<open>The calls that leave the manifest to \<open>write_manifest\<close>.\<close>

definition manifest_kept :: "pub_op \<Rightarrow> bool" where
  "manifest_kept op = (op \<noteq> OpAdvance ManifestWritten)"

definition any_call :: "pub_op \<Rightarrow> bool" where
  "any_call op = True"

record 's world =
  w_store :: 's
  w_live :: "string \<rightharpoonup> session"

inductive pub_step ::
  "(pub_op \<Rightarrow> bool) \<Rightarrow> 's storage_backend \<Rightarrow> codec \<Rightarrow> dataset_location \<Rightarrow> 's world \<Rightarrow> 's world \<Rightarrow> bool"
  for P B C ds where
  PS_begin: "wf_run v \<Longrightarrow> w_live w v = None \<Longrightarrow> session_begin B C now ds v (w_store w) = (r, s') \<Longrightarrow>
    live' = (case r of Inr se \<Rightarrow> (w_live w)(v \<mapsto> se) | Inl _ \<Rightarrow> w_live w) \<Longrightarrow>
    pub_step P B C ds w \<lparr>w_store = s', w_live = live'\<rparr>"
| PS_op: "w_live w v = Some se \<Longrightarrow> P op \<Longrightarrow> run_op B C now op (se, w_store w) = (r, (se', s')) \<Longrightarrow>
    pub_step P B C ds w \<lparr>w_store = s', w_live = (w_live w)(v \<mapsto> se')\<rparr>"
| PS_abandon: "w_live w v = Some se \<Longrightarrow> session_abandon B (se, w_store w) = (r, (se', s')) \<Longrightarrow>
    pub_step P B C ds w \<lparr>w_store = s', w_live = (w_live w)(v := None)\<rparr>"
| PS_finish: "w_live w v = Some se \<Longrightarrow> session_finish B C now promote (se, w_store w) = (r, (se', s')) \<Longrightarrow>
    pub_step P B C ds w \<lparr>w_store = s', w_live = (w_live w)(v := None)\<rparr>"
| PS_crash: "w_live w v = Some se \<Longrightarrow>
    pub_step P B C ds w \<lparr>w_store = w_store w, w_live = (w_live w)(v := None)\<rparr>"

definition start_world :: "'s \<Rightarrow> 's world" where
  "start_world s = \<lparr>w_store = s, w_live = Map.empty\<rparr>"

abbreviation pub_reach :: "(pub_op \<Rightarrow> bool) \<Rightarrow> 's storage_backend \<Rightarrow> codec \<Rightarrow> dataset_location \<Rightarrow> 's world \<Rightarrow> 's world \<Rightarrow> bool" where
  "pub_reach P B C ds \<equiv> (pub_step P B C ds)\<^sup>*\<^sup>*"

section \<open>Invariant\<close>

text \<open>The flag \<open>M\<close> says whether manifests are tracked.\<close>

definition session_inv :: "bool \<Rightarrow> codec \<Rightarrow> dataset_location \<Rightarrow> view \<Rightarrow> string \<Rightarrow> session \<Rightarrow> bool" where
  "session_inv M C ds f v se \<longleftrightarrow>
     wf_run v \<and> se_dataset se = ds \<and> se_version_id se = v \<and> (M \<longrightarrow> writer_inv v (se_state se, f)) \<and>
     lock_owner C f v \<and>
     (\<exists>lock. se_lock se = Some lock \<and> object_at ds WRITER_LOCK_KEY = Inr (lk_object lock))"

definition world_inv ::
  "bool \<Rightarrow> ('s \<Rightarrow> bool) \<Rightarrow> ('s \<Rightarrow> view) \<Rightarrow> codec \<Rightarrow> dataset_location \<Rightarrow> 's world \<Rightarrow> bool" where
  "world_inv M ok V C ds w \<longleftrightarrow>
     ok (w_store w) \<and> (M \<longrightarrow> pub_inv C (V (w_store w))) \<and>
     (\<forall>v se. w_live w v = Some se \<longrightarrow> session_inv M C ds (V (w_store w)) v se)"

lemma pub_inv_cong: "(\<And>k. k \<noteq> KLock \<Longrightarrow> f k = g k) \<Longrightarrow> pub_inv C f = pub_inv C g"
  by (simp add: pub_inv_def)

lemma live_unique:
  assumes "world_inv M ok V C ds w" "w_live w v = Some se" "w_live w v' = Some se'"
  shows "v = v'"
  using assms by (auto simp: world_inv_def session_inv_def intro: lock_owner_unique)

text \<open>Committed objects never change: what one step does to a dataset.\<close>

definition keeps :: "view \<Rightarrow> view \<Rightarrow> bool" where
  "keeps f g \<longleftrightarrow>
     (\<forall>k. immutable_key k \<longrightarrow> f k \<noteq> None \<longrightarrow> g k = f k) \<and>
     (\<forall>k. k \<noteq> KLock \<longrightarrow> f k \<noteq> None \<longrightarrow> g k \<noteq> None)"

lemma keeps_refl [simp]: "keeps f f"
  by (simp add: keeps_def)

lemma keeps_trans: "keeps f g \<Longrightarrow> keeps g h \<Longrightarrow> keeps f h"
  unfolding keeps_def by metis

lemma evolves_keeps: "evolves v f g \<Longrightarrow> keeps f g"
  by (auto simp: evolves_def keeps_def)

lemma lock_change_keeps:
  assumes "\<And>k. k \<noteq> KLock \<Longrightarrow> g k = f k"
  shows "keeps f g"
proof -
  have "k \<noteq> KLock" if "immutable_key k" for k using that by auto
  then show ?thesis using assms by (auto simp: keeps_def)
qed

lemma writer_inv_keeps: "writer_inv v (q, f) \<Longrightarrow> keeps f g \<Longrightarrow> writer_inv v (q, g)"
  by (auto simp: writer_inv_def keeps_def)

context safe_store
begin

lemma run_op_refines:
  assumes "addresses A ds" "wf_run v" "manifest_kept op"
  shows "refines ok (store_view objs ds) C ds v (run_op B C now op)"
  using assms(3) by (cases op)
    (auto simp: mark_uploaded_def mark_verified_def manifest_kept_def intro!: refines_bind put_refines [OF assms(1,2)]
      manifest_refines [OF assms(1,2)] commit_refines [OF assms(1,2)] promote_refines [OF assms(1,2)]
      advance_refines [OF assms(1,2)])

lemma run_op_evolves:
  assumes "addresses A ds" "ok s" "wf_run v" "se_dataset se = ds" "se_version_id se = v"
    and "run_op B C now op (se, s) = (r, (se', s'))"
  shows "ok s' \<and> se' = se\<lparr>se_state := se_state se'\<rparr> \<and> evolves v (store_view objs ds s) (store_view objs ds s')"
proof (cases "manifest_kept op")
  case True
  note 1 = refinesD [OF run_op_refines [OF assms(1,3) True] assms(2,4-6)]
  then show ?thesis using a_steps_evolves [OF 1(3)] by simp
next
  case False
  then show ?thesis using advance_evolves [OF assms(1-5)] assms(6) by (simp add: manifest_kept_def)
qed

lemma release_outcome:
  assumes "addresses A ds" "ok s" "se_lock se = Some lock"
    "object_at ds WRITER_LOCK_KEY = Inr (lk_object lock)"
    and "release_session B (se, s) = (r, (se', s'))"
  shows "ok s' \<and> (\<forall>k. k \<noteq> KLock \<longrightarrow> store_view objs ds s' k = store_view objs ds s k)"
proof -
  obtain r0 s1 where del: "be_delete B (lk_object lock) s = (r0, s1)"
    by (cases "be_delete B (lk_object lock) s")
  note v = view_delete [OF assms(1,2), of KLock "lk_object lock" r0 s1]
  show ?thesis using assms del v
    by (cases r0) (auto simp: release_session_def lock_release_def on_snd_def eff_map_err_def
        split: if_splits)
qed

text \<open>\<open>finish\<close> is a refining prefix followed by the release of the lock.\<close>

lemma finish_outcome:
  assumes "addresses A ds" "ok s" "wf_run v" "se_dataset se = ds" "se_version_id se = v"
    "se_lock se = Some lock" "object_at ds WRITER_LOCK_KEY = Inr (lk_object lock)"
    and "session_finish B C now promote (se, s) = (r, (se', s'))"
  shows "\<exists>f. a_steps C v (se_state se, store_view objs ds s) (se_state se', f) \<and> ok s' \<and>
    (\<forall>k. k \<noteq> KLock \<longrightarrow> store_view objs ds s' k = f k)"
proof -
  let ?prefix = "eff_bind (if se_state se = ManifestWritten then eff_bind (commit B C now) (\<lambda>_. eff_return ())
       else eff_return ()) (\<lambda>_. if promote then promote_current B C now else eff_return ())"
  have pre: "refines ok (store_view objs ds) C ds v ?prefix"
    by (intro refines_bind) (auto intro!: refines_bind commit_refines [OF assms(1,3)] promote_refines [OF assms(1,3)])
  have "session_finish B C now promote (se, s) = eff_bind ?prefix (\<lambda>_. release_session B) (se, s)"
    by (auto simp: session_finish_def eff_bind_apply get_session_def split: prod.splits sum.splits)
  with assms(8) have "eff_bind ?prefix (\<lambda>_. release_session B) (se, s) = (r, (se', s'))" by simp
  then show ?thesis
  proof (cases rule: eff_bind_elim)
    case (err e)
    then show ?thesis using refinesD [OF pre assms(2,4,5)] by blast
  next
    case (ok u p)
    obtain se1 s1 where p: "p = (se1, s1)" by (cases p)
    note 1 = refinesD [OF pre assms(2,4,5) ok(1) [unfolded p]]
    have "se_lock se1 = Some lock" using 1(2) assms(6) by (metis session.select_convs(5) session.surjective session.update_convs(4))
    note rel = release_outcome [OF assms(1) 1(1) this assms(7) ok(2) [unfolded p]]
    have "se_state se' = se_state se1" using ok(2) p \<open>se_lock se1 = Some lock\<close>
      by (auto simp: release_session_def on_snd_def split: prod.splits)
    then show ?thesis using rel 1(3) by auto
  qed
qed

lemma begin_outcome:
  assumes "addresses A ds" "ok s" "codec_ok C" "wf_run v" "M \<longrightarrow> pub_inv C (store_view objs ds s)"
    and "session_begin B C now ds v s = (r, s')"
  shows "ok s' \<and> (M \<longrightarrow> pub_inv C (store_view objs ds s')) \<and>
    keeps (store_view objs ds s) (store_view objs ds s') \<and>
    (store_view objs ds s' KLock = store_view objs ds s KLock \<or> store_view objs ds s KLock = None \<or>
     lock_owner C (store_view objs ds s) v) \<and>
    (\<forall>se. r = Inr se \<longrightarrow> session_inv M C ds (store_view objs ds s') v se \<and>
      (store_view objs ds s KLock = None \<or> lock_owner C (store_view objs ds s) v))"
proof -
  obtain r1 s1 where aq: "lock_acquire B C ds v s = (r1, s1)" by (cases "lock_acquire B C ds v s")
  note v1 = acquire_outcome [OF assms(1-3) aq]
  have inv1: "M \<longrightarrow> pub_inv C (store_view objs ds s1)"
    using v1 assms(5) pub_inv_cong [of "store_view objs ds s1" "store_view objs ds s" C] by blast
  have keep1: "keeps (store_view objs ds s) (store_view objs ds s1)"
    using v1 by (intro lock_change_keeps) blast
  show ?thesis
  proof (cases r1)
    case (Inl e)
    then have "r = Inl e" "s' = s1"
      using assms(6) aq by (simp_all add: session_begin_def eff_bind_apply)
    then show ?thesis using v1 inv1 keep1 by auto
  next
    case (Inr lock)
    then have lk: "wl_run_id (lk_record lock) = v" and own1: "lock_owner C (store_view objs ds s1) v"
      and free: "store_view objs ds s KLock = None \<or> lock_owner C (store_view objs ds s) v"
      and lobj: "object_at ds WRITER_LOCK_KEY = Inr (lk_object lock)" and ok1: "ok s1"
      using v1 by auto
    obtain r2 s2 where ld: "load_recovered_state B C now ds v s1 = (r2, s2)"
      by (cases "load_recovered_state B C now ds v s1")
    note v2 = recovered_outcome [OF assms(1) ok1 assms(4) ld]
    show ?thesis
    proof (cases r2)
      case (Inl e)
      then have "r = Inl e" "s' = s2"
        using assms(6) aq Inr ld lk by (simp_all add: session_begin_def eff_bind_apply)
      then show ?thesis using v2 inv1 keep1 free by auto
    next
      case (Inr rec)
      let ?st = "case rec of Some rc \<Rightarrow> psr_state rc | None \<Rightarrow> Preparing"
      let ?se = "\<lparr>se_dataset = ds, se_version_id = v, se_run_id = v, se_state = ?st, se_lock = Some lock\<rparr>"
      have wi: "M \<longrightarrow> writer_inv v (?st, store_view objs ds s1)"
        using v2(3) Inr inv1 by (auto simp: writer_inv_def pub_inv_def split: option.splits)
      have run: "(if ?st = Preparing then
               (case persist_state B C now Preparing (?se, s2) of
                  (Inl e, (se', s')) \<Rightarrow> (Inl e, s')
                | (Inr _, (se', s')) \<Rightarrow> (Inr se', s'))
             else (Inr ?se, s2)) = (r, s')"
        using assms(6) aq \<open>r1 = Inr lock\<close> ld lk Inr
        by (cases rec) (auto simp: session_begin_def eff_bind_apply Let_def split: if_splits)
      show ?thesis
      proof (cases "?st = Preparing")
        case False
        with run have "r = Inr ?se" "s' = s2" by simp_all
        then show ?thesis using v2 inv1 keep1 free own1 wi lobj assms(4)
          by (auto simp: session_inv_def)
      next
        case True
        obtain rp sp tp where pr: "persist_state B C now Preparing (?se, s2) = (rp, (sp, tp))"
          by (metis prod.exhaust)
        have out: "s' = tp" "\<And>se. r = Inr se \<Longrightarrow> se = sp" using run True pr by (auto split: sum.splits)
        have steps: "ok tp \<and> sp = ?se\<lparr>se_state := se_state sp\<rparr> \<and>
            a_steps C v (?st, store_view objs ds s1) (se_state sp, store_view objs ds tp)"
          using persist_steps [OF assms(1) v2(1) assms(4) _ _ pr] v2(2) by simp
        have inv2: "M \<longrightarrow> pub_inv C (store_view objs ds tp) \<and> writer_inv v (se_state sp, store_view objs ds tp)"
          using a_steps_inv [of C v "(?st, store_view objs ds s1)"] steps assms(3) inv1 wi by auto
        have ev: "evolves v (store_view objs ds s1) (store_view objs ds tp)"
          using a_steps_evolves steps by fastforce
        then have klock: "store_view objs ds tp KLock = store_view objs ds s1 KLock"
          by (simp add: evolves_def)
        have sp: "se_dataset sp = ds" "se_version_id sp = v" "se_lock sp = Some lock"
          using steps by (metis session.select_convs session.surjective session.update_convs(4))+
        show ?thesis
          using out steps inv2 keeps_trans [OF keep1 evolves_keeps [OF ev]] free sp lobj assms(4)
            lock_owner_cong [of "store_view objs ds tp" "store_view objs ds s1", OF klock] own1
          by (auto simp: session_inv_def)
      qed
    qed
  qed
qed

text \<open>The invariant is kept by every step, and every step keeps committed objects.\<close>

lemma step_inv:
  assumes "pub_step P B C ds w w'" "addresses A ds" "codec_ok C" and safe: "\<And>op. M \<Longrightarrow> P op \<Longrightarrow> manifest_kept op"
    and inv: "world_inv M ok (store_view objs ds) C ds w"
  shows "world_inv M ok (store_view objs ds) C ds w' \<and>
    keeps (store_view objs ds (w_store w)) (store_view objs ds (w_store w'))"
  using assms(1)
proof (cases rule: pub_step.cases)
  case (PS_begin v now r s' live')
  have okw: "ok (w_store w)" and pinv: "M \<longrightarrow> pub_inv C (store_view objs ds (w_store w))"
    and others: "\<And>u se. w_live w u = Some se \<Longrightarrow> session_inv M C ds (store_view objs ds (w_store w)) u se"
    using inv by (auto simp: world_inv_def)
  note out = begin_outcome [OF assms(2) okw assms(3) PS_begin(2) pinv PS_begin(4)]
  have keep: "session_inv M C ds (store_view objs ds s') u se" if "w_live w u = Some se" for u se
  proof -
    have "u \<noteq> v" using that PS_begin(3) by auto
    with others [OF that] out have lk: "store_view objs ds s' KLock = store_view objs ds (w_store w) KLock"
      by (auto simp: session_inv_def lock_owner_def)
    show ?thesis
      using others [OF that] out writer_inv_keeps
        lock_owner_cong [of "store_view objs ds s'" "store_view objs ds (w_store w)", OF lk]
      by (auto simp: session_inv_def)
  qed
  show ?thesis using out keep PS_begin(1,5)
    by (auto simp: world_inv_def split: sum.splits if_splits)
next
  case (PS_op v se op now r se' s')
  have okw: "ok (w_store w)" and pinv: "M \<longrightarrow> pub_inv C (store_view objs ds (w_store w))"
    and sinv: "session_inv M C ds (store_view objs ds (w_store w)) v se"
    using inv PS_op by (auto simp: world_inv_def)
  then have wf: "wf_run v" and se: "se_dataset se = ds" "se_version_id se = v"
    and wi: "M \<longrightarrow> writer_inv v (se_state se, store_view objs ds (w_store w))"
    by (auto simp: session_inv_def)
  have 1: "ok s'" "se' = se\<lparr>se_state := se_state se'\<rparr>" and ev: "evolves v (store_view objs ds (w_store w)) (store_view objs ds s')"
    using run_op_evolves [OF assms(2) okw wf se PS_op(4)] by auto
  have inv2: "M \<longrightarrow> pub_inv C (store_view objs ds s') \<and> writer_inv v (se_state se', store_view objs ds s')"
  proof
    assume M
    then have "manifest_kept op" using safe PS_op(3) by blast
    note 2 = refinesD [OF run_op_refines [OF assms(2) wf this] okw se PS_op(4)]
    show "pub_inv C (store_view objs ds s') \<and> writer_inv v (se_state se', store_view objs ds s')"
      using a_steps_inv [OF 2(3) assms(3)] pinv wi \<open>M\<close> by simp
  qed
  have lk: "store_view objs ds s' KLock = store_view objs ds (w_store w) KLock"
    using ev by (simp add: evolves_def)
  have only: "u = v" if "w_live w u = Some x" for u x
    using live_unique [OF inv that PS_op(2)] .
  have "session_inv M C ds (store_view objs ds s') v se'"
    using sinv inv2 1(2)
      lock_owner_cong [of "store_view objs ds s'" "store_view objs ds (w_store w)", OF lk]
    by (metis (no_types, lifting) session.select_convs(1,2,5) session.surjective session.update_convs(4) session_inv_def)
  then show ?thesis using PS_op(1) 1(1) inv2 only evolves_keeps [OF ev]
    by (auto simp: world_inv_def split: if_splits)
next
  case (PS_abandon v se r se' s')
  then obtain lock where lock: "se_lock se = Some lock" "object_at ds WRITER_LOCK_KEY = Inr (lk_object lock)"
    and okw: "ok (w_store w)" using inv by (auto simp: world_inv_def session_inv_def)
  have out: "ok s' \<and> (\<forall>k. k \<noteq> KLock \<longrightarrow> store_view objs ds s' k = store_view objs ds (w_store w) k)"
    using release_outcome [OF assms(2) okw lock] PS_abandon(3) by (simp add: session_abandon_def)
  have only: "u = v" if "w_live w u = Some x" for u x
    using live_unique [OF inv that PS_abandon(2)] .
  show ?thesis
    using out PS_abandon(1) inv only pub_inv_cong [of "store_view objs ds s'" "store_view objs ds (w_store w)" C]
      lock_change_keeps [of "store_view objs ds s'" "store_view objs ds (w_store w)"]
    by (auto simp: world_inv_def split: if_splits)
next
  case (PS_finish v se now promote r se' s')
  then obtain lock where lock: "se_lock se = Some lock" "object_at ds WRITER_LOCK_KEY = Inr (lk_object lock)"
    and okw: "ok (w_store w)" and pinv: "M \<longrightarrow> pub_inv C (store_view objs ds (w_store w))"
    and wf: "wf_run v" and se: "se_dataset se = ds" "se_version_id se = v"
    and wi: "M \<longrightarrow> writer_inv v (se_state se, store_view objs ds (w_store w))"
    using inv by (auto simp: world_inv_def session_inv_def)
  obtain f where steps: "a_steps C v (se_state se, store_view objs ds (w_store w)) (se_state se', f)"
    and out: "ok s'" "\<And>k. k \<noteq> KLock \<Longrightarrow> store_view objs ds s' k = f k"
    using finish_outcome [OF assms(2) okw wf se lock PS_finish(3)] by blast
  have "M \<longrightarrow> pub_inv C f" using a_steps_inv [OF steps assms(3)] pinv wi by simp
  moreover have "keeps (store_view objs ds (w_store w)) f"
    using a_steps_evolves [OF steps] by (auto intro: evolves_keeps)
  moreover have only: "u = v" if "w_live w u = Some x" for u x
    using live_unique [OF inv that PS_finish(2)] .
  ultimately show ?thesis
    using out PS_finish(1) pub_inv_cong [of "store_view objs ds s'" f C]
      lock_change_keeps [of "store_view objs ds s'" f] keeps_trans
    by (auto simp: world_inv_def split: if_splits)
next
  case (PS_crash v se)
  then show ?thesis using inv by (auto simp: world_inv_def split: if_splits)
qed

lemma reach_inv:
  assumes "pub_reach P B C ds w w'" "addresses A ds" "codec_ok C" and "\<And>op. M \<Longrightarrow> P op \<Longrightarrow> manifest_kept op"
    and "world_inv M ok (store_view objs ds) C ds w"
  shows "world_inv M ok (store_view objs ds) C ds w' \<and>
    keeps (store_view objs ds (w_store w)) (store_view objs ds (w_store w'))"
  using assms by (induction rule: rtranclp_induct) (auto dest: step_inv intro: keeps_trans)

lemma start_inv:
  assumes "ok s" "pub_inv C (store_view objs ds s)"
  shows "world_inv M ok (store_view objs ds) C ds (start_world s)"
  using assms by (simp add: world_inv_def start_world_def)


text \<open>What \<open>observed_state\<close> reports is backed by objects.\<close>

lemma observed_outcome:
  assumes "addresses A ds" "ok s" "wf_run v" "pub_inv C (store_view objs ds s)"
    and "observed_state B C ds v s = (Inr (Some st), s')"
  shows "(ordinal Committed \<le> ordinal st \<longrightarrow> store_view objs ds s (KCommit v) \<noteq> None) \<and>
    (ordinal ManifestWritten \<le> ordinal st \<longrightarrow> store_view objs ds s (KManifest v) \<noteq> None)"
  using assms(5) unfolding observed_state_def
proof (cases rule: eff_bind_elim)
  case (ok b s1)
  note c = committed_view [OF assms(1-3) ok(1)]
  show ?thesis
  proof (cases b)
    case True
    then show ?thesis using c(3) assms(4) by (auto simp: pub_inv_def)
  next
    case False
    with ok(2) obtain x r where x: "object_at ds (version_state_key v) = Inr x"
      and r: "optional (read_json_object B (dec_state C) x) s1 = (Inr (Some r), s')"
      and st: "st = (if ordinal (psr_state r) \<ge> ordinal Committed then ManifestWritten else psr_state r)"
      by (auto elim!: eff_bind_elim object_at_eff_elim split: option.splits)
    obtain d where "store_view objs ds s (KState v) = Some d" "dec_state C d = Inr r"
      using optional_json_view(3) [OF assms(1) c(1) _ _ r, of "KState v"] x assms(3) c(2) by auto
    then show ?thesis using st assms(4) by (auto simp: pub_inv_def split: if_splits)
  qed
qed simp

end

end
