(* ===== verification/Repair_Error.thy ===== *)
theory Repair_Error
  imports Publication
begin

text \<open>
  The error type of \<open>parqonaut-repair\<close> (\<open>error.rs\<close>). Variants that carry the
  rendered text of another error carry that error here.
\<close>

datatype repair_error =
    DatasetUnreadable string
  | DatasetChanged string string
  | UnsupportedOperation string string
  | ReviewRequiredNotAuthorized string
  | DestructiveNotAllowed string
  | OutputExists string
  | SourceDestinationOverlap string
  | RepairPreconditionFailed string string
  | VerificationInvariantFailed string string
  | PartialExecution string
  | InvalidPlan string
  | UnsupportedPlanVersion nat nat
  | ScanFailed string
  | TransformFailed string
  | RepairIo string
  | RepairJson string
  | RepairStorage storage_error
  | RepairPublication publication_error

end
