(* ===== verification/Publication_Publish.thy ===== *)
theory Publication_Publish
  imports Publication_System Repair_Error
begin

text \<open>
  Publishing a work directory (\<open>publish_work_dir\<close> of \<open>execute_storage.rs\<close>): begin a
  session, upload every file and the execution manifest, mark uploaded and verified,
  write the publication manifest, commit, promote. On a fault-free store with a free
  lock and no trace of the run the whole sequence succeeds, for any number of files.
\<close>

section \<open>The publication of a work directory\<close>

text \<open>What \<open>WalkDir\<close> yields: an error, a directory, or a file with its path relative to
  the work directory (if it is UTF-8) and the result of reading it.\<close>

datatype walk_entry =
    WalkError string
  | WalkDirectory
  | WalkFile "string option" "(string, bytes) res"

definition replace_char :: "char \<Rightarrow> char \<Rightarrow> string \<Rightarrow> string" where
  "replace_char a b s = map (\<lambda>c. if c = a then b else c) s"

definition object_record :: "string \<Rightarrow> object_metadata \<Rightarrow> publication_object_record" where
  "object_record key m = \<lparr>por_key = key, por_size = om_size m, por_etag = om_etag m,
     por_version_id = om_version_id m\<rparr>"

type_synonym ('s, 'a) publish_eff = "(session \<times> 's, repair_error, 'a) eff"

fun publish_files ::
  "'s storage_backend \<Rightarrow> codec \<Rightarrow> timestamp \<Rightarrow> walk_entry list \<Rightarrow>
   ('s, publication_object_record list) publish_eff" where
  "publish_files B C now [] = eff_return []"
| "publish_files B C now (WalkError e # es) = eff_fail (RepairIo e)"
| "publish_files B C now (WalkDirectory # es) = publish_files B C now es"
| "publish_files B C now (WalkFile None data # es) =
     eff_fail (RepairStorage (StorageOther ''non-UTF8 work path''))"
| "publish_files B C now (WalkFile (Some path) data # es) =
     (let rel = replace_char (CHR 0x5C) (CHR ''/'') path in
      eff_bind (eff_lift (map_err RepairIo data)) (\<lambda>d.
      eff_bind (eff_map_err RepairPublication (put_version_object B C now rel d)) (\<lambda>m.
      eff_bind (publish_files B C now es) (\<lambda>recs.
      eff_return (object_record rel m # recs)))))"

definition EXECUTION_MANIFEST :: string where
  "EXECUTION_MANIFEST = ''.parqonaut-manifest.json''"

definition manifest_uri :: "dataset_location \<Rightarrow> string \<Rightarrow> (repair_error, string) res" where
  "manifest_uri output run_id =
     (case output of
        DatasetS3 s3 \<Rightarrow>
          (case object_key s3 (''.parqonaut/versions/'' @ run_id @ ''/data/'' @ EXECUTION_MANIFEST) of
             Inl e \<Rightarrow> Inl (RepairStorage e)
           | Inr key \<Rightarrow> Inr (''s3://'' @ s3_bucket s3 @ ''/'' @ key))
      | DatasetLocal p \<Rightarrow> Inr (path_join p (version_data_key run_id EXECUTION_MANIFEST)))"

text \<open>The part of the sequence after \<open>begin\<close>.\<close>

definition publish_session ::
  "'s storage_backend \<Rightarrow> codec \<Rightarrow> timestamp \<Rightarrow> dataset_location \<Rightarrow> walk_entry list \<Rightarrow> string \<Rightarrow>
   (string, bytes) res \<Rightarrow> ('s, string \<times> string) publish_eff" where
  "publish_session B C now output entries run_id manifest_json =
     eff_bind (publish_files B C now entries) (\<lambda>recs.
     eff_bind (eff_lift (map_err RepairJson manifest_json)) (\<lambda>mj.
     eff_bind (eff_map_err RepairPublication (put_version_object B C now EXECUTION_MANIFEST mj)) (\<lambda>mm.
     eff_bind (eff_map_err RepairPublication (mark_uploaded B C now)) (\<lambda>_.
     eff_bind (eff_map_err RepairPublication (mark_verified B C now)) (\<lambda>_.
     eff_bind (eff_map_err RepairPublication (write_manifest B C now
       \<lparr>pm_contract_version = PUBLICATION_CONTRACT_VERSION, pm_version_id = run_id,
        pm_run_id = run_id, pm_objects = recs @ [object_record EXECUTION_MANIFEST mm]\<rparr>)) (\<lambda>_.
     eff_bind (eff_lift (manifest_uri output run_id)) (\<lambda>uri.
     eff_bind (eff_map_err RepairPublication (session_finish B C now True)) (\<lambda>_.
     eff_return (dataset_display_uri output, uri)))))))))"

definition publish_work_dir ::
  "'s storage_backend \<Rightarrow> codec \<Rightarrow> timestamp \<Rightarrow> dataset_location \<Rightarrow> walk_entry list \<Rightarrow> string \<Rightarrow>
   (string, bytes) res \<Rightarrow> ('s, repair_error, string \<times> string) eff" where
  "publish_work_dir B C now output entries run_id manifest_json = (\<lambda>s.
     case session_begin B C now output run_id s of
       (Inl e, s1) \<Rightarrow> (Inl (RepairPublication e), s1)
     | (Inr se, s1) \<Rightarrow>
         (case publish_session B C now output entries run_id manifest_json (se, s1) of
            (r, (_, s2)) \<Rightarrow> (r, s2)))"

section \<open>The files of a directory walk\<close>

text \<open>The relative keys and contents a walk uploads, when it meets no error.\<close>

fun walk_files :: "walk_entry list \<Rightarrow> (string \<times> bytes) list option" where
  "walk_files [] = Some []"
| "walk_files (WalkDirectory # es) = walk_files es"
| "walk_files (WalkFile (Some path) (Inr d) # es) =
     map_option (Cons (replace_char (CHR 0x5C) (CHR ''/'') path, d)) (walk_files es)"
| "walk_files _ = None"

definition data_key :: "string \<Rightarrow> string \<Rightarrow> pkey" where
  "data_key v rel = KData v (trim_start_matches (CHR ''/'') rel)"

definition upload_keys :: "string \<Rightarrow> (string \<times> bytes) list \<Rightarrow> pkey list" where
  "upload_keys v fs = map (data_key v \<circ> fst) fs"

text \<open>Every key of the run resolves to an object (\<open>object_key\<close> refuses \<open>..\<close>).\<close>

definition all_resolve :: "dataset_location \<Rightarrow> pkey list \<Rightarrow> bool" where
  "all_resolve ds ks = list_all (\<lambda>k. is_ok (object_at ds (key_string k))) ks"

definition codec_total :: "codec \<Rightarrow> bool" where
  "codec_total C \<longleftrightarrow> (\<forall>r. is_ok (enc_state C r)) \<and> (\<forall>r. is_ok (enc_manifest C r)) \<and>
     (\<forall>r. is_ok (enc_marker C r)) \<and> (\<forall>r. is_ok (enc_pointer C r)) \<and> (\<forall>r. is_ok (enc_lock C r))"

definition run_keys :: "string \<Rightarrow> pkey list" where
  "run_keys v = [KLock, KCurrent, KState v, KManifest v, KCommit v]"

lemma all_resolve_member:
  "all_resolve ds ks \<Longrightarrow> k \<in> set ks \<Longrightarrow> \<exists>x. object_at ds (key_string k) = Inr x"
  by (auto simp: all_resolve_def list_all_iff is_ok_iff)

lemma key_string_data_key [simp]: "key_string (data_key v rel) = version_data_key v rel"
  by (simp add: data_key_def version_data_key_def)

lemma wf_pkey_data_key [simp]: "wf_run v \<Longrightarrow> wf_pkey (data_key v rel)"
  using trim_start_matches_hd by (auto simp: data_key_def)

lemma data_key_neq [simp]:
  "data_key v rel \<noteq> KLock" "data_key v rel \<noteq> KCurrent" "data_key v rel \<noteq> KState w"
  "data_key v rel \<noteq> KManifest w" "data_key v rel \<noteq> KCommit w"
  "KLock \<noteq> data_key v rel" "KCurrent \<noteq> data_key v rel" "KState w \<noteq> data_key v rel"
  "KManifest w \<noteq> data_key v rel" "KCommit w \<noteq> data_key v rel"
  by (simp_all add: data_key_def)

text \<open>The contents a walk uploads, as a map on publication keys.\<close>

definition uploaded :: "string \<Rightarrow> (string \<times> bytes) list \<Rightarrow> pkey \<rightharpoonup> bytes" where
  "uploaded v fs = map_of (map (\<lambda>(rel, d). (data_key v rel, d)) fs)"

lemma uploaded_Nil [simp]: "uploaded v [] = Map.empty"
  by (simp add: uploaded_def)

lemma uploaded_Cons [simp]: "uploaded v ((rel, d) # fs) = (uploaded v fs)(data_key v rel \<mapsto> d)"
  by (simp add: uploaded_def)

lemma uploaded_None: "k \<notin> set (upload_keys v fs) \<Longrightarrow> uploaded v fs k = None"
  by (force simp: uploaded_def upload_keys_def map_of_eq_None_iff)

lemma uploaded_other [simp]:
  "uploaded v fs KLock = None" "uploaded v fs KCurrent = None" "uploaded v fs (KState w) = None"
  "uploaded v fs (KManifest w) = None" "uploaded v fs (KCommit w) = None"
  by (auto intro!: uploaded_None simp: upload_keys_def)

lemma uploaded_append: "uploaded v (fs @ gs) = uploaded v gs ++ uploaded v fs"
  by (simp add: uploaded_def)

lemma uploaded_member:
  "distinct (upload_keys v fs) \<Longrightarrow> (rel, d) \<in> set fs \<Longrightarrow> uploaded v fs (data_key v rel) = Some d"
  unfolding uploaded_def upload_keys_def
  by (rule map_of_is_SomeI) (force simp: comp_def case_prod_beta)+

text \<open>
  The dataset after the publication of version \<open>v\<close> with files \<open>fs\<close>: unlocked, with
  manifest and marker, promoted, every file stored; all other objects as before.
\<close>

definition published :: "codec \<Rightarrow> string \<Rightarrow> (string \<times> bytes) list \<Rightarrow> view \<Rightarrow> view \<Rightarrow> bool" where
  "published C v fs f g \<longleftrightarrow>
     g KLock = None \<and> g (KManifest v) \<noteq> None \<and> g (KCommit v) \<noteq> None \<and>
     (\<exists>d. enc_pointer C \<lparr>cp_version_id = v\<rparr> = Inr d \<and> g KCurrent = Some d) \<and>
     (\<forall>rel d. (rel, d) \<in> set fs \<longrightarrow> g (data_key v rel) = Some d) \<and>
     (\<forall>k. k \<notin> set (run_keys v) \<union> set (upload_keys v fs) \<longrightarrow> g k = f k)"

section \<open>Success on a fault-free store\<close>

context live_store
begin

lemma create_live:
  assumes "addresses A ds" "ok s" "wf_pkey k" "object_at ds (key_string k) = Inr x"
    and "store_view objs ds s k = None"
  shows "\<exists>m s'. be_create B x must_not_exist d s = (Inr m, s') \<and> ok s' \<and>
    store_view objs ds s' = (store_view objs ds s)(k \<mapsto> d)"
proof -
  have xA: "x \<in> A" using assms(1,4) by (auto simp: addresses_def)
  have "objs s x = None" using assms(3-5) by (simp add: view_at)
  then obtain m s' where run: "be_create B x must_not_exist d s = (Inr m, s')"
    using create_fresh [OF assms(2) xA] by blast
  then show ?thesis using view_create [OF assms(1-4) run] by blast
qed

lemma head_live:
  assumes "addresses A ds" "ok s" "wf_pkey k" "object_at ds (key_string k) = Inr x"
  shows "\<exists>h s'. optional (eff_map_err PubStorage (be_head B x)) s = (Inr h, s') \<and> ok s' \<and>
    store_view objs ds s' = store_view objs ds s \<and> (h = None \<longleftrightarrow> store_view objs ds s k = None) \<and>
    (\<forall>m d. h = Some m \<longrightarrow> (\<exists>m' s''. be_replace B x (matching m) d s' = (Inr m', s'')))"
proof -
  have xA: "x \<in> A" using assms(1,4) by (auto simp: addresses_def)
  have v: "store_view objs ds s k = objs s x" using assms(3,4) by (rule view_at)
  show ?thesis
  proof (cases "objs s x")
    case None
    then obtain l s' where run: "be_head B x s = (Inl (NotFound l), s')"
      using head_absent [OF assms(2) xA] by blast
    show ?thesis using view_head [OF assms(1-4) run] v None run
      by (auto simp: optional_def eff_map_err_def)
  next
    case (Some d)
    then obtain m s' where run: "be_head B x s = (Inr m, s')"
      using head_present [OF assms(2) xA] by blast
    show ?thesis using view_head [OF assms(1-4) run] v Some run replace_matching [OF assms(2) xA run]
      by (auto simp: optional_def eff_map_err_def)
  qed
qed

lemma upsert_live:
  assumes "addresses A ds" "ok s" "wf_pkey k" "object_at ds (key_string k) = Inr x"
  shows "\<exists>s'. upsert_object B x d s = (Inr (), s') \<and> ok s' \<and>
    store_view objs ds s' = (store_view objs ds s)(k \<mapsto> d)"
proof -
  obtain h s1 where h: "optional (eff_map_err PubStorage (be_head B x)) s = (Inr h, s1)" "ok s1"
    "store_view objs ds s1 = store_view objs ds s" "h = None \<longleftrightarrow> store_view objs ds s k = None"
    "\<And>m d. h = Some m \<Longrightarrow> \<exists>m' s''. be_replace B x (matching m) d s1 = (Inr m', s'')"
    using head_live [OF assms] by metis
  have "\<exists>s'. upsert_object B x d s = (Inr (), s')"
  proof (cases h)
    case None
    then show ?thesis using create_live [OF assms(1) h(2) assms(3,4), of d] h
      by (auto simp: upsert_object_def eff_bind_apply eff_map_err_def)
  next
    case (Some m)
    then show ?thesis using h(1) h(5) [of m d]
      by (auto simp: upsert_object_def eff_bind_apply eff_map_err_def)
  qed
  then show ?thesis using upsert_view [OF assms(1-4)] by blast
qed

lemma committed_live:
  assumes "addresses A ds" "ok s" "wf_run v" "object_at ds (version_commit_key v) = Inr x"
  shows "\<exists>s'. is_version_committed B ds v s = (Inr (store_view objs ds s (KCommit v) \<noteq> None), s') \<and>
    ok s' \<and> store_view objs ds s' = store_view objs ds s"
  using head_live [OF assms(1,2), of "KCommit v" x] assms(3,4)
  by (auto simp: is_version_committed_def eff_bind_apply object_at_eff_def)

lemma persist_live:
  assumes "addresses A ds" "ok s" "wf_run v" "se_dataset se = ds" "se_version_id se = v"
    and "codec_total C" "object_at ds (version_state_key v) = Inr x"
  shows "\<exists>d s'. persist_state B C now st (se, s) = (Inr (), (se\<lparr>se_state := st\<rparr>, s')) \<and> ok s' \<and>
    store_view objs ds s' = (store_view objs ds s)(KState v \<mapsto> d)"
proof -
  obtain d where d: "enc_state C \<lparr>psr_contract_version = PUBLICATION_CONTRACT_VERSION,
      psr_version_id = v, psr_run_id = se_run_id se, psr_state = st, psr_updated_at = now\<rparr> = Inr d"
    using assms(6) unfolding codec_total_def is_ok_iff by blast
  show ?thesis using upsert_live [OF assms(1,2), of "KState v" x d] assms d
    by (auto simp: persist_state_def eff_bind_apply get_session_def object_at_eff_def on_snd_def set_state_def)
qed

lemma begin_live:
  assumes "addresses A ds" "ok s" "codec_total C" "wf_run v" "all_resolve ds (run_keys v)"
    and free: "store_view objs ds s KLock = None" "store_view objs ds s (KCommit v) = None"
      "store_view objs ds s (KState v) = None"
  shows "\<exists>lock dl z s'. session_begin B C now ds v s =
      (Inr \<lparr>se_dataset = ds, se_version_id = v, se_run_id = v, se_state = Preparing,
        se_lock = Some lock\<rparr>, s') \<and> ok s' \<and> \<not> lk_released lock \<and>
      object_at ds WRITER_LOCK_KEY = Inr (lk_object lock) \<and>
      store_view objs ds s' = (store_view objs ds s)(KLock \<mapsto> dl, KState v \<mapsto> z)"
proof -
  obtain xl xs xc where x: "object_at ds WRITER_LOCK_KEY = Inr xl"
    "object_at ds (version_state_key v) = Inr xs" "object_at ds (version_commit_key v) = Inr xc"
    using all_resolve_member [OF assms(5), of KLock] all_resolve_member [OF assms(5), of "KState v"]
      all_resolve_member [OF assms(5), of "KCommit v"] by (auto simp: run_keys_def)
  obtain dl where dl: "enc_lock C \<lparr>wl_run_id = v, wl_version_id = v\<rparr> = Inr dl"
    using assms(3) unfolding codec_total_def is_ok_iff by blast
  obtain m s1 where s1: "be_create B xl must_not_exist dl s = (Inr m, s1)" "ok s1"
    "store_view objs ds s1 = (store_view objs ds s)(KLock \<mapsto> dl)"
    using create_live [OF assms(1,2), of KLock xl dl] x free by auto
  let ?lock = "\<lparr>lk_object = xl, lk_record = \<lparr>wl_run_id = v, wl_version_id = v\<rparr>, lk_released = False\<rparr>"
  have aq: "lock_acquire B C ds v s = (Inr ?lock, s1)"
    using caps_create [OF assms(2)] x dl s1
    by (simp add: lock_acquire_def Let_def eff_bind_apply object_at_eff_def)
  obtain s2 where s2: "is_version_committed B ds v s1 = (Inr False, s2)" "ok s2"
    "store_view objs ds s2 = store_view objs ds s1"
    using committed_live [OF assms(1) s1(2) assms(4) x(3)] s1(3) free by auto
  have xsA: "xs \<in> A" using assms(1) x by (auto simp: addresses_def)
  have "objs s2 xs = None"
    using view_at [of "KState v" ds xs s2] assms(4) x s2 s1 free by simp
  then obtain l s3 where s3: "be_read B xs s2 = (Inl (NotFound l), s3)"
    using read_absent [OF s2(2) xsA] by blast
  note v3 = view_read [OF assms(1) s2(2) _ _ s3, of "KState v"]
  have ld: "load_recovered_state B C now ds v s1 = (Inr None, s3)"
    using s2 x s3
    by (simp add: load_recovered_state_def eff_bind_apply object_at_eff_def optional_def
        read_json_object_def eff_map_err_def)
  let ?se = "\<lparr>se_dataset = ds, se_version_id = v, se_run_id = v, se_state = Preparing, se_lock = Some ?lock\<rparr>"
  obtain z s4 where s4: "persist_state B C now Preparing (?se, s3) = (Inr (), (?se, s4))" "ok s4"
    "store_view objs ds s4 = (store_view objs ds s3)(KState v \<mapsto> z)"
    using persist_live [OF assms(1) _ assms(4) _ _ assms(3) x(2), of s3 ?se now Preparing] v3 x assms(4)
    by auto
  have "session_begin B C now ds v s = (Inr ?se, s4)"
    using aq ld s4 by (simp add: session_begin_def eff_bind_apply Let_def)
  then show ?thesis using s4 v3 s2 s1 x assms(4) by auto
qed

lemma advance_live:
  assumes "addresses A ds" "ok s" "wf_run v" "se_dataset se = ds" "se_version_id se = v"
    and "codec_total C" "all_resolve ds (run_keys v)" "allows_transition (se_state se) nxt"
  shows "\<exists>z s'. advance_to B C now nxt (se, s) = (Inr (), (se\<lparr>se_state := nxt\<rparr>, s')) \<and> ok s' \<and>
    store_view objs ds s' = (store_view objs ds s)(KState v := z)"
proof -
  obtain xs where "object_at ds (version_state_key v) = Inr xs"
    using all_resolve_member [OF assms(7), of "KState v"] by (auto simp: run_keys_def)
  note p = persist_live [OF assms(1-6) this, of now nxt]
  show ?thesis
  proof (cases "se_state se = nxt")
    case True
    then show ?thesis using assms(2)
      by (auto simp: advance_to_def intro!: exI [of _ "store_view objs ds s (KState v)"])
  next
    case False
    then show ?thesis using p assms(8) by (auto simp: advance_to_def)
  qed
qed

lemma put_live:
  assumes "addresses A ds" "ok s" "wf_run v" "se_dataset se = ds" "se_version_id se = v"
    and "codec_total C" "all_resolve ds (run_keys v)" "se_state se = Preparing \<or> se_state se = Uploading"
    and "object_at ds (version_data_key v rel) = Inr x" "store_view objs ds s (data_key v rel) = None"
  shows "\<exists>m z s'. put_version_object B C now rel d (se, s) = (Inr m, (se\<lparr>se_state := Uploading\<rparr>, s')) \<and>
    ok s' \<and> store_view objs ds s' = (store_view objs ds s)(KState v := z, data_key v rel \<mapsto> d)"
proof -
  obtain z s1 where s1: "(if se_state se = Preparing then advance_to B C now Uploading
       else if ordinal (se_state se) > ordinal Uploading then eff_fail (InvalidTransition (se_state se) Uploading)
       else eff_return ()) (se, s) = (Inr (), (se\<lparr>se_state := Uploading\<rparr>, s1))" "ok s1"
    "store_view objs ds s1 = (store_view objs ds s)(KState v := z)"
  proof (cases "se_state se = Preparing")
    case True
    then show ?thesis using advance_live [OF assms(1-7), of Uploading now] that by auto
  next
    case False
    then have "se_state se = Uploading" using assms(8) by simp
    then show ?thesis using that [of s "store_view objs ds s (KState v)"] assms(2) by simp
  qed
  obtain m s2 where "be_create B x must_not_exist d s1 = (Inr m, s2)" "ok s2"
    "store_view objs ds s2 = (store_view objs ds s1)(data_key v rel \<mapsto> d)"
    using create_live [OF assms(1) s1(2), of "data_key v rel" x d] assms s1(3) by auto
  then show ?thesis using s1 assms(4,5,9)
    by (auto simp: put_version_object_def eff_bind_apply get_session_def object_at_eff_def on_snd_def
        eff_map_err_def)
qed

lemma files_live:
  assumes "addresses A ds" "wf_run v" "codec_total C" "all_resolve ds (run_keys v)"
    and "walk_files es = Some fs" "ok s" "se_dataset se = ds" "se_version_id se = v"
    and "se_state se = Preparing \<or> se_state se = Uploading"
    and "all_resolve ds (upload_keys v fs)" "distinct (upload_keys v fs)"
    and "\<And>k. k \<in> set (upload_keys v fs) \<Longrightarrow> store_view objs ds s k = None"
  shows "\<exists>recs st s'. publish_files B C now es (se, s) = (Inr recs, (se\<lparr>se_state := st\<rparr>, s')) \<and> ok s' \<and>
    (st = Preparing \<or> st = Uploading) \<and> map por_key recs = map fst fs \<and>
    (\<forall>k. k \<noteq> KState v \<longrightarrow> store_view objs ds s' k = (store_view objs ds s ++ uploaded v fs) k)"
  using assms(5-)
proof (induction es arbitrary: fs se s rule: walk_files.induct)
  case 1
  then show ?case by (auto intro!: exI [of _ "se_state se"])
next
  case (2 es)
  then show ?case by simp
next
  case (3 path d es)
  let ?rel = "replace_char (CHR 0x5C) (CHR ''/'') path"
  from 3(2) obtain gs where gs: "walk_files es = Some gs" "fs = (?rel, d) # gs" by auto
  then have keys: "upload_keys v fs = data_key v ?rel # upload_keys v gs"
    by (simp add: upload_keys_def)
  obtain x where x: "object_at ds (version_data_key v ?rel) = Inr x"
    using all_resolve_member [OF 3(7), of "data_key v ?rel"] keys by auto
  obtain m z s1 where s1: "put_version_object B C now ?rel d (se, s) = (Inr m, (se\<lparr>se_state := Uploading\<rparr>, s1))"
    "ok s1" "store_view objs ds s1 = (store_view objs ds s)(KState v := z, data_key v ?rel \<mapsto> d)"
    using put_live [OF assms(1) 3(3) assms(2) 3(4,5) assms(3,4) 3(6) x, of now d]
      3(9) [of "data_key v ?rel"] keys by auto
  have fresh: "store_view objs ds s1 k = None" if "k \<in> set (upload_keys v gs)" for k
  proof -
    have "k \<noteq> data_key v ?rel" using that 3(8) keys by auto
    moreover have "k \<noteq> KState v" using that by (auto simp: upload_keys_def)
    ultimately have "k \<noteq> KState v" "k \<noteq> data_key v ?rel" by blast+
    then show ?thesis using 3(9) [of k] that keys s1(3) by simp
  qed
  have res: "all_resolve ds (upload_keys v gs)" and dist: "distinct (upload_keys v gs)"
    using 3(7,8) keys by (simp_all add: all_resolve_def)
  obtain recs st s2 where s2: "publish_files B C now es (se\<lparr>se_state := Uploading\<rparr>, s1) =
      (Inr recs, (se\<lparr>se_state := st\<rparr>, s2))" "ok s2" "st = Preparing \<or> st = Uploading"
    "map por_key recs = map fst gs"
    "\<And>k. k \<noteq> KState v \<Longrightarrow> store_view objs ds s2 k = (store_view objs ds s1 ++ uploaded v gs) k"
    using 3(1) [OF gs(1) s1(2), of "se\<lparr>se_state := Uploading\<rparr>"] 3(4,5) res dist fresh by auto
  have "uploaded v gs (data_key v ?rel) = None"
    using 3(8) keys by (intro uploaded_None) auto
  then have view: "store_view objs ds s2 k = (store_view objs ds s ++ uploaded v fs) k" if "k \<noteq> KState v" for k
    using s2(5) [OF that] s1(3) gs(2) that by (simp add: map_add_def split: option.split)
  have "publish_files B C now (WalkFile (Some path) (Inr d) # es) (se, s) =
      (Inr (object_record ?rel m # recs), (se\<lparr>se_state := st\<rparr>, s2))"
    using s1(1) s2(1) by (simp add: eff_bind_apply eff_map_err_def Let_def)
  moreover have "map por_key (object_record ?rel m # recs) = map fst fs"
    using s2(4) gs(2) by (simp add: object_record_def)
  ultimately show ?case using s2(2,3) view by blast
qed auto

lemma manifest_live:
  assumes "addresses A ds" "ok s" "wf_run v" "se_dataset se = ds" "se_version_id se = v"
    and "codec_total C" "all_resolve ds (run_keys v)" "se_state se = Verified"
    and "store_view objs ds s (KManifest v) = None"
  shows "\<exists>d z s'. write_manifest B C now pm (se, s) = (Inr (), (se\<lparr>se_state := ManifestWritten\<rparr>, s')) \<and>
    ok s' \<and> store_view objs ds s' = (store_view objs ds s)(KManifest v \<mapsto> d, KState v \<mapsto> z)"
proof -
  obtain x xs where x: "object_at ds (version_manifest_key v) = Inr x"
    and xs: "object_at ds (version_state_key v) = Inr xs"
    using all_resolve_member [OF assms(7), of "KManifest v"] all_resolve_member [OF assms(7), of "KState v"]
    by (auto simp: run_keys_def)
  obtain d where d: "enc_manifest C pm = Inr d"
    using assms(6) unfolding codec_total_def is_ok_iff by blast
  obtain m s1 where s1: "be_create B x must_not_exist d s = (Inr m, s1)" "ok s1"
    "store_view objs ds s1 = (store_view objs ds s)(KManifest v \<mapsto> d)"
    using create_live [OF assms(1,2), of "KManifest v" x d] assms x by auto
  obtain z s9 where s9: "persist_state B C now ManifestWritten (se, s1) = (Inr (), (se\<lparr>se_state := ManifestWritten\<rparr>, s9))"
    "ok s9" "store_view objs ds s9 = (store_view objs ds s)(KManifest v \<mapsto> d, KState v \<mapsto> z)"
    using persist_live [OF assms(1) s1(2) assms(3-6) xs, of now ManifestWritten] s1(3) by auto
  have "write_manifest B C now pm (se, s) = (Inr (), (se\<lparr>se_state := ManifestWritten\<rparr>, s9))"
    using s9(1) s1 x d assms(4,5,8)
    by (simp add: write_manifest_def eff_bind_apply get_session_def object_at_eff_def on_snd_def eff_map_err_def)
  with s9(2,3) show ?thesis by blast
qed

lemma commit_live:
  assumes "addresses A ds" "ok s" "wf_run v" "se_dataset se = ds" "se_version_id se = v"
    and "codec_total C" "all_resolve ds (run_keys v)" "se_state se = ManifestWritten"
    and "store_view objs ds s (KCommit v) = None"
  shows "\<exists>d z s'. commit B C now (se, s) = (Inr True, (se\<lparr>se_state := Committed\<rparr>, s')) \<and>
    ok s' \<and> store_view objs ds s' = (store_view objs ds s)(KCommit v \<mapsto> d, KState v \<mapsto> z)"
proof -
  obtain x xs where x: "object_at ds (version_commit_key v) = Inr x"
    and xs: "object_at ds (version_state_key v) = Inr xs"
    using all_resolve_member [OF assms(7), of "KCommit v"] all_resolve_member [OF assms(7), of "KState v"]
    by (auto simp: run_keys_def)
  obtain d where d: "enc_marker C \<lparr>cm_version_id = v, cm_run_id = se_run_id se, cm_committed_at = now\<rparr> = Inr d"
    using assms(6) unfolding codec_total_def is_ok_iff by blast
  obtain s1 where s1: "is_version_committed B ds v s = (Inr False, s1)" "ok s1"
    "store_view objs ds s1 = store_view objs ds s"
    using committed_live [OF assms(1-3) x] assms(9) by auto
  obtain m s2 where s2: "be_create B x must_not_exist d s1 = (Inr m, s2)" "ok s2"
    "store_view objs ds s2 = (store_view objs ds s)(KCommit v \<mapsto> d)"
    using create_live [OF assms(1) s1(2), of "KCommit v" x d] assms x s1(3) by auto
  obtain z s9 where s9: "persist_state B C now Committed (se, s2) = (Inr (), (se\<lparr>se_state := Committed\<rparr>, s9))"
    "ok s9" "store_view objs ds s9 = (store_view objs ds s)(KCommit v \<mapsto> d, KState v \<mapsto> z)"
    using persist_live [OF assms(1) s2(2) assms(3-6) xs, of now Committed] s2(3) by auto
  have "commit B C now (se, s) = (Inr True, (se\<lparr>se_state := Committed\<rparr>, s9))"
    using s9(1) s1 s2 x d assms(4,5,8)
    by (simp add: commit_def eff_bind_apply get_session_def object_at_eff_def on_snd_def eff_map_err_def)
  with s9(2,3) show ?thesis by blast
qed

lemma promote_live:
  assumes "addresses A ds" "ok s" "wf_run v" "se_dataset se = ds" "se_version_id se = v"
    and "codec_total C" "all_resolve ds (run_keys v)"
    and "store_view objs ds s (KCommit v) \<noteq> None"
  shows "\<exists>d z s'. promote_current B C now (se, s) = (Inr (), (se\<lparr>se_state := Current\<rparr>, s')) \<and>
    ok s' \<and> enc_pointer C \<lparr>cp_version_id = v\<rparr> = Inr d \<and>
    store_view objs ds s' = (store_view objs ds s)(KCurrent \<mapsto> d, KState v \<mapsto> z)"
proof -
  obtain x xs xc where x: "object_at ds (version_commit_key v) = Inr x"
    and xs: "object_at ds (version_state_key v) = Inr xs" and xc: "object_at ds CURRENT_KEY = Inr xc"
    using all_resolve_member [OF assms(7), of "KCommit v"] all_resolve_member [OF assms(7), of "KState v"]
      all_resolve_member [OF assms(7), of KCurrent]
    by (auto simp: run_keys_def)
  obtain d where d: "enc_pointer C \<lparr>cp_version_id = v\<rparr> = Inr d"
    using assms(6) unfolding codec_total_def is_ok_iff by blast
  obtain s1 where s1: "is_version_committed B ds v s = (Inr True, s1)" "ok s1"
    "store_view objs ds s1 = store_view objs ds s"
    using committed_live [OF assms(1-3) x] assms(8) by auto
  obtain s2 where s2: "upsert_object B xc d s1 = (Inr (), s2)" "ok s2"
    "store_view objs ds s2 = (store_view objs ds s)(KCurrent \<mapsto> d)"
    using upsert_live [OF assms(1) s1(2), of KCurrent xc d] xc s1(3) by auto
  obtain z s9 where s9: "persist_state B C now Current (se, s2) = (Inr (), (se\<lparr>se_state := Current\<rparr>, s9))"
    "ok s9" "store_view objs ds s9 = (store_view objs ds s)(KCurrent \<mapsto> d, KState v \<mapsto> z)"
    using persist_live [OF assms(1) s2(2) assms(3-6) xs, of now Current] s2(3) by auto
  have "promote_current B C now (se, s) = (Inr (), (se\<lparr>se_state := Current\<rparr>, s9))"
    using s9(1) s1 s2 xc d assms(4,5)
    by (simp add: promote_current_def eff_bind_apply get_session_def object_at_eff_def on_snd_def eff_map_err_def)
  with s9(2,3) d show ?thesis by blast
qed

lemma release_live:
  assumes "addresses A ds" "ok s" "se_lock se = Some lock" "\<not> lk_released lock"
    and "object_at ds WRITER_LOCK_KEY = Inr (lk_object lock)"
  shows "\<exists>s'. release_session B (se, s) = (Inr (), (se\<lparr>se_lock := None\<rparr>, s')) \<and> ok s' \<and>
    store_view objs ds s' = (store_view objs ds s)(KLock := None)"
proof -
  have "lk_object lock \<in> A" using assms(1,5) by (auto simp: addresses_def)
  then obtain s' where del: "be_delete B (lk_object lock) s = (Inr (), s')"
    using delete_succeeds [OF assms(2)] by blast
  then show ?thesis using view_delete [OF assms(1,2) _ _ del, of KLock] assms(3-5)
    by (auto simp: release_session_def lock_release_def on_snd_def eff_map_err_def)
qed

lemma finish_live:
  assumes "addresses A ds" "ok s" "wf_run v" "se_dataset se = ds" "se_version_id se = v"
    and "codec_total C" "all_resolve ds (run_keys v)" "se_state se = ManifestWritten"
    and "store_view objs ds s (KCommit v) = None"
    and "se_lock se = Some lock" "\<not> lk_released lock"
    and "object_at ds WRITER_LOCK_KEY = Inr (lk_object lock)"
  shows "\<exists>se' d c z s'. session_finish B C now True (se, s) = (Inr (), (se', s')) \<and> ok s' \<and>
    enc_pointer C \<lparr>cp_version_id = v\<rparr> = Inr d \<and>
    store_view objs ds s' =
      (store_view objs ds s)(KCommit v \<mapsto> c, KCurrent \<mapsto> d, KState v \<mapsto> z, KLock := None)"
proof -
  obtain c z1 s1 where s1: "commit B C now (se, s) = (Inr True, (se\<lparr>se_state := Committed\<rparr>, s1))"
    "ok s1" "store_view objs ds s1 = (store_view objs ds s)(KCommit v \<mapsto> c, KState v \<mapsto> z1)"
    using commit_live [OF assms(1-9)] by blast
  obtain d z2 s2 where s2: "promote_current B C now (se\<lparr>se_state := Committed\<rparr>, s1) =
      (Inr (), (se\<lparr>se_state := Current\<rparr>, s2))" "ok s2" "enc_pointer C \<lparr>cp_version_id = v\<rparr> = Inr d"
    "store_view objs ds s2 = (store_view objs ds s)(KCommit v \<mapsto> c, KCurrent \<mapsto> d, KState v \<mapsto> z2)"
    using promote_live [OF assms(1) s1(2) assms(3), of "se\<lparr>se_state := Committed\<rparr>" C now] assms s1(3)
    by (auto simp: fun_upd_twist)
  obtain s3 where s3: "release_session B (se\<lparr>se_state := Current\<rparr>, s2) =
      (Inr (), (se\<lparr>se_state := Current, se_lock := None\<rparr>, s3))" "ok s3"
    "store_view objs ds s3 = (store_view objs ds s2)(KLock := None)"
    using release_live [OF assms(1) s2(2), of "se\<lparr>se_state := Current\<rparr>" lock] assms by auto
  have "session_finish B C now True (se, s) = (Inr (), (se\<lparr>se_state := Current, se_lock := None\<rparr>, s3))"
    using s1 s2 s3 assms(8) by (simp add: session_finish_def eff_bind_apply get_session_def)
  then show ?thesis using s2 s3 by metis
qed

lemma publish_session_live:
  assumes "addresses A ds" "ok s" "wf_run v" "se_dataset se = ds" "se_version_id se = v"
    and "codec_total C" "all_resolve ds (run_keys v)" "se_state se = Preparing"
    and "se_lock se = Some lock" "\<not> lk_released lock"
    and "object_at ds WRITER_LOCK_KEY = Inr (lk_object lock)"
    and walk: "walk_files es = Some fs"
    and up: "all_resolve ds (upload_keys v (fs @ [(EXECUTION_MANIFEST, mj)]))"
      "distinct (upload_keys v (fs @ [(EXECUTION_MANIFEST, mj)]))"
    and fresh: "store_view objs ds s (KCommit v) = None" "store_view objs ds s (KManifest v) = None"
      "\<And>rel. store_view objs ds s (data_key v rel) = None"
  shows "\<exists>u se' s'. publish_session B C now ds es v (Inr mj) (se, s) =
      (Inr (dataset_display_uri ds, u), (se', s')) \<and> ok s' \<and>
    published C v (fs @ [(EXECUTION_MANIFEST, mj)]) (store_view objs ds s) (store_view objs ds s')"
proof -
  let ?dk = "data_key v EXECUTION_MANIFEST" and ?V = "store_view objs ds"
  let ?se = "\<lambda>st. se\<lparr>se_state := st\<rparr>"
  have sp: "all_resolve ds (upload_keys v fs)" "distinct (upload_keys v fs)" "?dk \<notin> set (upload_keys v fs)"
    using up by (auto simp: all_resolve_def upload_keys_def)
  obtain xm where xm: "object_at ds (version_data_key v EXECUTION_MANIFEST) = Inr xm"
    using all_resolve_member [OF up(1), of ?dk] by (auto simp: upload_keys_def)
  have none: "?V s k = None" if "k \<in> set (upload_keys v fs)" for k
    using that fresh(3) by (auto simp: upload_keys_def)
  obtain recs st s1 where s1: "publish_files B C now es (se, s) = (Inr recs, (?se st, s1))" "ok s1"
    "st = Preparing \<or> st = Uploading" "\<And>k. k \<noteq> KState v \<Longrightarrow> ?V s1 k = (?V s ++ uploaded v fs) k"
    using files_live [OF assms(1,3,6,7) walk assms(2,4,5) _ sp(1,2) none, of now] assms(8) by auto
  obtain m z2 s2 where s2: "put_version_object B C now EXECUTION_MANIFEST mj (?se st, s1) = (Inr m, (?se Uploading, s2))"
    "ok s2" "?V s2 = (?V s1)(KState v := z2, ?dk \<mapsto> mj)"
    using put_live [OF assms(1) s1(2) assms(3) _ _ assms(6,7) _ xm, of "?se st" now mj]
      s1(3,4) assms(4,5) fresh(3) uploaded_None [OF sp(3)] by (auto simp: map_add_def)
  obtain z3 s3 where s3: "advance_to B C now Uploaded (?se Uploading, s2) = (Inr (), (?se Uploaded, s3))"
    "ok s3" "?V s3 = (?V s2)(KState v := z3)"
    using advance_live [OF assms(1) s2(2) assms(3) _ _ assms(6,7), of "?se Uploading" Uploaded now] assms(4,5)
    by auto
  obtain z4 s4 where s4: "advance_to B C now Verified (?se Uploaded, s3) = (Inr (), (?se Verified, s4))"
    "ok s4" "?V s4 = (?V s3)(KState v := z4)"
    using advance_live [OF assms(1) s3(2) assms(3) _ _ assms(6,7), of "?se Uploaded" Verified now] assms(4,5)
    by auto
  have V4: "?V s4 k = (?V s ++ uploaded v (fs @ [(EXECUTION_MANIFEST, mj)])) k" if "k \<noteq> KState v" for k
    using that s4(3) s3(3) s2(3) s1(4) uploaded_None [OF sp(3)]
    by (auto simp: uploaded_append map_add_def split: option.split)
  let ?pm = "\<lparr>pm_contract_version = PUBLICATION_CONTRACT_VERSION, pm_version_id = v,
        pm_run_id = v, pm_objects = recs @ [object_record EXECUTION_MANIFEST m]\<rparr>"
  obtain dm z5 s5 where s5: "write_manifest B C now ?pm (?se Verified, s4) = (Inr (), (?se ManifestWritten, s5))"
    "ok s5" "?V s5 = (?V s4)(KManifest v \<mapsto> dm, KState v \<mapsto> z5)"
    using manifest_live [OF assms(1) s4(2) assms(3) _ _ assms(6,7), of "?se Verified" now ?pm] assms(4,5)
      V4 [of "KManifest v"] fresh(2) by (auto simp: map_add_def)
  obtain u where u: "manifest_uri ds v = Inr u"
    using xm by (cases ds) (auto simp: manifest_uri_def object_at_def key_defs bind_res_Inr_iff
        trim_start_matches_id EXECUTION_MANIFEST_def)
  obtain se6 d c z s6 where s6: "session_finish B C now True (?se ManifestWritten, s5) = (Inr (), (se6, s6))"
    "ok s6" "enc_pointer C \<lparr>cp_version_id = v\<rparr> = Inr d"
    "?V s6 = (?V s5)(KCommit v \<mapsto> c, KCurrent \<mapsto> d, KState v \<mapsto> z, KLock := None)"
    using finish_live [OF assms(1) s5(2) assms(3) _ _ assms(6,7), of "?se ManifestWritten" lock now] assms(4,5,9-11)
      V4 [of "KCommit v"] fresh(1) s5(3) by (auto simp: map_add_def)
  have "publish_session B C now ds es v (Inr mj) (se, s) = (Inr (dataset_display_uri ds, u), (se6, s6))"
    using s1(1) s2(1) s3(1) s4(1) s5(1) s6(1) u
    by (simp add: publish_session_def mark_uploaded_def mark_verified_def eff_bind_apply eff_map_err_def)
  moreover have "published C v (fs @ [(EXECUTION_MANIFEST, mj)]) (?V s) (?V s6)"
    using s6(3,4) s5(3) V4 uploaded_member [OF up(2)] uploaded_None
    by (auto simp: published_def run_keys_def map_add_def upload_keys_def split: option.split)
  ultimately show ?thesis using s6(2) by blast
qed

lemma publish_live:
  assumes "addresses A ds" "ok s" "wf_run v" "codec_total C" "all_resolve ds (run_keys v)"
    and walk: "walk_files es = Some fs"
    and up: "all_resolve ds (upload_keys v (fs @ [(EXECUTION_MANIFEST, mj)]))"
      "distinct (upload_keys v (fs @ [(EXECUTION_MANIFEST, mj)]))"
    and fresh: "store_view objs ds s KLock = None"
      "\<And>k. key_version k = Some v \<Longrightarrow> store_view objs ds s k = None"
  shows "\<exists>u s'. publish_work_dir B C now ds es v (Inr mj) s = (Inr (dataset_display_uri ds, u), s') \<and> ok s' \<and>
    published C v (fs @ [(EXECUTION_MANIFEST, mj)]) (store_view objs ds s) (store_view objs ds s')"
proof -
  obtain lock dl z s1 where s1: "session_begin B C now ds v s =
      (Inr \<lparr>se_dataset = ds, se_version_id = v, se_run_id = v, se_state = Preparing,
        se_lock = Some lock\<rparr>, s1)" "ok s1" "\<not> lk_released lock"
      "object_at ds WRITER_LOCK_KEY = Inr (lk_object lock)"
      "store_view objs ds s1 = (store_view objs ds s)(KLock \<mapsto> dl, KState v \<mapsto> z)"
    using begin_live [OF assms(1,2,4,3,5) fresh(1), of now] fresh(2) by auto
  let ?se = "\<lparr>se_dataset = ds, se_version_id = v, se_run_id = v, se_state = Preparing, se_lock = Some lock\<rparr>"
  have dk: "store_view objs ds s1 (data_key v rel) = None" for rel
    using fresh(2) [of "data_key v rel"] s1(5) by (simp add: data_key_def)
  obtain u se' s' where fin: "publish_session B C now ds es v (Inr mj) (?se, s1) =
      (Inr (dataset_display_uri ds, u), (se', s'))" "ok s'"
    "published C v (fs @ [(EXECUTION_MANIFEST, mj)]) (store_view objs ds s1) (store_view objs ds s')"
    using publish_session_live [OF assms(1) s1(2) assms(3) _ _ assms(4,5) _ _ s1(3,4) walk up, of ?se now]
      dk fresh(2) s1(5) by auto
  have "published C v (fs @ [(EXECUTION_MANIFEST, mj)]) (store_view objs ds s) (store_view objs ds s')"
    using fin(3) s1(5) by (auto simp: published_def run_keys_def)
  then show ?thesis using s1(1) fin(1,2) by (auto simp: publish_work_dir_def)
qed

subsection \<open>Resuming after a crash, and a lock held by another run\<close>

lemma read_json_live:
  assumes "addresses A ds" "ok s" "wf_pkey k" "object_at ds (key_string k) = Inr x"
    and "store_view objs ds s k = Some d" "dec d = Inr a"
  shows "\<exists>s'. read_json_object B dec x s = (Inr a, s') \<and> ok s' \<and>
    store_view objs ds s' = store_view objs ds s"
proof -
  have xA: "x \<in> A" using assms(1,4) by (auto simp: addresses_def)
  have "objs s x = Some d" using assms(3-5) by (simp add: view_at)
  then obtain s' where run: "be_read B x s = (Inr d, s')" using read_present [OF assms(2) xA] by blast
  then show ?thesis using view_read [OF assms(1-4) run] assms(6)
    by (auto simp: read_json_object_def eff_bind_apply eff_map_err_def)
qed

lemma acquire_conflict:
  assumes "addresses A ds" "ok s" "codec_total C" "object_at ds WRITER_LOCK_KEY = Inr x"
    and "store_view objs ds s KLock \<noteq> None"
  shows "\<exists>s'. lock_acquire B C ds v s =
      reclaim_or_reject B C x \<lparr>wl_run_id = v, wl_version_id = v\<rparr> s' \<and> ok s' \<and>
    store_view objs ds s' = store_view objs ds s"
proof -
  have xA: "x \<in> A" using assms(1,4) by (auto simp: addresses_def)
  obtain dl where dl: "enc_lock C \<lparr>wl_run_id = v, wl_version_id = v\<rparr> = Inr dl"
    using assms(3) unfolding codec_total_def is_ok_iff by blast
  have "objs s x \<noteq> None" using view_at [of KLock ds x s] assms(4,5) by simp
  then obtain g s' where run: "be_create B x must_not_exist dl s = (Inl (Conflict g), s')"
    using create_conflict [OF assms(2) xA, of must_not_exist dl] by (auto simp: must_not_exist_def)
  show ?thesis using view_create [OF assms(1,2) _ _ run, of KLock] assms(4) caps_create [OF assms(2)] dl run
    by (auto simp: lock_acquire_def Let_def eff_bind_apply object_at_eff_def)
qed

lemma begin_foreign:
  assumes "addresses A ds" "ok s" "codec_total C" "object_at ds WRITER_LOCK_KEY = Inr x"
    and "lock_owner C (store_view objs ds s) u" "u \<noteq> v"
  shows "\<exists>s'. session_begin B C now ds v s = (Inl (LockHeld u), s') \<and> ok s' \<and>
    store_view objs ds s' = store_view objs ds s"
proof -
  obtain d rec where d: "store_view objs ds s KLock = Some d" "dec_lock C d = Inr rec" "wl_run_id rec = u"
    using assms(5) by (auto simp: lock_owner_def)
  obtain s1 where s1: "lock_acquire B C ds v s =
      reclaim_or_reject B C x \<lparr>wl_run_id = v, wl_version_id = v\<rparr> s1" "ok s1"
    "store_view objs ds s1 = store_view objs ds s"
    using acquire_conflict [OF assms(1-4)] d(1) by auto
  obtain s2 where "read_json_object B (dec_lock C) x s1 = (Inr rec, s2)" "ok s2"
    "store_view objs ds s2 = store_view objs ds s1"
    using read_json_live [OF assms(1) s1(2), of KLock x d "dec_lock C" rec] assms(4) d s1(3) by auto
  then show ?thesis using s1 d(3) assms(6)
    by (auto simp: session_begin_def eff_bind_apply reclaim_or_reject_def)
qed

lemma begin_resume:
  assumes "addresses A ds" "ok s" "codec_total C" "wf_run v" "all_resolve ds (run_keys v)"
    and codec: "codec_ok C"
    and "lock_owner C (store_view objs ds s) v"
    and "store_view objs ds s (KCommit v) = None"
    and st: "store_view objs ds s (KState v) = Some dst" "dec_state C dst = Inr rec"
      "psr_state rec \<noteq> Preparing"
  shows "\<exists>se s'. session_begin B C now ds v s = (Inr se, s') \<and> se_state se = psr_state rec \<and>
    se_version_id se = v \<and> ok s' \<and> lock_owner C (store_view objs ds s') v \<and>
    (\<forall>k. k \<noteq> KLock \<longrightarrow> store_view objs ds s' k = store_view objs ds s k)"
proof -
  let ?V = "store_view objs ds"
  obtain xl xs xc where x: "object_at ds WRITER_LOCK_KEY = Inr xl"
    "object_at ds (version_state_key v) = Inr xs" "object_at ds (version_commit_key v) = Inr xc"
    using all_resolve_member [OF assms(5), of KLock] all_resolve_member [OF assms(5), of "KState v"]
      all_resolve_member [OF assms(5), of "KCommit v"] by (auto simp: run_keys_def)
  let ?rec = "\<lparr>wl_run_id = v, wl_version_id = v\<rparr>"
  obtain d l where d: "?V s KLock = Some d" "dec_lock C d = Inr l" "wl_run_id l = v"
    using assms(7) by (auto simp: lock_owner_def)
  obtain dl where dl: "enc_lock C ?rec = Inr dl"
    using assms(3) unfolding codec_total_def is_ok_iff by blast
  obtain s1 where s1: "lock_acquire B C ds v s = reclaim_or_reject B C xl ?rec s1" "ok s1" "?V s1 = ?V s"
    using acquire_conflict [OF assms(1-3) x(1)] d(1) by auto
  obtain s2 where s2: "read_json_object B (dec_lock C) xl s1 = (Inr l, s2)" "ok s2" "?V s2 = ?V s"
    using read_json_live [OF assms(1) s1(2), of KLock xl d "dec_lock C" l] x(1) d s1(3) by auto
  have "xl \<in> A" using assms(1) x(1) by (auto simp: addresses_def)
  then obtain s3 where del: "be_delete B xl s2 = (Inr (), s3)" using delete_succeeds [OF s2(2)] by blast
  have s3: "ok s3" "?V s3 = (?V s)(KLock := None)"
    using view_delete [OF assms(1) s2(2) _ _ del, of KLock] x(1) s2(3) by auto
  obtain m s4 where s4: "be_create B xl must_not_exist dl s3 = (Inr m, s4)" "ok s4"
    "?V s4 = (?V s)(KLock \<mapsto> dl)"
    using create_live [OF assms(1) s3(1), of KLock xl dl] x(1) s3(2) by auto
  let ?lock = "\<lparr>lk_object = xl, lk_record = ?rec, lk_released = False\<rparr>"
  have aq: "lock_acquire B C ds v s = (Inr ?lock, s4)"
    using s1(1) s2(1) del s4(1) dl d(3)
    by (simp add: reclaim_or_reject_def eff_bind_apply eff_map_err_def)
  obtain s5 where s5: "is_version_committed B ds v s4 = (Inr False, s5)" "ok s5" "?V s5 = ?V s4"
    using committed_live [OF assms(1) s4(2) assms(4) x(3)] s4(3) assms(8) by auto
  obtain s6 where s6: "read_json_object B (dec_state C) xs s5 = (Inr rec, s6)" "ok s6" "?V s6 = ?V s5"
    using read_json_live [OF assms(1) s5(2), of "KState v" xs dst "dec_state C" rec] x(2) st s4(3) s5(3) assms(4)
    by auto
  have ld: "load_recovered_state B C now ds v s4 = (Inr (Some rec), s6)"
    using s5(1) s6(1) x(2) by (simp add: load_recovered_state_def eff_bind_apply object_at_eff_def optional_def)
  have "session_begin B C now ds v s = (Inr \<lparr>se_dataset = ds, se_version_id = v, se_run_id = v,
      se_state = psr_state rec, se_lock = Some ?lock\<rparr>, s6)"
    using aq ld st(3) by (simp add: session_begin_def eff_bind_apply Let_def)
  moreover have "dec_lock C dl = Inr ?rec" using codec dl by (simp add: codec_ok_def)
  ultimately show ?thesis using s6(2,3) s5(3) s4(3) by (auto simp: lock_owner_def)
qed

text \<open>
  A crash after the manifest is created and before \<open>state.json\<close> says so leaves a state
  in which every further \<open>write_manifest\<close> reports a conflict.
\<close>

lemma manifest_conflict:
  assumes "addresses A ds" "ok s" "wf_run v" "se_dataset se = ds" "se_version_id se = v"
    and "codec_total C" "all_resolve ds (run_keys v)" "se_state se = Verified"
    and "store_view objs ds s (KManifest v) \<noteq> None"
  shows "\<exists>g s'. write_manifest B C now pm (se, s) = (Inl (PubStorage (Conflict g)), (se, s')) \<and>
    ok s' \<and> store_view objs ds s' = store_view objs ds s"
proof -
  obtain x where x: "object_at ds (version_manifest_key v) = Inr x"
    using all_resolve_member [OF assms(7), of "KManifest v"] by (auto simp: run_keys_def)
  obtain d where d: "enc_manifest C pm = Inr d"
    using assms(6) unfolding codec_total_def is_ok_iff by blast
  have xA: "x \<in> A" using assms(1) x by (auto simp: addresses_def)
  have "objs s x \<noteq> None" using view_at [of "KManifest v" ds x s] assms(3,9) x by simp
  then obtain g s' where run: "be_create B x must_not_exist d s = (Inl (Conflict g), s')"
    using create_conflict [OF assms(2) xA, of must_not_exist d] by (auto simp: must_not_exist_def)
  show ?thesis using view_create [OF assms(1,2) _ _ run, of "KManifest v"] x d run assms(3-5,8)
    by (auto simp: write_manifest_def eff_bind_apply get_session_def object_at_eff_def on_snd_def
        eff_map_err_def)
qed

end

end
