(* ===== verification/Publication_Results.thy ===== *)
theory Publication_Results
  imports Publication_Publish
begin

text \<open>
  What the publication protocol guarantees on the in-memory backend and on the same
  backend under every fault schedule. The facts come from the interpretations
  \<open>mem\<close> and \<open>faulty_mem\<close> of the storage locales. A codec with length-prefixed fields
  shows that the codec hypotheses can hold; concrete schedules are run by \<open>exec\<close>.
\<close>

section \<open>A concrete codec\<close>

definition put_nat :: "nat \<Rightarrow> string" where
  "put_nat n = replicate n (CHR ''1'') @ ''0''"

definition get_nat :: "string \<Rightarrow> nat \<times> string" where
  "get_nat s = (length (takeWhile (\<lambda>c. c = CHR ''1'') s), tl (dropWhile (\<lambda>c. c = CHR ''1'') s))"

definition put_str :: "string \<Rightarrow> string" where
  "put_str s = put_nat (length s) @ s"

definition get_str :: "string \<Rightarrow> string \<times> string" where
  "get_str s = (case get_nat s of (n, r) \<Rightarrow> (take n r, drop n r))"

definition put_int :: "int \<Rightarrow> string" where
  "put_int i = put_nat (if i < 0 then 1 else 0) @ put_nat (nat \<bar>i\<bar>)"

definition get_int :: "string \<Rightarrow> int \<times> string" where
  "get_int s = (case get_nat s of (g, r) \<Rightarrow> (case get_nat r of (n, r') \<Rightarrow>
     (if g = 0 then int n else - int n, r')))"

lemma get_put_nat [simp]: "get_nat (put_nat n @ r) = (n, r)"
  by (simp add: get_nat_def put_nat_def takeWhile_append dropWhile_append)

lemma get_put_str [simp]: "get_str (put_str s @ r) = (s, r)"
  by (simp add: get_str_def put_str_def)

lemma get_put_int [simp]: "get_int (put_int i @ r) = (i, r)"
  by (simp add: get_int_def put_int_def)

definition state_of_ordinal :: "nat \<Rightarrow> publication_state" where
  "state_of_ordinal n = [Preparing, Uploading, Uploaded, Verified, ManifestWritten, Committed, Current] ! n"

lemma state_of_ordinal [simp]: "state_of_ordinal (ordinal st) = st"
  by (cases st) (simp_all add: state_of_ordinal_def)

definition put_state :: "publication_state_record \<Rightarrow> string" where
  "put_state r = put_nat (psr_contract_version r) @ put_str (psr_version_id r) @ put_str (psr_run_id r) @
     put_nat (ordinal (psr_state r)) @ put_int (psr_updated_at r)"

definition get_state :: "string \<Rightarrow> publication_state_record" where
  "get_state s = (case get_nat s of (n, s) \<Rightarrow> case get_str s of (v, s) \<Rightarrow> case get_str s of (u, s) \<Rightarrow>
     case get_nat s of (st, s) \<Rightarrow> case get_int s of (t, s) \<Rightarrow>
     \<lparr>psr_contract_version = n, psr_version_id = v, psr_run_id = u, psr_state = state_of_ordinal st,
      psr_updated_at = t\<rparr>)"

definition plain_codec :: codec where
  "plain_codec = \<lparr>
     enc_state = (\<lambda>r. Inr (put_state r)), dec_state = (\<lambda>d. Inr (get_state d)),
     enc_manifest = (\<lambda>m. Inr (put_str (pm_version_id m))),
     enc_marker = (\<lambda>m. Inr (put_str (cm_version_id m))),
     enc_pointer = (\<lambda>p. Inr (cp_version_id p)), dec_pointer = (\<lambda>d. Inr \<lparr>cp_version_id = d\<rparr>),
     enc_lock = (\<lambda>l. Inr (put_str (wl_run_id l) @ put_str (wl_version_id l))),
     dec_lock = (\<lambda>d. case get_str d of (u, s) \<Rightarrow> Inr \<lparr>wl_run_id = u, wl_version_id = fst (get_str s)\<rparr>)\<rparr>"

lemma get_put_state: "get_state (put_state r) = r"
proof -
  have "put_int i = put_int i @ []" for i by simp
  then show ?thesis
    by (simp add: get_state_def put_state_def get_put_int [of _ "[]", simplified])
qed

lemma plain_codec_ok: "codec_ok plain_codec"
proof -
  have "get_str (put_str s) = (s, [])" for s using get_put_str [of s "[]"] by simp
  then show ?thesis by (simp add: codec_ok_def plain_codec_def get_put_state)
qed

lemma plain_codec_total: "codec_total plain_codec"
  by (simp add: codec_total_def plain_codec_def)

section \<open>Running schedules\<close>

datatype pub_cmd =
  CBegin string | COp string pub_op | CAbandon string | CFinish string bool | CCrash string

fun exec_cmd ::
  "'s storage_backend \<Rightarrow> codec \<Rightarrow> dataset_location \<Rightarrow> timestamp \<Rightarrow> pub_cmd \<Rightarrow> 's world \<Rightarrow> 's world" where
  "exec_cmd B C ds now (CBegin v) w =
     (if w_live w v \<noteq> None \<or> \<not> wf_run v then w
      else (case session_begin B C now ds v (w_store w) of
              (r, s') \<Rightarrow> \<lparr>w_store = s', w_live =
                 (case r of Inr se \<Rightarrow> (w_live w)(v \<mapsto> se) | Inl _ \<Rightarrow> w_live w)\<rparr>))"
| "exec_cmd B C ds now (COp v op) w =
     (case w_live w v of None \<Rightarrow> w
      | Some se \<Rightarrow> (case run_op B C now op (se, w_store w) of
          (_, (se', s')) \<Rightarrow> \<lparr>w_store = s', w_live = (w_live w)(v \<mapsto> se')\<rparr>))"
| "exec_cmd B C ds now (CAbandon v) w =
     (case w_live w v of None \<Rightarrow> w
      | Some se \<Rightarrow> (case session_abandon B (se, w_store w) of
          (_, (se', s')) \<Rightarrow> \<lparr>w_store = s', w_live = (w_live w)(v := None)\<rparr>))"
| "exec_cmd B C ds now (CFinish v promote) w =
     (case w_live w v of None \<Rightarrow> w
      | Some se \<Rightarrow> (case session_finish B C now promote (se, w_store w) of
          (_, (se', s')) \<Rightarrow> \<lparr>w_store = s', w_live = (w_live w)(v := None)\<rparr>))"
| "exec_cmd B C ds now (CCrash v) w =
     (case w_live w v of None \<Rightarrow> w
      | Some se \<Rightarrow> \<lparr>w_store = w_store w, w_live = (w_live w)(v := None)\<rparr>)"

definition exec ::
  "'s storage_backend \<Rightarrow> codec \<Rightarrow> dataset_location \<Rightarrow> timestamp \<Rightarrow> pub_cmd list \<Rightarrow> 's world \<Rightarrow> 's world" where
  "exec B C ds now cmds w = fold (exec_cmd B C ds now) cmds w"

fun cmd_calls :: "(pub_op \<Rightarrow> bool) \<Rightarrow> pub_cmd \<Rightarrow> bool" where
  "cmd_calls P (COp v op) = P op"
| "cmd_calls P _ = True"

lemma exec_cmd_reach: "cmd_calls P c \<Longrightarrow> pub_reach P B C ds w (exec_cmd B C ds now c w)"
  by (cases c) (auto split: option.splits prod.splits intro!: r_into_rtranclp intro: pub_step.intros)

lemma exec_reach: "list_all (cmd_calls P) cmds \<Longrightarrow> pub_reach P B C ds w (exec B C ds now cmds w)"
  unfolding exec_def
proof (induction cmds arbitrary: w)
  case (Cons c cs)
  then have "pub_reach P B C ds w (exec_cmd B C ds now c w)" by (intro exec_cmd_reach) simp
  also have "pub_reach P B C ds (exec_cmd B C ds now c w) (fold (exec_cmd B C ds now) cs (exec_cmd B C ds now c w))"
    using Cons by simp
  finally show ?case by simp
qed simp

lemma cmd_calls_any [simp]: "list_all (cmd_calls any_call) cmds"
proof -
  have "cmd_calls any_call c" for c by (cases c) (simp_all add: any_call_def)
  then show ?thesis by (simp add: list_all_iff)
qed

section \<open>Datasets of the memory backend\<close>

fun wf_bucket :: "dataset_location \<Rightarrow> bool" where
  "wf_bucket (DatasetLocal p) = True"
| "wf_bucket (DatasetS3 s) = (CHR ''/'' \<notin> set (s3_bucket s))"

lemma wf_bucket_addresses: "wf_bucket ds \<Longrightarrow> addresses {x. wf_object x} ds"
  by (cases ds) (auto simp: addresses_def object_at_def bind_res_Inr_iff)

abbreviation faulty :: "memory_state fault_state storage_backend" where
  "faulty \<equiv> fault_backend memory_backend"

definition faulty_view :: "dataset_location \<Rightarrow> memory_state fault_state \<Rightarrow> view" where
  "faulty_view ds = store_view (\<lambda>st. mem_objs (fs_inner st)) ds"

definition mem_view :: "dataset_location \<Rightarrow> memory_state \<Rightarrow> view" where
  "mem_view ds = store_view mem_objs ds"

text \<open>No publication object of the dataset is stored.\<close>

definition unpublished :: "dataset_location \<Rightarrow> memory_state \<Rightarrow> bool" where
  "unpublished ds m \<longleftrightarrow> (\<forall>k. mem_view ds m k = None)"

text \<open>What is reached from an unpublished dataset by sessions that make the calls of \<open>P\<close>, under a list of fault rules.\<close>

definition reachable ::
  "(pub_op \<Rightarrow> bool) \<Rightarrow> codec \<Rightarrow> dataset_location \<Rightarrow> memory_state \<Rightarrow> fault_rule list \<Rightarrow> memory_state fault_state world \<Rightarrow> bool" where
  "reachable P C ds m rules w \<longleftrightarrow> codec_ok C \<and> wf_bucket ds \<and> mem_ok m \<and> unpublished ds m \<and>
     pub_reach P faulty C ds (start_world (fault_new m rules)) w"

lemma faulty_view_new: "faulty_view ds (fault_new m rules) = mem_view ds m"
  by (rule ext) (simp add: faulty_view_def mem_view_def store_view_def fault_new_def split: sum.split)

lemma unpublished_inv: "unpublished ds m \<Longrightarrow> pub_inv C (mem_view ds m)"
  by (simp add: unpublished_def pub_inv_def)

lemma reachable_inv:
  assumes "reachable P C ds m rules w" and "\<And>op. M \<Longrightarrow> P op \<Longrightarrow> manifest_kept op"
  shows "world_inv M (\<lambda>st. mem_ok (fs_inner st)) (faulty_view ds) C ds w"
proof -
  have start: "world_inv M (\<lambda>st. mem_ok (fs_inner st)) (faulty_view ds) C ds (start_world (fault_new m rules))"
    using assms unpublished_inv [of ds m C] faulty_view_new [of ds m rules]
    by (simp add: world_inv_def start_world_def reachable_def fault_new_def)
  show ?thesis
    using faulty_mem.reach_inv [of P C ds "start_world (fault_new m rules)" w M] start assms wf_bucket_addresses
    by (simp add: reachable_def faulty_view_def)
qed

lemma reachable_locks: "reachable P C ds m rules w \<Longrightarrow> world_inv False (\<lambda>st. mem_ok (fs_inner st)) (faulty_view ds) C ds w"
  by (rule reachable_inv) simp_all

lemma reachable_manifests: "reachable manifest_kept C ds m rules w \<Longrightarrow> world_inv True (\<lambda>st. mem_ok (fs_inner st)) (faulty_view ds) C ds w"
  by (rule reachable_inv)

lemma reachable_keeps:
  assumes "reachable P C ds m rules w" "pub_reach P faulty C ds w w'"
  shows "keeps (faulty_view ds (w_store w)) (faulty_view ds (w_store w'))"
  using faulty_mem.reach_inv [of P C ds w w' False] reachable_locks [OF assms(1)] assms wf_bucket_addresses
  by (simp add: reachable_def faulty_view_def)

lemma reachable_exec:
  "codec_ok C \<Longrightarrow> wf_bucket ds \<Longrightarrow> mem_ok m \<Longrightarrow> unpublished ds m \<Longrightarrow> list_all (cmd_calls P) cmds \<Longrightarrow>
   reachable P C ds m rules (exec faulty C ds now cmds (start_world (fault_new m rules)))"
  by (simp add: reachable_def exec_reach)

lemma unpublished_new [simp]: "unpublished ds (memory_new caps)"
  by (auto simp: unpublished_def mem_view_def store_view_def memory_new_def mem_objs_def split: sum.split)

section \<open>A concrete schedule\<close>

text \<open>A run that commits, fails to promote by an injected fault, crashes and resumes,
  while another run is refused the lock.\<close>

definition demo_ds :: dataset_location where
  "demo_ds = DatasetS3 \<lparr>s3_bucket = ''b'', s3_prefix = ''p/''\<rparr>"

definition demo_manifest :: publication_manifest where
  "demo_manifest = \<lparr>pm_contract_version = 1, pm_version_id = ''r1'', pm_run_id = ''r1'', pm_objects = []\<rparr>"

definition demo_rules :: "fault_rule list" where
  "demo_rules = [\<lparr>fr_target = FT_Head, fr_location_substr = Some ''CURRENT'', fr_write_part_index = None,
     fr_steps = [Inject (Transient ''x'')], fr_exhausted = ExhaustedDelegate\<rparr>]"

definition demo_store :: memory_state where
  "demo_store = memory_new CAPS_LOCAL"

definition demo_cmds :: "pub_cmd list" where
  "demo_cmds = [CBegin ''r1'', COp ''r1'' (OpPut ''a'' ''x''), COp ''r1'' OpUploaded, COp ''r1'' OpVerified,
     COp ''r1'' (OpManifest demo_manifest), COp ''r1'' OpCommit, COp ''r1'' OpPromote, CCrash ''r1'',
     CBegin ''r2'', CBegin ''r1'']"

definition demo_run :: "pub_cmd list \<Rightarrow> memory_state fault_state world" where
  "demo_run cmds = exec faulty plain_codec demo_ds 0 cmds (start_world (fault_new demo_store demo_rules))"

lemma demo_store_ok [simp]: "mem_ok demo_store" "unpublished ds demo_store" "wf_bucket demo_ds"
  by (simp_all add: demo_store_def demo_ds_def) (simp add: mem_ok_def memory_new_def CAPS_LOCAL_def)

lemma demo_reachable: "list_all (cmd_calls P) cmds \<Longrightarrow> reachable P plain_codec demo_ds demo_store demo_rules (demo_run cmds)"
  unfolding demo_run_def
  by (rule reachable_exec) (simp_all add: plain_codec_ok)

lemma demo_cmds_kept: "list_all (cmd_calls manifest_kept) demo_cmds"
  by (simp add: demo_cmds_def manifest_kept_def)

section \<open>Safety under every fault schedule\<close>

text \<open>
  C1. In every state reached by any interleaving of publication sessions, one at a time per run id, that leave the step to
  \<open>ManifestWritten\<close> to \<open>write_manifest\<close> instead of calling \<open>advance_to\<close> for it, with crashes and injected storage faults, a
  version whose \<open>COMMITTED\<close> marker exists has its manifest, and a \<open>CURRENT\<close> pointer that decodes names a committed version.
\<close>

theorem committed_versions_complete:
  assumes "reachable manifest_kept C ds m rules w"
  shows "(\<forall>v. faulty_view ds (w_store w) (KCommit v) \<noteq> None \<longrightarrow>
            faulty_view ds (w_store w) (KManifest v) \<noteq> None) \<and>
         (\<forall>d p. faulty_view ds (w_store w) KCurrent = Some d \<longrightarrow> dec_pointer C d = Inr p \<longrightarrow>
            faulty_view ds (w_store w) (KCommit (cp_version_id p)) \<noteq> None)"
  using reachable_manifests [OF assms] by (auto simp: world_inv_def pub_inv_def)

theorem committed_versions_complete_witness:
  "faulty_view demo_ds (w_store (demo_run demo_cmds)) (KCommit ''r1'') \<noteq> None \<and>
   faulty_view demo_ds (w_store (demo_run demo_cmds)) (KManifest ''r1'') \<noteq> None"
proof -
  have "faulty_view demo_ds (w_store (demo_run demo_cmds)) (KCommit ''r1'') \<noteq> None" by code_simp
  then show ?thesis using committed_versions_complete [OF demo_reachable [OF demo_cmds_kept]] by blast
qed

text \<open>
  C2. At most one run holds a live session on a dataset, under any interleaving of sessions, one at a time per run id,
  whatever methods they call, with crashes and storage faults: the writer lock excludes other runs.
\<close>

theorem single_writer:
  assumes "reachable any_call C ds m rules w" "w_live w v = Some se" "w_live w v' = Some se'"
  shows "v = v'"
  using live_unique [OF reachable_locks [OF assms(1)] assms(2,3)] .

theorem single_writer_witness:
  "w_live (demo_run demo_cmds) ''r1'' \<noteq> None \<and> w_live (demo_run demo_cmds) ''r2'' = None"
proof -
  have live: "w_live (demo_run demo_cmds) ''r1'' \<noteq> None" by code_simp
  then obtain se where se: "w_live (demo_run demo_cmds) ''r1'' = Some se" by blast
  have "w_live (demo_run demo_cmds) ''r2'' \<noteq> Some se'" for se'
    using single_writer [OF demo_reachable [OF cmd_calls_any] se, of "''r2''" se'] by auto
  then show ?thesis using live by (cases "w_live (demo_run demo_cmds) ''r2''") auto
qed

text \<open>
  C3. Manifests, commit markers and version data are written once: from a reachable
  state on, no call of a session method, crash or fault changes or removes one, and no published
  object but the lock disappears.
\<close>

theorem published_objects_immutable:
  assumes "reachable any_call C ds m rules w" "pub_reach any_call faulty C ds w w'"
    and "immutable_key k" "faulty_view ds (w_store w) k = Some d"
  shows "faulty_view ds (w_store w') k = Some d"
  using reachable_keeps [OF assms(1,2)] assms(3,4) by (auto simp: keeps_def)

theorem published_objects_immutable_witness:
  "faulty_view demo_ds (w_store (exec faulty plain_codec demo_ds 0
     [COp ''r1'' (OpPut ''a'' ''y''), COp ''r1'' OpPromote] (demo_run demo_cmds))) (KData ''r1'' ''a'') = Some ''x''"
proof (rule published_objects_immutable [OF demo_reachable [OF cmd_calls_any] exec_reach [OF cmd_calls_any]])
  show "immutable_key (KData ''r1'' ''a'')" by simp
  show "faulty_view demo_ds (w_store (demo_run demo_cmds)) (KData ''r1'' ''a'') = Some ''x''" by code_simp
qed

text \<open>
  C4. While sessions leave the step to \<open>ManifestWritten\<close> to \<open>write_manifest\<close>, what \<open>observed_state\<close> reports of a version is backed by
  objects in the store, whatever faults and crashes occurred: \<open>Committed\<close> or \<open>Current\<close> only with a commit marker,
  \<open>ManifestWritten\<close> or later only with a manifest. A persisted state record alone never
  makes a version committed.
\<close>

theorem observed_state_honest:
  assumes "reachable manifest_kept C ds m rules w" "wf_run v"
    and "observed_state faulty C ds v (w_store w) = (Inr (Some st), s')"
  shows "(ordinal Committed \<le> ordinal st \<longrightarrow> faulty_view ds (w_store w) (KCommit v) \<noteq> None) \<and>
    (ordinal ManifestWritten \<le> ordinal st \<longrightarrow> faulty_view ds (w_store w) (KManifest v) \<noteq> None)"
  using faulty_mem.observed_outcome [of ds "w_store w" v C st s'] assms reachable_manifests [OF assms(1)]
    wf_bucket_addresses
  by (simp add: world_inv_def reachable_def faulty_view_def)

theorem observed_state_honest_witness:
  "\<exists>s'. observed_state faulty plain_codec demo_ds ''r1'' (w_store (demo_run demo_cmds)) = (Inr (Some Committed), s') \<and>
   faulty_view demo_ds (w_store (demo_run demo_cmds)) (KManifest ''r1'') \<noteq> None"
proof -
  have "fst (observed_state faulty plain_codec demo_ds ''r1'' (w_store (demo_run demo_cmds))) = Inr (Some Committed)"
    by code_simp
  then obtain s' where s': "observed_state faulty plain_codec demo_ds ''r1'' (w_store (demo_run demo_cmds)) =
      (Inr (Some Committed), s')" by (metis prod.collapse)
  then show ?thesis
    using observed_state_honest [OF demo_reachable [OF demo_cmds_kept] _ s'] by (simp add: wf_run_def)
qed

text \<open>
  \<open>advance_to\<close> checks the order of the states and not what they stand for: a session that calls it with \<open>ManifestWritten\<close>
  commits a version that has no manifest.
\<close>

definition skipping_cmds :: "pub_cmd list" where
  "skipping_cmds = [CBegin ''r1'', COp ''r1'' (OpPut ''a'' ''x''), COp ''r1'' OpUploaded, COp ''r1'' OpVerified,
     COp ''r1'' (OpAdvance ManifestWritten), COp ''r1'' OpCommit]"

theorem advance_to_skips_manifest:
  "\<exists>w. reachable any_call plain_codec demo_ds demo_store demo_rules w \<and>
     faulty_view demo_ds (w_store w) (KCommit ''r1'') \<noteq> None \<and> faulty_view demo_ds (w_store w) (KManifest ''r1'') = None"
proof (intro exI conjI)
  show "reachable any_call plain_codec demo_ds demo_store demo_rules (demo_run skipping_cmds)" by (rule demo_reachable) simp
  show "faulty_view demo_ds (w_store (demo_run skipping_cmds)) (KCommit ''r1'') \<noteq> None" by code_simp
  show "faulty_view demo_ds (w_store (demo_run skipping_cmds)) (KManifest ''r1'') = None" by code_simp
qed

text \<open>The methods of an open session; \<open>abandon\<close> and \<open>finish\<close> end it.\<close>

datatype session_call = Call pub_op | Abandon | Finish bool

fun run_call :: "'s storage_backend \<Rightarrow> codec \<Rightarrow> timestamp \<Rightarrow> session_call \<Rightarrow> ('s, unit) session_eff" where
  "run_call B C now (Call op) = run_op B C now op"
| "run_call B C now Abandon = session_abandon B"
| "run_call B C now (Finish promote) = session_finish B C now promote"

text \<open>
  C5. Every method of an open session but \<open>advance_to\<close> with \<open>ManifestWritten\<close> refines the abstract publication machine: under every
  schedule of storage faults, whatever the method returns, the change it makes to the state of the session and to the objects
  of the dataset other than the lock is a sequence of abstract steps, in each of which one object is written under its guard
  (data while uploading, the manifest when verified, the commit marker after the manifest, \<open>CURRENT\<close>
  after the commit marker). Only \<open>abandon\<close> and \<open>finish\<close> touch the lock.
\<close>

theorem session_refines_machine:
  assumes "wf_bucket ds" and "wf_run v" and "mem_ok (fs_inner s)"
    and "se_dataset se = ds" and "se_version_id se = v"
    and "se_lock se = Some lock" and "object_at ds WRITER_LOCK_KEY = Inr (lk_object lock)"
    and "call \<noteq> Call (OpAdvance ManifestWritten)"
    and "run_call faulty C now call (se, s) = (r, (se', s'))"
  shows "\<exists>f. a_steps C v (se_state se, faulty_view ds s) (se_state se', f) \<and> mem_ok (fs_inner s') \<and>
    (\<forall>k. k \<noteq> KLock \<longrightarrow> faulty_view ds s' k = f k) \<and>
    (\<forall>op. call = Call op \<longrightarrow> faulty_view ds s' = f \<and> se' = se\<lparr>se_state := se_state se'\<rparr>)"
proof (cases call)
  case (Call op)
  then have "manifest_kept op" using assms(8) by (simp add: manifest_kept_def)
  then show ?thesis
    using refinesD [OF faulty_mem.run_op_refines [OF wf_bucket_addresses [OF assms(1)] assms(2) \<open>manifest_kept op\<close>] assms(3) assms(4,5), of C now r se' s']
      assms(9) Call by (simp add: faulty_view_def)
next
  case Abandon
  then have run: "release_session faulty (se, s) = (r, (se', s'))" using assms(9) by (simp add: session_abandon_def)
  then have "se_state se' = se_state se" using assms(6) by (auto simp: release_session_def on_snd_def split: prod.splits)
  then show ?thesis
    using faulty_mem.release_outcome [OF wf_bucket_addresses [OF assms(1)] assms(3,6,7) run] Abandon
    by (intro exI [of _ "faulty_view ds s"]) (simp add: faulty_view_def)
next
  case (Finish promote)
  then have run: "session_finish faulty C now promote (se, s) = (r, (se', s'))" using assms(9) by simp
  show ?thesis
    using faulty_mem.finish_outcome [OF wf_bucket_addresses [OF assms(1)] assms(3,2,4-7) run] Finish
    by (auto simp: faulty_view_def)
qed

definition demo_session :: session where
  "demo_session = the (w_live (demo_run (take 5 demo_cmds)) ''r1'')"

lemma demo_session_facts:
  "se_dataset demo_session = demo_ds" "se_version_id demo_session = ''r1''" "se_state demo_session = ManifestWritten"
  "mem_ok (fs_inner (w_store (demo_run (take 5 demo_cmds))))"
  "se_state (fst (snd (run_call faulty plain_codec 0 (Finish False) (demo_session, w_store (demo_run (take 5 demo_cmds)))))) = Committed"
  "faulty_view demo_ds (snd (snd (run_call faulty plain_codec 0 (Finish False) (demo_session, w_store (demo_run (take 5 demo_cmds))))))
     (KCommit ''r1'') \<noteq> None"
  "\<exists>lock. se_lock demo_session = Some lock \<and> object_at demo_ds WRITER_LOCK_KEY = Inr (lk_object lock)"
  subgoal by code_simp
  subgoal by code_simp
  subgoal by code_simp
  subgoal using reachable_locks [OF demo_reachable [OF cmd_calls_any]] by (simp add: world_inv_def)
  subgoal by code_simp
  subgoal by code_simp
  subgoal
  proof -
    have "w_live (demo_run (take 5 demo_cmds)) ''r1'' \<noteq> None" by code_simp
    then show ?thesis using reachable_locks [OF demo_reachable [OF cmd_calls_any], of "take 5 demo_cmds"]
      by (auto simp: world_inv_def session_inv_def demo_session_def)
  qed
  done

theorem session_refines_machine_witness:
  "\<exists>f. a_steps plain_codec ''r1'' (ManifestWritten, faulty_view demo_ds (w_store (demo_run (take 5 demo_cmds)))) (Committed, f) \<and>
     f (KCommit ''r1'') \<noteq> None"
proof -
  let ?s = "w_store (demo_run (take 5 demo_cmds))"
  obtain r se' s' where run: "run_call faulty plain_codec 0 (Finish False) (demo_session, ?s) = (r, (se', s'))"
    by (metis prod.collapse)
  obtain lock where lock: "se_lock demo_session = Some lock" "object_at demo_ds WRITER_LOCK_KEY = Inr (lk_object lock)"
    using demo_session_facts(7) by blast
  have "wf_run ''r1''" by (simp add: wf_run_def)
  from session_refines_machine [OF _ this demo_session_facts(4,1,2) lock _ run] obtain f where
    f: "a_steps plain_codec ''r1'' (se_state demo_session, faulty_view demo_ds ?s) (se_state se', f)"
      "faulty_view demo_ds s' (KCommit ''r1'') = f (KCommit ''r1'')" by auto
  moreover have "se_state se' = Committed" using demo_session_facts(5) unfolding run by simp
  moreover have "faulty_view demo_ds s' (KCommit ''r1'') \<noteq> None" using demo_session_facts(6) unfolding run by simp
  ultimately show ?thesis by (auto simp: demo_session_facts(3))
qed

section \<open>Progress on a fault-free store\<close>

text \<open>
  C6. On a store without faults, with a free lock and no object of the run, publishing a
  work directory succeeds for any number of files with distinct keys: every file and the
  execution manifest are stored, the manifest and the commit marker exist, \<open>CURRENT\<close>
  points at the version, the lock is released and nothing else changes.
\<close>

theorem publish_work_dir_succeeds:
  assumes "wf_bucket ds" "mem_ok m" "wf_run v" "codec_total C" "all_resolve ds (run_keys v)"
    and "walk_files es = Some fs"
    and "all_resolve ds (upload_keys v (fs @ [(EXECUTION_MANIFEST, mj)]))"
    and "distinct (upload_keys v (fs @ [(EXECUTION_MANIFEST, mj)]))"
    and "mem_view ds m KLock = None" "\<And>k. key_version k = Some v \<Longrightarrow> mem_view ds m k = None"
  shows "\<exists>u m'. publish_work_dir memory_backend C now ds es v (Inr mj) m =
      (Inr (dataset_display_uri ds, u), m') \<and>
    published C v (fs @ [(EXECUTION_MANIFEST, mj)]) (mem_view ds m) (mem_view ds m')"
  using mem.publish_live [OF wf_bucket_addresses [OF assms(1)] assms(2-8), of now] assms(9,10)
  unfolding mem_view_def by blast

definition demo_entries :: "walk_entry list" where
  "demo_entries = [WalkDirectory, WalkFile (Some ''a.parquet'') (Inr ''A''), WalkFile (Some [CHR ''d'', CHR 0x5C, CHR ''b'']) (Inr ''B'')]"

theorem publish_work_dir_succeeds_witness:
  "\<exists>m'. mem_view demo_ds m' (KData ''r1'' ''d/b'') = Some ''B'' \<and> mem_view demo_ds m' KCurrent = Some ''r1'' \<and>
    snd (publish_work_dir memory_backend plain_codec 0 demo_ds demo_entries ''r1'' (Inr ''J'') demo_store) = m'"
proof -
  let ?fs = "[(''a.parquet'', ''A''), (''d/b'', ''B'')]"
  have none: "mem_view demo_ds demo_store k = None" for k
    using demo_store_ok(2) [of demo_ds] by (simp add: unpublished_def)
  have res: "all_resolve demo_ds (run_keys ''r1'')" by code_simp
  have walk: "walk_files demo_entries = Some ?fs" by code_simp
  have up: "all_resolve demo_ds (upload_keys ''r1'' (?fs @ [(EXECUTION_MANIFEST, ''J'')]))" by code_simp
  have dist: "distinct (upload_keys ''r1'' (?fs @ [(EXECUTION_MANIFEST, ''J'')]))" by code_simp
  obtain u m' where run: "publish_work_dir memory_backend plain_codec 0 demo_ds demo_entries ''r1'' (Inr ''J'') demo_store =
      (Inr (dataset_display_uri demo_ds, u), m')"
    and pub: "published plain_codec ''r1'' (?fs @ [(EXECUTION_MANIFEST, ''J'')]) (mem_view demo_ds demo_store) (mem_view demo_ds m')"
    using publish_work_dir_succeeds [OF demo_store_ok(3,1) _ plain_codec_total res walk up dist none none, of 0]
    by (auto simp: wf_run_def)
  have "data_key ''r1'' ''d/b'' = KData ''r1'' ''d/b''" by code_simp
  moreover have "mem_view demo_ds m' (data_key ''r1'' ''d/b'') = Some ''B''"
    using pub by (simp add: published_def)
  moreover have "mem_view demo_ds m' KCurrent = Some ''r1''"
    using pub by (auto simp: published_def plain_codec_def)
  ultimately show ?thesis using run by (metis snd_conv)
qed

text \<open>
  A run whose process died before it committed can go on: \<open>begin\<close> with the same run id
  reclaims its own lock, returns a session in the persisted state and changes no object but
  the lock; a run with another id gets \<open>LockHeld\<close> and changes nothing.
\<close>

theorem begin_resumes_or_rejects:
  assumes "wf_bucket ds" "mem_ok m" "wf_run v" "codec_total C" "codec_ok C" "all_resolve ds (run_keys v)"
    and "lock_owner C (mem_view ds m) v" "mem_view ds m (KCommit v) = None"
    and "mem_view ds m (KState v) = Some d" "dec_state C d = Inr rec" "psr_state rec \<noteq> Preparing"
  shows "(\<exists>se m'. session_begin memory_backend C now ds v m = (Inr se, m') \<and>
            se_state se = psr_state rec \<and> se_version_id se = v \<and> lock_owner C (mem_view ds m') v \<and>
            (\<forall>k. k \<noteq> KLock \<longrightarrow> mem_view ds m' k = mem_view ds m k)) \<and>
         (\<forall>u. u \<noteq> v \<longrightarrow> (\<exists>m'. session_begin memory_backend C now ds u m = (Inl (LockHeld v), m') \<and>
            mem_view ds m' = mem_view ds m))"
proof -
  note adr = wf_bucket_addresses [OF assms(1)]
  obtain x where x: "object_at ds WRITER_LOCK_KEY = Inr x"
    using all_resolve_member [OF assms(6), of KLock] by (auto simp: run_keys_def)
  have "\<exists>m'. session_begin memory_backend C now ds u m = (Inl (LockHeld v), m') \<and>
      mem_view ds m' = mem_view ds m" if "u \<noteq> v" for u
    using mem.begin_foreign [OF adr assms(2,4) x assms(7) [unfolded mem_view_def], of u now] that
    unfolding mem_view_def by auto
  moreover note mem.begin_resume [OF adr assms(2,4,3,6,5) assms(7-11) [unfolded mem_view_def], of now]
  ultimately show ?thesis unfolding mem_view_def by auto
qed

definition demo_crashed :: memory_state where
  "demo_crashed = w_store (exec memory_backend plain_codec demo_ds 0
     [CBegin ''r1'', COp ''r1'' (OpPut ''a'' ''x''), COp ''r1'' OpUploaded, CCrash ''r1''] (start_world demo_store))"

lemma demo_crashed_state: "psr_state (get_state (the (mem_view demo_ds demo_crashed (KState ''r1'')))) = Uploaded"
  by code_simp

theorem begin_resumes_or_rejects_witness:
  "\<exists>se m'. session_begin memory_backend plain_codec 1 demo_ds ''r1'' demo_crashed = (Inr se, m') \<and> se_state se = Uploaded"
proof -
  have res: "all_resolve demo_ds (run_keys ''r1'')" by code_simp
  have okm: "mem_ok demo_crashed" by code_simp
  have "wl_run_id (case dec_lock plain_codec (the (mem_view demo_ds demo_crashed KLock)) of Inr l \<Rightarrow> l) = ''r1'' \<and>
      mem_view demo_ds demo_crashed KLock \<noteq> None" by code_simp
  then have own: "lock_owner plain_codec (mem_view demo_ds demo_crashed) ''r1''"
    by (auto simp: lock_owner_def plain_codec_def split: prod.splits)
  have noc: "mem_view demo_ds demo_crashed (KCommit ''r1'') = None" by code_simp
  have "mem_view demo_ds demo_crashed (KState ''r1'') \<noteq> None" by code_simp
  then obtain d where d: "mem_view demo_ds demo_crashed (KState ''r1'') = Some d" by blast
  have dec: "dec_state plain_codec d = Inr (get_state d)" by (simp add: plain_codec_def)
  have st: "psr_state (get_state d) = Uploaded" using demo_crashed_state d by simp
  show ?thesis
    using begin_resumes_or_rejects [OF demo_store_ok(3) okm _ plain_codec_total plain_codec_ok res own noc d dec, of 1] st
    by (auto simp: wf_run_def)
qed

text \<open>
  A session that is \<open>Verified\<close> while its manifest already exists cannot proceed:
  every \<open>write_manifest\<close> reports a conflict and leaves session and dataset as they were.
  This is the state after a crash between the creation of the manifest and the update of
  \<open>state.json\<close>.
\<close>

theorem manifest_crash_blocks_run:
  assumes "wf_bucket ds" "mem_ok m" "wf_run v" "se_dataset se = ds" "se_version_id se = v"
    and "codec_total C" "all_resolve ds (run_keys v)" "se_state se = Verified"
    and "mem_view ds m (KManifest v) \<noteq> None"
  shows "\<exists>g m'. write_manifest memory_backend C now pm (se, m) = (Inl (PubStorage (Conflict g)), (se, m')) \<and>
    mem_view ds m' = mem_view ds m"
  using mem.manifest_conflict [OF wf_bucket_addresses [OF assms(1)] assms(2-8), of now pm] assms(9)
  unfolding mem_view_def by blast

definition demo_half_manifest :: memory_state where
  "demo_half_manifest = fs_inner (w_store (exec faulty plain_codec demo_ds 0
     [CBegin ''r1'', COp ''r1'' (OpPut ''a'' ''x''), COp ''r1'' OpUploaded, COp ''r1'' OpVerified,
      COp ''r1'' (OpManifest demo_manifest), CCrash ''r1''] (start_world (fault_new demo_store
        [\<lparr>fr_target = FT_ConditionalReplace, fr_location_substr = Some ''state.json'', fr_write_part_index = None,
          fr_steps = [Delegate, Delegate, Delegate, Inject (Transient ''x'')], fr_exhausted = ExhaustedDelegate\<rparr>]))))"

definition demo_resumed :: "(publication_error, session) res \<times> memory_state" where
  "demo_resumed = session_begin memory_backend plain_codec 1 demo_ds ''r1'' demo_half_manifest"

theorem manifest_crash_blocks_run_witness:
  "\<exists>se m g m'. demo_resumed = (Inr se, m) \<and> se_state se = Verified \<and>
   write_manifest memory_backend plain_codec 2 demo_manifest (se, m) = (Inl (PubStorage (Conflict g)), (se, m'))"
proof -
  have "(case demo_resumed of (Inr se, m) \<Rightarrow> se_state se = Verified \<and> se_dataset se = demo_ds \<and>
      se_version_id se = ''r1'' \<and> mem_ok m \<and> mem_view demo_ds m (KManifest ''r1'') \<noteq> None | _ \<Rightarrow> False)"
    by code_simp
  then obtain se m where r: "demo_resumed = (Inr se, m)" and se: "se_state se = Verified" "se_dataset se = demo_ds"
      "se_version_id se = ''r1''" and m: "mem_ok m" "mem_view demo_ds m (KManifest ''r1'') \<noteq> None"
    by (auto split: prod.splits sum.splits)
  have res: "all_resolve demo_ds (run_keys ''r1'')" by code_simp
  show ?thesis
    using manifest_crash_blocks_run [OF demo_store_ok(3) m(1) _ se(2,3) plain_codec_total res se(1) m(2), of 2 demo_manifest]
      r se(1) by (auto simp: wf_run_def)
qed

end
