(* ===== verification/Local_Backend.thy ===== *)
theory Local_Backend
  imports Storage_Backend
begin

text \<open>
  The filesystem backend (\<open>local.rs\<close>). A file system is a tree of directories and files with the time of
  their last write, keyed by the components of paths; symbolic links, permissions and errors of reading a disk are
  left out. The clock is part of the state: before every write it advances by the next tick, which may be zero. So are
  the errors of writing: for every file written, \<open>write_all\<close> and \<open>sync_all\<close> succeed or fail with some
  first bytes in the file. Objects of S3 locations lie under \<open>base/bucket/key\<close>.
\<close>

section \<open>File system\<close>

datatype io_kind = IoNotFound | IoAlreadyExists | IoNotADirectory | IoIsADirectory | IoWriteFailed

fun io_text :: "io_kind \<Rightarrow> string" where
  "io_text IoNotFound = ''No such file or directory (os error 2)''"
| "io_text IoAlreadyExists = ''File exists (os error 17)''"
| "io_text IoNotADirectory = ''Not a directory (os error 20)''"
| "io_text IoIsADirectory = ''Is a directory (os error 21)''"
| "io_text IoWriteFailed = ''Input/output error (os error 5)''"

datatype fs_node = DirNode | FileNode bytes nat

type_synonym fs_key = "component list"
type_synonym fs_tree = "(fs_key \<times> fs_node) list"

text \<open>The file a path names: \<open>.\<close> segments do not count.\<close>

definition fs_key :: "path \<Rightarrow> fs_key" where
  "fs_key p = filter (\<lambda>c. c \<noteq> CurDir) (path_components p)"

definition node_at :: "fs_tree \<Rightarrow> fs_key \<Rightarrow> fs_node option" where
  "node_at t k = (if k \<in> {[], [RootDir]} then Some DirNode else map_of t k)"

text \<open>Some proper ancestor is a file.\<close>

definition tree_blocked :: "fs_tree \<Rightarrow> fs_key \<Rightarrow> bool" where
  "tree_blocked t k = list_ex (\<lambda>i. case node_at t (take i k) of Some (FileNode d m) \<Rightarrow> True | _ \<Rightarrow> False) [0..<length k]"

definition tree_metadata :: "fs_tree \<Rightarrow> fs_key \<Rightarrow> (io_kind, fs_node) res" where
  "tree_metadata t k =
     (case node_at t k of
        Some n \<Rightarrow> Inr n | None \<Rightarrow> Inl (if tree_blocked t k then IoNotADirectory else IoNotFound))"

text \<open>\<open>create_dir_all\<close>: directories above a missing one are missing too, so that it fails before it creates any.\<close>

definition tree_missing_dirs :: "fs_tree \<Rightarrow> fs_key \<Rightarrow> fs_key list" where
  "tree_missing_dirs t k = filter (\<lambda>q. node_at t q = None) (map (\<lambda>i. take i k) [0..<Suc (length k)])"

definition tree_create_dir_all :: "fs_key \<Rightarrow> fs_tree \<Rightarrow> (io_kind, fs_tree) res" where
  "tree_create_dir_all k t =
     (case node_at t k of
        Some DirNode \<Rightarrow> Inr t
      | Some (FileNode d m) \<Rightarrow> Inl IoAlreadyExists
      | None \<Rightarrow> if tree_blocked t k then Inl IoNotADirectory else Inr (map (\<lambda>q. (q, DirNode)) (tree_missing_dirs t k) @ t))"

definition tree_put :: "fs_key \<Rightarrow> fs_node \<Rightarrow> fs_tree \<Rightarrow> fs_tree" where
  "tree_put k n t = (k, n) # filter (\<lambda>e. fst e \<noteq> k) t"

definition tree_drop :: "fs_key \<Rightarrow> fs_tree \<Rightarrow> fs_tree" where
  "tree_drop k t = filter (\<lambda>e. fst e \<noteq> k) t"

text \<open>Opening for writing: a new file, or any file, which is truncated; the parent is there.\<close>

definition tree_create_new :: "fs_key \<Rightarrow> bytes \<Rightarrow> nat \<Rightarrow> fs_tree \<Rightarrow> (io_kind, fs_tree) res" where
  "tree_create_new k d now t =
     (case tree_metadata t k of
        Inr n \<Rightarrow> Inl IoAlreadyExists
      | Inl IoNotFound \<Rightarrow> if node_at t (butlast k) = Some DirNode then Inr (tree_put k (FileNode d now) t) else Inl IoNotFound
      | Inl e \<Rightarrow> Inl e)"

definition tree_write :: "fs_key \<Rightarrow> bytes \<Rightarrow> nat \<Rightarrow> fs_tree \<Rightarrow> (io_kind, fs_tree) res" where
  "tree_write k d now t =
     (case tree_metadata t k of
        Inr DirNode \<Rightarrow> Inl IoIsADirectory
      | Inr (FileNode d0 m0) \<Rightarrow> Inr (tree_put k (FileNode d now) t)
      | Inl IoNotFound \<Rightarrow> if node_at t (butlast k) = Some DirNode then Inr (tree_put k (FileNode d now) t) else Inl IoNotFound
      | Inl e \<Rightarrow> Inl e)"

text \<open>\<open>rename\<close> of a file onto a path in the same directory; the time of the last write moves with the file.\<close>

definition tree_rename :: "fs_key \<Rightarrow> fs_key \<Rightarrow> fs_tree \<Rightarrow> (io_kind, fs_tree) res" where
  "tree_rename src dst t =
     (case tree_metadata t src of
        Inl e \<Rightarrow> Inl e
      | Inr n \<Rightarrow> if node_at t dst = Some DirNode then Inl IoIsADirectory else Inr (tree_put dst n (tree_drop src t)))"

definition tree_remove_file :: "fs_key \<Rightarrow> fs_tree \<Rightarrow> (io_kind, fs_tree) res" where
  "tree_remove_file k t =
     (case tree_metadata t k of
        Inl e \<Rightarrow> Inl e | Inr DirNode \<Rightarrow> Inl IoIsADirectory | Inr (FileNode d m) \<Rightarrow> Inr (tree_drop k t))"

section \<open>The backend\<close>

record local_backend_config =
  lc_base :: "path option"
  lc_uuid :: "nat \<Rightarrow> string"

record local_state =
  ls_tree :: fs_tree
  ls_metrics :: storage_metrics
  ls_clock :: nat
  ls_ticks :: "nat list"
  ls_faults :: "nat option list"
  ls_drawn :: nat

text \<open>The time of the next write, and the state after it is taken.\<close>

definition next_time :: "local_state \<Rightarrow> nat" where
  "next_time s = ls_clock s + (case ls_ticks s of [] \<Rightarrow> 1 | d # _ \<Rightarrow> d)"

definition take_time :: "local_state \<Rightarrow> local_state" where
  "take_time s = s\<lparr>ls_clock := next_time s, ls_ticks := tl (ls_ticks s), ls_faults := tl (ls_faults s)\<rparr>"

text \<open>Whether the next write of a file fails, and the bytes that are in the file then.\<close>

definition write_fault :: "local_state \<Rightarrow> nat option" where
  "write_fault s = (case ls_faults s of [] \<Rightarrow> None | f # _ \<Rightarrow> f)"

definition disk_bytes :: "local_state \<Rightarrow> bytes \<Rightarrow> bytes" where
  "disk_bytes s d = (case write_fault s of None \<Rightarrow> d | Some n \<Rightarrow> take n d)"

definition write_failed :: "fs_tree \<Rightarrow> local_state \<Rightarrow> (storage_error, 'a) res \<times> local_state" where
  "write_failed t s = (Inl (StorageIo (io_text IoWriteFailed)), (take_time s)\<lparr>ls_tree := t\<rparr>)"

definition resolve_local_path :: "local_backend_config \<Rightarrow> path \<Rightarrow> path" where
  "resolve_local_path cfg p =
     (if is_absolute p then p else (case lc_base cfg of Some base \<Rightarrow> path_join base p | None \<Rightarrow> p))"

definition resolve_s3_prefix :: "local_backend_config \<Rightarrow> s3_location \<Rightarrow> (storage_error, path) res" where
  "resolve_s3_prefix cfg s =
     (case lc_base cfg of
        None \<Rightarrow> Inl (InvalidLocation ''S3 dataset locations require a local base directory'')
      | Some base \<Rightarrow>
          (let p = path_join base (s3_bucket s)
           in Inr (if s3_prefix s = [] then p else path_join p (trim_end_matches (CHR ''/'') (s3_prefix s)))))"

definition resolve_s3_object :: "local_backend_config \<Rightarrow> string \<Rightarrow> string \<Rightarrow> (storage_error, path) res" where
  "resolve_s3_object cfg bucket key =
     (case lc_base cfg of
        None \<Rightarrow> Inl (InvalidLocation ''S3 object locations require a local base directory'')
      | Some base \<Rightarrow>
          if str_contains key ''..''
          then Inl (InvalidLocation (''object key must not contain '' @ [CHR 0x27] @ ''..'' @ [CHR 0x27]))
          else Inr (path_join (path_join base bucket) key))"

fun local_dataset_root :: "local_backend_config \<Rightarrow> dataset_location \<Rightarrow> (storage_error, path) res" where
  "local_dataset_root cfg (DatasetLocal p) = Inr (resolve_local_path cfg p)"
| "local_dataset_root cfg (DatasetS3 s) = resolve_s3_prefix cfg s"

fun local_object_path :: "local_backend_config \<Rightarrow> object_location \<Rightarrow> (storage_error, path) res" where
  "local_object_path cfg (ObjectLocal p) = Inr (resolve_local_path cfg p)"
| "local_object_path cfg (ObjectS3 b k) = resolve_s3_object cfg b k"

fun map_io_error :: "io_kind \<Rightarrow> string \<Rightarrow> storage_error" where
  "map_io_error IoNotFound l = NotFound l"
| "map_io_error e l = StorageIo (io_text e)"

definition compute_etag :: "nat \<Rightarrow> nat \<Rightarrow> string" where
  "compute_etag len modified = ''local-'' @ show_nat len @ ''-'' @ show_nat modified"

definition local_build_metadata :: "object_location \<Rightarrow> bytes \<Rightarrow> nat \<Rightarrow> object_metadata" where
  "local_build_metadata x d m =
     \<lparr>om_location = x, om_size = length d, om_etag = Some (compute_etag (length d) m), om_version_id = Some (show_nat m)\<rparr>"

definition metadata_for_path :: "object_location \<Rightarrow> fs_key \<Rightarrow> fs_tree \<Rightarrow> (storage_error, object_metadata) res" where
  "metadata_for_path x k t =
     (case tree_metadata t k of
        Inl e \<Rightarrow> Inl (map_io_error e (object_display_uri x))
      | Inr DirNode \<Rightarrow> Inl (NotFound (object_display_uri x))
      | Inr (FileNode d m) \<Rightarrow> Inr (local_build_metadata x d m))"

definition temp_path_for :: "string \<Rightarrow> fs_key \<Rightarrow> fs_key" where
  "temp_path_for uuid k =
     (case rev k of
        Normal n # rest \<Rightarrow>
          (let ext = rev (takeWhile (\<lambda>c. c \<noteq> CHR ''.'') (rev n));
               stem = (if CHR ''.'' \<notin> set n \<or> length n = length ext + 1 then n else take (length n - length ext - 1) n)
           in rev rest @ [Normal (stem @ ''.parqonaut-tmp-'' @ uuid)])
      | _ \<Rightarrow> k)"

definition local_head :: "local_backend_config \<Rightarrow> object_location \<Rightarrow> local_state \<Rightarrow> (storage_error, object_metadata) res \<times> local_state" where
  "local_head cfg x s =
     (bind_res (local_object_path cfg x) (\<lambda>p. metadata_for_path x (fs_key p) (ls_tree s)),
      s\<lparr>ls_metrics := record_head (ls_metrics s)\<rparr>)"

text \<open>The bytes of a file that a read opens; a directory counts as missing.\<close>

definition local_open :: "object_location \<Rightarrow> fs_key \<Rightarrow> fs_tree \<Rightarrow> (storage_error, bytes) res" where
  "local_open x k t =
     (case tree_metadata t k of
        Inl e \<Rightarrow> Inl (map_io_error e (object_display_uri x))
      | Inr DirNode \<Rightarrow> Inl (NotFound (object_display_uri x))
      | Inr (FileNode d m) \<Rightarrow> Inr d)"

text \<open>A stream read to its end; a range that starts past the end of the file reads nothing.\<close>

definition local_read_stream ::
  "local_backend_config \<Rightarrow> object_location \<Rightarrow> byte_range option \<Rightarrow> local_state \<Rightarrow> (storage_error, bytes) res \<times> local_state" where
  "local_read_stream cfg x wanted s =
     (case bind_res (local_object_path cfg x) (\<lambda>p. local_open x (fs_key p) (ls_tree s)) of
        Inl e \<Rightarrow> (Inl e, s)
      | Inr d \<Rightarrow>
          (case wanted of
             None \<Rightarrow> (Inr d, s\<lparr>ls_metrics := record_full_get (length d) (ls_metrics s)\<rparr>)
           | Some r \<Rightarrow> (Inr (take (min (unat (br_end r)) (length d - 1) - unat (br_start r) + 1) (drop (unat (br_start r)) d)), s)))"

definition local_read :: "local_backend_config \<Rightarrow> object_location \<Rightarrow> local_state \<Rightarrow> (storage_error, bytes) res \<times> local_state" where
  "local_read cfg x s = local_read_stream cfg x None s"

definition local_read_range ::
  "local_backend_config \<Rightarrow> object_location \<Rightarrow> byte_range \<Rightarrow> local_state \<Rightarrow> (storage_error, bytes) res \<times> local_state" where
  "local_read_range cfg x r s =
     (case bind_res (local_object_path cfg x) (\<lambda>p. local_open x (fs_key p) (ls_tree s)) of
        Inl e \<Rightarrow> (Inl e, s)
      | Inr d \<Rightarrow>
          (let start = unat (br_start r); stop = min (unat (br_end r)) (length d - 1); len = stop - start + 1
           in if length d \<le> start then (Inl (InvalidLocation ''range start beyond object size''), s)
              else (Inr (take len (drop start d)), s\<lparr>ls_metrics := record_range_get len (ls_metrics s)\<rparr>)))"

text \<open>A write: the tree after it with the metadata of the object, or an error that leaves the tree it reached.\<close>

definition after_write ::
  "object_location \<Rightarrow> fs_key \<Rightarrow> nat \<Rightarrow> fs_tree \<Rightarrow> local_state \<Rightarrow> (storage_error, object_metadata) res \<times> local_state" where
  "after_write x k n t s =
     (metadata_for_path x k t, (take_time s)\<lparr>ls_tree := t, ls_metrics := record_put n (ls_metrics s)\<rparr>)"

definition local_create ::
  "local_backend_config \<Rightarrow> object_location \<Rightarrow> conditional_create \<Rightarrow> bytes \<Rightarrow> local_state \<Rightarrow> (storage_error, object_metadata) res \<times> local_state" where
  "local_create cfg x c d s =
     (case local_object_path cfg x of
        Inl e \<Rightarrow> (Inl e, s)
      | Inr p \<Rightarrow>
          (case tree_create_dir_all (butlast (fs_key p)) (ls_tree s) of
             Inl e \<Rightarrow> (Inl (StorageIo (io_text e)), s)
           | Inr t \<Rightarrow>
               (if if_absent c then
                  (case tree_create_new (fs_key p) (disk_bytes s d) (next_time s) t of
                     Inr t' \<Rightarrow> if write_fault s \<noteq> None then write_failed t' s else after_write x (fs_key p) (length d) t' s
                   | Inl IoAlreadyExists \<Rightarrow> (Inl (Conflict (''object already exists: '' @ object_display_uri x)), s\<lparr>ls_tree := t\<rparr>)
                   | Inl e \<Rightarrow> (Inl (map_io_error e (object_display_uri x)), s\<lparr>ls_tree := t\<rparr>))
                else
                  (case tree_write (fs_key p) (disk_bytes s d) (next_time s) t of
                     Inr t' \<Rightarrow> if write_fault s \<noteq> None then write_failed t' s else after_write x (fs_key p) (length d) t' s
                   | Inl e \<Rightarrow> (Inl (StorageIo (io_text e)), s\<lparr>ls_tree := t\<rparr>)))))"

definition local_replace ::
  "local_backend_config \<Rightarrow> object_location \<Rightarrow> conditional_replace \<Rightarrow> bytes \<Rightarrow> local_state \<Rightarrow> (storage_error, object_metadata) res \<times> local_state" where
  "local_replace cfg x c d s =
     (case bind_res (local_object_path cfg x) (\<lambda>p. bind_res (metadata_for_path x (fs_key p) (ls_tree s)) (\<lambda>m. Inr (p, m))) of
        Inl e \<Rightarrow> (Inl e, s)
      | Inr (p, current) \<Rightarrow>
          if expected_etag c \<noteq> None \<and> om_etag current \<noteq> expected_etag c then (Inl (PreconditionFailed ''etag mismatch''), s)
          else if expected_version_id c \<noteq> None \<and> om_version_id current \<noteq> expected_version_id c
            then (Inl (PreconditionFailed ''version_id mismatch''), s)
          else
            (let k = fs_key p; tmp = temp_path_for (lc_uuid cfg (ls_drawn s)) k; s1 = s\<lparr>ls_drawn := ls_drawn s + 1\<rparr>
             in case tree_write tmp (disk_bytes s d) (next_time s) (ls_tree s) of
                  Inl e \<Rightarrow> (Inl (StorageIo (io_text e)), s1)
                | Inr t1 \<Rightarrow>
                    if write_fault s \<noteq> None then write_failed t1 s1
                    else (case tree_rename tmp k t1 of
                       Inl e \<Rightarrow> (Inl (StorageIo (io_text e)), (take_time s1)\<lparr>ls_tree := t1\<rparr>)
                     | Inr t2 \<Rightarrow> after_write x k (length d) t2 s1)))"

definition local_delete :: "local_backend_config \<Rightarrow> object_location \<Rightarrow> local_state \<Rightarrow> (storage_error, unit) res \<times> local_state" where
  "local_delete cfg x s =
     (case local_object_path cfg x of
        Inl e \<Rightarrow> (Inl e, s)
      | Inr p \<Rightarrow>
          (case tree_remove_file (fs_key p) (ls_tree s) of
             Inr t \<Rightarrow> (Inr (), s\<lparr>ls_tree := t\<rparr>)
           | Inl IoNotFound \<Rightarrow> (Inr (), s)
           | Inl e \<Rightarrow> (Inl (map_io_error e (object_display_uri x)), s)))"

text \<open>
  A write stream that is fed with chunks and shut down: the chunks go to a temporary file, which is renamed at the
  end. A writer that passes the announced length gets an error and leaves the temporary file.
\<close>

definition local_write_stream ::
  "local_backend_config \<Rightarrow> object_location \<Rightarrow> nat option \<Rightarrow> bytes list \<Rightarrow> local_state \<Rightarrow> (storage_error, unit) res \<times> local_state" where
  "local_write_stream cfg x content_length chunks s =
     (case local_object_path cfg x of
        Inl e \<Rightarrow> (Inl e, s)
      | Inr p \<Rightarrow>
          (case tree_create_dir_all (butlast (fs_key p)) (ls_tree s) of
             Inl e \<Rightarrow> (Inl (StorageIo (io_text e)), s)
           | Inr t \<Rightarrow>
               (let k = fs_key p; tmp = temp_path_for (lc_uuid cfg (ls_drawn s)) k; d = concat chunks;
                    cut = (case content_length of None \<Rightarrow> d | Some n \<Rightarrow> take n d); s1 = s\<lparr>ls_drawn := ls_drawn s + 1, ls_tree := t\<rparr>
                in case tree_write tmp (disk_bytes s cut) (next_time s) t of
                     Inl e \<Rightarrow> (Inl (StorageIo (io_text e)), s1)
                   | Inr t1 \<Rightarrow>
                       if write_fault s \<noteq> None then write_failed t1 s1
                       else if cut \<noteq> d then (Inl (StorageIo ''failed to write whole buffer''), (take_time s1)\<lparr>ls_tree := t1\<rparr>)
                       else (case tree_rename tmp k t1 of
                               Inl e \<Rightarrow> (Inl (StorageIo (io_text e)), (take_time s1)\<lparr>ls_tree := t1\<rparr>)
                             | Inr t2 \<Rightarrow> (Inr (), (take_time s1)\<lparr>ls_tree := t2\<rparr>)))))"

section \<open>Listing\<close>

record list_entry =
  le_metadata :: object_metadata
  le_is_file :: bool
  le_prefix :: "string option"

fun normal_name :: "component \<Rightarrow> string" where
  "normal_name (Normal s) = s"
| "normal_name RootDir = ''/''"
| "normal_name CurDir = ''.''"
| "normal_name ParentDir = ''..''"

definition relative_name :: "fs_key \<Rightarrow> fs_key \<Rightarrow> string" where
  "relative_name root k = str_join ''/'' (map normal_name (drop (length root) k))"

fun object_location_for_relative :: "dataset_location \<Rightarrow> string \<Rightarrow> object_location" where
  "object_location_for_relative (DatasetLocal p) relative = ObjectLocal relative"
| "object_location_for_relative (DatasetS3 s) relative =
     ObjectS3 (s3_bucket s) (if s3_prefix s = [] then relative else trim_end_matches (CHR ''/'') (s3_prefix s) @ ''/'' @ relative)"

fun list_entry_of :: "dataset_location \<Rightarrow> fs_key \<Rightarrow> fs_key \<times> fs_node \<Rightarrow> list_entry" where
  "list_entry_of ds root (k, FileNode d m) =
     \<lparr>le_metadata = local_build_metadata (object_location_for_relative ds (relative_name root k)) d m, le_is_file = True, le_prefix = None\<rparr>"
| "list_entry_of ds root (k, DirNode) =
     \<lparr>le_metadata = \<lparr>om_location = object_location_for_relative ds (relative_name root k), om_size = 0, om_etag = None, om_version_id = None\<rparr>,
      le_is_file = False, le_prefix = Some (relative_name root k @ ''/'')\<rparr>"

text \<open>Below the root: every file when recursive, else the files and directories of the root itself.\<close>

definition collect_list_entries :: "dataset_location \<Rightarrow> fs_key \<Rightarrow> bool \<Rightarrow> fs_tree \<Rightarrow> list_entry list" where
  "collect_list_entries ds root rec t =
     map (list_entry_of ds root) (filter (\<lambda>(k, n). strict_prefix root k \<and>
       (if rec then n \<noteq> DirNode else length k = length root + 1)) t)"

definition local_list ::
  "local_backend_config \<Rightarrow> dataset_location \<Rightarrow> list_options \<Rightarrow> string option \<Rightarrow> local_state \<Rightarrow> (storage_error, list_page) res \<times> local_state" where
  "local_list cfg ds opts token s =
     (bind_res (local_dataset_root cfg ds) (\<lambda>root.
        case node_at (ls_tree s) (fs_key root) of
          None \<Rightarrow> Inr \<lparr>page_objects = [], page_prefixes = [], page_truncated = False, page_token = None\<rparr>
        | Some (FileNode d m) \<Rightarrow> Inl (StorageIo (io_text IoNotADirectory))
        | Some DirNode \<Rightarrow>
            (let uri = (\<lambda>en. object_display_uri (om_location (le_metadata en)));
                 entries = sort_key uri (collect_list_entries ds (fs_key root) (recursive opts) (ls_tree s));
                 start = (case token of None \<Rightarrow> 0
                   | Some tk \<Rightarrow> (case List.find (\<lambda>i. uri (entries ! i) = tk) [0..<length entries] of
                       Some i \<Rightarrow> i + 1 | None \<Rightarrow> length entries));
                 page = take (case max_keys opts of None \<Rightarrow> length entries | Some n \<Rightarrow> n) (drop start entries);
                 truncated = (start + length page < length entries)
             in Inr \<lparr>page_objects = map le_metadata (filter (\<lambda>en. recursive opts \<or> le_is_file en) page),
                     page_prefixes = (if recursive opts then []
                       else sorted_list_of_set (set (List.map_filter le_prefix (filter (\<lambda>en. \<not> le_is_file en) page)))),
                     page_truncated = truncated,
                     page_token = (if truncated \<and> page \<noteq> [] then Some (uri (last page)) else None)\<rparr>)),
      s\<lparr>ls_metrics := record_list (ls_metrics s)\<rparr>)"

definition local_backend :: "local_backend_config \<Rightarrow> local_state storage_backend" where
  "local_backend cfg = \<lparr>be_capabilities = (\<lambda>_. CAPS_LOCAL), be_list = local_list cfg, be_head = local_head cfg,
     be_read = local_read cfg, be_create = local_create cfg, be_replace = local_replace cfg, be_delete = local_delete cfg\<rparr>"

end
