(* ===== verification/Plain_Paths.thy ===== *)
theory Plain_Paths
  imports Storage_Location
begin

text \<open>
  Plain paths: every segment is the name of a file or directory, so there is no \<open>..\<close>, no
  \<open>.\<close> and no empty segment. On plain paths the text of a path names one file, and a
  directory holds exactly the paths that continue its text with \<open>/\<close>.
\<close>

section \<open>Segments\<close>

definition plain_rel :: "path \<Rightarrow> bool" where
  "plain_rel r = list_all proper_name (split_on (CHR ''/'') r)"

definition plain_path :: "path \<Rightarrow> bool" where
  "plain_path p = plain_rel (if is_absolute p then tl p else p)"

definition within :: "path \<Rightarrow> path \<Rightarrow> bool" where
  "within dir p = (p = dir \<or> str_starts_with p (dir @ ''/''))"

definition inside :: "path \<Rightarrow> path \<Rightarrow> bool" where
  "inside dir p = (case strip_prefix p (dir @ ''/'') of None \<Rightarrow> False | Some r \<Rightarrow> plain_rel r)"

lemma inside_iff: "inside dir p \<longleftrightarrow> (\<exists>r. p = dir @ ''/'' @ r \<and> plain_rel r)"
  by (auto simp: inside_def strip_prefix_def str_starts_with_iff split: option.splits if_splits)

lemma within_iff: "within dir p \<longleftrightarrow> p = dir \<or> (\<exists>r. p = dir @ ''/'' @ r)"
  by (auto simp: within_def str_starts_with_iff)

lemma inside_within: "inside dir p \<Longrightarrow> within dir p"
  by (auto simp: inside_iff within_iff)

lemma split_on_sep: "split_on c (x @ c # r) = split_on c x @ split_on c r"
  by (induction x) (auto split: list.split)

lemma split_on_inj: "split_on c s = split_on c s' \<Longrightarrow> s = s'"
proof (induction s arbitrary: s')
  case Nil
  then show ?case using split_on_ne [THEN not_sym] by (cases s') (auto split: if_splits list.splits)
next
  case (Cons x s)
  then show ?case using split_on_ne [THEN not_sym] by (cases s') (auto split: if_splits list.splits)
qed

lemma str_join_split: "str_join [c] (split_on c s) = s"
proof -
  have "split_on c (str_join [c] (split_on c s)) = split_on c s"
    by (rule split_on_str_join) (auto dest: split_on_parts_no_sep)
  then show ?thesis by (rule split_on_inj)
qed

lemma plain_rel_nested [simp]: "plain_rel (a @ CHR ''/'' # b) \<longleftrightarrow> plain_rel a \<and> plain_rel b"
  by (simp add: plain_rel_def split_on_sep)

lemma plain_rel_name: "CHR ''/'' \<notin> set n \<Longrightarrow> plain_rel n \<longleftrightarrow> proper_name n"
  by (simp add: plain_rel_def split_on_no_sep)

lemma plain_rel_first: "plain_rel r \<Longrightarrow> proper_name (hd (split_on (CHR ''/'') r))"
  by (cases "split_on (CHR ''/'') r") (auto simp: plain_rel_def)

lemma plain_rel_relative: "plain_rel r \<Longrightarrow> \<not> is_absolute r \<and> r \<noteq> []"
  using plain_rel_first [of r] by (cases r) (auto simp: is_absolute_def str_starts_with_def proper_name_def)

lemma plain_rel_last: "plain_rel r \<Longrightarrow> last r \<noteq> CHR ''/''"
proof
  assume p: "plain_rel r" and l: "last r = CHR ''/''"
  then have "r = butlast r @ CHR ''/'' # []" using plain_rel_relative append_butlast_last_id by metis
  then have "plain_rel []" using p plain_rel_nested by metis
  then show False by (simp add: plain_rel_def proper_name_def)
qed

lemma plain_path_last: "plain_path p \<Longrightarrow> p \<noteq> [] \<and> last p \<noteq> CHR ''/''"
proof (cases "is_absolute p")
  case True
  moreover assume "plain_path p"
  ultimately obtain r where "p = CHR ''/'' # r" "plain_rel r" by (auto simp: is_absolute_iff plain_path_def)
  then show ?thesis using plain_rel_last plain_rel_relative by auto
next
  case False
  moreover assume "plain_path p"
  ultimately show ?thesis using plain_rel_last plain_rel_relative by (simp add: plain_path_def)
qed

lemma is_absolute_append: "is_absolute (a @ b) \<longleftrightarrow> (if a = [] then is_absolute b else is_absolute a)"
  by (cases a) (auto simp: is_absolute_def str_starts_with_def)

lemma plain_path_nested: "plain_path d \<Longrightarrow> plain_rel r \<Longrightarrow> plain_path (d @ CHR ''/'' # r)"
  using plain_path_last [of d] plain_rel_nested [of d r] by (cases d) (auto simp: plain_path_def is_absolute_append is_absolute_iff)

lemma inside_plain: "plain_path d \<Longrightarrow> inside d p \<Longrightarrow> plain_path p \<and> is_absolute p = is_absolute d"
  using plain_path_nested plain_path_last [of d] by (auto simp: inside_iff is_absolute_append)

section \<open>Joining\<close>

lemma components_join:
  assumes "plain_rel r"
  shows "path_components (path_join p r) = path_components p @ map Normal (split_on (CHR ''/'') r)"
proof -
  let ?sp = "split_on (CHR ''/'')"
  let ?body = "\<lambda>xs. map segment_component (filter (\<lambda>s. \<not> trivial_segment s) xs)"
  have "list_all proper_name xs \<Longrightarrow> ?body xs = map Normal xs" for xs
    by (induction xs) (auto simp: proper_name_def trivial_segment_def segment_component_def)
  note body = this [OF assms [unfolded plain_rel_def]]
  have first: "proper_name (hd (?sp r))" by (rule plain_rel_first [OF assms])
  have rel: "\<not> is_absolute r" using plain_rel_relative [OF assms] by simp
  show ?thesis
  proof (cases p)
    case Nil
    then show ?thesis using rel first body by (auto simp: path_join_def path_components_def Let_def proper_name_def is_absolute_def str_starts_with_def trivial_segment_def)
  next
    case (Cons c cs)
    define q where "q = (if last p = CHR ''/'' then butlast p else p)"
    have q: "path_join p r = q @ CHR ''/'' # r" "p = q \<or> p = q @ ''/''"
      using rel Cons append_butlast_last_id [of p] by (auto simp: path_join_def q_def simp del: append_butlast_last_id)
    have "is_absolute (path_join p r) = is_absolute p"
      using rel Cons by (simp add: path_join_def is_absolute_def str_starts_with_def)
    note q = q this
    have "hd (?sp (path_join p r)) = hd (?sp p)" "?body (?sp (path_join p r)) = ?body (?sp p) @ ?body (?sp r)"
      using q(1,2) by (auto simp: split_on_sep hd_append trivial_segment_def)
    then show ?thesis using q(3) body by (simp add: path_components_def Let_def)
  qed
qed

lemma path_join_plain: "plain_path d \<Longrightarrow> plain_rel r \<Longrightarrow> path_join d r = d @ ''/'' @ r"
  using plain_path_last plain_rel_relative by (auto simp: path_join_def)

lemma split_plain:
  assumes "plain_path p"
  obtains ns where "ns \<noteq> []" "list_all proper_name ns" "split_on (CHR ''/'') p = (if is_absolute p then [[]] else []) @ ns"
    "path_components p = (if is_absolute p then [RootDir] else []) @ map Normal ns"
proof -
  let ?r = "if is_absolute p then tl p else p"
  have r: "plain_rel ?r" using assms by (simp add: plain_path_def)
  have j: "path_join (if is_absolute p then ''/'' else []) ?r = p"
    using plain_rel_relative [OF r] by (auto simp: path_join_def is_absolute_iff)
  show thesis
  proof (rule that [of "split_on (CHR ''/'') ?r"])
    show "path_components p = (if is_absolute p then [RootDir] else []) @ map Normal (split_on (CHR ''/'') ?r)"
      using components_join [OF r, of "if is_absolute p then ''/'' else []"] j
      by (auto simp: path_components_def is_absolute_def str_starts_with_def trivial_segment_def)
  qed (use r in \<open>auto simp: plain_rel_def is_absolute_iff\<close>)
qed

lemma drop_real_proper: "list_all proper_name ns \<Longrightarrow> drop_real n ns = drop n ns"
proof (induction ns arbitrary: n)
  case Nil
  then show ?case by (cases n) auto
next
  case (Cons a ns)
  then show ?case by (cases n) (auto simp: proper_name_def trivial_segment_def)
qed

lemma trim_right_proper: "xs \<noteq> [] \<Longrightarrow> proper_name (last xs) \<Longrightarrow> trim_right_segments xs = xs"
  by (cases xs rule: rev_cases) (auto simp: trim_right_segments_def proper_name_def trivial_segment_def)

text \<open>A path of a directory, made relative to it, is the part after the directory.\<close>

lemma relativize_inside:
  assumes "plain_path root" "plain_rel r"
  shows "relativize root (root @ ''/'' @ r) = r"
proof -
  obtain ns where ns: "ns \<noteq> []" "list_all proper_name ns" "split_on (CHR ''/'') root = (if is_absolute root then [[]] else []) @ ns"
    "path_components root = (if is_absolute root then [RootDir] else []) @ map Normal ns" by (rule split_plain [OF assms(1)])
  let ?rs = "split_on (CHR ''/'') r"
  have rs: "list_all proper_name ?rs" using assms(2) by (simp add: plain_rel_def)
  have pc: "path_components (root @ ''/'' @ r) = path_components root @ map Normal ?rs"
    using components_join [OF assms(2), of root] path_join_plain [OF assms] by simp
  have n: "length (filter is_body_component (path_components root)) = length ns" by (simp add: ns(4) filter_map comp_def)
  have dr: "drop_real (length ns) (split_on (CHR ''/'') (root @ ''/'' @ r)) = ?rs"
    using ns(1-3) rs drop_real_proper [of "ns @ ?rs" "length ns"]
    by (cases ns) (auto simp: split_on_sep trivial_segment_def)
  have "dropWhile trivial_segment ?rs = ?rs" "trim_right_segments ?rs = ?rs"
    using rs plain_rel_first [OF assms(2)] by (cases ?rs; auto simp: proper_name_def trivial_segment_def)
      (use rs in \<open>auto intro!: trim_right_proper simp: list_all_iff\<close>)
  then have "path_strip_prefix (root @ ''/'' @ r) root = Some r"
    using pc dr n ns(1,4) str_join_split [of "CHR ''/''" r] by (auto simp: path_strip_prefix_def path_starts_with_def Let_def)
  moreover have "trim_start_matches (CHR ''/'') r = r"
    using plain_rel_relative [OF assms(2)] by (cases r) (auto simp: trim_start_matches_def is_absolute_iff)
  ultimately show ?thesis using pc by (simp add: relativize_def path_starts_with_def)
qed

text \<open>A plain name beside a plain path is a plain path.\<close>

lemma sibling_plain:
  assumes "plain_path p" "plain_rel n"
  shows "plain_path (path_join (case path_parent p of None \<Rightarrow> ''.'' | Some d \<Rightarrow> d) n)"
proof -
  obtain ns where ns: "ns \<noteq> []" "list_all proper_name ns" "split_on (CHR ''/'') p = (if is_absolute p then [[]] else []) @ ns"
    "path_components p = (if is_absolute p then [RootDir] else []) @ map Normal ns" by (rule split_plain [OF assms(1)])
  obtain xs x where x: "ns = xs @ [x]" using ns(1) by (cases ns rule: rev_cases) auto
  have t: "trim_right_segments (split_on (CHR ''/'') p) = split_on (CHR ''/'') p"
    using ns(2,3) x by (intro trim_right_proper) auto
  have pc: "path_components p \<notin> {[], [RootDir]}" using ns(1,4) by auto
  have rel: "\<not> is_absolute n" using plain_rel_relative [OF assms(2)] by simp
  show ?thesis
  proof (cases "xs = []")
    case True
    then have "path_parent p = Some (if is_absolute p then ''/'' else [])"
      using t pc ns(3) x by (auto simp: path_parent_def Let_def trim_right_segments_def trivial_segment_def)
    then show ?thesis using assms(2) rel by (auto simp: path_join_def plain_path_def is_absolute_iff)
  next
    case False
    have l: "list_all proper_name xs" using ns(2) x by simp
    let ?segs = "(if is_absolute p then [[]] else []) @ xs"
    have "trim_right_segments ?segs = ?segs" using False l by (intro trim_right_proper) (auto simp: list_all_iff)
    then have pp: "path_parent p = Some (str_join ''/'' ?segs)"
      using t pc ns(3) x False by (auto simp: path_parent_def Let_def butlast_append)
    have "plain_rel (str_join ''/'' xs)"
      using l False split_on_str_join [of xs "CHR ''/''"] by (auto simp: plain_rel_def list_all_iff proper_name_def)
    moreover have "str_join ''/'' ?segs = (if is_absolute p then ''/'' else []) @ str_join ''/'' xs" using False by (cases xs) auto
    ultimately have "plain_path (str_join ''/'' ?segs)"
      using plain_rel_relative by (auto simp: plain_path_def is_absolute_iff)
    then show ?thesis using path_join_plain [OF _ assms(2)] plain_path_nested assms(2) pp by simp
  qed
qed

end
