(* ===== verification/Local_Backend_Props.thy ===== *)
theory Local_Backend_Props
  imports Local_Backend Plain_Paths
begin

text \<open>
  The filesystem backend is a safe store on objects whose keys are plain paths, and what its entity tags do
  not tell apart.
\<close>

section \<open>Trees\<close>

definition tree_wf :: "fs_tree \<Rightarrow> bool" where
  "tree_wf t \<longleftrightarrow> distinct (map fst t) \<and>
     (\<forall>k n. map_of t k = Some n \<longrightarrow> k \<notin> {[], [RootDir]} \<and> (\<forall>i < length k. node_at t (take i k) = Some DirNode))"

definition file_at :: "fs_tree \<Rightarrow> fs_key \<Rightarrow> bytes option" where
  "file_at t k = (case node_at t k of Some (FileNode d m) \<Rightarrow> Some d | _ \<Rightarrow> None)"

lemma map_of_drop [simp]: "map_of (tree_drop k t) = (map_of t)(k := None)"
  by (induction t) (auto simp: tree_drop_def)

lemma map_of_put [simp]: "map_of (tree_put k n t) = (map_of t)(k \<mapsto> n)"
  using map_of_drop [of k t] by (simp add: tree_put_def tree_drop_def)

lemma distinct_drop [simp]: "distinct (map fst t) \<Longrightarrow> distinct (map fst (tree_drop k t))"
  by (simp add: tree_drop_def distinct_map_filter)

lemma distinct_put [simp]: "distinct (map fst t) \<Longrightarrow> distinct (map fst (tree_put k n t))"
  using distinct_drop [of t k] by (auto simp: tree_put_def tree_drop_def)

lemma wf_ancestor: "tree_wf t \<Longrightarrow> node_at t k \<noteq> None \<Longrightarrow> i < length k \<Longrightarrow> node_at t (take i k) = Some DirNode"
  by (cases i) (auto simp: tree_wf_def node_at_def split: if_splits)

lemma wf_below:
  assumes "tree_wf t" and "node_at t k \<noteq> Some DirNode" and "node_at t q \<noteq> None" and "i < length q"
  shows "take i q \<noteq> k"
  using wf_ancestor [OF assms(1,3,4)] assms(2) by auto

lemma put_file_wf:
  assumes "tree_wf t" and "node_at t (butlast k) = Some DirNode" and "node_at t k \<noteq> Some DirNode"
  shows "tree_wf (tree_put k (FileNode d m) t)"
  unfolding tree_wf_def
proof (intro conjI allI impI)
  show "distinct (map fst (tree_put k (FileNode d m) t))" using assms(1) by (simp add: tree_wf_def)
  fix q n assume q: "map_of (tree_put k (FileNode d m) t) q = Some n"
  have k: "k \<notin> {[], [RootDir]}" using assms(3) by (auto simp: node_at_def)
  then show "q \<notin> {[], [RootDir]}" using q assms(1) by (auto simp: tree_wf_def split: if_splits)
  fix i assume i: "i < length q"
  have dir: "node_at t (take i q) = Some DirNode"
  proof (cases "q = k")
    case True
    then have "i < length k" using i by simp
    then have "i < length k - 1 \<or> i = length k - 1" by presburger
    then have "i < length (butlast k) \<or> take i q = butlast k"
      using True by (auto simp: butlast_conv_take)
    then show ?thesis
      using wf_ancestor [OF assms(1), of "butlast k" i] assms(2) True by (auto simp: take_butlast)
  next
    case False
    then have "node_at t q \<noteq> None" using q by (auto simp: node_at_def)
    from wf_ancestor [OF assms(1) this i] show ?thesis .
  qed
  then have "take i q \<noteq> k" using assms(3) by auto
  with dir show "node_at (tree_put k (FileNode d m) t) (take i q) = Some DirNode" by (auto simp: node_at_def)
qed

lemma drop_file_wf:
  assumes "tree_wf t" and "node_at t k \<noteq> Some DirNode"
  shows "tree_wf (tree_drop k t)"
  unfolding tree_wf_def
proof (intro conjI allI impI)
  show "distinct (map fst (tree_drop k t))" using assms(1) by (simp add: tree_wf_def)
  fix q n assume q: "map_of (tree_drop k t) q = Some n"
  then show "q \<notin> {[], [RootDir]}" using assms(1) by (auto simp: tree_wf_def split: if_splits)
  fix i assume i: "i < length q"
  have "node_at t q \<noteq> None" using q by (auto simp: node_at_def split: if_splits)
  from wf_ancestor [OF assms(1) this i] assms(2) show "node_at (tree_drop k t) (take i q) = Some DirNode"
    by (auto simp: node_at_def)
qed

lemma node_at_put: "k \<notin> {[], [RootDir]} \<Longrightarrow> node_at (tree_put k n t) q = (if q = k then Some n else node_at t q)"
  by (auto simp: node_at_def)

lemma node_at_drop: "k \<notin> {[], [RootDir]} \<Longrightarrow> node_at (tree_drop k t) q = (if q = k then None else node_at t q)"
  by (auto simp: node_at_def)

lemma not_dir_not_root: "node_at t k \<noteq> Some DirNode \<Longrightarrow> k \<notin> {[], [RootDir]}"
  by (auto simp: node_at_def)

lemma distinct_prefixes: "distinct (map (\<lambda>i. take i k) [0..<Suc (length k)])"
proof -
  have "inj_on (\<lambda>i. take i k) (set [0..<Suc (length k)])"
  proof (rule inj_onI)
    fix i j assume "i \<in> set [0..<Suc (length k)]" "j \<in> set [0..<Suc (length k)]" "take i k = take j k"
    then have "length (take i k) = length (take j k)" "i \<le> length k" "j \<le> length k" by auto
    then show "i = j" by (auto simp: min_def split: if_splits)
  qed
  then show ?thesis by (simp only: distinct_map distinct_upt simp_thms)
qed

lemma create_dir_all_ok:
  assumes wf: "tree_wf t" and "tree_create_dir_all k t = Inr t'"
  shows "tree_wf t' \<and> node_at t' k = Some DirNode \<and> (\<forall>q. node_at t' q = node_at t q \<or> node_at t q = None \<and> node_at t' q = Some DirNode)"
proof (cases "node_at t k")
  case (Some n)
  then show ?thesis using assms by (cases n) (auto simp: tree_create_dir_all_def)
next
  case None
  let ?new = "tree_missing_dirs t k"
  have t': "t' = map (\<lambda>q. (q, DirNode)) ?new @ t" and clear: "\<not> tree_blocked t k"
    using assms(2) None by (auto simp: tree_create_dir_all_def split: if_splits)
  have new: "q \<in> set ?new \<longleftrightarrow> node_at t q = None \<and> (\<exists>i \<le> length k. q = take i k)" for q
  proof -
    have "set ?new = {q \<in> (\<lambda>i. take i k) ` {0..<Suc (length k)}. node_at t q = None}"
      unfolding tree_missing_dirs_def by (simp only: set_filter set_map set_upt)
    then show ?thesis by (auto simp only: mem_Collect_eq image_iff atLeastLessThan_iff less_Suc_eq_le le0 simp_thms bex_simps)
  qed
  have "map_of (map (\<lambda>q. (q, DirNode)) xs @ t) q = (if q \<in> set xs then Some DirNode else map_of t q)" for xs q
    by (induction xs) auto
  then have mo: "map_of t' q = (if q \<in> set ?new then Some DirNode else map_of t q)" for q by (simp add: t')
  then have at: "node_at t' q = (if q \<in> set ?new then Some DirNode else node_at t q)" for q
    by (auto simp: node_at_def)
  have above: "node_at t' (take i k) = Some DirNode" if "i \<le> length k" for i
  proof (cases "i = length k")
    case True
    then show ?thesis using None by (auto simp: at new)
  next
    case False
    with that have "i \<in> set [0..<length k]" by auto
    with clear have "\<nexists>d m. node_at t (take i k) = Some (FileNode d m)"
      unfolding tree_blocked_def list_ex_iff by force
    then show ?thesis using that by (cases "node_at t (take i k)"; cases "the (node_at t (take i k))") (auto simp: at new)
  qed
  have "tree_wf t'"
    unfolding tree_wf_def
  proof (intro conjI allI impI)
    have "distinct ?new" unfolding tree_missing_dirs_def by (rule distinct_filter [OF distinct_prefixes])
    moreover have "q \<notin> fst ` set t" if "node_at t q = None" for q
      using that by (auto simp: node_at_def map_of_eq_None_iff split: if_splits)
    then have "set ?new \<inter> fst ` set t = {}" using new by blast
    ultimately show "distinct (map fst t')" using wf by (auto simp: t' tree_wf_def comp_def)
    fix q n assume q: "map_of t' q = Some n"
    have "q \<notin> {[], [RootDir]}" if "q \<in> set ?new"
      using that new not_dir_not_root [of t q] by simp
    moreover have "q \<notin> {[], [RootDir]}" if "q \<notin> set ?new"
      using that q mo wf unfolding tree_wf_def by metis
    ultimately show "q \<notin> {[], [RootDir]}" by blast
    fix i assume i: "i < length q"
    show "node_at t' (take i q) = Some DirNode"
    proof (cases "q \<in> set ?new")
      case True
      then show ?thesis using above i new by (auto simp: min_def)
    next
      case False
      then have "node_at t q \<noteq> None" using q mo [of q] by (simp add: node_at_def)
      from wf_ancestor [OF wf this i] show ?thesis by (simp add: at)
    qed
  qed
  then show ?thesis using above [of "length k"] at new by auto
qed

text \<open>Writes and removals of files.\<close>

lemma tree_metadata_Inr [simp]: "tree_metadata t k = Inr n \<longleftrightarrow> node_at t k = Some n"
  by (simp add: tree_metadata_def split: option.split)

lemma create_new_ok:
  assumes "tree_wf t" and "tree_create_new k d m t = Inr t'"
  shows "tree_wf t' \<and> node_at t k = None \<and> (\<forall>q. node_at t' q = (if q = k then Some (FileNode d m) else node_at t q))"
proof -
  have "node_at t k = None" "node_at t (butlast k) = Some DirNode" "t' = tree_put k (FileNode d m) t"
    using assms(2) by (auto simp: tree_create_new_def tree_metadata_def split: option.splits if_splits)
  then show ?thesis using put_file_wf [OF assms(1)] node_at_put [OF not_dir_not_root, of t k] by simp
qed

lemma write_ok:
  assumes "tree_wf t" and "tree_write k d m t = Inr t'"
  shows "tree_wf t' \<and> node_at t k \<noteq> Some DirNode \<and> (\<forall>q. node_at t' q = (if q = k then Some (FileNode d m) else node_at t q))"
proof -
  have k: "node_at t k \<noteq> Some DirNode" "t' = tree_put k (FileNode d m) t"
    using assms(2) by (auto simp: tree_write_def tree_metadata_def split: option.splits if_splits fs_node.splits)
  have "node_at t (butlast k) = Some DirNode"
  proof (cases "node_at t k")
    case None
    then show ?thesis using assms(2) by (auto simp: tree_write_def tree_metadata_def split: if_splits)
  next
    case (Some n)
    then show ?thesis
      using wf_ancestor [OF assms(1), of k "length k - 1"] not_dir_not_root [OF k(1)] by (auto simp: butlast_conv_take)
  qed
  then show ?thesis using k put_file_wf [OF assms(1)] node_at_put [OF not_dir_not_root [OF k(1)]] by simp
qed

lemma rename_ok:
  assumes "tree_wf t" and "node_at t src = Some (FileNode d m)" and "node_at t (butlast dst) = Some DirNode"
    and "tree_rename src dst t = Inr t'"
  shows "tree_wf t' \<and> (\<forall>q. node_at t' q = (if q = dst then Some (FileNode d m) else if q = src then None else node_at t q))"
proof -
  have dst: "node_at t dst \<noteq> Some DirNode" and t': "t' = tree_put dst (FileNode d m) (tree_drop src t)"
    using assms(2,4) by (auto simp: tree_rename_def split: if_splits sum.splits)
  have src: "node_at t src \<noteq> Some DirNode" using assms(2) by simp
  note at = node_at_drop [OF not_dir_not_root [OF src]]
  have "butlast dst \<noteq> src" using assms(2,3) by auto
  then have "tree_wf t'"
    unfolding t' using drop_file_wf [OF assms(1) src] dst assms(3) by (intro put_file_wf) (auto simp: at)
  then show ?thesis unfolding t' using at node_at_put [OF not_dir_not_root [OF dst]] by auto
qed
section \<open>A safe store\<close>

text \<open>
  Objects that name a file by a plain path: the keys of the buckets under the base directory, absolute local paths, or
  relative ones. Objects of one family that differ name different files; the names of temporary files are left out.
\<close>

datatype object_family = BucketKeys | LocalPaths bool

definition tmp_name :: "string \<Rightarrow> bool" where
  "tmp_name n = str_contains n ''.parqonaut-tmp-''"

definition plain_names :: "string \<Rightarrow> bool" where
  "plain_names r = (plain_rel r \<and> \<not> tmp_name (last (split_on (CHR ''/'') r)))"

fun plain_object :: "object_family \<Rightarrow> object_location \<Rightarrow> bool" where
  "plain_object BucketKeys (ObjectS3 b k) = (proper_name b \<and> plain_names k)"
| "plain_object (LocalPaths rooted) (ObjectLocal p) = (is_absolute p = rooted \<and> plain_names (if rooted then tl p else p))"
| "plain_object _ _ = False"

definition local_objs :: "local_backend_config \<Rightarrow> local_state \<Rightarrow> object_location \<rightharpoonup> bytes" where
  "local_objs cfg s x = (case local_object_path cfg x of Inl _ \<Rightarrow> None | Inr p \<Rightarrow> file_at (ls_tree s) (fs_key p))"

definition local_ok :: "local_state \<Rightarrow> bool" where
  "local_ok s = tree_wf (ls_tree s)"

text \<open>A disk on which no write fails.\<close>

definition local_sound :: "local_state \<Rightarrow> bool" where
  "local_sound s = (local_ok s \<and> list_all (\<lambda>f. f = None) (ls_faults s))"

lemma fs_key_join: "plain_rel r \<Longrightarrow> fs_key (path_join p r) = fs_key p @ map Normal (split_on (CHR ''/'') r)"
  by (simp add: fs_key_def components_join filter_map comp_def)

text \<open>The directory and the names below it that an object of a family stands for.\<close>

fun family_root :: "local_backend_config \<Rightarrow> object_family \<Rightarrow> fs_key" where
  "family_root cfg BucketKeys = (case lc_base cfg of None \<Rightarrow> [] | Some base \<Rightarrow> fs_key base)"
| "family_root cfg (LocalPaths rooted) =
     (if rooted then [RootDir] else (case lc_base cfg of None \<Rightarrow> [] | Some base \<Rightarrow> fs_key base))"

fun object_names :: "object_location \<Rightarrow> string list" where
  "object_names (ObjectS3 b k) = b # split_on (CHR ''/'') k"
| "object_names (ObjectLocal p) = split_on (CHR ''/'') (if is_absolute p then tl p else p)"

lemma plain_key:
  assumes "plain_object F x" and "local_object_path cfg x = Inr p"
  shows "fs_key p = family_root cfg F @ map Normal (object_names x)" and "object_names x \<noteq> []" and "\<not> tmp_name (last (object_names x))"
proof -
  have "fs_key p = family_root cfg F @ map Normal (object_names x) \<and> object_names x \<noteq> [] \<and> \<not> tmp_name (last (object_names x))"
  proof (cases x)
    case (ObjectS3 b k)
    with assms(1) have b: "F = BucketKeys" "proper_name b" "plain_names k" by (cases F; simp)+
    obtain base where "lc_base cfg = Some base" "p = path_join (path_join base b) k"
      using assms(2) ObjectS3 by (auto simp: resolve_s3_object_def split: option.splits if_splits)
    moreover have "plain_rel b" "split_on (CHR ''/'') b = [b]" using b(2) by (simp_all add: split_on_no_sep proper_name_def plain_rel_def)
    ultimately show ?thesis using b ObjectS3 by (simp add: fs_key_join plain_names_def)
  next
    case (ObjectLocal q)
    with assms(1) obtain rooted where q: "F = LocalPaths rooted" "is_absolute q = rooted" "plain_names (if rooted then tl q else q)"
      by (cases F) auto
    then have rel: "plain_rel (if rooted then tl q else q)" by (simp add: plain_names_def)
    have "fs_key p = family_root cfg F @ map Normal (object_names x)"
    proof (cases rooted)
      case True
      then have "q = path_join ''/'' (tl q)" using q(2) plain_rel_relative [of "tl q"] rel by (auto simp: path_join_def is_absolute_iff)
      then have "fs_key q = fs_key ''/'' @ map Normal (split_on (CHR ''/'') (tl q))" using fs_key_join [of "tl q" "''/''"] rel True by simp
      moreover have "fs_key ''/'' = [RootDir]" by code_simp
      ultimately show ?thesis using assms(2) ObjectLocal q True by (auto simp: resolve_local_path_def)
    next
      case False
      moreover have "fs_key [] = []" by code_simp
      ultimately show ?thesis using assms(2) ObjectLocal q rel fs_key_join [of q "[]"] fs_key_join [of q "the (lc_base cfg)"]
        by (auto simp: resolve_local_path_def path_join_def split: option.splits)
    qed
    then show ?thesis using q ObjectLocal by (auto simp: plain_names_def)
  qed
  then show "fs_key p = family_root cfg F @ map Normal (object_names x)" "object_names x \<noteq> []" "\<not> tmp_name (last (object_names x))" by blast+
qed

lemma object_names_inj: "plain_object F x \<Longrightarrow> plain_object F y \<Longrightarrow> object_names x = object_names y \<Longrightarrow> x = y"
  by (cases F; cases x; cases y) (auto simp: is_absolute_iff dest: split_on_inj split: if_splits)

lemma plain_key_inj:
  assumes "plain_object F x" "plain_object F y" "local_object_path cfg x = Inr p" "local_object_path cfg y = Inr q" "fs_key p = fs_key q"
  shows "x = y"
proof -
  have "inj Normal" by (simp add: inj_def)
  then have "object_names x = object_names y"
    using plain_key(1) [OF assms(1,3)] plain_key(1) [OF assms(2,4)] assms(5) by (simp add: inj_map_eq_map)
  then show ?thesis by (rule object_names_inj [OF assms(1,2)])
qed

lemma str_contains_append: "str_contains (a @ p @ b) p"
proof (induction a)
  case Nil
  have "str_starts_with (p @ b) p" by simp
  then show ?case by (cases "p @ b") auto
qed simp

lemma temp_path_last: "\<exists>n. temp_path_for u (k @ [Normal m]) = k @ [Normal n] \<and> tmp_name n"
  using str_contains_append [of _ "''.parqonaut-tmp-''" u] by (simp add: temp_path_for_def Let_def tmp_name_def)

lemma plain_not_temp:
  assumes "plain_object F x" "plain_object F y" "local_object_path cfg x = Inr p" "local_object_path cfg y = Inr q"
  shows "temp_path_for u (fs_key p) \<noteq> fs_key q"
proof -
  note x = plain_key [OF assms(1,3)] and y = plain_key [OF assms(2,4)]
  obtain ns m where "object_names x = ns @ [m]" using x(2) by (cases "object_names x" rule: rev_cases) auto
  moreover obtain ns' m' where "object_names y = ns' @ [m']" using y(2) by (cases "object_names y" rule: rev_cases) auto
  ultimately show ?thesis
    using temp_path_last [of u "family_root cfg F @ map Normal ns" m] x(1) y(1,3) by auto
qed

lemma after_write_ok:
  "node_at t k = Some (FileNode d m) \<Longrightarrow> after_write x k n t s = (Inr (local_build_metadata x d m), (take_time s)\<lparr>ls_tree := t, ls_metrics := record_put n (ls_metrics s)\<rparr>)"
  by (simp add: after_write_def metadata_for_path_def tree_metadata_def)

definition written :: "object_location \<Rightarrow> path \<Rightarrow> bytes \<Rightarrow> local_state \<Rightarrow> object_metadata \<Rightarrow> local_state \<Rightarrow> bool" where
  "written x p d s m s' \<longleftrightarrow> m = local_build_metadata x d (next_time s) \<and>
     node_at (ls_tree s') (fs_key p) = Some (FileNode d (next_time s)) \<and> ls_clock s' = next_time s \<and> ls_ticks s' = tl (ls_ticks s)"

lemma take_time_simps [simp]: "ls_clock (take_time s) = next_time s" "ls_ticks (take_time s) = tl (ls_ticks s)" "ls_tree (take_time s) = ls_tree s"
    "ls_faults (take_time s) = tl (ls_faults s)" "next_time (s\<lparr>ls_drawn := n\<rparr>) = next_time s"
  by (simp_all add: take_time_def next_time_def)

text \<open>A create that fails has changed nothing, or the disk failed and the file holds the first bytes.\<close>

definition torn :: "local_backend_config \<Rightarrow> object_location \<Rightarrow> conditional_create \<Rightarrow> bytes \<Rightarrow> local_state \<Rightarrow> local_state \<Rightarrow> bool" where
  "torn cfg x c d s s' \<longleftrightarrow> (\<exists>p n. local_object_path cfg x = Inr p \<and> write_fault s = Some n \<and>
     (if_absent c \<longrightarrow> file_at (ls_tree s) (fs_key p) = None) \<and> file_at (ls_tree s') = (file_at (ls_tree s))(fs_key p \<mapsto> take n d))"

definition created :: "local_backend_config \<Rightarrow> object_location \<Rightarrow> conditional_create \<Rightarrow> bytes \<Rightarrow> local_state \<Rightarrow> object_metadata \<Rightarrow> local_state \<Rightarrow> bool" where
  "created cfg x c d s m s' \<longleftrightarrow> (\<exists>p. local_object_path cfg x = Inr p \<and> file_at (ls_tree s') = (file_at (ls_tree s))(fs_key p \<mapsto> d) \<and>
     (if_absent c \<longrightarrow> file_at (ls_tree s) (fs_key p) = None) \<and> written x p d s m s')"

lemma create_outcome:
  assumes "local_ok s" and "local_create cfg x c d s = (r, s')"
  shows "local_ok s' \<and> ls_faults s' \<in> {ls_faults s, tl (ls_faults s)} \<and>
    (case r of Inl e \<Rightarrow> file_at (ls_tree s') = file_at (ls_tree s) \<or> torn cfg x c d s s' | Inr m \<Rightarrow> created cfg x c d s m s')"
proof (cases "local_object_path cfg x")
  case (Inl e)
  then show ?thesis using assms by (auto simp: local_create_def)
next
  case (Inr p)
  show ?thesis
  proof (cases "tree_create_dir_all (butlast (fs_key p)) (ls_tree s)")
    case (Inl e)
    then show ?thesis using assms Inr by (auto simp: local_create_def)
  next
    case dirs: (Inr t)
    note t = create_dir_all_ok [OF assms(1) [unfolded local_ok_def] dirs]
    have ft: "file_at t = file_at (ls_tree s)"
    proof
      fix q show "file_at t q = file_at (ls_tree s) q" using t [THEN conjunct2, THEN conjunct2, rule_format, of q] by (auto simp: file_at_def)
    qed
    let ?b = "disk_bytes s d"
    let ?w = "if if_absent c then tree_create_new (fs_key p) ?b (next_time s) t else tree_write (fs_key p) ?b (next_time s) t"
    show ?thesis
    proof (cases ?w)
      case (Inl e)
      then have "s' = s\<lparr>ls_tree := t\<rparr>" "\<exists>e. r = Inl e"
        using assms(2) Inr dirs by (auto simp: local_create_def split: if_splits io_kind.splits)
      then show ?thesis using t ft by (auto simp: local_ok_def)
    next
      case w: (Inr t')
      have t': "tree_wf t'" "\<And>q. node_at t' q = (if q = fs_key p then Some (FileNode ?b (next_time s)) else node_at t q)"
          "if_absent c \<Longrightarrow> node_at t (fs_key p) = None"
        using w create_new_ok [of t "fs_key p" ?b "next_time s" t'] write_ok [of t "fs_key p" ?b "next_time s" t'] t
        by (auto split: if_splits)
      have f: "file_at t' = (file_at (ls_tree s))(fs_key p \<mapsto> ?b)" "if_absent c \<Longrightarrow> file_at (ls_tree s) (fs_key p) = None"
        using t'(2,3) unfolding ft [symmetric] by (auto simp: file_at_def fun_eq_iff)
      show ?thesis
      proof (cases "write_fault s")
        case None
        then have b: "?b = d" by (simp add: disk_bytes_def)
        have "(r, s') = (Inr (local_build_metadata x d (next_time s)), (take_time s)\<lparr>ls_tree := t', ls_metrics := record_put (length d) (ls_metrics s)\<rparr>)"
          using assms(2) Inr dirs w None after_write_ok [of t' "fs_key p" d "next_time s" x "length d" s] t'(2)
          by (auto simp: local_create_def b split: if_splits)
        then show ?thesis using t'(1,2) f Inr b by (auto simp: local_ok_def created_def written_def)
      next
        case (Some n)
        then have "(r, s') = write_failed t' s" using assms(2) Inr dirs w by (auto simp: local_create_def split: if_splits)
        then show ?thesis using t'(1) f Inr Some by (auto simp: local_ok_def torn_def write_failed_def disk_bytes_def)
      qed
    qed
  qed
qed

lemma butlast_temp [simp]: "butlast (temp_path_for u k) = butlast k"
  by (cases k rule: rev_cases) (auto simp: temp_path_for_def Let_def split: component.split)

lemma replace_outcome:
  assumes "local_ok s" and "local_replace cfg x c d s = (r, s')"
  defines "tmp p \<equiv> temp_path_for (lc_uuid cfg (ls_drawn s)) (fs_key p)"
  shows "local_ok s' \<and> ls_faults s' \<in> {ls_faults s, tl (ls_faults s)} \<and>
    (case r of
       Inl e \<Rightarrow> ls_tree s' = ls_tree s \<or>
         (\<exists>p. local_object_path cfg x = Inr p \<and> (\<forall>q. q \<noteq> tmp p \<longrightarrow> file_at (ls_tree s') q = file_at (ls_tree s) q))
     | Inr m \<Rightarrow> \<exists>p. local_object_path cfg x = Inr p \<and> file_at (ls_tree s) (fs_key p) \<noteq> None \<and> written x p d s m s' \<and>
         (\<forall>q. q \<noteq> tmp p \<longrightarrow> file_at (ls_tree s') q = ((file_at (ls_tree s))(fs_key p \<mapsto> d)) q))"
proof (cases "\<exists>p cur. local_object_path cfg x = Inr p \<and> metadata_for_path x (fs_key p) (ls_tree s) = Inr cur \<and>
    \<not> (expected_etag c \<noteq> None \<and> om_etag cur \<noteq> expected_etag c) \<and> \<not> (expected_version_id c \<noteq> None \<and> om_version_id cur \<noteq> expected_version_id c)")
  case False
  then have "s' = s" "\<exists>e. r = Inl e"
    using assms(2)
    by (cases "local_object_path cfg x"; cases "metadata_for_path x (fs_key (projr (local_object_path cfg x))) (ls_tree s)";
      auto simp: local_replace_def split: if_splits)+
  then show ?thesis using assms(1) by auto
next
  case True
  then obtain p cur where p: "local_object_path cfg x = Inr p" "metadata_for_path x (fs_key p) (ls_tree s) = Inr cur"
    and cond: "\<not> (expected_etag c \<noteq> None \<and> om_etag cur \<noteq> expected_etag c)" "\<not> (expected_version_id c \<noteq> None \<and> om_version_id cur \<noteq> expected_version_id c)"
    by blast
  let ?k = "fs_key p" and ?t = "ls_tree s"
  obtain d0 m0 where old: "node_at ?t ?k = Some (FileNode d0 m0)"
    using p(2) by (auto simp: metadata_for_path_def split: sum.splits fs_node.splits)
  have wf: "tree_wf ?t" using assms(1) by (simp add: local_ok_def)
  have parent: "node_at ?t (butlast ?k) = Some DirNode"
    using wf_ancestor [OF wf, of ?k "length ?k - 1"] old not_dir_not_root [of ?t ?k] by (auto simp: butlast_conv_take)
  have run: "local_replace cfg x c d s = (let s1 = s\<lparr>ls_drawn := ls_drawn s + 1\<rparr> in
      case tree_write (tmp p) (disk_bytes s d) (next_time s) ?t of
        Inl e \<Rightarrow> (Inl (StorageIo (io_text e)), s1)
      | Inr t1 \<Rightarrow> if write_fault s \<noteq> None then write_failed t1 s1 else (case tree_rename (tmp p) ?k t1 of
          Inl e \<Rightarrow> (Inl (StorageIo (io_text e)), (take_time s1)\<lparr>ls_tree := t1\<rparr>)
        | Inr t2 \<Rightarrow> after_write x ?k (length d) t2 s1))"
    unfolding tmp_def local_replace_def Let_def by (simp only: p bind_res.simps sum.case prod.case cond if_False)
  show ?thesis
  proof (cases "tree_write (tmp p) (disk_bytes s d) (next_time s) ?t")
    case (Inl e)
    then show ?thesis using assms(1,2) run by (auto simp: Let_def local_ok_def)
  next
    case w: (Inr t1)
    note t1 = write_ok [OF wf w]
    have src: "node_at t1 (tmp p) = Some (FileNode (disk_bytes s d) (next_time s))" using t1 by simp
    have dirs: "node_at t1 (butlast ?k) = Some DirNode"
      using t1 parent by (metis option.inject fs_node.distinct(1))
    consider (torn) "write_fault s \<noteq> None" | (kept) e where "write_fault s = None" "tree_rename (tmp p) ?k t1 = Inl e"
      | (moved) t2 where "write_fault s = None" "tree_rename (tmp p) ?k t1 = Inr t2" by (cases "tree_rename (tmp p) ?k t1"; cases "write_fault s") auto
    then show ?thesis
    proof cases
      case torn
      then show ?thesis using assms(2) run w t1 p(1) by (auto simp: Let_def local_ok_def file_at_def write_failed_def)
    next
      case kept
      then show ?thesis using assms(2) run w t1 p(1) by (auto simp: Let_def local_ok_def file_at_def)
    next
      case (moved t2)
      then have src: "node_at t1 (tmp p) = Some (FileNode d (next_time s))" using src by (simp add: disk_bytes_def)
      note Inr = moved(2)
      note t2 = rename_ok [OF _ src dirs Inr]
      have "(r, s') = (Inr (local_build_metadata x d (next_time s)),
          (take_time (s\<lparr>ls_drawn := ls_drawn s + 1\<rparr>))\<lparr>ls_tree := t2, ls_metrics := record_put (length d) (ls_metrics s)\<rparr>)"
        using assms(2) run w moved t1 t2 after_write_ok [of t2 ?k d "next_time s" x "length d"] by (simp add: Let_def)
      then show ?thesis using t1 t2 p(1) old by (auto simp: local_ok_def file_at_def written_def)
    qed
  qed
qed

lemma delete_outcome:
  assumes "local_ok s" and "local_delete cfg x s = (r, s')"
  shows "local_ok s' \<and> ls_faults s' = ls_faults s \<and> (case r of Inl e \<Rightarrow> s' = s
     | Inr u \<Rightarrow> \<exists>p. local_object_path cfg x = Inr p \<and> file_at (ls_tree s') = (file_at (ls_tree s))(fs_key p := None))"
proof (cases "local_object_path cfg x")
  case (Inl e)
  then show ?thesis using assms by (auto simp: local_delete_def)
next
  case p: (Inr p)
  show ?thesis
  proof (cases "tree_remove_file (fs_key p) (ls_tree s)")
    case (Inr t)
    then have n: "\<exists>d m. node_at (ls_tree s) (fs_key p) = Some (FileNode d m)" and t: "t = tree_drop (fs_key p) (ls_tree s)"
      by (auto simp: tree_remove_file_def split: sum.splits fs_node.splits)
    then have "node_at (ls_tree s) (fs_key p) \<noteq> Some DirNode" by auto
    then show ?thesis
      using assms p Inr drop_file_wf [of "ls_tree s" "fs_key p"] node_at_drop [OF not_dir_not_root, of "ls_tree s" "fs_key p"]
      by (auto simp: local_delete_def local_ok_def t file_at_def fun_eq_iff)
  next
    case (Inl e)
    then have "file_at (ls_tree s) (fs_key p) = None"
      by (auto simp: tree_remove_file_def file_at_def tree_metadata_def split: option.splits fs_node.splits)
    then show ?thesis using assms p Inl by (cases e) (auto simp: local_delete_def fun_eq_iff)
  qed
qed

lemma local_backend_simps [simp]:
  "be_capabilities (local_backend cfg) = (\<lambda>_. CAPS_LOCAL)" "be_list (local_backend cfg) = local_list cfg"
  "be_head (local_backend cfg) = local_head cfg" "be_read (local_backend cfg) = local_read cfg"
  "be_create (local_backend cfg) = local_create cfg" "be_replace (local_backend cfg) = local_replace cfg"
  "be_delete (local_backend cfg) = local_delete cfg"
  by (simp_all add: local_backend_def)

lemma read_tree [simp]: "ls_tree (snd (local_read cfg x s)) = ls_tree s" "ls_tree (snd (local_head cfg x s)) = ls_tree s"
    "ls_faults (snd (local_read cfg x s)) = ls_faults s" "ls_faults (snd (local_head cfg x s)) = ls_faults s"
  by (simp_all add: local_read_def local_read_stream_def local_head_def split: sum.split)

lemma opened_file:
  "metadata_for_path x k t = Inr m \<Longrightarrow> \<exists>d mt. node_at t k = Some (FileNode d mt) \<and> m = local_build_metadata x d mt"
  "local_open x k t = Inr d \<Longrightarrow> \<exists>mt. node_at t k = Some (FileNode d mt)"
  by (cases "node_at t k"; auto simp: metadata_for_path_def local_open_def tree_metadata_def split: fs_node.splits)+

lemma objs_tree: "ls_tree s' = ls_tree s \<Longrightarrow> local_objs cfg s' = local_objs cfg s"
  by (simp add: local_objs_def fun_eq_iff split: sum.split)

lemma objs_upd:
  assumes "plain_object F x" "plain_object F y" "local_object_path cfg x = Inr p"
    and "\<And>q. q \<noteq> temp_path_for u (fs_key p) \<Longrightarrow> file_at (ls_tree s') q = ((file_at (ls_tree s))(fs_key p := v)) q"
  shows "local_objs cfg s' y = ((local_objs cfg s)(x := v)) y"
proof (cases "local_object_path cfg y")
  case (Inl e)
  then show ?thesis using assms(3) by (auto simp: local_objs_def)
next
  case (Inr q)
  have "fs_key q \<noteq> temp_path_for u (fs_key p)" using plain_not_temp [OF assms(1,2,3) Inr] by metis
  then show ?thesis using Inr assms(3,4) plain_key_inj [OF assms(1,2,3) Inr] by (auto simp: local_objs_def)
qed

lemma objs_keep:
  assumes "plain_object F x" "plain_object F y" "local_object_path cfg x = Inr p"
    and "\<And>q. q \<noteq> temp_path_for u (fs_key p) \<Longrightarrow> file_at (ls_tree s') q = file_at (ls_tree s) q"
  shows "local_objs cfg s' y = local_objs cfg s y"
proof (cases "local_object_path cfg y")
  case (Inr q)
  have "fs_key q \<noteq> temp_path_for u (fs_key p)" using plain_not_temp [OF assms(1,2,3) Inr] by metis
  then show ?thesis using Inr assms(4) by (simp add: local_objs_def)
qed (simp add: local_objs_def)

text \<open>What the operations do to the objects of a family, a disk that fails included.\<close>

lemma created_objs:
  assumes "plain_object F x" "plain_object F y" "created cfg x c d s m s'"
  shows "local_objs cfg s' y = ((local_objs cfg s)(x \<mapsto> d)) y \<and> (if_absent c \<longrightarrow> local_objs cfg s x = None)"
  using assms(3) objs_upd [OF assms(1,2), of cfg _ _ s' s "Some d"] by (auto simp: created_def local_objs_def)

lemma torn_objs:
  assumes "plain_object F x" "plain_object F y" "torn cfg x c d s s'"
  shows "\<exists>n. write_fault s = Some n \<and> local_objs cfg s' y = ((local_objs cfg s)(x \<mapsto> take n d)) y \<and> (if_absent c \<longrightarrow> local_objs cfg s x = None)"
  using assms(3) objs_upd [OF assms(1,2), of cfg _ _ s' s] by (auto simp: torn_def local_objs_def)

lemma replace_objs:
  assumes "local_ok s" "plain_object F x" "plain_object F y" "local_replace cfg x c d s = (r, s')"
  shows "case r of Inl e \<Rightarrow> local_objs cfg s' y = local_objs cfg s y
    | Inr m \<Rightarrow> local_objs cfg s' y = ((local_objs cfg s)(x \<mapsto> d)) y \<and> local_objs cfg s x \<noteq> None"
proof (cases r)
  case (Inl e)
  then consider "ls_tree s' = ls_tree s" | p where "local_object_path cfg x = Inr p"
      "\<And>q. q \<noteq> temp_path_for (lc_uuid cfg (ls_drawn s)) (fs_key p) \<Longrightarrow> file_at (ls_tree s') q = file_at (ls_tree s) q"
    using replace_outcome [OF assms(1,4)] by auto
  then show ?thesis
  proof cases
    case 1
    then show ?thesis using Inl objs_tree [of s' s cfg] by simp
  next
    case (2 p)
    then show ?thesis using Inl objs_keep [OF assms(2,3) 2] by simp
  qed
next
  case (Inr m)
  obtain p where p: "local_object_path cfg x = Inr p" "file_at (ls_tree s) (fs_key p) \<noteq> None"
      "\<And>q. q \<noteq> temp_path_for (lc_uuid cfg (ls_drawn s)) (fs_key p) \<Longrightarrow> file_at (ls_tree s') q = ((file_at (ls_tree s))(fs_key p \<mapsto> d)) q"
    using replace_outcome [OF assms(1,4)] Inr by auto
  then show ?thesis using Inr objs_upd [OF assms(2,3) p(1,3)] by (simp add: local_objs_def)
qed

lemma delete_objs:
  assumes "local_ok s" "plain_object F x" "plain_object F y" "local_delete cfg x s = (r, s')"
  shows "case r of Inl e \<Rightarrow> local_objs cfg s' y = local_objs cfg s y | Inr u \<Rightarrow> local_objs cfg s' y = ((local_objs cfg s)(x := None)) y"
  using delete_outcome [OF assms(1,4)] objs_upd [OF assms(2,3), of cfg _ _ s' s None] by (auto split: sum.splits)

lemma sound_fault: "local_sound s \<Longrightarrow> write_fault s = None"
  by (cases "ls_faults s") (auto simp: local_sound_def write_fault_def)

lemma sound_next: "local_sound s \<Longrightarrow> local_ok s' \<Longrightarrow> ls_faults s' \<in> {ls_faults s, tl (ls_faults s)} \<Longrightarrow> local_sound s'"
  by (cases "ls_faults s") (auto simp: local_sound_def)

lemma sound_ok: "local_sound s \<Longrightarrow> local_ok s"
  by (simp add: local_sound_def)

lemma sound_steps:
  assumes "local_sound s"
  shows "local_sound (snd (local_create cfg x c d s))" and "local_sound (snd (local_replace cfg x rc d s))"
    and "local_sound (snd (local_delete cfg x s))"
proof -
  note ok = sound_ok [OF assms]
  show "local_sound (snd (local_create cfg x c d s))"
    using create_outcome [OF ok prod.collapse [symmetric], of cfg x c d] by (intro sound_next [OF assms]) blast+
  show "local_sound (snd (local_replace cfg x rc d s))"
    using replace_outcome [OF ok prod.collapse [symmetric], of cfg x rc d] by (intro sound_next [OF assms]) blast+
  show "local_sound (snd (local_delete cfg x s))"
    using delete_outcome [OF ok prod.collapse [symmetric], of cfg x] by (intro sound_next [OF assms]) simp_all
qed

interpretation local: safe_store "local_backend cfg" "local_objs cfg" "{x. plain_object F x}" local_sound for cfg F
proof (unfold_locales, goal_cases)
  case (1 s x) then show ?case by (simp add: local_sound_def local_ok_def)
next
  case (2 s x) then show ?case by (simp add: local_sound_def local_ok_def)
next
  case (3 s x c d) then show ?case using sound_steps(1) by simp
next
  case (4 s x rc d) then show ?case using sound_steps(2) by simp
next
  case (5 s x) then show ?case using sound_steps(3) by simp
next
  case (6 s x y) then show ?case using objs_tree [of "snd (local_head cfg x s)" s cfg] by simp
next
  case (7 s x m s') then show ?case
    by (auto simp: local_head_def local_objs_def file_at_def bind_res_Inr_iff dest!: opened_file(1))
next
  case (8 s x y) then show ?case using objs_tree [of "snd (local_read cfg x s)" s cfg] by simp
next
  case (9 s x d s') then show ?case
    by (auto simp: local_read_def local_read_stream_def local_objs_def file_at_def bind_res_Inr_iff split: sum.splits dest!: opened_file(2))
next
  case (10 s x y c d e s') then show ?case
    using create_outcome [OF sound_ok, of s cfg x c d "Inl e" s'] sound_fault [of s] by (auto simp: local_objs_def torn_def split: sum.split)
next
  case (11 s x c d m s') then show ?case
    using create_outcome [OF sound_ok, of s cfg x c d "Inr m" s'] created_objs [of F x x cfg c d s m s'] by auto
next
  case (12 s x y c d m s') then show ?case
    using create_outcome [OF sound_ok, of s cfg x c d "Inr m" s'] created_objs [of F x y cfg c d s m s'] by auto
next
  case (13 s x y rc d e s') then show ?case using replace_objs [OF sound_ok, of s F x y cfg rc d "Inl e" s'] by simp
next
  case (14 s x rc d m s') then show ?case using replace_objs [OF sound_ok, of s F x x cfg rc d "Inr m" s'] by simp
next
  case (15 s x y rc d m s') then show ?case using replace_objs [OF sound_ok, of s F x y cfg rc d "Inr m" s'] by simp
next
  case (16 s x y e s') then show ?case using delete_objs [OF sound_ok, of s F x y cfg "Inl e" s'] by simp
next
  case (17 s x y u s') then show ?case using delete_objs [OF sound_ok, of s F x y cfg "Inr u" s'] by simp
qed

section \<open>Results\<close>

definition local_new :: "nat \<Rightarrow> nat list \<Rightarrow> nat option list \<Rightarrow> local_state" where
  "local_new now ticks faults =
     \<lparr>ls_tree = [], ls_metrics = metrics_default, ls_clock = now, ls_ticks = ticks, ls_faults = faults, ls_drawn = 0\<rparr>"

lemma local_new_ok [simp]: "local_ok (local_new now ticks faults)"
  by (simp add: local_ok_def local_new_def tree_wf_def)

text \<open>The two constructors of the backend: with a base directory and without one.\<close>

definition demo_local :: local_backend_config where
  "demo_local = \<lparr>lc_base = Some ''/srv'', lc_uuid = show_nat\<rparr>"

definition demo_direct :: local_backend_config where
  "demo_direct = \<lparr>lc_base = None, lc_uuid = show_nat\<rparr>"

text \<open>
  C40. The filesystem backend implements a map of objects, on objects of one family that have plain paths (keys of
  buckets under the base directory, absolute local paths, or relative local paths): a read returns what is stored; a
  create that succeeds stores the bytes and, under the condition that the object is absent, found it absent; a
  replace that succeeds found the object present; each write and delete changes its own object only. A replace or a
  delete that fails changes no object, even when the disk fails in the middle of the write; a create that fails changes
  no object unless the disk failed, and then it leaves its own object with the first bytes. Two families may name one
  file; errors of reading a disk, symbolic links and concurrent writers are not modelled.
\<close>

theorem local_backend_refines_map:
  assumes "local_ok s" and "plain_object F x" and "plain_object F y"
  shows "(\<forall>d s'. local_read cfg x s = (Inr d, s') \<longrightarrow> local_objs cfg s x = Some d) \<and>
    (case local_create cfg x c d s of
       (Inl e, s') \<Rightarrow> local_objs cfg s' y = local_objs cfg s y \<or>
         (\<exists>n. write_fault s = Some n \<and> local_objs cfg s' y = ((local_objs cfg s)(x \<mapsto> take n d)) y \<and>
           (if_absent c \<longrightarrow> local_objs cfg s x = None))
     | (Inr m, s') \<Rightarrow> local_objs cfg s' y = ((local_objs cfg s)(x \<mapsto> d)) y \<and> (if_absent c \<longrightarrow> local_objs cfg s x = None)) \<and>
    (case local_replace cfg x rc d s of
       (Inl e, s') \<Rightarrow> local_objs cfg s' y = local_objs cfg s y
     | (Inr m, s') \<Rightarrow> local_objs cfg s' y = ((local_objs cfg s)(x \<mapsto> d)) y \<and> local_objs cfg s x \<noteq> None) \<and>
    (case local_delete cfg x s of
       (Inl e, s') \<Rightarrow> local_objs cfg s' y = local_objs cfg s y
     | (Inr u, s') \<Rightarrow> local_objs cfg s' y = ((local_objs cfg s)(x := None)) y)"
proof (intro conjI)
  show "\<forall>d s'. local_read cfg x s = (Inr d, s') \<longrightarrow> local_objs cfg s x = Some d"
    by (auto simp: local_read_def local_read_stream_def local_objs_def file_at_def bind_res_Inr_iff split: sum.splits dest!: opened_file(2))
  show "case local_create cfg x c d s of
       (Inl e, s') \<Rightarrow> local_objs cfg s' y = local_objs cfg s y \<or>
         (\<exists>n. write_fault s = Some n \<and> local_objs cfg s' y = ((local_objs cfg s)(x \<mapsto> take n d)) y \<and>
           (if_absent c \<longrightarrow> local_objs cfg s x = None))
     | (Inr m, s') \<Rightarrow> local_objs cfg s' y = ((local_objs cfg s)(x \<mapsto> d)) y \<and> (if_absent c \<longrightarrow> local_objs cfg s x = None)"
    using create_outcome [OF assms(1), of cfg x c d] created_objs [OF assms(2,3), of cfg c d s] torn_objs [OF assms(2,3), of cfg c d s]
    by (fastforce simp: local_objs_def split: prod.split sum.split sum.splits)
  show "case local_replace cfg x rc d s of
       (Inl e, s') \<Rightarrow> local_objs cfg s' y = local_objs cfg s y
     | (Inr m, s') \<Rightarrow> local_objs cfg s' y = ((local_objs cfg s)(x \<mapsto> d)) y \<and> local_objs cfg s x \<noteq> None"
    using replace_objs [OF assms, of cfg rc d] by (fastforce split: prod.split sum.split)
  show "case local_delete cfg x s of
       (Inl e, s') \<Rightarrow> local_objs cfg s' y = local_objs cfg s y
     | (Inr u, s') \<Rightarrow> local_objs cfg s' y = ((local_objs cfg s)(x := None)) y"
    using delete_objs [OF assms, of cfg] by (fastforce split: prod.split sum.split)
qed

theorem local_backend_refines_map_witness:
  "\<exists>m s'. local_create demo_direct (ObjectLocal ''/data/k'') must_not_exist ''abc'' (local_new 0 [] []) = (Inr m, s') \<and>
     local_objs demo_direct s' (ObjectLocal ''/data/k'') = Some ''abc''"
proof -
  have plain: "plain_object (LocalPaths True) (ObjectLocal ''/data/k'')" by code_simp
  let ?c = "local_create demo_direct (ObjectLocal ''/data/k'') must_not_exist ''abc'' (local_new 0 [] [])"
  have "is_ok (fst ?c)" by code_simp
  then obtain m s' where "?c = (Inr m, s')" by (cases ?c; cases "fst ?c") auto
  with local_backend_refines_map [OF local_new_ok [of 0 "[]" "[]"] plain plain,
      where cfg = demo_direct and c = must_not_exist and d = "''abc''", THEN conjunct2, THEN conjunct1]
  show ?thesis by auto
qed

text \<open>
  A create is not atomic: when the disk fails while a new object is written, the file stays with the bytes that
  were written, and every later create of the object is refused as a conflict.
\<close>

theorem failed_create_blocks_retry:
  "let s1 = snd (local_create demo_direct (ObjectLocal ''/data/k'') must_not_exist ''abc'' (local_new 0 [] [Some 1]))
   in local_objs demo_direct s1 (ObjectLocal ''/data/k'') = Some ''a'' \<and>
      fst (local_create demo_direct (ObjectLocal ''/data/k'') must_not_exist ''abc'' s1) =
        Inl (Conflict ''object already exists: file:///data/k'')"
  by code_simp

text \<open>
  Entity tags of the filesystem backend do not tell two versions of one length apart that were written at one
  time of the clock: after a replace that keeps length and time, a second replace with the tag of the first version is
  not refused, and the version in between is lost.
\<close>

theorem local_stale_tag_accepted:
  assumes "local_ok s" and "local_create cfg x c d1 s = (Inr m1, s1)" and "local_replace cfg x (matching m1) d2 s1 = (Inr m2, s2)"
    and "length d2 = length d1" and "ls_ticks s1 = 0 # ticks"
  shows "matching m2 = matching m1 \<and> (\<forall>msg. fst (local_replace cfg x (matching m1) d3 s2) \<noteq> Inl (PreconditionFailed msg))"
proof -
  obtain p where p: "local_object_path cfg x = Inr p" and w1: "written x p d1 s m1 s1"
    and ok1: "local_ok s1" using create_outcome [OF assms(1,2)] by (auto simp: created_def)
  have w2: "written x p d2 s1 m2 s2" using replace_outcome [OF ok1 assms(3)] p by auto
  have "next_time s1 = ls_clock s1" using assms(5) by (simp add: next_time_def)
  then have "next_time s1 = next_time s" using w1 by (simp add: written_def)
  then have eq: "matching m2 = matching m1" and cur: "metadata_for_path x (fs_key p) (ls_tree s2) = Inr m2"
    using w1 w2 assms(4) by (simp_all add: written_def matching_def local_build_metadata_def metadata_for_path_def tree_metadata_def)
  moreover have "fst (local_replace cfg x (matching m2) d3 s2) \<noteq> Inl (PreconditionFailed msg)" for msg
    using p cur by (auto simp: local_replace_def matching_def Let_def after_write_def write_failed_def metadata_for_path_def
        split: sum.splits fs_node.splits if_splits elim!: map_io_error.elims)
  ultimately show ?thesis by simp
qed

theorem local_stale_tag_accepted_witness:
  "\<exists>m1 s1 m2 s2. local_create demo_local (ObjectS3 ''b'' ''k'') must_not_exist ''abc'' (local_new 0 [1, 0] []) = (Inr m1, s1) \<and>
     local_replace demo_local (ObjectS3 ''b'' ''k'') (matching m1) ''xyz'' s1 = (Inr m2, s2) \<and> matching m2 = matching m1"
proof -
  let ?x = "ObjectS3 ''b'' ''k''" and ?s = "local_new 0 [1, 0] []"
  let ?c = "local_create demo_local ?x must_not_exist ''abc'' ?s"
  let ?r = "local_replace demo_local ?x (matching (projr (fst ?c))) ''xyz'' (snd ?c)"
  have "is_ok (fst ?c)" "is_ok (fst ?r)" "ls_ticks (snd ?c) = [0]" by code_simp+
  then obtain m1 s1 m2 s2 where 1: "?c = (Inr m1, s1)" and 2: "local_replace demo_local ?x (matching m1) ''xyz'' s1 = (Inr m2, s2)"
    and 3: "ls_ticks s1 = [0]"
    by (cases ?c; cases "fst ?c"; cases ?r; cases "fst ?r") auto
  from local_stale_tag_accepted [OF local_new_ok 1 2, of "[]"] 1 2 3 show ?thesis by auto
qed

end
