(* ===== verification/Repair_Plan.thy ===== *)
theory Repair_Plan
  imports Repair_Error
begin

text \<open>
  The data of repair plans (\<open>action.rs\<close>, \<open>safety.rs\<close>, \<open>plan.rs\<close>,
  \<open>policy.rs\<close>, \<open>schema_policy.rs\<close>, \<open>fingerprint.rs\<close>, the schema types), the
  authorization of operations (\<open>authorization.rs\<close>) and the loading of policies from
  TOML.

  JSON values are kept as a datatype; a TOML document is the table the \<open>toml\<close> crate
  parsed, with the reading of its text as a parameter.
\<close>

section \<open>Values of the data formats\<close>

datatype json =
    JNull
  | JBool bool
  | JInt int
  | JStr string
  | JArr "json list"
  | JObj "(string \<times> json) list"

datatype toml =
    TBool bool
  | TInt int
  | TStr string
  | TTable "(string \<times> toml) list"

fun as_bool :: "toml \<Rightarrow> bool option" where
  "as_bool (TBool b) = Some b"
| "as_bool _ = None"

fun as_integer :: "toml \<Rightarrow> int option" where
  "as_integer (TInt i) = Some i"
| "as_integer _ = None"

fun as_str :: "toml \<Rightarrow> string option" where
  "as_str (TStr s) = Some s"
| "as_str _ = None"

fun as_table :: "toml \<Rightarrow> (string \<times> toml) list option" where
  "as_table (TTable t) = Some t"
| "as_table _ = None"

text \<open>\<open>table.get(key).and_then(conv)\<close>, and the update of a field when it gives a value.\<close>

definition toml_get :: "(string \<times> toml) list \<Rightarrow> string \<Rightarrow> (toml \<Rightarrow> 'a option) \<Rightarrow> 'a option" where
  "toml_get t key conv = Option.bind (map_of t key) conv"

definition set_from :: "'a option \<Rightarrow> ('a \<Rightarrow> 'p \<Rightarrow> 'p) \<Rightarrow> 'p \<Rightarrow> 'p" where
  "set_from v upd p = (case v of None \<Rightarrow> p | Some x \<Rightarrow> upd x p)"

section \<open>Safety and actions\<close>

datatype repair_safety = Safe | ReviewRequired | Destructive | Blocked

fun is_auto_executable :: "repair_safety \<Rightarrow> bool" where
  "is_auto_executable Safe = True"
| "is_auto_executable _ = False"

fun requires_explicit_authorization :: "repair_safety \<Rightarrow> bool" where
  "requires_explicit_authorization ReviewRequired = True"
| "requires_explicit_authorization _ = False"

datatype repair_action =
    Recompress string "string list"
  | RebuildStatistics "string list"
  | ResizeRowGroups u64 "string list"
  | MergeSmallFiles u64 "string list"
  | SplitLargeFile u64 string
  | AlignSchema string string string
  | CastColumn string string string
  | RenameColumn string string
  | Repartition string

fun kind_label :: "repair_action \<Rightarrow> string" where
  "kind_label (Recompress _ _) = ''recompress''"
| "kind_label (RebuildStatistics _) = ''rebuild_statistics''"
| "kind_label (ResizeRowGroups _ _) = ''resize_row_groups''"
| "kind_label (MergeSmallFiles _ _) = ''merge_small_files''"
| "kind_label (SplitLargeFile _ _) = ''split_large_file''"
| "kind_label (AlignSchema _ _ _) = ''align_schema''"
| "kind_label (CastColumn _ _ _) = ''cast_column''"
| "kind_label (RenameColumn _ _) = ''rename_column''"
| "kind_label (Repartition _) = ''repartition''"

fun default_safety :: "repair_action \<Rightarrow> repair_safety" where
  "default_safety (Recompress _ _) = Safe"
| "default_safety (RebuildStatistics _) = Safe"
| "default_safety (ResizeRowGroups _ _) = Safe"
| "default_safety (MergeSmallFiles _ _) = Safe"
| "default_safety (SplitLargeFile _ _) = Safe"
| "default_safety _ = ReviewRequired"

record evidence_ref =
  ev_finding_id :: string
  ev_summary :: string
  ev_payload :: "json option"

record precondition =
  pre_kind :: string
  pre_description :: string

record expected_outcome =
  eo_metric :: string
  eo_before :: json
  eo_after_expected :: json

record repair_operation =
  operation_id :: string
  finding_ids :: "string list"
  safety :: repair_safety
  action :: repair_action
  rationale :: string
  evidence :: "evidence_ref list"
  preconditions :: "precondition list"
  depends_on :: "string list"

section \<open>Policies\<close>

record repair_policy =
  default_compression :: string
  target_row_group_mb :: u64
  small_file_threshold_mb :: u64
  merge_target_mb :: u64
  min_files_for_merge :: nat
  min_codecs_for_inconsistency :: nat

definition repair_policy_default :: repair_policy where
  "repair_policy_default = \<lparr>default_compression = ''zstd'', target_row_group_mb = 128,
     small_file_threshold_mb = 16, merge_target_mb = 256, min_files_for_merge = 4,
     min_codecs_for_inconsistency = 2\<rparr>"

definition small_file_threshold_bytes :: "repair_policy \<Rightarrow> u64" where
  "small_file_threshold_bytes p = small_file_threshold_mb p * 1024 * 1024"

definition merge_target_bytes :: "repair_policy \<Rightarrow> u64" where
  "merge_target_bytes p = merge_target_mb p * 1024 * 1024"

definition target_row_group_bytes :: "repair_policy \<Rightarrow> u64" where
  "target_row_group_bytes p = target_row_group_mb p * 1024 * 1024"

text \<open>\<open>from_toml_optional\<close> on the parsed table: only a \<open>repair\<close> sub-table counts;
  \<open>v as u64\<close> wraps a negative integer.\<close>

definition repair_policy_from_toml :: "(string \<times> toml) list option \<Rightarrow> repair_policy" where
  "repair_policy_from_toml raw =
     (case raw of None \<Rightarrow> repair_policy_default
      | Some table \<Rightarrow>
          (case toml_get table ''repair'' as_table of
             None \<Rightarrow> repair_policy_default
           | Some section \<Rightarrow>
               set_from (toml_get section ''merge_target_mb'' as_integer)
                 (\<lambda>v p. p\<lparr>merge_target_mb := word_of_int v\<rparr>)
               (set_from (toml_get section ''small_file_threshold_mb'' as_integer)
                 (\<lambda>v p. p\<lparr>small_file_threshold_mb := word_of_int v\<rparr>)
               (set_from (toml_get section ''target_row_group_mb'' as_integer)
                 (\<lambda>v p. p\<lparr>target_row_group_mb := word_of_int v\<rparr>)
               (set_from (toml_get section ''default_compression'' as_str)
                 (\<lambda>v p. p\<lparr>default_compression := v\<rparr>) repair_policy_default)))))"

record schema_policy =
  allow_numeric_widening :: bool
  allow_nullable_widening :: bool
  allow_column_reorder :: bool
  allow_missing_nullable_columns :: bool
  allow_timestamp_unit_widening :: bool
  rename_map :: "(string \<times> string) list"

definition schema_policy_default :: schema_policy where
  "schema_policy_default = \<lparr>allow_numeric_widening = True, allow_nullable_widening = True,
     allow_column_reorder = True, allow_missing_nullable_columns = False,
     allow_timestamp_unit_widening = False, rename_map = []\<rparr>"

record file_policy =
  max_file_mb :: u64
  split_target_mb :: u64

definition file_policy_default :: file_policy where
  "file_policy_default = \<lparr>max_file_mb = 1024, split_target_mb = 512\<rparr>"

definition max_file_bytes :: "file_policy \<Rightarrow> u64" where
  "max_file_bytes p = max_file_mb p * 1024 * 1024"

definition split_target_bytes :: "file_policy \<Rightarrow> u64" where
  "split_target_bytes p = split_target_mb p * 1024 * 1024"

record ci_policy =
  fail_on_safe_findings :: bool
  fail_on_review_required :: bool
  fail_on_destructive :: bool
  fail_on_unresolvable_schema :: bool

definition ci_policy_default :: ci_policy where
  "ci_policy_default = \<lparr>fail_on_safe_findings = False, fail_on_review_required = True,
     fail_on_destructive = True, fail_on_unresolvable_schema = True\<rparr>"

record effective_policy =
  ep_repair :: repair_policy
  ep_schema :: schema_policy
  ep_files :: file_policy
  ep_ci :: "ci_policy option"

definition effective_policy_default :: effective_policy where
  "effective_policy_default = \<lparr>ep_repair = repair_policy_default, ep_schema = schema_policy_default,
     ep_files = file_policy_default, ep_ci = None\<rparr>"

definition schema_section :: "(string \<times> toml) list \<Rightarrow> schema_policy \<Rightarrow> schema_policy" where
  "schema_section t p =
     set_from (toml_get t ''rename'' as_table)
       (\<lambda>rn q. q\<lparr>rename_map := fold (\<lambda>(k, v) m. case as_str v of None \<Rightarrow> m | Some s \<Rightarrow> bt_insert k s m)
          rn (rename_map q)\<rparr>)
     (set_from (toml_get t ''allow_timestamp_unit_widening'' as_bool)
       (\<lambda>v q. q\<lparr>allow_timestamp_unit_widening := v\<rparr>)
     (set_from (toml_get t ''allow_missing_nullable_columns'' as_bool)
       (\<lambda>v q. q\<lparr>allow_missing_nullable_columns := v\<rparr>)
     (set_from (toml_get t ''allow_column_reorder'' as_bool) (\<lambda>v q. q\<lparr>allow_column_reorder := v\<rparr>)
     (set_from (toml_get t ''allow_nullable_widening'' as_bool) (\<lambda>v q. q\<lparr>allow_nullable_widening := v\<rparr>)
     (set_from (toml_get t ''allow_numeric_widening'' as_bool) (\<lambda>v q. q\<lparr>allow_numeric_widening := v\<rparr>)
       p)))))"

definition files_section :: "(string \<times> toml) list \<Rightarrow> file_policy \<Rightarrow> file_policy" where
  "files_section t p =
     set_from (toml_get t ''split_target_mb'' as_integer) (\<lambda>v q. q\<lparr>split_target_mb := word_of_int v\<rparr>)
     (set_from (toml_get t ''max_file_mb'' as_integer) (\<lambda>v q. q\<lparr>max_file_mb := word_of_int v\<rparr>) p)"

definition ci_section :: "(string \<times> toml) list \<Rightarrow> ci_policy" where
  "ci_section t =
     set_from (toml_get t ''fail_on_unresolvable_schema'' as_bool) (\<lambda>v q. q\<lparr>fail_on_unresolvable_schema := v\<rparr>)
     (set_from (toml_get t ''fail_on_destructive'' as_bool) (\<lambda>v q. q\<lparr>fail_on_destructive := v\<rparr>)
     (set_from (toml_get t ''fail_on_review_required'' as_bool) (\<lambda>v q. q\<lparr>fail_on_review_required := v\<rparr>)
     (set_from (toml_get t ''fail_on_safe_findings'' as_bool) (\<lambda>v q. q\<lparr>fail_on_safe_findings := v\<rparr>)
       ci_policy_default)))"

text \<open>
  \<open>from_toml\<close> on the parsed document. The \<open>repair\<close> table is rendered to text and parsed
  again, which gives the table itself, and handed to \<open>from_toml_optional\<close>.
\<close>

definition effective_policy_from_toml :: "(string \<times> toml) list option \<Rightarrow> effective_policy" where
  "effective_policy_from_toml raw =
     (case raw of None \<Rightarrow> effective_policy_default
      | Some table \<Rightarrow>
          set_from (toml_get table ''ci'' as_table) (\<lambda>t p. p\<lparr>ep_ci := Some (ci_section t)\<rparr>)
          (set_from (toml_get table ''files'' as_table) (\<lambda>t p. p\<lparr>ep_files := files_section t (ep_files p)\<rparr>)
          (set_from (toml_get table ''schema'' as_table) (\<lambda>t p. p\<lparr>ep_schema := schema_section t (ep_schema p)\<rparr>)
          (set_from (toml_get table ''repair'' as_table)
             (\<lambda>t p. p\<lparr>ep_repair := repair_policy_from_toml (Some t)\<rparr>)
             effective_policy_default))))"

section \<open>Fingerprints, schema types and plans\<close>

record fingerprint_entry =
  fe_relative_path :: string
  fe_size_bytes :: u64
  fe_num_rows :: int
  fe_num_row_groups :: nat
  fe_schema_signature :: string
  fe_compression_codecs :: "string list"

record dataset_fingerprint =
  fp_version :: nat
  fp_root :: string
  fp_entries :: "fingerprint_entry list"
  fp_digest :: string

definition verify_against :: "dataset_fingerprint \<Rightarrow> dataset_fingerprint \<Rightarrow> (repair_error, unit) res" where
  "verify_against self current =
     (if fp_digest self \<noteq> fp_digest current then Inl (DatasetChanged (fp_digest self) (fp_digest current))
      else Inr ())"

record field_descriptor =
  fd_name :: string
  fd_physical_type :: string
  fd_nullable :: bool

record unresolvable_conflict =
  uc_field :: string
  uc_variants :: "field_descriptor list"
  uc_reason :: string

record repair_plan =
  plan_schema_version :: nat
  plan_id :: string
  plan_parqonaut_version :: string
  dataset_root :: string
  dataset_fp :: dataset_fingerprint
  policy_fingerprint :: string
  plan_policy :: effective_policy
  operations :: "repair_operation list"
  expected_outcomes :: "expected_outcome list"
  schema_conflicts :: "unresolvable_conflict list option"
  target_schema :: "field_descriptor list option"

definition PLAN_SCHEMA_VERSION :: nat where
  "PLAN_SCHEMA_VERSION = 1"

definition validate_version :: "repair_plan \<Rightarrow> (repair_error, unit) res" where
  "validate_version p =
     (if plan_schema_version p \<noteq> PLAN_SCHEMA_VERSION
      then Inl (UnsupportedPlanVersion (plan_schema_version p) PLAN_SCHEMA_VERSION)
      else Inr ())"

definition safe_operations :: "repair_plan \<Rightarrow> repair_operation list" where
  "safe_operations p = filter (\<lambda>o'. safety o' = Safe) (operations p)"

section \<open>Authorization\<close>

datatype authorization_source = AutomaticSafePolicy | ExplicitUser | NotAuthorized | BlockedByPolicy

record audit_context =
  ac_plan_id :: string
  ac_dataset_fingerprint :: string
  ac_policy_fingerprint :: string
  ac_executor_version :: string

record audit_record =
  ar_operation_id :: string
  ar_plan_id :: string
  ar_dataset_fingerprint :: string
  ar_policy_fingerprint :: string
  ar_executor_version :: string
  ar_safety :: repair_safety
  ar_source :: authorization_source
  ar_time :: timestamp
  ar_executed :: bool
  ar_skip_reason :: "string option"

definition audit_new ::
  "audit_context \<Rightarrow> string \<Rightarrow> repair_safety \<Rightarrow> authorization_source \<Rightarrow> timestamp \<Rightarrow> bool \<Rightarrow>
   string option \<Rightarrow> audit_record" where
  "audit_new ctx op_id sf src now executed reason =
     \<lparr>ar_operation_id = op_id, ar_plan_id = ac_plan_id ctx,
      ar_dataset_fingerprint = ac_dataset_fingerprint ctx,
      ar_policy_fingerprint = ac_policy_fingerprint ctx,
      ar_executor_version = ac_executor_version ctx, ar_safety = sf, ar_source = src,
      ar_time = now, ar_executed = executed, ar_skip_reason = reason\<rparr>"

text \<open>\<open>RepairAuthorization\<close>: the set of operation ids the user authorized.\<close>

type_synonym authorization = "string list"

definition is_authorized :: "authorization \<Rightarrow> string \<Rightarrow> bool" where
  "is_authorized a op_id = (op_id \<in> set a)"

fun auth_resolve :: "authorization \<Rightarrow> string \<Rightarrow> repair_safety \<Rightarrow> (repair_error, authorization_source) res" where
  "auth_resolve a op_id Safe = Inr AutomaticSafePolicy"
| "auth_resolve a op_id ReviewRequired =
     (if is_authorized a op_id then Inr ExplicitUser else Inl (ReviewRequiredNotAuthorized op_id))"
| "auth_resolve a op_id Destructive = Inl (DestructiveNotAllowed op_id)"
| "auth_resolve a op_id Blocked = Inl (UnsupportedOperation op_id ''blocked'')"

section \<open>Policies: what a document can change\<close>

lemma set_from_None [simp]: "set_from None upd p = p"
  by (simp add: set_from_def)

lemma set_from_Some [simp]: "set_from (Some v) upd p = upd v p"
  by (simp add: set_from_def)

lemma ep_repair_set_from:
  "(\<And>v p. ep_repair (upd v p) = ep_repair p) \<Longrightarrow> ep_repair (set_from v upd p) = ep_repair p"
  by (simp add: set_from_def split: option.split)

text \<open>
  The numbers of a \<open>[repair]\<close> section never take effect: unless the section itself
  has a sub-table \<open>repair\<close>, the effective policy has the default repair policy, because
  the rendered section is searched for a \<open>repair\<close> table again.
\<close>

theorem repair_section_ignored:
  assumes "toml_get doc ''repair'' as_table = Some sec" and "toml_get sec ''repair'' as_table = None"
  shows "ep_repair (effective_policy_from_toml (Some doc)) = repair_policy_default"
  using assms
  by (simp add: effective_policy_from_toml_def repair_policy_from_toml_def ep_repair_set_from)

theorem repair_section_ignored_witness:
  "ep_repair (effective_policy_from_toml (Some [(''repair'', TTable [(''merge_target_mb'', TInt 64)])])) =
   repair_policy_default"
  by (rule repair_section_ignored [where sec = "[(''merge_target_mb'', TInt 64)]"])
    (simp_all add: toml_get_def)

end
