(* ===== verification/Schema_Compat.thy ===== *)
theory Schema_Compat
  imports Repair_Plan
begin

text \<open>
  Type compatibility (\<open>compatibility.rs\<close> of \<open>parqonaut-columnar\<close>), the schema diff of a
  dataset and the choice of a canonical schema (\<open>schema/*.rs\<close> of \<open>parqonaut-repair\<close>).
\<close>

section \<open>Physical types and conversions\<close>

datatype compatibility = Lossless | ConditionallyLossless | PotentiallyLossy | UnsupportedConversion

datatype physical_type =
    Int8 | Int16 | Int32 | Int64 | UInt8 | UInt16 | UInt32 | UInt64 | Float32 | Float64
  | Boolean | Utf8 | Binary | Timestamp | Date32 | Decimal | UnknownType string

definition ascii_upper_char :: "char \<Rightarrow> char" where
  "ascii_upper_char c = (let n = (of_char c :: nat) in if 97 \<le> n \<and> n \<le> 122 then char_of (n - 32) else c)"

definition to_uppercase :: "string \<Rightarrow> string" where
  "to_uppercase s = map ascii_upper_char s"

definition parse_physical_type :: "string \<Rightarrow> physical_type" where
  "parse_physical_type raw =
     (let upper = to_uppercase raw; has = str_contains upper in
      if has ''INT8'' \<or> str_starts_with upper ''INT(8)'' then Int8
      else if has ''INT16'' then Int16
      else if has ''INT32'' then Int32
      else if has ''INT64'' then Int64
      else if has ''UINT8'' then UInt8
      else if has ''UINT16'' then UInt16
      else if has ''UINT32'' then UInt32
      else if has ''UINT64'' then UInt64
      else if has ''FLOAT'' \<and> \<not> has ''DOUBLE'' then Float32
      else if has ''DOUBLE'' then Float64
      else if has ''BOOL'' then Boolean
      else if has ''STRING'' \<or> has ''UTF8'' \<or> (has ''BYTE_ARRAY'' \<and> has ''STRING'') then Utf8
      else if has ''BYTE_ARRAY'' then Binary
      else if has ''TIMESTAMP'' then Timestamp
      else if has ''DATE32'' \<or> has ''DATE'' then Date32
      else if has ''DECIMAL'' then Decimal
      else UnknownType raw)"

fun widening_rank :: "physical_type \<Rightarrow> nat option" where
  "widening_rank Int8 = Some 0"
| "widening_rank Int16 = Some 1"
| "widening_rank Int32 = Some 2"
| "widening_rank Int64 = Some 3"
| "widening_rank UInt8 = Some 10"
| "widening_rank UInt16 = Some 11"
| "widening_rank UInt32 = Some 12"
| "widening_rank UInt64 = Some 13"
| "widening_rank Float32 = Some 20"
| "widening_rank Float64 = Some 21"
| "widening_rank _ = None"

text \<open>The pairs of the \<open>match\<close> in \<open>classify_conversion\<close>: widenings, and the lossy ones.\<close>

definition widening_pairs :: "(physical_type \<times> physical_type) list" where
  "widening_pairs = [(Int32, Int64), (Int16, Int32), (Int16, Int64), (Int8, Int16), (Int8, Int32),
     (Int8, Int64), (UInt32, UInt64), (UInt16, UInt32), (UInt16, UInt64), (UInt8, UInt16),
     (UInt8, UInt32), (UInt8, UInt64), (Float32, Float64)]"

definition lossy_pairs :: "(physical_type \<times> physical_type) list" where
  "lossy_pairs = [(Int32, Float64), (Int64, Float64)]"

definition classify_conversion ::
  "physical_type \<Rightarrow> physical_type \<Rightarrow> bool \<Rightarrow> bool \<Rightarrow> bool \<Rightarrow> bool \<Rightarrow> compatibility" where
  "classify_conversion from to from_nullable to_nullable numeric nullable =
     (if from = to \<and> from_nullable = to_nullable then Lossless
      else if from = to \<and> \<not> from_nullable \<and> to_nullable \<and> nullable then Lossless
      else if from \<noteq> to then
        (if \<not> numeric then UnsupportedConversion
         else if (from, to) \<in> set widening_pairs then
           (if from_nullable = to_nullable \<or> (\<not> from_nullable \<and> to_nullable \<and> nullable) then Lossless
            else ConditionallyLossless)
         else if (from, to) \<in> set lossy_pairs then PotentiallyLossy
         else UnsupportedConversion)
      else if from_nullable \<and> \<not> to_nullable then PotentiallyLossy
      else UnsupportedConversion)"

text \<open>The integers a type holds, and whether a column of it may hold a null.\<close>

fun int_range :: "physical_type \<Rightarrow> (int \<times> int) option" where
  "int_range Int8 = Some (- (2 ^ 7), 2 ^ 7 - 1)"
| "int_range Int16 = Some (- (2 ^ 15), 2 ^ 15 - 1)"
| "int_range Int32 = Some (- (2 ^ 31), 2 ^ 31 - 1)"
| "int_range Int64 = Some (- (2 ^ 63), 2 ^ 63 - 1)"
| "int_range UInt8 = Some (0, 2 ^ 8 - 1)"
| "int_range UInt16 = Some (0, 2 ^ 16 - 1)"
| "int_range UInt32 = Some (0, 2 ^ 32 - 1)"
| "int_range UInt64 = Some (0, 2 ^ 64 - 1)"
| "int_range _ = None"

definition fits :: "physical_type \<Rightarrow> bool \<Rightarrow> int option \<Rightarrow> bool" where
  "fits t null v = (case v of None \<Rightarrow> null
     | Some i \<Rightarrow> (case int_range t of None \<Rightarrow> False | Some (lo, hi) \<Rightarrow> lo \<le> i \<and> i \<le> hi))"

section \<open>Schema diff\<close>

definition repair_classify ::
  "physical_type \<Rightarrow> physical_type \<Rightarrow> bool \<Rightarrow> bool \<Rightarrow> schema_policy \<Rightarrow> compatibility" where
  "repair_classify from to fn tn policy =
     classify_conversion from to fn tn (allow_numeric_widening policy) (allow_nullable_widening policy)"

datatype difference_kind =
    Identical | ColumnOrderDifference | NullableDifference | CompatibleNumericWidening
  | CompatibleTypePromotion | MissingColumn | ExtraColumn | ColumnNameDifference
  | IncompatibleTypeChange | NestedSchemaDifference

record field_difference =
  df_path :: "string list"
  df_left :: "field_descriptor option"
  df_right :: "field_descriptor option"
  df_difference :: difference_kind
  df_compatibility :: compatibility
  df_left_count :: nat
  df_right_count :: nat

record schema_diff =
  sd_fields :: "field_difference list"
  sd_canonical :: "field_descriptor list"

record file_schema_view =
  fv_path :: string
  fv_fields :: "field_descriptor list"

definition field_path_display :: "string list \<Rightarrow> string" where
  "field_path_display p = str_join ''.'' p"

definition default_field :: field_descriptor where
  "default_field = \<lparr>fd_name = [], fd_physical_type = [], fd_nullable = False\<rparr>"

definition classify_fields :: "schema_policy \<Rightarrow> field_descriptor \<Rightarrow> field_descriptor \<Rightarrow> compatibility" where
  "classify_fields policy a b =
     repair_classify (parse_physical_type (fd_physical_type a)) (parse_physical_type (fd_physical_type b))
       (fd_nullable a) (fd_nullable b) policy"

definition rank_of :: "field_descriptor \<Rightarrow> nat" where
  "rank_of f = (case widening_rank (parse_physical_type (fd_physical_type f)) of None \<Rightarrow> 0 | Some r \<Rightarrow> r)"

fun pick_step :: "schema_policy \<Rightarrow> field_descriptor \<Rightarrow> field_descriptor \<Rightarrow> field_descriptor" where
  "pick_step policy best v =
     (if classify_fields policy best v = Lossless \<and> rank_of v > rank_of best then v
      else if fd_nullable v \<and> \<not> fd_nullable best \<and> allow_nullable_widening policy
      then best\<lparr>fd_nullable := True\<rparr> else best)"

definition pick_canonical_field :: "schema_policy \<Rightarrow> field_descriptor list \<Rightarrow> field_descriptor" where
  "pick_canonical_field policy variants =
     (case variants of [] \<Rightarrow> default_field | v # vs \<Rightarrow> foldl (pick_step policy) v vs)"

text \<open>\<open>field_files\<close>: per field name, the descriptor in each file, both sorted by key.\<close>

definition group_fields :: "file_schema_view list \<Rightarrow> (string \<times> (string \<times> field_descriptor) list) list" where
  "group_fields views =
     fold (\<lambda>view m. fold (\<lambda>f m'.
         bt_insert (fd_name f)
           (bt_insert (fv_path view) f (case map_of m' (fd_name f) of None \<Rightarrow> [] | Some pf \<Rightarrow> pf)) m')
       (fv_fields view) m) views []"

definition same_type :: "field_descriptor \<Rightarrow> field_descriptor \<Rightarrow> bool" where
  "same_type a b = (fd_physical_type a = fd_physical_type b \<and> fd_nullable a = fd_nullable b)"

definition diff_field ::
  "schema_policy \<Rightarrow> string \<Rightarrow> field_descriptor list \<Rightarrow> field_descriptor \<Rightarrow> field_difference option" where
  "diff_field policy name variants canonical =
     (if list_all (same_type (hd variants)) variants then
        (let only = hd variants;
             kind = (if fd_nullable only \<noteq> fd_nullable canonical then NullableDifference
                     else if fd_physical_type only \<noteq> fd_physical_type canonical
                     then CompatibleNumericWidening else Identical)
         in if kind = Identical then None
            else Some \<lparr>df_path = [name], df_left = Some only, df_right = Some canonical,
                   df_difference = kind, df_compatibility = classify_fields policy only canonical,
                   df_left_count = length variants, df_right_count = 0\<rparr>)
      else
        (let from_field = (case List.find (\<lambda>v. \<not> same_type v canonical) variants of
               Some v \<Rightarrow> v | None \<Rightarrow> canonical);
             left_count = length (filter (\<lambda>v. same_type v from_field) variants);
             compat = classify_fields policy from_field canonical;
             kind = (if compat = UnsupportedConversion then IncompatibleTypeChange
                     else if fd_physical_type from_field \<noteq> fd_physical_type canonical
                     then CompatibleNumericWidening
                     else if fd_nullable from_field \<noteq> fd_nullable canonical then NullableDifference
                     else Identical)
         in if kind = Identical then None
            else Some \<lparr>df_path = [name], df_left = Some from_field, df_right = Some canonical,
                   df_difference = kind, df_compatibility = compat,
                   df_left_count = left_count, df_right_count = length variants - left_count\<rparr>))"

definition compute_schema_diff :: "schema_policy \<Rightarrow> file_schema_view list \<Rightarrow> schema_diff" where
  "compute_schema_diff policy views =
     (let groups = filter (\<lambda>(name, pf). pf \<noteq> []) (group_fields views);
          fields = List.map_filter (\<lambda>(name, pf).
            diff_field policy name (map snd pf) (pick_canonical_field policy (map snd pf))) groups
      in \<lparr>sd_fields = sort_key (\<lambda>d. field_path_display (df_path d)) fields,
          sd_canonical = sort_key fd_name (map (\<lambda>(name, pf). pick_canonical_field policy (map snd pf)) groups)\<rparr>)"

section \<open>Canonical resolution\<close>

record schema_resolution =
  sr_diff :: schema_diff
  sr_conflicts :: "unresolvable_conflict list"
  sr_target :: "field_descriptor list option"

definition conflict_reason :: string where
  "conflict_reason = ''No deterministic canonical type under current schema policy''"

definition conflict_of :: "field_difference \<Rightarrow> unresolvable_conflict option" where
  "conflict_of d =
     (if df_compatibility d = UnsupportedConversion \<or> df_compatibility d = PotentiallyLossy then
        Some \<lparr>uc_field = field_path_display (df_path d),
          uc_variants = [case df_left d of None \<Rightarrow> default_field | Some f \<Rightarrow> f,
                         case df_right d of None \<Rightarrow> default_field | Some f \<Rightarrow> f],
          uc_reason = conflict_reason\<rparr>
      else None)"

definition resolve_canonical_schema ::
  "file_schema_view list \<Rightarrow> field_descriptor list option \<Rightarrow> schema_policy \<Rightarrow> schema_resolution" where
  "resolve_canonical_schema views explicit policy =
     (let diff = compute_schema_diff policy views;
          conflicts = List.map_filter conflict_of (sd_fields diff)
      in \<lparr>sr_diff = diff, sr_conflicts = conflicts,
          sr_target = (case explicit of Some s \<Rightarrow> Some s
            | None \<Rightarrow> if conflicts = [] then Some (sd_canonical diff) else None)\<rparr>)"

section \<open>Results\<close>

text \<open>
  A conversion between integer types that \<open>classify_conversion\<close> calls lossless can
  represent every value, nulls included, whatever the policy flags.
\<close>

theorem lossless_conversion_fits:
  assumes "classify_conversion from to fn tn numeric nullable = Lossless"
    and "int_range from \<noteq> None" and "fits from fn v"
  shows "fits to tn v"
  using assms
  by (cases "from"; cases "to")
    (auto simp: classify_conversion_def widening_pairs_def lossy_pairs_def fits_def
      split: if_splits option.splits)

theorem lossless_conversion_fits_witness:
  "classify_conversion Int16 Int64 False True True True = Lossless \<and> fits Int64 True (Some 300)"
proof -
  have c: "classify_conversion Int16 Int64 False True True True = Lossless" by code_simp
  then show ?thesis using lossless_conversion_fits [OF c, of "Some 300"] by (simp add: fits_def)
qed

lemma str_contains_tl: "str_contains s (c # p) \<Longrightarrow> str_contains s p"
proof (induction s)
  case (Cons a s)
  then show ?case by (cases s) (auto simp: str_starts_with_def)
qed simp

text \<open>
  No type name parses as an unsigned integer: the test for \<open>INT8\<close>, \<open>INT16\<close>,
  \<open>INT32\<close>, \<open>INT64\<close> comes first and every \<open>UINT\<close> name contains one of them. So a
  change between an unsigned type and the signed type of the same width is classified
  lossless although it is not.
\<close>

theorem unsigned_types_never_parsed:
  "parse_physical_type raw \<notin> {UInt8, UInt16, UInt32, UInt64} \<and>
   classify_fields schema_policy_default \<lparr>fd_name = n, fd_physical_type = ''UINT64'', fd_nullable = b\<rparr>
     \<lparr>fd_name = n, fd_physical_type = ''INT64'', fd_nullable = b\<rparr> = Lossless"
proof
  note sub = str_contains_tl [of _ "CHR ''U''" "''INT8''"] str_contains_tl [of _ "CHR ''U''" "''INT16''"]
    str_contains_tl [of _ "CHR ''U''" "''INT32''"] str_contains_tl [of _ "CHR ''U''" "''INT64''"]
  show "parse_physical_type raw \<notin> {UInt8, UInt16, UInt32, UInt64}"
    using sub [of "to_uppercase raw"] unfolding parse_physical_type_def Let_def by (auto split: if_splits)
  have "parse_physical_type ''UINT64'' = Int64" "parse_physical_type ''INT64'' = Int64" by code_simp+
  then show "classify_fields schema_policy_default \<lparr>fd_name = n, fd_physical_type = ''UINT64'', fd_nullable = b\<rparr>
     \<lparr>fd_name = n, fd_physical_type = ''INT64'', fd_nullable = b\<rparr> = Lossless"
    by (simp add: classify_fields_def repair_classify_def classify_conversion_def)
qed

definition drift_views :: "file_schema_view list" where
  "drift_views = [
     \<lparr>fv_path = ''a'', fv_fields = [\<lparr>fd_name = ''x'', fd_physical_type = ''INT32'', fd_nullable = False\<rparr>]\<rparr>,
     \<lparr>fv_path = ''b'', fv_fields = [\<lparr>fd_name = ''x'', fd_physical_type = ''INT64'', fd_nullable = False\<rparr>]\<rparr>,
     \<lparr>fv_path = ''c'', fv_fields = [\<lparr>fd_name = ''x'', fd_physical_type = ''STRING'', fd_nullable = False\<rparr>]\<rparr>]"

text \<open>
  The schema diff looks at the first file that differs from the canonical field only:
  a dataset whose third file has an incompatible type for a column resolves without a
  conflict, and the incompatible type is not mentioned.
\<close>

theorem schema_conflict_missed:
  "sr_conflicts (resolve_canonical_schema drift_views None schema_policy_default) = [] \<and>
   map fd_physical_type (the (sr_target (resolve_canonical_schema drift_views None schema_policy_default))) = [''INT64''] \<and>
   (\<exists>v \<in> set drift_views. \<exists>f \<in> set (fv_fields v). \<exists>c \<in> set (the (sr_target
       (resolve_canonical_schema drift_views None schema_policy_default))).
      fd_name f = fd_name c \<and> classify_fields schema_policy_default f c = UnsupportedConversion)"
  by code_simp

end
