(* ===== verification/Repair_Deps.thy ===== *)
theory Repair_Deps
  imports Repair_Plan "HOL-Library.Multiset"
begin

text \<open>
  Dependencies between the operations of a repair plan (\<open>deps.rs\<close>): the edges
  \<open>assign_dependencies\<close> derives from the kinds of actions, and the topological sort
  \<open>sort_by_dependencies\<close> (Kahn's algorithm over sorted maps). The subtraction of the
  in-degree is on \<open>usize\<close>; going below zero is the outcome \<open>None\<close> of the loop.
\<close>

section \<open>Stages and edges\<close>

fun stage :: "repair_action \<Rightarrow> nat" where
  "stage (CastColumn _ _ _) = 0"
| "stage (AlignSchema _ _ _) = 0"
| "stage (RenameColumn _ _) = 0"
| "stage (SplitLargeFile _ _) = 1"
| "stage (ResizeRowGroups _ _) = 2"
| "stage (Recompress _ _) = 3"
| "stage (RebuildStatistics _) = 4"
| "stage (MergeSmallFiles _ _) = 5"
| "stage (Repartition _) = 6"

definition op_key :: "repair_operation \<Rightarrow> nat \<times> string" where
  "op_key op = (stage (action op), operation_id op)"

definition key_le :: "nat \<times> string \<Rightarrow> nat \<times> string \<Rightarrow> bool" where
  "key_le a b = (fst a < fst b \<or> fst a = fst b \<and> snd a \<le> snd b)"

text \<open>Stable insertion into a list sorted by \<open>key_le\<close>: \<open>sort_by\<close> with the derived order.\<close>

fun insert_op :: "repair_operation \<Rightarrow> repair_operation list \<Rightarrow> repair_operation list" where
  "insert_op x [] = [x]"
| "insert_op x (y # ys) = (if key_le (op_key x) (op_key y) then x # y # ys else y # insert_op x ys)"

definition sort_ops :: "repair_operation list \<Rightarrow> repair_operation list" where
  "sort_ops ops = foldr insert_op ops []"

fun link_ops :: "repair_operation list \<Rightarrow> repair_operation list \<Rightarrow> repair_operation list" where
  "link_ops prev [] = []"
| "link_ops prev (op # ops) =
     op\<lparr>depends_on := map operation_id (filter (\<lambda>p. stage (action p) < stage (action op)) prev)\<rparr>
     # link_ops (prev @ [op]) ops"

definition assign_dependencies :: "repair_operation list \<Rightarrow> repair_operation list" where
  "assign_dependencies ops = link_ops [] (sort_ops ops)"

section \<open>Topological sort\<close>

text \<open>Setting the value of a present key, as through \<open>get_mut\<close>.\<close>

fun alist_set :: "'k \<Rightarrow> 'v \<Rightarrow> ('k \<times> 'v) list \<Rightarrow> ('k \<times> 'v) list" where
  "alist_set k v [] = []"
| "alist_set k v ((a, b) # m) = (if a = k then (k, v) # m else (a, b) # alist_set k v m)"

definition push_child :: "string \<Rightarrow> string \<Rightarrow> (string \<times> string list) list \<Rightarrow> (string \<times> string list) list" where
  "push_child dep child m = bt_insert dep (case map_of m dep of None \<Rightarrow> [child] | Some cs \<Rightarrow> cs @ [child]) m"

fun add_edges ::
  "string list \<Rightarrow> string \<Rightarrow> string list \<Rightarrow> (string \<times> string list) list \<Rightarrow>
   (repair_error, (string \<times> string list) list) res" where
  "add_edges ids op_id [] m = Inr m"
| "add_edges ids op_id (dep # deps) m =
     (if dep \<notin> set ids then
        Inl (RepairPreconditionFailed op_id (''unknown dependency '' @ dep))
      else add_edges ids op_id deps (push_child dep op_id m))"

fun build_graph ::
  "string list \<Rightarrow> repair_operation list \<Rightarrow> (string \<times> nat) list \<Rightarrow> (string \<times> string list) list \<Rightarrow>
   (repair_error, (string \<times> nat) list \<times> (string \<times> string list) list) res" where
  "build_graph ids [] ind deps = Inr (ind, deps)"
| "build_graph ids (op # ops) ind deps =
     bind_res (add_edges ids (operation_id op) (depends_on op) deps) (\<lambda>deps'.
     build_graph ids ops (bt_insert (operation_id op) (length (depends_on op)) ind) deps')"

fun release_children ::
  "string list \<Rightarrow> (string \<times> nat) list \<Rightarrow> string list \<Rightarrow> ((string \<times> nat) list \<times> string list) option" where
  "release_children [] ind ready = Some (ind, ready)"
| "release_children (c # cs) ind ready =
     (case map_of ind c of
        None \<Rightarrow> None
      | Some 0 \<Rightarrow> None
      | Some (Suc n) \<Rightarrow> release_children cs (alist_set c n ind) (if n = 0 then ready @ [c] else ready))"

definition ind_sum :: "(string \<times> nat) list \<Rightarrow> nat" where
  "ind_sum ind = sum_list (map snd ind)"

lemma ind_sum_set: "map_of ind c = Some (Suc n) \<Longrightarrow> ind_sum (alist_set c n ind) + 1 = ind_sum ind"
  by (induction ind) (auto simp: ind_sum_def split: if_splits)

lemma release_children_measure:
  "release_children cs ind ready = Some (ind', ready') \<Longrightarrow>
   ind_sum ind' + length ready' \<le> ind_sum ind + length ready"
proof (induction cs ind ready rule: release_children.induct)
  case (2 c cs ind ready)
  then show ?case
    using ind_sum_set [of ind c]
    by (auto split: option.splits nat.splits if_splits)
qed simp

function kahn ::
  "(string \<times> string list) list \<Rightarrow> (string \<times> nat) list \<Rightarrow> string list \<Rightarrow> string list \<Rightarrow> string list option" where
  "kahn deps ind [] acc = Some acc"
| "kahn deps ind (i # ready) acc =
     (case map_of deps i of
        None \<Rightarrow> kahn deps ind ready (acc @ [i])
      | Some children \<Rightarrow>
          (case release_children children ind ready of
             None \<Rightarrow> None
           | Some (ind', ready') \<Rightarrow> kahn deps ind' (sort ready') (acc @ [i])))"
  by pat_completeness auto

termination
proof (relation "measure (\<lambda>(deps, ind, ready, acc). ind_sum ind + length ready)")
qed (auto dest: release_children_measure)

text \<open>\<open>op_map[id]\<close>: the map is built left to right, so the last operation with an id wins.\<close>

definition op_of :: "repair_operation list \<Rightarrow> string \<Rightarrow> repair_operation" where
  "op_of ops i = the (map_of (rev (map (\<lambda>o'. (operation_id o', o')) ops)) i)"

datatype sort_failure = SortError repair_error | SortPanic

definition sort_by_dependencies :: "repair_operation list \<Rightarrow> (sort_failure, repair_operation list) res" where
  "sort_by_dependencies ops =
     (case build_graph (map operation_id ops) ops [] [] of
        Inl e \<Rightarrow> Inl (SortError e)
      | Inr (ind, deps) \<Rightarrow>
          (case kahn deps ind (sort (map fst (filter (\<lambda>(i, d). d = 0) ind))) [] of
             None \<Rightarrow> Inl SortPanic
           | Some ids \<Rightarrow>
               if length ids \<noteq> length ops then
                 Inl (SortError (InvalidPlan ''operation dependency cycle detected''))
               else Inr (map (op_of ops) ids)))"

section \<open>The graph that is built\<close>

definition edge_count :: "repair_operation \<Rightarrow> string \<Rightarrow> nat" where
  "edge_count op d = count_list (depends_on op) d"

definition children_of :: "repair_operation list \<Rightarrow> string \<Rightarrow> string list" where
  "children_of ops d = concat (map (\<lambda>op. replicate (edge_count op d) (operation_id op)) ops)"

definition entry :: "(string \<times> string list) list \<Rightarrow> string \<Rightarrow> string list" where
  "entry m d = (case map_of m d of None \<Rightarrow> [] | Some cs \<Rightarrow> cs)"

lemma entry_push: "entry (push_child dep c m) d = entry m d @ (if d = dep then [c] else [])"
  by (auto simp: entry_def push_child_def split: option.split)

lemma add_edges_ok:
  "add_edges ids i deps m = Inr m' \<Longrightarrow>
   set deps \<subseteq> set ids \<and> (\<forall>d. entry m' d = entry m d @ replicate (count_list deps d) i)"
proof (induction ids i deps m rule: add_edges.induct)
  case (2 ids i dep deps m)
  then show ?case by (auto simp: entry_push split: if_splits)
qed simp

lemma add_edges_total: "set deps \<subseteq> set ids \<Longrightarrow> \<exists>m'. add_edges ids i deps m = Inr m'"
  by (induction ids i deps m rule: add_edges.induct) auto

lemma build_graph_ok:
  "build_graph ids ops ind deps = Inr (ind', deps') \<Longrightarrow>
   (\<forall>op \<in> set ops. set (depends_on op) \<subseteq> set ids) \<and>
   (\<forall>d. entry deps' d = entry deps d @ children_of ops d) \<and>
   map_of ind' = map_of ind ++ map_of (rev (map (\<lambda>op. (operation_id op, length (depends_on op))) ops)) \<and>
   (bt_sorted ind \<longrightarrow> bt_sorted ind')"
proof (induction ops arbitrary: ind deps)
  case (Cons op ops)
  then obtain m where m: "add_edges ids (operation_id op) (depends_on op) deps = Inr m"
    and rest: "build_graph ids ops (bt_insert (operation_id op) (length (depends_on op)) ind) m = Inr (ind', deps')"
    by (auto simp: bind_res_Inr_iff)
  from Cons.IH [OF rest] add_edges_ok [OF m] show ?case
    by (auto simp: children_of_def edge_count_def map_add_def fun_eq_iff split: option.split)
qed (simp add: children_of_def)

lemma build_graph_total:
  assumes "\<forall>op \<in> set ops. set (depends_on op) \<subseteq> set ids"
  shows "\<exists>g. build_graph ids ops ind deps = Inr g"
  using assms
proof (induction ops arbitrary: ind deps)
  case (Cons op ops)
  obtain m where "add_edges ids (operation_id op) (depends_on op) deps = Inr m"
    using Cons.prems add_edges_total [of "depends_on op" ids "operation_id op" deps] by auto
  with Cons show ?case by simp
qed simp

lemma build_graph_error:
  "build_graph ids ops ind deps = Inl e \<Longrightarrow> \<exists>op \<in> set ops. \<not> set (depends_on op) \<subseteq> set ids"
  using build_graph_total [of ops ids ind deps] by auto

section \<open>The loop\<close>

lemma map_of_alist_set:
  "map_of (alist_set k v m) = (if map_of m k = None then map_of m else (map_of m)(k \<mapsto> v))"
  by (induction m) (auto simp: fun_eq_iff)

text \<open>Without any assumption on the graph: an id enters the ready list at most once.\<close>

lemma release_children_once:
  assumes "release_children cs ind ready = Some (ind', ready')" and "\<forall>c \<in> Z. map_of ind c = Some 0"
  shows "\<exists>xs. ready' = ready @ xs \<and> distinct xs \<and> set xs \<inter> Z = {} \<and> set xs \<subseteq> dom (map_of ind) \<and>
    (\<forall>c \<in> Z \<union> set xs. map_of ind' c = Some 0) \<and> dom (map_of ind') = dom (map_of ind)"
  using assms
proof (induction cs ind ready arbitrary: Z rule: release_children.induct)
  case (2 c cs ind ready)
  then obtain n where n: "map_of ind c = Some (Suc n)"
    and rest: "release_children cs (alist_set c n ind) (if n = 0 then ready @ [c] else ready) = Some (ind', ready')"
    by (auto split: option.splits nat.splits)
  have cZ: "c \<notin> Z" using 2(3) n by auto
  let ?Z = "if n = 0 then insert c Z else Z"
  have zero: "\<forall>x \<in> ?Z. map_of (alist_set c n ind) x = Some 0"
    using 2(3) n cZ by (auto simp: map_of_alist_set)
  have dom: "dom (map_of (alist_set c n ind)) = dom (map_of ind)"
    using n by (auto simp: map_of_alist_set)
  obtain xs where xs: "ready' = (if n = 0 then ready @ [c] else ready) @ xs" "distinct xs"
    "set xs \<inter> ?Z = {}" "set xs \<subseteq> dom (map_of ind)" "\<forall>x \<in> ?Z \<union> set xs. map_of ind' x = Some 0"
    "dom (map_of ind') = dom (map_of ind)"
    using 2(1) [OF n refl rest zero] dom by auto
  show ?case
    by (rule exI [of _ "if n = 0 then c # xs else xs"]) (use xs cZ n in \<open>auto split: if_splits\<close>)
qed auto

lemma kahn_distinct:
  assumes "kahn deps ind ready acc = Some ids" and "distinct (acc @ ready)"
    and "set (acc @ ready) \<subseteq> dom (map_of ind)" and "\<forall>c \<in> set (acc @ ready). map_of ind c = Some 0"
  shows "distinct ids \<and> set ids \<subseteq> dom (map_of ind)"
  using assms
proof (induction deps ind ready acc rule: kahn.induct)
  case (2 deps ind i ready acc)
  show ?case
  proof (cases "map_of deps i")
    case None
    then show ?thesis using 2 by auto
  next
    case (Some children)
    then obtain ind' ready' where rc: "release_children children ind ready = Some (ind', ready')"
      and rest: "kahn deps ind' (sort ready') (acc @ [i]) = Some ids"
      using 2(3) by (auto split: option.splits)
    obtain xs where xs: "ready' = ready @ xs" "distinct xs" "set xs \<inter> set (acc @ i # ready) = {}"
      "set xs \<subseteq> dom (map_of ind)" "\<forall>c \<in> set (acc @ i # ready) \<union> set xs. map_of ind' c = Some 0"
      "dom (map_of ind') = dom (map_of ind)"
      using release_children_once [OF rc 2(6)] by blast
    have "distinct ((acc @ [i]) @ sort ready')" using 2(4) xs(1-3) by auto
    moreover have "set ((acc @ [i]) @ sort ready') \<subseteq> dom (map_of ind')"
      using 2(5) xs(1,4,6) by auto
    moreover have "\<forall>c \<in> set ((acc @ [i]) @ sort ready'). map_of ind' c = Some 0"
      using xs(1,5) by auto
    ultimately show ?thesis using 2(2) [OF Some rc refl rest] xs(6) by simp
  qed
qed auto

lemma sort_by_dependencies_distinct:
  assumes "sort_by_dependencies ops = Inr out"
  shows "distinct (map operation_id ops)"
proof -
  obtain ind deps ids where g: "build_graph (map operation_id ops) ops [] [] = Inr (ind, deps)"
    and k: "kahn deps ind (sort (map fst (filter (\<lambda>(i, d). d = 0) ind))) [] = Some ids"
    and len: "length ids = length ops"
    using assms by (auto simp: sort_by_dependencies_def split: sum.splits option.splits if_splits)
  have ind: "map_of ind = map_of (rev (map (\<lambda>op. (operation_id op, length (depends_on op))) ops))"
    and sorted: "bt_sorted ind"
    using build_graph_ok [OF g] by simp_all
  have dist: "distinct (map fst ind)"
    using sorted by (simp add: bt_sorted_def strict_sorted_iff)
  have dom: "dom (map_of ind) = set (map operation_id ops)"
    unfolding ind by (auto simp: dom_map_of_conv_image_fst image_image)
  let ?ready = "sort (map fst (filter (\<lambda>(i, d). d = 0) ind))"
  have "map_of ind c = Some 0" if "c \<in> set ?ready" for c
    using that dist by (auto simp: map_of_eq_Some_iff)
  moreover have "distinct ?ready" using dist by (simp add: distinct_map_filter)
  moreover have "set ?ready \<subseteq> dom (map_of ind)" using dist by (auto simp: dom_map_of_conv_image_fst)
  ultimately have "distinct ids" "set ids \<subseteq> set (map operation_id ops)"
    using kahn_distinct [OF k] dom by simp_all
  then have "card (set (map operation_id ops)) \<ge> length ops"
    using len card_mono [of "set (map operation_id ops)" "set ids"] by (simp add: distinct_card)
  then show ?thesis by (metis card_distinct card_length length_map le_antisym)
qed

section \<open>Correctness on distinct ids\<close>

definition deps_of :: "repair_operation list \<Rightarrow> string \<Rightarrow> string list" where
  "deps_of ops i = depends_on (op_of ops i)"

lemma op_of_member:
  assumes "distinct (map operation_id ops)" and "op \<in> set ops"
  shows "op_of ops (operation_id op) = op"
proof -
  let ?al = "map (\<lambda>o'. (operation_id o', o')) ops"
  have "distinct (map fst (rev ?al))" using assms(1) by (simp add: rev_map [symmetric] comp_def)
  moreover have "(operation_id op, op) \<in> set (rev ?al)" using assms(2) by auto
  ultimately show ?thesis unfolding op_of_def by simp
qed

lemma count_children:
  assumes "distinct (map operation_id ops)" and "op \<in> set ops"
  shows "count_list (children_of ops d) (operation_id op) = count_list (depends_on op) d"
  using assms
proof (induction ops)
  case (Cons a ops)
  have rep: "count_list (replicate n x) y = (if x = y then n else 0)" for n and x y :: string
    by (induction n) auto
  have none: "count_list (children_of ops d) i = 0" if "i \<notin> set (map operation_id ops)" for i
    using that by (induction ops) (auto simp: children_of_def rep count_list_append)
  show ?case using Cons none [of "operation_id a"]
    by (auto simp: children_of_def rep count_list_append edge_count_def)
qed simp

lemma set_children: "set (children_of ops d) \<subseteq> set (map operation_id ops)"
  by (auto simp: children_of_def)

text \<open>On a graph whose counts fit, the children that lose their last dependency are released.\<close>

lemma release_children_exact:
  assumes "\<forall>c \<in> set cs. \<exists>n. map_of ind c = Some n \<and> count_list cs c \<le> n"
  shows "\<exists>ind' xs. release_children cs ind ready = Some (ind', ready @ xs) \<and> distinct xs \<and>
    set xs = {c \<in> set cs. map_of ind c = Some (count_list cs c)} \<and>
    (\<forall>c. map_of ind' c = map_option (\<lambda>n. n - count_list cs c) (map_of ind c))"
  using assms
proof (induction cs arbitrary: ind ready)
  case (Cons c cs)
  then obtain m where m: "map_of ind c = Some m" "Suc (count_list cs c) \<le> m" by auto
  then obtain n where n: "m = Suc n" "count_list cs c \<le> n" by (cases m) auto
  let ?ind = "alist_set c n ind"
  have mo: "map_of ?ind = (map_of ind)(c \<mapsto> n)" using m by (auto simp: map_of_alist_set)
  have pre: "\<forall>x \<in> set cs. \<exists>k. map_of ?ind x = Some k \<and> count_list cs x \<le> k"
    using Cons.prems n(2) mo by (auto split: if_splits)
  obtain ind' xs where rest: "release_children cs ?ind (if n = 0 then ready @ [c] else ready) =
      Some (ind', (if n = 0 then ready @ [c] else ready) @ xs)" "distinct xs"
    "set xs = {x \<in> set cs. map_of ?ind x = Some (count_list cs x)}"
    "\<And>x. map_of ind' x = map_option (\<lambda>k. k - count_list cs x) (map_of ?ind x)"
    using Cons.IH [OF pre] by blast
  have c0: "c \<in> set cs \<longleftrightarrow> count_list cs c \<noteq> 0" by (simp add: count_list_0_iff)
  let ?xs = "if n = 0 then c # xs else xs"
  have "release_children (c # cs) ind ready = Some (ind', ready @ ?xs)"
    using m(1) n(1) rest(1) by auto
  moreover have "distinct ?xs" using rest(2,3) mo n(2) c0 by auto
  moreover have "x \<in> set ?xs \<longleftrightarrow> x \<in> set (c # cs) \<and> map_of ind x = Some (count_list (c # cs) x)" for x
  proof (cases "x = c")
    case True
    then have "x \<in> set xs \<longleftrightarrow> c \<in> set cs \<and> n = count_list cs c" using rest(3) mo by auto
    then show ?thesis using True m(1) n c0 by auto
  next
    case False
    then have "x \<in> set xs \<longleftrightarrow> x \<in> set cs \<and> map_of ind x = Some (count_list cs x)"
      using rest(3) mo by auto
    then show ?thesis using False by auto
  qed
  moreover have "map_of ind' x = map_option (\<lambda>k. k - count_list (c # cs) x) (map_of ind x)" for x
    using rest(4) [of x] mo m(1) n(1) by auto
  ultimately show ?case by blast
qed (simp add: option.map_ident)

definition kahn_inv :: "repair_operation list \<Rightarrow> (string \<times> nat) list \<Rightarrow> string list \<Rightarrow> string list \<Rightarrow> bool" where
  "kahn_inv ops ind ready acc \<longleftrightarrow>
     (\<forall>i \<in> set (map operation_id ops).
        map_of ind i = Some (length (filter (\<lambda>d. d \<notin> set acc) (deps_of ops i)))) \<and>
     distinct (acc @ ready) \<and>
     (\<forall>i. i \<in> set (acc @ ready) \<longleftrightarrow> i \<in> set (map operation_id ops) \<and> set (deps_of ops i) \<subseteq> set acc) \<and>
     (\<forall>n < length acc. set (deps_of ops (acc ! n)) \<subseteq> set (take n acc))"

lemma filter_notin_step:
  "length (filter (\<lambda>d. d \<notin> set (acc @ [i])) ds) =
   length (filter (\<lambda>d. d \<notin> set acc) ds) - (if i \<in> set acc then 0 else count_list ds i)"
proof -
  have le: "i \<notin> set acc \<Longrightarrow> count_list ds i \<le> length (filter (\<lambda>d. d \<notin> set acc) ds)" for ds
    by (induction ds) auto
  show ?thesis by (induction ds) (use le in \<open>auto simp: Suc_diff_le\<close>)
qed

lemma count_le_pending: "i \<notin> set acc \<Longrightarrow> count_list ds i \<le> length (filter (\<lambda>d. d \<notin> set acc) ds)"
  by (induction ds) auto

lemma count_eq_pending:
  "i \<notin> set acc \<Longrightarrow> count_list ds i = length (filter (\<lambda>d. d \<notin> set acc) ds) \<longleftrightarrow> set ds \<subseteq> insert i (set acc)"
proof (induction ds)
  case (Cons d ds)
  then show ?case using count_le_pending [of i acc ds] by auto
qed simp

lemma kahn_inv_step:
  assumes dist: "distinct (map operation_id ops)" and inv: "kahn_inv ops ind (i # ready) acc"
  shows "\<exists>ind' xs. release_children (children_of ops i) ind ready = Some (ind', ready @ xs) \<and>
    kahn_inv ops ind' (ready @ xs) (acc @ [i])"
proof -
  let ?ids = "set (map operation_id ops)" and ?cs = "children_of ops i"
  have iacc: "i \<notin> set acc" and irdy: "i \<notin> set ready" and dis: "distinct acc" "distinct ready"
    "set acc \<inter> set ready = {}"
    using inv by (auto simp: kahn_inv_def)
  have ideps: "i \<in> ?ids" "set (deps_of ops i) \<subseteq> set acc"
    using inv unfolding kahn_inv_def by (metis in_set_conv_decomp)+
  have pend: "map_of ind c = Some (length (filter (\<lambda>d. d \<notin> set acc) (deps_of ops c)))" if "c \<in> ?ids" for c
    using inv that by (auto simp: kahn_inv_def)
  have cnt: "count_list ?cs c = count_list (deps_of ops c) i" if "c \<in> ?ids" for c
  proof -
    from that obtain op where op: "op \<in> set ops" "c = operation_id op" by auto
    show ?thesis using count_children [OF dist op(1), of i] op_of_member [OF dist op(1)] op(2)
      by (simp add: deps_of_def)
  qed
  have pre: "\<forall>c \<in> set ?cs. \<exists>n. map_of ind c = Some n \<and> count_list ?cs c \<le> n"
    using pend cnt set_children [of ops i] count_le_pending [OF iacc] by (metis subsetD)
  obtain ind' xs where rc: "release_children ?cs ind ready = Some (ind', ready @ xs)" "distinct xs"
    "set xs = {c \<in> set ?cs. map_of ind c = Some (count_list ?cs c)}"
    "\<And>c. map_of ind' c = map_option (\<lambda>n. n - count_list ?cs c) (map_of ind c)"
    using release_children_exact [OF pre, of ready] by blast
  have ind': "map_of ind' c = Some (length (filter (\<lambda>d. d \<notin> set (acc @ [i])) (deps_of ops c)))" if "c \<in> ?ids" for c
    unfolding filter_notin_step using rc(4) [of c] pend [OF that] cnt [OF that] iacc by simp
  have xs: "c \<in> set xs \<longleftrightarrow> c \<in> ?ids \<and> i \<in> set (deps_of ops c) \<and> set (deps_of ops c) \<subseteq> insert i (set acc)" for c
  proof (cases "c \<in> ?ids")
    case True
    have "c \<in> set ?cs \<longleftrightarrow> i \<in> set (deps_of ops c)"
      using cnt [OF True] by (metis count_list_0_iff)
    then show ?thesis
      using True rc(3) pend [OF True] cnt [OF True] count_eq_pending [OF iacc, of "deps_of ops c"] by auto
  next
    case False
    then show ?thesis using rc(3) set_children [of ops i] by blast
  qed
  have member: "c \<in> set (acc @ i # ready) \<longleftrightarrow> c \<in> ?ids \<and> set (deps_of ops c) \<subseteq> set acc" for c
    using inv unfolding kahn_inv_def by blast
  have new: "c \<notin> set (acc @ i # ready)" if "c \<in> set xs" for c
    using member [of c] xs [of c] that iacc by blast
  have "distinct ((acc @ [i]) @ ready @ xs)"
    using dis irdy iacc rc(2) new by auto
  moreover have "c \<in> set ((acc @ [i]) @ ready @ xs) \<longleftrightarrow> c \<in> ?ids \<and> set (deps_of ops c) \<subseteq> set (acc @ [i])" for c
    using member [of c] xs [of c] by auto
  moreover have "set (deps_of ops ((acc @ [i]) ! n)) \<subseteq> set (take n (acc @ [i]))" if "n < length (acc @ [i])" for n
    using inv ideps that by (auto simp: kahn_inv_def nth_append less_Suc_eq)
  ultimately have "kahn_inv ops ind' (ready @ xs) (acc @ [i])"
    unfolding kahn_inv_def using ind' by blast
  with rc(1) show ?thesis by blast
qed

lemma kahn_inv_cong: "mset r = mset r' \<Longrightarrow> kahn_inv ops ind r acc = kahn_inv ops ind r' acc"
  unfolding kahn_inv_def using mset_eq_setD [of r r'] mset_eq_imp_distinct_iff [of r r'] by auto

lemma kahn_correct:
  assumes "distinct (map operation_id ops)" and "\<And>d. entry deps d = children_of ops d"
    and "kahn_inv ops ind ready acc"
  shows "\<exists>ids ind'. kahn deps ind ready acc = Some ids \<and> kahn_inv ops ind' [] ids"
  using assms(2,3)
proof (induction deps ind ready acc rule: kahn.induct)
  case (1 deps ind acc)
  then show ?case by auto
next
  case (2 deps ind i ready acc)
  obtain ind' xs where step: "release_children (children_of ops i) ind ready = Some (ind', ready @ xs)"
    "kahn_inv ops ind' (ready @ xs) (acc @ [i])"
    using kahn_inv_step [OF assms(1) 2(4)] by blast
  show ?case
  proof (cases "map_of deps i")
    case None
    then have "children_of ops i = []" using 2(3) [of i] by (simp add: entry_def)
    then have "ind' = ind" "xs = []" using step(1) by auto
    then show ?thesis using 2(1) [OF None 2(3)] step(2) None by simp
  next
    case (Some children)
    then have ch: "children = children_of ops i" using 2(3) [of i] by (simp add: entry_def)
    have "kahn_inv ops ind' (sort (ready @ xs)) (acc @ [i])"
      using step(2) kahn_inv_cong [of "ready @ xs" "sort (ready @ xs)"] by simp
    then show ?thesis using 2(2) [OF Some _ _ 2(3)] step(1) ch Some by auto
  qed
qed

lemma kahn_inv_start:
  assumes dist: "distinct (map operation_id ops)"
    and ind: "map_of ind = map_of (rev (map (\<lambda>op. (operation_id op, length (depends_on op))) ops))"
    and "bt_sorted ind"
  shows "kahn_inv ops ind (sort (map fst (filter (\<lambda>(i, d). d = 0) ind))) []"
proof -
  let ?ready = "sort (map fst (filter (\<lambda>(i, d). d = 0) ind))"
  have dist_ind: "distinct (map fst ind)"
    using assms(3) by (simp add: bt_sorted_def strict_sorted_iff)
  have val: "map_of ind (operation_id op) = Some (length (depends_on op))" if "op \<in> set ops" for op
  proof -
    have "distinct (map fst (rev (map (\<lambda>op. (operation_id op, length (depends_on op))) ops)))"
      using dist by (simp add: rev_map [symmetric] comp_def)
    then show ?thesis unfolding ind using that by (auto intro!: map_of_is_SomeI)
  qed
  have dom: "dom (map_of ind) = set (map operation_id ops)"
    unfolding ind by (auto simp: dom_map_of_conv_image_fst image_image)
  have ready: "c \<in> set ?ready \<longleftrightarrow> map_of ind c = Some 0" for c
    using dist_ind by (force simp: map_of_eq_Some_iff)
  have deps: "deps_of ops (operation_id op) = depends_on op" if "op \<in> set ops" for op
    using op_of_member [OF dist that] by (simp add: deps_of_def)
  have "c \<in> set ?ready \<longleftrightarrow> c \<in> set (map operation_id ops) \<and> set (deps_of ops c) \<subseteq> {}" for c
  proof (cases "c \<in> set (map operation_id ops)")
    case True
    then obtain op where "op \<in> set ops" "c = operation_id op" by auto
    then show ?thesis using ready [of c] val [of op] deps [of op] by auto
  next
    case False
    then have "map_of ind c = None" using dom by auto
    then show ?thesis using False ready [of c] by auto
  qed
  then show ?thesis
    unfolding kahn_inv_def using val deps dist_ind by (auto simp: distinct_map_filter)
qed

text \<open>Which plans sort: those whose dependencies are known and have a rank.\<close>

definition known_deps :: "repair_operation list \<Rightarrow> bool" where
  "known_deps ops = (\<forall>op \<in> set ops. set (depends_on op) \<subseteq> set (map operation_id ops))"

definition topo_sorted :: "repair_operation list \<Rightarrow> bool" where
  "topo_sorted out = (\<forall>n < length out. set (depends_on (out ! n)) \<subseteq> set (map operation_id (take n out)))"

lemma sort_outcome:
  assumes dist: "distinct (map operation_id ops)" and known: "known_deps ops"
  shows "\<exists>ids ind. kahn_inv ops ind [] ids \<and> sort_by_dependencies ops =
    (if length ids \<noteq> length ops then Inl (SortError (InvalidPlan ''operation dependency cycle detected''))
     else Inr (map (op_of ops) ids))"
proof -
  obtain ind deps where g: "build_graph (map operation_id ops) ops [] [] = Inr (ind, deps)"
    using build_graph_total [of ops "map operation_id ops" "[]" "[]"] known by (auto simp: known_deps_def)
  note ok = build_graph_ok [OF g]
  have "kahn_inv ops ind (sort (map fst (filter (\<lambda>(i, d). d = 0) ind))) []"
    using ok by (intro kahn_inv_start [OF dist]) simp_all
  moreover have "entry deps d = children_of ops d" for d using ok by (simp add: entry_def)
  ultimately obtain ids ind' where
    "kahn deps ind (sort (map fst (filter (\<lambda>(i, d). d = 0) ind))) [] = Some ids" "kahn_inv ops ind' [] ids"
    using kahn_correct [OF dist] by blast
  then show ?thesis using g by (auto simp: sort_by_dependencies_def)
qed

lemma kahn_inv_finished:
  assumes dist: "distinct (map operation_id ops)" and inv: "kahn_inv ops ind [] ids"
    and len: "length ids = length ops"
  shows "mset (map (op_of ops) ids) = mset ops \<and> topo_sorted (map (op_of ops) ids)"
proof -
  have di: "distinct ids" and sub: "set ids \<subseteq> set (map operation_id ops)"
    using inv by (auto simp: kahn_inv_def)
  have "set ids = set (map operation_id ops)"
    by (rule card_subset_eq)
      (use sub distinct_card [OF di] distinct_card [OF dist] len in \<open>simp_all\<close>)
  then have m: "mset ids = mset (map operation_id ops)"
    using di dist by (metis set_eq_iff_mset_eq_distinct)
  have "mset (map (op_of ops) ids) = image_mset (op_of ops) (mset (map operation_id ops))"
    using m by simp
  also have "\<dots> = mset (map (op_of ops \<circ> operation_id) ops)" by (simp add: image_mset.compositionality)
  also have "map (op_of ops \<circ> operation_id) ops = ops"
    using op_of_member [OF dist] by (auto intro: map_idI)
  finally have perm: "mset (map (op_of ops) ids) = mset ops" .
  have idop: "operation_id (op_of ops i) = i" if "i \<in> set ids" for i
    using that sub op_of_member [OF dist] by auto
  have "topo_sorted (map (op_of ops) ids)"
    unfolding topo_sorted_def
  proof (intro allI impI)
    fix n assume n: "n < length (map (op_of ops) ids)"
    have "map operation_id (take n (map (op_of ops) ids)) = take n ids"
      using idop by (auto simp: take_map comp_def intro!: map_idI dest: in_set_takeD)
    then show "set (depends_on (map (op_of ops) ids ! n)) \<subseteq> set (map operation_id (take n (map (op_of ops) ids)))"
      using inv n by (simp add: kahn_inv_def deps_of_def)
  qed
  with perm show ?thesis by blast
qed

lemma kahn_inv_acyclic:
  assumes inv: "kahn_inv ops ind [] ids" and known: "known_deps ops" and dist: "distinct (map operation_id ops)"
    and rank: "\<And>op d. op \<in> set ops \<Longrightarrow> d \<in> set (depends_on op) \<Longrightarrow> r d < (r (operation_id op) :: nat)"
  shows "set (map operation_id ops) \<subseteq> set ids"
proof
  fix i assume "i \<in> set (map operation_id ops)"
  then show "i \<in> set ids"
  proof (induction "r i" arbitrary: i rule: less_induct)
    case less
    then obtain op where op: "op \<in> set ops" "i = operation_id op" by auto
    have deps: "deps_of ops i = depends_on op" using op_of_member [OF dist op(1)] op(2) by (simp add: deps_of_def)
    have "d \<in> set ids" if "d \<in> set (depends_on op)" for d
      using less(1) [of d] rank [OF op(1) that] known op that by (auto simp: known_deps_def)
    then have "set (deps_of ops i) \<subseteq> set ids" using deps by auto
    then show ?case using inv less(2) by (simp add: kahn_inv_def)
  qed
qed

lemma sort_by_dependencies_known:
  assumes "sort_by_dependencies ops = Inr out"
  shows "known_deps ops"
proof -
  obtain ind deps where "build_graph (map operation_id ops) ops [] [] = Inr (ind, deps)"
    using assms by (auto simp: sort_by_dependencies_def split: sum.splits)
  then show ?thesis using build_graph_ok by (fastforce simp: known_deps_def)
qed

lemma sort_by_dependencies_sound:
  assumes "sort_by_dependencies ops = Inr out"
  shows "mset out = mset ops \<and> topo_sorted out"
proof -
  note dist = sort_by_dependencies_distinct [OF assms] and known = sort_by_dependencies_known [OF assms]
  obtain ids ind where inv: "kahn_inv ops ind [] ids" and eq: "sort_by_dependencies ops =
    (if length ids \<noteq> length ops then Inl (SortError (InvalidPlan ''operation dependency cycle detected''))
     else Inr (map (op_of ops) ids))" using sort_outcome [OF dist known] by blast
  then have "length ids = length ops" "out = map (op_of ops) ids" using assms by (auto split: if_splits)
  then show ?thesis using kahn_inv_finished [OF dist inv] by simp
qed

lemma sort_by_dependencies_complete:
  assumes dist: "distinct (map operation_id ops)" and known: "known_deps ops"
    and rank: "\<And>op d. op \<in> set ops \<Longrightarrow> d \<in> set (depends_on op) \<Longrightarrow> r d < (r (operation_id op) :: nat)"
  shows "\<exists>out. sort_by_dependencies ops = Inr out"
proof -
  obtain ids ind where inv: "kahn_inv ops ind [] ids" and eq: "sort_by_dependencies ops =
    (if length ids \<noteq> length ops then Inl (SortError (InvalidPlan ''operation dependency cycle detected''))
     else Inr (map (op_of ops) ids))" using sort_outcome [OF dist known] by blast
  have di: "distinct ids" and sub: "set ids \<subseteq> set (map operation_id ops)"
    using inv by (auto simp: kahn_inv_def)
  have "set ids = set (map operation_id ops)"
    using kahn_inv_acyclic [of ops ind ids r, OF inv known dist] rank sub by blast
  then have "length ids = length ops" using distinct_card [OF di] distinct_card [OF dist] by simp
  then show ?thesis using eq by simp
qed

lemma topo_sorted_rank:
  assumes "topo_sorted out" "distinct (map operation_id out)"
  shows "\<exists>r. \<forall>op \<in> set out. \<forall>d \<in> set (depends_on op). r d < (r (operation_id op) :: nat)"
proof -
  let ?ids = "map operation_id out"
  define r where "r i = (LEAST n. n < length ?ids \<and> ?ids ! n = i)" for i
  have r: "r (?ids ! n) = n" if n: "n < length ?ids" for n
    unfolding r_def
  proof (rule Least_equality)
    fix m assume "m < length ?ids \<and> ?ids ! m = ?ids ! n"
    then show "n \<le> m" using assms(2) n by (metis nth_eq_iff_index_eq order_refl)
  qed (use n in simp)
  have "r d < r (operation_id op)" if op: "op \<in> set out" and d: "d \<in> set (depends_on op)" for op d
  proof -
    obtain n where n: "n < length out" "out ! n = op" using op by (auto simp: in_set_conv_nth)
    then have "d \<in> set (take n ?ids)" using assms(1) d by (auto simp: topo_sorted_def take_map)
    then obtain m where m: "m < n" "?ids ! m = d" using n by (auto simp: in_set_conv_nth)
    then show ?thesis using r [of m] r [of n] n by simp
  qed
  then show ?thesis by blast
qed

section \<open>Plans that were assigned dependencies\<close>

lemma mset_insert_op [simp]: "mset (insert_op x xs) = add_mset x (mset xs)"
  by (induction xs) auto

lemma mset_sort_ops [simp]: "mset (sort_ops ops) = mset ops"
  by (induction ops) (auto simp: sort_ops_def)

lemma key_le_total: "key_le a b \<or> key_le b a"
  by (auto simp: key_le_def)

lemma key_le_trans: "key_le a b \<Longrightarrow> key_le b c \<Longrightarrow> key_le a c"
  by (auto simp: key_le_def)

lemma insert_op_sorted:
  "sorted_wrt (\<lambda>x y. key_le (op_key x) (op_key y)) xs \<Longrightarrow>
   sorted_wrt (\<lambda>x y. key_le (op_key x) (op_key y)) (insert_op x xs)"
proof (induction xs)
  case (Cons y ys)
  have "set (insert_op x ys) = insert x (set ys)"
    using mset_insert_op [of x ys] by (metis set_mset_add_mset_insert set_mset_mset)
  moreover have "key_le (op_key y) (op_key x)" if "\<not> key_le (op_key x) (op_key y)"
    using that key_le_total by blast
  ultimately show ?case using Cons key_le_trans [of "op_key x" "op_key y"] by auto
qed simp

lemma sort_ops_sorted: "sorted_wrt (\<lambda>x y. key_le (op_key x) (op_key y)) (sort_ops ops)"
  by (induction ops) (auto simp: sort_ops_def intro: insert_op_sorted)

lemma link_ops_ids [simp]: "map operation_id (link_ops prev ops) = map operation_id ops"
  by (induction ops arbitrary: prev) auto

lemma link_ops_actions [simp]: "map action (link_ops prev ops) = map action ops"
  by (induction ops arbitrary: prev) auto

lemma length_link_ops [simp]: "length (link_ops prev ops) = length ops"
  by (induction ops arbitrary: prev) auto

lemma link_ops_deps:
  "n < length ops \<Longrightarrow> depends_on (link_ops prev ops ! n) =
     map operation_id (filter (\<lambda>p. stage (action p) < stage (action (ops ! n))) (prev @ take n ops))"
proof (induction ops arbitrary: prev n)
  case (Cons op ops)
  then show ?case by (cases n) auto
qed simp

text \<open>In an assigned plan an operation depends on exactly the operations of earlier stages.\<close>

lemma assigned_deps:
  assumes "x \<in> set (assign_dependencies ops)"
  shows "set (depends_on x) = operation_id ` {y \<in> set (assign_dependencies ops). stage (action y) < stage (action x)}"
proof -
  let ?s = "sort_ops ops" and ?a = "assign_dependencies ops"
  obtain n where n: "n < length ?s" "x = ?a ! n"
    using assms by (auto simp: assign_dependencies_def in_set_conv_nth)
  have st: "stage (action (?a ! m)) = stage (action (?s ! m))" "operation_id (?a ! m) = operation_id (?s ! m)"
    if "m < length ?s" for m
    using link_ops_actions [of "[]" ?s] link_ops_ids [of "[]" ?s] that
    by (metis assign_dependencies_def length_link_ops nth_map)+
  have early: "m < n" if "m < length ?s" "stage (action (?s ! m)) < stage (action (?s ! n))" for m
  proof (rule ccontr)
    assume "\<not> m < n"
    then have "n < m \<or> n = m" by auto
    then show False
      using that sorted_wrt_nth_less [OF sort_ops_sorted [of ops], of n m] by (auto simp: key_le_def op_key_def)
  qed
  have "set (depends_on x) = operation_id ` {p \<in> set (take n ?s). stage (action p) < stage (action (?s ! n))}"
    using link_ops_deps [of n ?s "[]"] n by (auto simp: assign_dependencies_def)
  also have "\<dots> = (\<lambda>m. operation_id (?s ! m)) ` {m. m < length ?s \<and> stage (action (?s ! m)) < stage (action (?s ! n))}"
    using early n(1) by (force simp: in_set_conv_nth image_iff)
  also have "\<dots> = (\<lambda>m. operation_id (?a ! m)) ` {m. m < length ?s \<and> stage (action (?a ! m)) < stage (action x)}"
    using st n by (intro image_cong) auto
  also have "\<dots> = operation_id ` {y \<in> set ?a. stage (action y) < stage (action x)}"
  proof -
    have "set ?a = (\<lambda>m. ?a ! m) ` {m. m < length ?s}"
      by (auto simp: set_conv_nth assign_dependencies_def)
    then show ?thesis by auto
  qed
  finally show ?thesis .
qed

lemma assigned_ids: "mset (map operation_id (assign_dependencies ops)) = mset (map operation_id ops)"
proof -
  have "mset (map operation_id (assign_dependencies ops)) = mset (map operation_id (sort_ops ops))"
    by (simp add: assign_dependencies_def)
  also have "\<dots> = image_mset operation_id (mset (sort_ops ops))" by (rule mset_map)
  finally show ?thesis by simp
qed

section \<open>Results\<close>

definition demo_op :: "string \<Rightarrow> string list \<Rightarrow> repair_operation" where
  "demo_op i ds = \<lparr>operation_id = i, finding_ids = [], safety = Safe, action = RebuildStatistics [],
     rationale = [], evidence = [], preconditions = [], depends_on = ds\<rparr>"

text \<open>
  C7. \<open>sort_by_dependencies\<close> succeeds exactly on the plans whose operation ids are
  distinct, whose dependencies all name operations of the plan and whose dependency graph
  is acyclic (has a rank). In particular two operations with one id make a plan unsortable.
\<close>

theorem sort_by_dependencies_iff:
  "(\<exists>out. sort_by_dependencies ops = Inr out) \<longleftrightarrow>
     distinct (map operation_id ops) \<and> known_deps ops \<and>
     (\<exists>r. \<forall>op \<in> set ops. \<forall>d \<in> set (depends_on op). r d < (r (operation_id op) :: nat))"
proof
  assume "\<exists>out. sort_by_dependencies ops = Inr out"
  then obtain out where out: "sort_by_dependencies ops = Inr out" by blast
  note sound = sort_by_dependencies_sound [OF out] and dist = sort_by_dependencies_distinct [OF out]
  have "distinct (map operation_id out)"
    using dist sound mset_eq_imp_distinct_iff [of "map operation_id out" "map operation_id ops"] by simp
  then obtain r where "\<forall>op \<in> set out. \<forall>d \<in> set (depends_on op). r d < (r (operation_id op) :: nat)"
    using topo_sorted_rank sound by blast
  then show "distinct (map operation_id ops) \<and> known_deps ops \<and>
     (\<exists>r. \<forall>op \<in> set ops. \<forall>d \<in> set (depends_on op). r d < (r (operation_id op) :: nat))"
    using dist sort_by_dependencies_known [OF out] sound mset_eq_setD [of out ops] by auto
qed (auto intro: sort_by_dependencies_complete)

theorem sort_by_dependencies_iff_witness:
  "\<not> (\<exists>out. sort_by_dependencies [demo_op ''a'' [], demo_op ''a'' []] = Inr out) \<and>
   \<not> (\<exists>out. sort_by_dependencies [demo_op ''a'' [''b'']] = Inr out)"
  by (simp add: sort_by_dependencies_iff known_deps_def demo_op_def)

text \<open>
  C8. The result of \<open>sort_by_dependencies\<close> is a permutation of the operations in which
  every operation comes after the operations it depends on.
\<close>

theorem sort_by_dependencies_topological:
  assumes "sort_by_dependencies ops = Inr out"
  shows "mset out = mset ops \<and> topo_sorted out"
  using sort_by_dependencies_sound [OF assms] .

theorem sort_by_dependencies_topological_witness:
  "sort_by_dependencies [demo_op ''b'' [''c''], demo_op ''c'' [], demo_op ''a'' [''b'']] =
     Inr [demo_op ''c'' [], demo_op ''b'' [''c''], demo_op ''a'' [''b'']] \<and>
   topo_sorted [demo_op ''c'' [], demo_op ''b'' [''c''], demo_op ''a'' [''b'']]"
proof -
  have run: "sort_by_dependencies [demo_op ''b'' [''c''], demo_op ''c'' [], demo_op ''a'' [''b'']] =
     Inr [demo_op ''c'' [], demo_op ''b'' [''c''], demo_op ''a'' [''b'']]" by code_simp
  with sort_by_dependencies_topological [OF run] show ?thesis by simp
qed

text \<open>
  A plan whose operations got their dependencies from \<open>assign_dependencies\<close> always
  sorts, provided its ids are distinct, and the sorted plan runs the stages in order:
  schema changes, splits, row groups, compression, statistics, merges, repartitioning.
\<close>

theorem assigned_plan_sorts:
  assumes "distinct (map operation_id ops)"
  shows "\<exists>out. sort_by_dependencies (assign_dependencies ops) = Inr out \<and>
    mset (map operation_id out) = mset (map operation_id ops) \<and>
    sorted (map (\<lambda>o'. stage (action o')) out)"
proof -
  let ?a = "assign_dependencies ops"
  have dist: "distinct (map operation_id ?a)"
    using assms assigned_ids [of ops] mset_eq_imp_distinct_iff by blast
  have inj: "y = z" if "y \<in> set ?a" "z \<in> set ?a" "operation_id y = operation_id z" for y z
    using dist that by (auto simp: distinct_map inj_on_def)
  define r where "r i = stage (action (op_of ?a i))" for i
  have rid: "r (operation_id y) = stage (action y)" if "y \<in> set ?a" for y
    using op_of_member [OF dist that] by (simp add: r_def)
  have known: "known_deps ?a" using assigned_deps by (fastforce simp: known_deps_def)
  have "r d < r (operation_id x)" if "x \<in> set ?a" "d \<in> set (depends_on x)" for x d
    using assigned_deps [OF that(1)] that rid by auto
  then obtain out where out: "sort_by_dependencies ?a = Inr out"
    using sort_by_dependencies_complete [OF dist known] by blast
  note sound = sort_by_dependencies_sound [OF out]
  have set: "set out = set ?a" using sound mset_eq_setD by blast
  have disto: "distinct (map operation_id out)"
    using dist sound mset_eq_imp_distinct_iff [of "map operation_id out" "map operation_id ?a"] by simp
  have "stage (action (out ! i)) \<le> stage (action (out ! j))" if ij: "i < j" "j < length out" for i j
  proof (rule ccontr)
    assume "\<not> ?thesis"
    moreover have "out ! i \<in> set ?a" "out ! j \<in> set ?a"
      using set ij by (metis less_trans nth_mem)+
    ultimately have "operation_id (out ! j) \<in> set (depends_on (out ! i))"
      using assigned_deps [of "out ! i" ops] by auto
    then have "operation_id (out ! j) \<in> set (take i (map operation_id out))"
      using sound ij unfolding topo_sorted_def by (metis less_trans subsetD take_map)
    then obtain k where k: "k < i" "map operation_id out ! k = map operation_id out ! j"
      using ij by (auto simp: in_set_conv_nth)
    then have "k = j"
      using nth_eq_iff_index_eq [OF disto, of k j] ij by simp
    then show False using k(1) ij by simp
  qed
  then have "sorted (map (\<lambda>o'. stage (action o')) out)"
    by (auto simp: sorted_iff_nth_mono_less)
  moreover have "mset (map operation_id out) = mset (map operation_id ops)"
    using sound assigned_ids [of ops] by (metis mset_map)
  ultimately show ?thesis using out by blast
qed

theorem assigned_plan_sorts_witness:
  "\<exists>out. sort_by_dependencies (assign_dependencies [demo_op ''b'' [], demo_op ''a'' [], (demo_op ''c'' [])\<lparr>action := RenameColumn ''x'' ''y''\<rparr>]) = Inr out \<and>
    mset (map operation_id out) = {# ''a'', ''b'', ''c'' #}"
  using assigned_plan_sorts [of "[demo_op ''b'' [], demo_op ''a'' [], (demo_op ''c'' [])\<lparr>action := RenameColumn ''x'' ''y''\<rparr>]"]
  by (auto simp: demo_op_def)

end
