(* ===== verification/Repair_Rules.thy ===== *)
theory Repair_Rules
  imports Schema_Compat Repair_Deps
begin

text \<open>
  From a scan to a repair plan: the inventory of Parquet files (\<open>inventory.rs\<close>), the
  diagnosis (\<open>diagnose.rs\<close>), the repair rules (\<open>rules.rs\<close>, \<open>schema_rules.rs\<close>), the
  dataset fingerprint (\<open>fingerprint.rs\<close>), stable ids (\<open>stable_id.rs\<close>), the generation of
  the plan (\<open>plan.rs\<close>) and the CI check (\<open>check.rs\<close>).

  Reading a Parquet footer is the parameter \<open>inspect\<close>; SHA-256 in hexadecimal and the
  canonical rendering of JSON are the fields of a \<open>hasher\<close>. Of a finding the model keeps
  the code, the id, the summary and the payload of its first evidence; new ids are given
  by a supply.
\<close>

section \<open>Scan reports and inventories\<close>

datatype data_format = FmtParquet | FmtCsv | FmtJson | FmtNdjson | FmtUnknown

record asset_record =
  as_path :: path
  as_format :: data_format
  as_size :: u64

record finding =
  fi_id :: string
  fi_code :: string
  fi_summary :: string
  fi_payload :: "json option"

record scan_report =
  sc_scan_id :: string
  sc_assets :: "asset_record list"
  sc_findings :: "finding list"

record field_definition =
  fld_name :: string
  fld_logical_type :: string
  fld_nullable :: bool

record parquet_inspection =
  in_num_rows :: int
  in_num_row_groups :: nat
  in_compressed_sizes :: "int list"
  in_codecs :: "string list"
  in_signature :: string
  in_fields :: "field_definition list"
  in_statistics :: bool

type_synonym inspector = "asset_record \<Rightarrow> (repair_error, parquet_inspection) res"

record parquet_file_meta =
  pf_path :: path
  pf_size :: u64
  pf_num_rows :: int
  pf_num_row_groups :: nat
  pf_median_rg :: u64
  pf_codecs :: "string list"
  pf_signature :: string
  pf_fields :: "field_definition list"
  pf_has_statistics :: bool

record inventory =
  inv_root :: path
  inv_files :: "parquet_file_meta list"
  inv_total_rows :: int
  inv_signatures :: "(string \<times> path list) list"

definition median_u64 :: "u64 list \<Rightarrow> u64" where
  "median_u64 values = (if values = [] then 0 else sort values ! (length values div 2))"

definition file_meta :: "asset_record \<Rightarrow> parquet_inspection \<Rightarrow> parquet_file_meta" where
  "file_meta a i = \<lparr>pf_path = as_path a, pf_size = as_size a, pf_num_rows = in_num_rows i,
     pf_num_row_groups = in_num_row_groups i,
     pf_median_rg = median_u64 (map (\<lambda>z. word_of_int (max z 0)) (in_compressed_sizes i)),
     pf_codecs = in_codecs i, pf_signature = in_signature i, pf_fields = in_fields i,
     pf_has_statistics = in_statistics i\<rparr>"

definition push_signature :: "string \<Rightarrow> path \<Rightarrow> (string \<times> path list) list \<Rightarrow> (string \<times> path list) list" where
  "push_signature sig p m = bt_insert sig ((case map_of m sig of None \<Rightarrow> [] | Some ps \<Rightarrow> ps) @ [p]) m"

fun collect_files ::
  "inspector \<Rightarrow> asset_record list \<Rightarrow> inventory \<Rightarrow> (repair_error, inventory) res" where
  "collect_files inspect [] ivt = Inr ivt"
| "collect_files inspect (a # as) ivt =
     bind_res (inspect a) (\<lambda>i. collect_files inspect as
       (ivt\<lparr>inv_files := inv_files ivt @ [file_meta a i],
           inv_total_rows := inv_total_rows ivt + in_num_rows i,
           inv_signatures := push_signature (in_signature i) (as_path a) (inv_signatures ivt)\<rparr>))"

definition inventory_from_scan :: "inspector \<Rightarrow> path \<Rightarrow> scan_report \<Rightarrow> (repair_error, inventory) res" where
  "inventory_from_scan inspect root report =
     collect_files inspect (sort_key (path_components \<circ> as_path) (filter (\<lambda>a. as_format a = FmtParquet) (sc_assets report)))
       \<lparr>inv_root = root, inv_files = [], inv_total_rows = 0, inv_signatures = []\<rparr>"

definition median_file_size :: "inventory \<Rightarrow> u64" where
  "median_file_size ivt = median_u64 (map pf_size (inv_files ivt))"

definition all_compression_codecs :: "inventory \<Rightarrow> string list" where
  "all_compression_codecs ivt = sort (remdups (concat (map pf_codecs (inv_files ivt))))"

definition small_files :: "u64 \<Rightarrow> inventory \<Rightarrow> parquet_file_meta list" where
  "small_files threshold ivt = filter (\<lambda>f. pf_size f < threshold) (inv_files ivt)"

definition first_word :: "string \<Rightarrow> string" where
  "first_word s = (let t = dropWhile is_ascii_space s in
     if t = [] then ''UNKNOWN'' else takeWhile (\<lambda>c. \<not> is_ascii_space c) t)"

definition show_bool :: "bool \<Rightarrow> string" where
  "show_bool b = (if b then ''true'' else ''false'')"

definition structural_schema_key :: "field_definition list \<Rightarrow> string" where
  "structural_schema_key fs = str_join [CHR 0x1F] (sort (map (\<lambda>f.
     fld_name f @ '':'' @ first_word (fld_logical_type f) @ '':'' @ show_bool (fld_nullable f)) fs))"

section \<open>Diagnosis\<close>

definition SMALL_FILES :: string where "SMALL_FILES = ''system.repair.excessive_small_files''"
definition ROW_GROUPS :: string where "ROW_GROUPS = ''system.repair.inefficient_row_groups''"
definition COMPRESSION :: string where "COMPRESSION = ''system.repair.inconsistent_compression''"
definition SCHEMA_DRIFT :: string where "SCHEMA_DRIFT = ''system.repair.schema_drift''"
definition MISSING_STATISTICS :: string where "MISSING_STATISTICS = ''system.repair.missing_statistics''"
definition OVERSIZED_FILE :: string where "OVERSIZED_FILE = ''system.repair.oversized_file''"
definition SCHEMA_CONFLICT :: string where "SCHEMA_CONFLICT = ''system.repair.schema_conflict''"
definition FORMAT_PARQUET_READ_FAILED :: string where "FORMAT_PARQUET_READ_FAILED = ''system.format.parquet_read_failed''"
definition SMALL_ROW_GROUP :: string where "SMALL_ROW_GROUP = ''system.metadata.row_group_suspiciously_small''"

record diagnosis_report =
  dx_scan_id :: string
  dx_findings :: "finding list"
  dx_total_rows :: int
  dx_file_count :: nat

definition show_u64 :: "u64 \<Rightarrow> string" where
  "show_u64 w = show_nat (unat w)"

definition json_u64 :: "u64 \<Rightarrow> json" where
  "json_u64 w = JInt (uint w)"

definition small_files_finding :: "(nat \<Rightarrow> string) \<Rightarrow> inventory \<Rightarrow> repair_policy \<Rightarrow> finding list" where
  "small_files_finding uuid ivt policy =
     (let threshold = small_file_threshold_bytes policy; small = small_files threshold ivt;
          median = median_u64 (map pf_size small)
      in if length small \<ge> min_files_for_merge policy then
           [\<lparr>fi_id = uuid 0, fi_code = SMALL_FILES,
             fi_summary = ''Dataset contains '' @ show_nat (length small) @ '' pathologically small Parquet files'',
             fi_payload = Some (JObj [(''file_count'', JInt (int (length small))),
               (''median_size_bytes'', json_u64 median), (''threshold_bytes'', json_u64 threshold),
               (''paths_sample'', JArr (map (JStr \<circ> pf_path) (take 5 small)))])\<rparr>]
         else [])"

definition inefficient :: "inventory \<Rightarrow> repair_policy \<Rightarrow> parquet_file_meta \<Rightarrow> bool" where
  "inefficient ivt policy f =
     (let target = target_row_group_bytes policy; threshold = small_file_threshold_bytes policy;
          tiny = pf_num_row_groups f \<ge> 8 \<and> pf_median_rg f < target div 64;
          huge = pf_median_rg f > target * 2 \<and> pf_num_row_groups f \<le> 2 \<and> pf_num_rows f > 1000;
          shard = length (inv_files ivt) \<ge> min_files_for_merge policy \<and> pf_num_row_groups f = 1 \<and>
            pf_size f < threshold \<and> pf_num_rows f > 0 \<and> pf_num_rows f \<le> 5000
      in tiny \<or> huge \<or> shard)"

definition row_groups_finding :: "(nat \<Rightarrow> string) \<Rightarrow> inventory \<Rightarrow> repair_policy \<Rightarrow> finding list" where
  "row_groups_finding uuid ivt policy =
     (let bad = filter (inefficient ivt policy) (inv_files ivt);
          median = median_u64 (map pf_median_rg bad)
      in if bad \<noteq> [] then
           [\<lparr>fi_id = uuid 1, fi_code = ROW_GROUPS,
             fi_summary = ''Parquet row groups are inefficient for this dataset'',
             fi_payload = Some (JObj [(''affected_files'', JInt (int (length bad))),
               (''median_row_group_bytes'', json_u64 median),
               (''target_bytes'', json_u64 (target_row_group_bytes policy))])\<rparr>]
         else [])"

definition compression_finding :: "(nat \<Rightarrow> string) \<Rightarrow> inventory \<Rightarrow> repair_policy \<Rightarrow> finding list" where
  "compression_finding uuid ivt policy =
     (let codecs = all_compression_codecs ivt
      in if length codecs \<ge> min_codecs_for_inconsistency policy then
           [\<lparr>fi_id = uuid 2, fi_code = COMPRESSION,
             fi_summary = ''Dataset uses mixed Parquet compression codecs'',
             fi_payload = Some (JObj [(''codecs'', JArr (map JStr codecs))])\<rparr>]
         else [])"

definition drift_finding :: "(nat \<Rightarrow> string) \<Rightarrow> inventory \<Rightarrow> finding list" where
  "drift_finding uuid ivt =
     (if length (inv_signatures ivt) > 1 then
        [\<lparr>fi_id = uuid 3, fi_code = SCHEMA_DRIFT,
          fi_summary = ''Schema drift detected across dataset files'',
          fi_payload = Some (JObj [(''signatures'', JArr (map (\<lambda>(sig, ps).
            JObj [(''schema_signature'', JStr sig), (''file_count'', JInt (int (length ps))),
              (''sample_path'', case ps of [] \<Rightarrow> JNull | p # _ \<Rightarrow> JStr p)]) (inv_signatures ivt)))])\<rparr>]
      else [])"

definition diagnose ::
  "inspector \<Rightarrow> (nat \<Rightarrow> string) \<Rightarrow> path \<Rightarrow> scan_report \<Rightarrow> repair_policy \<Rightarrow> (repair_error, diagnosis_report) res" where
  "diagnose inspect uuid root scan policy =
     bind_res (inventory_from_scan inspect root scan) (\<lambda>ivt.
       if inv_files ivt = [] then
         Inr \<lparr>dx_scan_id = sc_scan_id scan, dx_findings = sc_findings scan, dx_total_rows = 0, dx_file_count = 0\<rparr>
       else
         Inr \<lparr>dx_scan_id = sc_scan_id scan,
           dx_findings = sort_key fi_code (sc_findings scan @ small_files_finding uuid ivt policy @
             row_groups_finding uuid ivt policy @ compression_finding uuid ivt policy @ drift_finding uuid ivt),
           dx_total_rows = inv_total_rows ivt, dx_file_count = length (inv_files ivt)\<rparr>)"

section \<open>Stable ids\<close>

record hasher =
  sha256_hex :: "string \<Rightarrow> string"
  canonical_json :: "json \<Rightarrow> string"
  render_json :: "json \<Rightarrow> string"

definition stable_hex_id :: "hasher \<Rightarrow> string \<Rightarrow> string \<Rightarrow> string" where
  "stable_hex_id h pre canon = pre @ ''-'' @ take 16 (sha256_hex h (pre @ [CHR 0x00] @ canon))"

text \<open>The tagged JSON shape of an action; empty target lists are left out.\<close>

definition paths_field :: "string \<Rightarrow> string list \<Rightarrow> (string \<times> json) list" where
  "paths_field name ps = (if ps = [] then [] else [(name, JArr (map JStr ps))])"

fun action_json :: "repair_action \<Rightarrow> json" where
  "action_json (Recompress c ps) = JObj ([(''kind'', JStr ''recompress''), (''codec'', JStr c)] @ paths_field ''target_paths'' ps)"
| "action_json (RebuildStatistics ps) = JObj ([(''kind'', JStr ''rebuild_statistics'')] @ paths_field ''target_paths'' ps)"
| "action_json (ResizeRowGroups b ps) = JObj ([(''kind'', JStr ''resize_row_groups''), (''target_bytes'', json_u64 b)] @ paths_field ''target_paths'' ps)"
| "action_json (MergeSmallFiles b ps) = JObj [(''kind'', JStr ''merge_small_files''), (''target_bytes'', json_u64 b), (''input_paths'', JArr (map JStr ps))]"
| "action_json (SplitLargeFile b p) = JObj [(''kind'', JStr ''split_large_file''), (''target_bytes'', json_u64 b), (''input_path'', JStr p)]"
| "action_json (AlignSchema f a b) = JObj [(''kind'', JStr ''align_schema''), (''field'', JStr f), (''from_type'', JStr a), (''to_type'', JStr b)]"
| "action_json (CastColumn c a b) = JObj [(''kind'', JStr ''cast_column''), (''column'', JStr c), (''from_type'', JStr a), (''to_type'', JStr b)]"
| "action_json (RenameColumn a b) = JObj [(''kind'', JStr ''rename_column''), (''from'', JStr a), (''to'', JStr b)]"
| "action_json (Repartition s) = JObj [(''kind'', JStr ''repartition''), (''strategy'', JStr s)]"

section \<open>Rules\<close>

record proposed_operation =
  po_id :: string
  po_finding_ids :: "string list"
  po_safety :: repair_safety
  po_action :: repair_action
  po_rationale :: string
  po_evidence :: "evidence_ref list"
  po_preconditions :: "precondition list"
  po_outcomes :: "expected_outcome list"

definition build_op ::
  "hasher \<Rightarrow> string \<Rightarrow> finding \<Rightarrow> repair_safety \<Rightarrow> repair_action \<Rightarrow> string \<Rightarrow> precondition list \<Rightarrow>
   expected_outcome list \<Rightarrow> proposed_operation" where
  "build_op h pre f sf act why pres outs =
     \<lparr>po_id = stable_hex_id h pre (canonical_json h (JObj [(''code'', JStr (fi_code f)), (''action'', action_json act)])),
      po_finding_ids = [fi_code f], po_safety = sf, po_action = act, po_rationale = why,
      po_evidence = [\<lparr>ev_finding_id = fi_id f, ev_summary = fi_summary f, ev_payload = fi_payload f\<rparr>],
      po_preconditions = pres, po_outcomes = outs\<rparr>"

definition rel_paths :: "path \<Rightarrow> parquet_file_meta list \<Rightarrow> string list" where
  "rel_paths root fs = map (\<lambda>f. relativize root (pf_path f)) fs"

text \<open>\<open>key_counts\<close> and its dominant key: \<open>max_by_key\<close> takes the last maximum.\<close>

definition key_counts :: "parquet_file_meta list \<Rightarrow> (string \<times> nat) list" where
  "key_counts small = fold (\<lambda>f m. let k = structural_schema_key (pf_fields f) in
     bt_insert k (Suc (case map_of m k of None \<Rightarrow> 0 | Some n \<Rightarrow> n)) m) small []"

fun last_max :: "(string \<times> nat) list \<Rightarrow> (string \<times> nat) option" where
  "last_max [] = None"
| "last_max (x # xs) = (case last_max xs of None \<Rightarrow> Some x | Some y \<Rightarrow> if snd x > snd y then Some x else Some y)"

definition merge_rule :: "hasher \<Rightarrow> path \<Rightarrow> inventory \<Rightarrow> effective_policy \<Rightarrow> finding \<Rightarrow> proposed_operation list" where
  "merge_rule h root ivt policy f =
     (let rp = ep_repair policy; small = small_files (small_file_threshold_bytes rp) ivt
      in if length small < min_files_for_merge rp then []
         else
           (let dominant = map_option fst (last_max (key_counts small));
                inputs = rel_paths root (filter (\<lambda>m. case dominant of None \<Rightarrow> True
                    | Some k \<Rightarrow> structural_schema_key (pf_fields m) = k)
                  (filter (\<lambda>m. pf_size m \<le> max_file_bytes (ep_files policy)) small))
            in if length inputs < min_files_for_merge rp then []
               else [build_op h ''merge'' f Safe (MergeSmallFiles (merge_target_bytes rp) inputs)
                 (''Merge '' @ show_nat (length small) @ '' small files (median '' @
                    show_u64 (median_file_size ivt div 1024) @ '' KiB) toward ~'' @
                    show_u64 (merge_target_mb rp) @ '' MiB targets'')
                 [\<lparr>pre_kind = ''schema_compatible'',
                   pre_description = ''All merged files share compatible schema signatures''\<rparr>]
                 [\<lparr>eo_metric = ''file_count'', eo_before = JInt (int (length (inv_files ivt))),
                   eo_after_expected = JStr ''fewer''\<rparr>]]))"

definition row_group_rule :: "hasher \<Rightarrow> path \<Rightarrow> inventory \<Rightarrow> effective_policy \<Rightarrow> finding \<Rightarrow> proposed_operation list" where
  "row_group_rule h root ivt policy f =
     (let rp = ep_repair policy in
      [build_op h ''rowgroups'' f Safe (ResizeRowGroups (target_row_group_bytes rp) (rel_paths root (inv_files ivt)))
        (''Normalize row groups toward '' @ show_u64 (target_row_group_mb rp) @ '' MiB target'')
        [\<lparr>pre_kind = ''readable_parquet'', pre_description = ''Target files must be readable Parquet''\<rparr>]
        [\<lparr>eo_metric = ''row_group_size'',
          eo_before = (case inv_files ivt of [] \<Rightarrow> JNull | m # _ \<Rightarrow> json_u64 (pf_median_rg m)),
          eo_after_expected = json_u64 (target_row_group_bytes rp)\<rparr>]])"

definition compression_rule :: "hasher \<Rightarrow> path \<Rightarrow> inventory \<Rightarrow> effective_policy \<Rightarrow> finding \<Rightarrow> proposed_operation list" where
  "compression_rule h root ivt policy f =
     (let rp = ep_repair policy in
      [build_op h ''compress'' f Safe (Recompress (default_compression rp) (rel_paths root (inv_files ivt)))
        (''Normalize compression to `'' @ default_compression rp @ ''` per repair policy'')
        [\<lparr>pre_kind = ''lossless_rewrite'', pre_description = ''Recompression preserves logical values''\<rparr>]
        [\<lparr>eo_metric = ''compression_codec'', eo_before = JArr (map JStr (all_compression_codecs ivt)),
          eo_after_expected = JArr [JStr (to_uppercase (default_compression rp))]\<rparr>]])"

definition finding_rule :: "hasher \<Rightarrow> path \<Rightarrow> inventory \<Rightarrow> effective_policy \<Rightarrow> finding \<Rightarrow> proposed_operation list" where
  "finding_rule h root ivt policy f =
     (if fi_code f = SMALL_FILES then merge_rule h root ivt policy f
      else if fi_code f = ROW_GROUPS then row_group_rule h root ivt policy f
      else if fi_code f = COMPRESSION then compression_rule h root ivt policy f
      else [])"

definition statistics_rule :: "hasher \<Rightarrow> path \<Rightarrow> inventory \<Rightarrow> proposed_operation list" where
  "statistics_rule h root ivt =
     (let no_stats = filter (\<lambda>f. \<not> pf_has_statistics f) (inv_files ivt); paths = rel_paths root no_stats
      in if no_stats = [] then []
         else [\<lparr>po_id = stable_hex_id h ''stats'' (canonical_json h (JObj [(''paths'', JArr (map JStr paths))])),
           po_finding_ids = [''missing-statistics''], po_safety = Safe, po_action = RebuildStatistics paths,
           po_rationale = ''Rebuild statistics for '' @ show_nat (length no_stats) @ '' file(s) missing column stats'',
           po_evidence = [], po_preconditions = [], po_outcomes = []\<rparr>])"

definition split_rule :: "hasher \<Rightarrow> path \<Rightarrow> inventory \<Rightarrow> effective_policy \<Rightarrow> proposed_operation list" where
  "split_rule h root ivt policy =
     map (\<lambda>f. let rel = relativize root (pf_path f) in
        \<lparr>po_id = stable_hex_id h ''split'' (canonical_json h (JObj [(''path'', JStr rel), (''size'', json_u64 (pf_size f))])),
         po_finding_ids = [''oversized-'' @ rel], po_safety = Safe,
         po_action = SplitLargeFile (split_target_bytes (ep_files policy)) rel,
         po_rationale = ''Split oversized file '' @ pf_path f @ '' ('' @ show_u64 (pf_size f div (1024 * 1024)) @
           '' MiB > '' @ show_u64 (max_file_mb (ep_files policy)) @ '' MiB max)'',
         po_evidence = [], po_preconditions = [], po_outcomes = []\<rparr>)
       (filter (\<lambda>f. pf_size f > max_file_bytes (ep_files policy)) (inv_files ivt))"

fun is_resize :: "repair_action \<Rightarrow> bool" where
  "is_resize (ResizeRowGroups _ _) = True"
| "is_resize _ = False"

definition scan_rule :: "hasher \<Rightarrow> path \<Rightarrow> inventory \<Rightarrow> effective_policy \<Rightarrow> finding \<Rightarrow> proposed_operation" where
  "scan_rule h root ivt policy f =
     build_op h ''rowgroups-scan'' f Safe
       (ResizeRowGroups (target_row_group_bytes (ep_repair policy)) (rel_paths root (inv_files ivt)))
       ''Normalize suspiciously small row groups detected during scan'' [] []"

definition apply_repair_rules ::
  "hasher \<Rightarrow> path \<Rightarrow> scan_report \<Rightarrow> finding list \<Rightarrow> inventory \<Rightarrow> effective_policy \<Rightarrow> proposed_operation list" where
  "apply_repair_rules h root scan dx ivt policy =
     (let ops = concat (map (finding_rule h root ivt policy) dx) @ statistics_rule h root ivt @
            split_rule h root ivt policy;
          extra = (if list_ex (\<lambda>o'. is_resize (po_action o')) ops then []
            else map (scan_rule h root ivt policy)
              (filter (\<lambda>f. fi_code f = SMALL_ROW_GROUP) (sc_findings scan)))
      in sort_key po_id (ops @ extra))"

section \<open>Schema rules\<close>

definition field_from_definition :: "field_definition \<Rightarrow> field_descriptor" where
  "field_from_definition f = \<lparr>fd_name = fld_name f, fd_physical_type = first_word (fld_logical_type f),
     fd_nullable = fld_nullable f\<rparr>"

definition views_from_inventory :: "inventory \<Rightarrow> file_schema_view list" where
  "views_from_inventory ivt =
     map (\<lambda>f. \<lparr>fv_path = pf_path f, fv_fields = map field_from_definition (pf_fields f)\<rparr>) (inv_files ivt)"

definition schema_signature_has_column :: "string \<Rightarrow> string \<Rightarrow> bool" where
  "schema_signature_has_column sig column =
     list_ex (\<lambda>part. str_starts_with part (column @ ''='')) (split_on (CHR 0x1F) sig)"

definition authorization_required :: precondition where
  "authorization_required = \<lparr>pre_kind = ''explicit_authorization'',
     pre_description = ''Requires --authorize <operation_id>''\<rparr>"

definition arrow_sign :: string where
  "arrow_sign = [CHR 0xE2, CHR 0x86, CHR 0x92]"

definition rename_rule :: "hasher \<Rightarrow> inventory \<Rightarrow> string \<times> string \<Rightarrow> proposed_operation list" where
  "rename_rule h ivt ft =
     (let from_col = fst ft; to_col = snd ft;
          affected = length (filter (\<lambda>f. schema_signature_has_column (pf_signature f) from_col) (inv_files ivt))
      in if from_col = to_col \<or> affected = 0 then []
         else [\<lparr>po_id = stable_hex_id h ''schema-rename''
              (canonical_json h (JObj [(''from'', JStr from_col), (''to'', JStr to_col)])),
            po_finding_ids = [''schema-rename-'' @ from_col], po_safety = ReviewRequired,
            po_action = RenameColumn from_col to_col,
            po_rationale = ''Explicit rename map: `'' @ from_col @ ''` '' @ arrow_sign @ '' `'' @ to_col @ ''` in '' @
              show_nat affected @ '' file(s)'',
            po_evidence = [\<lparr>ev_finding_id = from_col, ev_summary = ''Explicit schema rename policy'',
              ev_payload = Some (JObj [(''from'', JStr from_col), (''to'', JStr to_col),
                (''affected_files'', JInt (int affected))])\<rparr>],
            po_preconditions = [authorization_required],
            po_outcomes = [\<lparr>eo_metric = ''schema_field'', eo_before = JObj [(''name'', JStr from_col)],
              eo_after_expected = JObj [(''name'', JStr to_col)]\<rparr>]\<rparr>])"

definition apply_rename_rules :: "hasher \<Rightarrow> inventory \<Rightarrow> schema_policy \<Rightarrow> proposed_operation list" where
  "apply_rename_rules h ivt policy = concat (map (rename_rule h ivt) (rename_map policy))"

definition field_json :: "field_descriptor \<Rightarrow> json" where
  "field_json f = JObj [(''name'', JStr (fd_name f)), (''physical_type'', JStr (fd_physical_type f)),
     (''nullable'', JBool (fd_nullable f))]"

fun difference_name :: "difference_kind \<Rightarrow> string" where
  "difference_name Identical = ''Identical''"
| "difference_name ColumnOrderDifference = ''ColumnOrderDifference''"
| "difference_name NullableDifference = ''NullableDifference''"
| "difference_name CompatibleNumericWidening = ''CompatibleNumericWidening''"
| "difference_name CompatibleTypePromotion = ''CompatibleTypePromotion''"
| "difference_name MissingColumn = ''MissingColumn''"
| "difference_name ExtraColumn = ''ExtraColumn''"
| "difference_name ColumnNameDifference = ''ColumnNameDifference''"
| "difference_name IncompatibleTypeChange = ''IncompatibleTypeChange''"
| "difference_name NestedSchemaDifference = ''NestedSchemaDifference''"

fun compatibility_name :: "compatibility \<Rightarrow> string" where
  "compatibility_name Lossless = ''Lossless''"
| "compatibility_name ConditionallyLossless = ''ConditionallyLossless''"
| "compatibility_name PotentiallyLossy = ''PotentiallyLossy''"
| "compatibility_name UnsupportedConversion = ''Unsupported''"

text \<open>serde's \<open>snake_case\<close> of a variant name.\<close>

definition snake_case :: "string \<Rightarrow> string" where
  "snake_case s = tl (concat (map (\<lambda>c. let n = (of_char c :: nat) in
     if 65 \<le> n \<and> n \<le> 90 then [CHR ''_'', char_of (n + 32)] else [c]) s))"

definition field_difference_json :: "field_difference \<Rightarrow> json" where
  "field_difference_json d =
     (let opt = (\<lambda>f. case f of None \<Rightarrow> JNull | Some x \<Rightarrow> field_json x);
          cnt = (\<lambda>k n. if n = 0 then [] else [(k, JInt (int n))])
      in JObj ([(''path'', JArr (map JStr (df_path d))), (''left'', opt (df_left d)), (''right'', opt (df_right d)),
           (''difference'', JStr (snake_case (difference_name (df_difference d)))),
           (''compatibility'', JStr (snake_case (compatibility_name (df_compatibility d))))] @
         cnt ''left_file_count'' (df_left_count d) @ cnt ''right_file_count'' (df_right_count d)))"

text \<open>\<open>{:?}\<close> of a field; in a text, quotes, backslashes and line breaks are escaped (other unprintable characters are not).\<close>

definition debug_string :: "string \<Rightarrow> string" where
  "debug_string s = [CHR 0x22] @ concat (map (\<lambda>c.
     if c = CHR 0x22 \<or> c = CHR 0x5C then [CHR 0x5C, c] else if c = CHR 0x0A then [CHR 0x5C, CHR ''n'']
     else if c = CHR 0x0D then [CHR 0x5C, CHR ''r''] else if c = CHR 0x09 then [CHR 0x5C, CHR ''t''] else [c]) s) @ [CHR 0x22]"

definition debug_field :: "field_descriptor \<Rightarrow> string" where
  "debug_field f = ''FieldDescriptor { name: '' @ debug_string (fd_name f) @ '', physical_type: '' @
     debug_string (fd_physical_type f) @ '', nullable: '' @ show_bool (fd_nullable f) @ '' }''"

text \<open>The action of one schema difference, if the policy allows one.\<close>

definition schema_action ::
  "schema_policy \<Rightarrow> string \<Rightarrow> field_descriptor \<Rightarrow> field_descriptor \<Rightarrow> repair_action option" where
  "schema_action policy col left right =
     (if fd_physical_type left \<noteq> fd_physical_type right then
        Some (CastColumn col (fd_physical_type left) (fd_physical_type right))
      else if fd_nullable left \<noteq> fd_nullable right then
        Some (CastColumn col (''nullable='' @ show_bool (fd_nullable left)) (''nullable='' @ show_bool (fd_nullable right)))
      else if allow_column_reorder policy then
        Some (AlignSchema col (fd_physical_type left) (fd_physical_type right))
      else None)"

definition schema_prefix :: "compatibility \<Rightarrow> string option" where
  "schema_prefix c = (case c of Lossless \<Rightarrow> Some ''schema-widen''
     | ConditionallyLossless \<Rightarrow> Some ''schema-cond'' | _ \<Rightarrow> None)"

definition schema_rule ::
  "hasher \<Rightarrow> field_descriptor list \<Rightarrow> schema_policy \<Rightarrow> field_difference \<Rightarrow> proposed_operation list" where
  "schema_rule h canonical policy d =
     (if df_difference d = Identical then []
      else (case schema_prefix (df_compatibility d) of
          None \<Rightarrow> []
        | Some pre \<Rightarrow>
            (let left = the (df_left d); col = field_path_display (df_path d);
                 fallback = (case List.find (\<lambda>f. fd_name f = fd_name left) canonical of
                   None \<Rightarrow> default_field | Some f \<Rightarrow> f);
                 right = (case df_right d of None \<Rightarrow> fallback | Some f \<Rightarrow> f)
             in case schema_action policy col left right of
                  None \<Rightarrow> []
                | Some act \<Rightarrow>
                    [\<lparr>po_id = stable_hex_id h pre (canonical_json h (JObj [(''field'', JStr col), (''action'', action_json act)])),
                      po_finding_ids = [''schema-diff-'' @ col], po_safety = ReviewRequired, po_action = act,
                      po_rationale = ''Harmonize column `'' @ col @ ''`: '' @ debug_field left @ '' '' @ arrow_sign @ '' '' @
                        debug_field right @ '' ('' @ difference_name (df_difference d) @ '', '' @
                        compatibility_name (df_compatibility d) @ '')'',
                      po_evidence = [\<lparr>ev_finding_id = col, ev_summary = ''Structured schema diff'',
                        ev_payload = Some (field_difference_json d)\<rparr>],
                      po_preconditions = [authorization_required],
                      po_outcomes = [\<lparr>eo_metric = ''schema_field'', eo_before = field_json left,
                        eo_after_expected = field_json right\<rparr>]\<rparr>])))"

definition apply_schema_rules ::
  "hasher \<Rightarrow> schema_diff \<Rightarrow> field_descriptor list \<Rightarrow> schema_policy \<Rightarrow> proposed_operation list" where
  "apply_schema_rules h diff canonical policy = concat (map (schema_rule h canonical policy) (sd_fields diff))"

definition blocked_op :: "nat \<Rightarrow> unresolvable_conflict \<Rightarrow> proposed_operation" where
  "blocked_op i c =
     \<lparr>po_id = ''blocked-schema-'' @ show_nat04 i, po_finding_ids = [''schema-conflict-'' @ uc_field c],
      po_safety = Blocked,
      po_action = AlignSchema (uc_field c)
        (case uc_variants c of [] \<Rightarrow> [] | v # _ \<Rightarrow> fd_physical_type v)
        (case uc_variants c of _ # v # _ \<Rightarrow> fd_physical_type v | _ \<Rightarrow> []),
      po_rationale = ''Blocked: unresolvable schema conflict on `'' @ uc_field c @ ''`: '' @ uc_reason c,
      po_evidence = [], po_preconditions = [], po_outcomes = []\<rparr>"

definition apply_schema_rules_blocked :: "unresolvable_conflict list \<Rightarrow> proposed_operation list" where
  "apply_schema_rules_blocked cs = map (\<lambda>(i, c). blocked_op i c) (enumerate 0 cs)"

section \<open>Fingerprint and plan\<close>

definition fingerprint_json :: "fingerprint_entry \<Rightarrow> json" where
  "fingerprint_json e = JObj [(''relative_path'', JStr (fe_relative_path e)), (''size_bytes'', json_u64 (fe_size_bytes e)),
     (''num_rows'', JInt (fe_num_rows e)), (''num_row_groups'', JInt (int (fe_num_row_groups e))),
     (''schema_signature'', JStr (fe_schema_signature e)),
     (''compression_codecs'', JArr (map JStr (fe_compression_codecs e)))]"

definition digest_entries :: "hasher \<Rightarrow> fingerprint_entry list \<Rightarrow> string" where
  "digest_entries h es = sha256_hex h (''parqonaut-dataset-fp-v1'' @ [CHR 0x00] @
     render_json h (JArr (map fingerprint_json (sort_key fe_relative_path es))))"

definition fingerprint_entries :: "path \<Rightarrow> inventory \<Rightarrow> fingerprint_entry list" where
  "fingerprint_entries root ivt = sort_key fe_relative_path (map (\<lambda>f.
     \<lparr>fe_relative_path = relativize root (pf_path f), fe_size_bytes = pf_size f, fe_num_rows = pf_num_rows f,
      fe_num_row_groups = pf_num_row_groups f, fe_schema_signature = pf_signature f,
      fe_compression_codecs = pf_codecs f\<rparr>) (inv_files ivt))"

definition compute_dataset_fingerprint :: "hasher \<Rightarrow> path \<Rightarrow> inventory \<Rightarrow> dataset_fingerprint" where
  "compute_dataset_fingerprint h root ivt =
     (let es = fingerprint_entries root ivt
      in \<lparr>fp_version = 1, fp_root = root, fp_entries = es, fp_digest = digest_entries h es\<rparr>)"

definition compute_fingerprint_from_scan ::
  "hasher \<Rightarrow> inspector \<Rightarrow> path \<Rightarrow> scan_report \<Rightarrow> (repair_error, dataset_fingerprint) res" where
  "compute_fingerprint_from_scan h inspect root report =
     bind_res (inventory_from_scan inspect root report) (\<lambda>ivt. Inr (compute_dataset_fingerprint h root ivt))"

definition operation_of :: "proposed_operation \<Rightarrow> repair_operation" where
  "operation_of p = \<lparr>operation_id = po_id p, finding_ids = po_finding_ids p, safety = po_safety p,
     action = po_action p, rationale = po_rationale p, evidence = po_evidence p,
     preconditions = po_preconditions p, depends_on = []\<rparr>"

definition proposed_operations ::
  "hasher \<Rightarrow> path \<Rightarrow> scan_report \<Rightarrow> finding list \<Rightarrow> inventory \<Rightarrow> effective_policy \<Rightarrow> schema_resolution \<Rightarrow>
   proposed_operation list" where
  "proposed_operations h root scan dx ivt policy resolution =
     apply_repair_rules h root scan dx ivt policy @
     apply_rename_rules h ivt (ep_schema policy) @
     apply_schema_rules h (sr_diff resolution)
       (case sr_target resolution of Some t \<Rightarrow> t | None \<Rightarrow> sd_canonical (sr_diff resolution)) (ep_schema policy) @
     (if sr_conflicts resolution \<noteq> [] then apply_schema_rules_blocked (sr_conflicts resolution) else [])"

definition safety_json :: "repair_safety \<Rightarrow> json" where
  "safety_json s = JStr (case s of Safe \<Rightarrow> ''safe'' | ReviewRequired \<Rightarrow> ''review_required''
     | Destructive \<Rightarrow> ''destructive'' | Blocked \<Rightarrow> ''blocked'')"

text \<open>\<open>policy_fp\<close> is the policy's fingerprint, a digest of its JSON.\<close>

definition generate_plan ::
  "hasher \<Rightarrow> inspector \<Rightarrow> (nat \<Rightarrow> string) \<Rightarrow> (effective_policy \<Rightarrow> string) \<Rightarrow> string \<Rightarrow> path \<Rightarrow> scan_report \<Rightarrow>
   effective_policy \<Rightarrow> field_descriptor list option \<Rightarrow> (repair_error, repair_plan) res" where
  "generate_plan h inspect uuid policy_fp version root scan policy target =
     bind_res (inventory_from_scan inspect root scan) (\<lambda>ivt.
     bind_res (diagnose inspect uuid root scan (ep_repair policy)) (\<lambda>dx.
       (let resolution = resolve_canonical_schema (views_from_inventory ivt) target (ep_schema policy);
            proposed = proposed_operations h root scan (dx_findings dx) ivt policy resolution;
            ops = assign_dependencies (map operation_of proposed);
            fp = compute_dataset_fingerprint h root ivt;
            content = JObj [(''fingerprint'', JStr (fp_digest fp)), (''policy_fingerprint'', JStr (policy_fp policy)),
              (''operations'', JArr (map (\<lambda>o'. JArr [JStr (operation_id o'), action_json (action o'), safety_json (safety o')]) ops)),
              (''target_schema'', case sr_target resolution of None \<Rightarrow> JNull | Some t \<Rightarrow> JArr (map field_json t))]
        in Inr \<lparr>plan_schema_version = PLAN_SCHEMA_VERSION,
             plan_id = stable_hex_id h ''plan'' (canonical_json h content),
             plan_parqonaut_version = version, dataset_root = root, dataset_fp = fp,
             policy_fingerprint = policy_fp policy, plan_policy = policy, operations = ops,
             expected_outcomes = concat (map po_outcomes proposed),
             schema_conflicts = (if sr_conflicts resolution = [] then None else Some (sr_conflicts resolution)),
             target_schema = sr_target resolution\<rparr>)))"

section \<open>The CI check\<close>

datatype check_exit_code =
  Compliant | RepairableIssues | ReviewRequiredExit | UnresolvableOrPolicyViolation | OperationalFailure

fun exit_code_value :: "check_exit_code \<Rightarrow> int" where
  "exit_code_value Compliant = 0"
| "exit_code_value RepairableIssues = 2"
| "exit_code_value ReviewRequiredExit = 3"
| "exit_code_value UnresolvableOrPolicyViolation = 4"
| "exit_code_value OperationalFailure = 5"

record check_report =
  ck_exit :: check_exit_code
  ck_safe :: nat
  ck_review :: nat
  ck_blocked :: nat
  ck_destructive :: nat
  ck_unresolvable :: nat
  ck_reasons :: "string list"

definition count_safety :: "repair_safety \<Rightarrow> repair_operation list \<Rightarrow> nat" where
  "count_safety s ops = length (filter (\<lambda>o'. safety o' = s) ops)"

text \<open>The exit code of a plan under a CI policy; the tests run in this order.\<close>

definition check_plan :: "ci_policy \<Rightarrow> repair_plan \<Rightarrow> check_report" where
  "check_plan ci plan =
     (let safe = count_safety Safe (operations plan); review = count_safety ReviewRequired (operations plan);
          blocked = count_safety Blocked (operations plan);
          destructive = count_safety Destructive (operations plan);
          unresolvable = (case schema_conflicts plan of None \<Rightarrow> 0 | Some cs \<Rightarrow> length cs);
          t1 = unresolvable > 0 \<and> fail_on_unresolvable_schema ci;
          t2 = review > 0 \<and> fail_on_review_required ci;
          t3 = safe > 0 \<and> fail_on_safe_findings ci;
          t4 = destructive > 0 \<and> fail_on_destructive ci;
          e1 = (if t1 then UnresolvableOrPolicyViolation else Compliant);
          e2 = (if t2 \<and> e1 = Compliant then ReviewRequiredExit else e1);
          e3 = (if t3 \<and> e2 = Compliant then RepairableIssues else e2);
          e4 = (if t4 then UnresolvableOrPolicyViolation else e3)
      in \<lparr>ck_exit = e4, ck_safe = safe, ck_review = review, ck_blocked = blocked,
          ck_destructive = destructive, ck_unresolvable = unresolvable,
          ck_reasons = (if t1 then [show_nat unresolvable @ '' unresolvable schema conflict(s)''] else []) @
            (if t2 then [show_nat review @ '' review-required operation(s)''] else []) @
            (if t3 then [show_nat safe @ '' safe repair operation(s) available''] else []) @
            (if t4 then [show_nat destructive @ '' destructive proposal(s)''] else [])\<rparr>)"

definition evaluate_check ::
  "hasher \<Rightarrow> inspector \<Rightarrow> (nat \<Rightarrow> string) \<Rightarrow> (effective_policy \<Rightarrow> string) \<Rightarrow> string \<Rightarrow> path \<Rightarrow> scan_report \<Rightarrow>
   effective_policy \<Rightarrow> (repair_error, check_report) res" where
  "evaluate_check h inspect uuid policy_fp version root scan policy =
     bind_res (diagnose inspect uuid root scan (ep_repair policy)) (\<lambda>_.
     bind_res (generate_plan h inspect uuid policy_fp version root scan policy None) (\<lambda>plan.
       Inr (check_plan (case ep_ci policy of None \<Rightarrow> ci_policy_default | Some ci \<Rightarrow> ci) plan)))"

end
