(* ===== verification/Repair_Plan_Props.thy ===== *)
theory Repair_Plan_Props
  imports Repair_Rules "HOL-Library.Countable"
begin

text \<open>
  What generated repair plans satisfy: the safety of the operations they propose, the ids of
  the operations, the report of the CI check and the dataset fingerprint.
\<close>

section \<open>The operations of a plan\<close>

lemma generate_plan_operations:
  assumes "generate_plan h inspect uuid pf version root scan policy target = Inr plan"
  obtains ivt dx resolution where "inventory_from_scan inspect root scan = Inr ivt"
    "diagnose inspect uuid root scan (ep_repair policy) = Inr dx"
    "operations plan = assign_dependencies (map operation_of
       (proposed_operations h root scan (dx_findings dx) ivt policy resolution))"
    "schema_conflicts plan = (if sr_conflicts resolution = [] then None else Some (sr_conflicts resolution))"
proof -
  obtain ivt dx where i: "inventory_from_scan inspect root scan = Inr ivt"
    and d: "diagnose inspect uuid root scan (ep_repair policy) = Inr dx"
    using assms unfolding generate_plan_def bind_res_Inr_iff by blast
  note eq = assms [unfolded generate_plan_def i d bind_res.simps Let_def, simplified, symmetric]
  show thesis
    by (rule that [OF i d, of "resolve_canonical_schema (views_from_inventory ivt) target (ep_schema policy)"])
      (simp_all add: eq)
qed

lemma link_ops_member:
  "x \<in> set (link_ops prev ops) \<Longrightarrow> \<exists>y \<in> set ops. safety x = safety y \<and> action x = action y"
  by (induction ops arbitrary: prev) auto

lemma assigned_member:
  assumes "x \<in> set (assign_dependencies ops)"
  shows "\<exists>y \<in> set ops. safety x = safety y \<and> action x = action y"
  using link_ops_member [of x "[]" "sort_ops ops"] assms mset_eq_setD [OF mset_sort_ops [of ops]]
  by (simp add: assign_dependencies_def)

lemma build_op_simps [simp]:
  "po_safety (build_op h pre f sf act why pres outs) = sf"
  "po_action (build_op h pre f sf act why pres outs) = act"
  by (simp_all add: build_op_def)

definition safe_proposal :: "proposed_operation \<Rightarrow> bool" where
  "safe_proposal p \<longleftrightarrow> po_safety p = Safe \<and> default_safety (po_action p) = Safe"

lemma merge_rule_safe: "list_all safe_proposal (merge_rule h root ivt policy f)"
  by (simp add: merge_rule_def Let_def safe_proposal_def)

lemma row_group_rule_safe: "list_all safe_proposal (row_group_rule h root ivt policy f)"
  by (simp add: row_group_rule_def Let_def safe_proposal_def)

lemma compression_rule_safe: "list_all safe_proposal (compression_rule h root ivt policy f)"
  by (simp add: compression_rule_def Let_def safe_proposal_def)

lemma statistics_rule_safe: "list_all safe_proposal (statistics_rule h root ivt)"
  by (simp add: statistics_rule_def Let_def safe_proposal_def)

lemma split_rule_safe: "list_all safe_proposal (split_rule h root ivt policy)"
  by (simp add: split_rule_def Let_def safe_proposal_def list_all_iff)

lemma finding_rule_safe: "list_all safe_proposal (finding_rule h root ivt policy f)"
  by (simp add: finding_rule_def merge_rule_safe row_group_rule_safe compression_rule_safe)

lemma scan_rule_safe: "safe_proposal (scan_rule h root ivt policy f)"
  by (simp add: scan_rule_def safe_proposal_def)

lemmas rule_safe = finding_rule_safe statistics_rule_safe split_rule_safe scan_rule_safe

lemma apply_repair_rules_safe: "list_all safe_proposal (apply_repair_rules h root scan dx ivt policy)"
  using rule_safe unfolding apply_repair_rules_def Let_def list_all_iff
  by (simp add: ball_Un) 

abbreviation needs_review :: "proposed_operation \<Rightarrow> bool" where
  "needs_review p \<equiv> po_safety p = ReviewRequired"

definition proposal_ok :: "proposed_operation \<Rightarrow> bool" where
  "proposal_ok p \<longleftrightarrow> po_safety p \<noteq> Destructive \<and> (po_safety p = Safe \<longrightarrow> default_safety (po_action p) = Safe)"

lemma proposal_okI:
  "safe_proposal p \<Longrightarrow> proposal_ok p" "needs_review p \<Longrightarrow> proposal_ok p" "po_safety p = Blocked \<Longrightarrow> proposal_ok p"
  by (simp_all add: proposal_ok_def safe_proposal_def)

lemma rename_rule_review: "list_all needs_review (rename_rule h ivt ft)"
  by (simp add: rename_rule_def Let_def)

lemma schema_rule_review: "list_all needs_review (schema_rule h canonical sp d)"
  by (simp add: schema_rule_def Let_def split: option.splits)

lemma rename_rules_ok: "list_all proposal_ok (apply_rename_rules h ivt sp)"
  using rename_rule_review [of h ivt] by (auto simp: apply_rename_rules_def list_all_iff intro: proposal_okI)

lemma schema_rules_ok: "list_all proposal_ok (apply_schema_rules h diff canonical sp)"
  using schema_rule_review [of h canonical sp] by (auto simp: apply_schema_rules_def list_all_iff intro: proposal_okI)

lemma blocked_rules_ok: "list_all proposal_ok (apply_schema_rules_blocked cs)"
  by (auto simp: apply_schema_rules_blocked_def blocked_op_def list_all_iff intro: proposal_okI)

lemma repair_rules_ok: "list_all proposal_ok (apply_repair_rules h root scan dx ivt policy)"
  by (rule list.pred_mono_strong [OF apply_repair_rules_safe]) (rule proposal_okI)

lemma proposed_ok: "list_all proposal_ok (proposed_operations h root scan dx ivt policy resolution)"
  by (simp add: proposed_operations_def repair_rules_ok rename_rules_ok schema_rules_ok blocked_rules_ok)


lemma mset_map_sort_key: "mset (map f (sort_key k xs)) = mset (map f xs)"
  by simp

lemmas distinct_map_sort_key = mset_eq_imp_distinct_iff [OF mset_map_sort_key]

section \<open>Colliding operation ids\<close>

lemma diagnose_no_row_groups:
  assumes "diagnose inspect uuid root scan policy = Inr dx" "inventory_from_scan inspect root scan = Inr ivt"
    and "row_groups_finding uuid ivt policy = []" "\<forall>f \<in> set (sc_findings scan). fi_code f \<noteq> ROW_GROUPS"
  shows "\<forall>f \<in> set (dx_findings dx). fi_code f \<noteq> ROW_GROUPS"
proof -
  have "\<forall>f \<in> set (small_files_finding uuid ivt policy @ compression_finding uuid ivt policy @ drift_finding uuid ivt).
      fi_code f \<noteq> ROW_GROUPS"
    by (auto simp: small_files_finding_def compression_finding_def drift_finding_def Let_def
        SMALL_FILES_def COMPRESSION_def SCHEMA_DRIFT_def ROW_GROUPS_def)
  then show ?thesis using assms unfolding diagnose_def by (auto split: if_splits)
qed

lemma finding_rule_no_resize:
  assumes "fi_code f \<noteq> ROW_GROUPS"
  shows "list_all (\<lambda>p. \<not> is_resize (po_action p)) (finding_rule h root ivt policy f)"
  using assms by (simp add: finding_rule_def merge_rule_def compression_rule_def Let_def)

lemma base_rules_no_resize:
  assumes "\<forall>f \<in> set dx. fi_code f \<noteq> ROW_GROUPS"
  shows "\<not> list_ex (\<lambda>p. is_resize (po_action p)) (concat (map (finding_rule h root ivt policy) dx) @
      statistics_rule h root ivt @ split_rule h root ivt policy)"
proof -
  have "list_all (\<lambda>p. \<not> is_resize (po_action p)) (concat (map (finding_rule h root ivt policy) dx))"
    using assms finding_rule_no_resize [of _ h root ivt policy] by (auto simp: list_all_iff)
  moreover have "list_all (\<lambda>p. \<not> is_resize (po_action p)) (statistics_rule h root ivt)"
    by (simp add: statistics_rule_def Let_def)
  moreover have "list_all (\<lambda>p. \<not> is_resize (po_action p)) (split_rule h root ivt policy)"
    by (simp add: split_rule_def Let_def list_all_iff)
  ultimately show ?thesis unfolding list_ex_iff list_all_iff by auto
qed

lemma scan_hits_collide:
  assumes "\<forall>f \<in> set dx. fi_code f \<noteq> ROW_GROUPS"
    and "2 \<le> length (filter (\<lambda>f. fi_code f = SMALL_ROW_GROUP) (sc_findings scan))"
  shows "\<not> distinct (map po_id (apply_repair_rules h root scan dx ivt policy))"
proof -
  let ?hits = "filter (\<lambda>f. fi_code f = SMALL_ROW_GROUP) (sc_findings scan)"
  let ?base = "concat (map (finding_rule h root ivt policy) dx) @ statistics_rule h root ivt @ split_rule h root ivt policy"
  have eq: "apply_repair_rules h root scan dx ivt policy = sort_key po_id (?base @ map (scan_rule h root ivt policy) ?hits)"
    unfolding apply_repair_rules_def Let_def if_not_P [OF base_rules_no_resize [OF assms(1)]] ..
  obtain f g fs where fg: "?hits = f # g # fs" using assms(2)
    by (cases ?hits rule: remdups_adj.cases) auto
  then have "set (f # g # fs) \<subseteq> {x. fi_code x = SMALL_ROW_GROUP}" by (metis filter_is_subset mem_Collect_eq set_filter subsetI)
  then have "fi_code f = SMALL_ROW_GROUP \<and> fi_code g = SMALL_ROW_GROUP" by simp
  then have "po_id (scan_rule h root ivt policy f) = po_id (scan_rule h root ivt policy g)"
    by (simp add: scan_rule_def build_op_def)
  then have "\<not> distinct (map po_id (map (scan_rule h root ivt policy) ?hits))" using fg by simp
  then show ?thesis unfolding eq distinct_map_sort_key by simp
qed

section \<open>The CI check of a generated plan\<close>

lemma link_ops_safety: "map safety (link_ops prev ops) = map safety ops"
  by (induction ops arbitrary: prev) simp_all

lemma count_safety_eq: "count_safety s ops = count (image_mset safety (mset ops)) s"
  by (induction ops) (simp_all add: count_safety_def)

lemma count_safety_assigned: "count_safety s (assign_dependencies ops) = count_safety s ops"
proof -
  have "image_mset safety (mset (assign_dependencies ops)) = mset (map safety (sort_ops ops))"
    by (simp add: assign_dependencies_def link_ops_safety flip: mset_map)
  then show ?thesis by (simp add: count_safety_eq)
qed

lemma count_safety_append: "count_safety s (xs @ ys) = count_safety s xs + count_safety s ys"
  by (simp add: count_safety_def)

lemma count_safety_proposals:
  "count_safety s (map operation_of ps) = length (filter (\<lambda>p. po_safety p = s) ps)"
  by (simp add: count_safety_def operation_of_def filter_map comp_def)

lemma no_proposal: "list_all P ps \<Longrightarrow> (\<And>p. P p \<Longrightarrow> po_safety p \<noteq> s) \<Longrightarrow> filter (\<lambda>p. po_safety p = s) ps = []"
  by (auto simp: list_all_iff filter_empty_conv)

lemma rename_rules_review: "list_all needs_review (apply_rename_rules h ivt sp)"
  using rename_rule_review [of h ivt] by (auto simp: apply_rename_rules_def list_all_iff)

lemma schema_rules_review: "list_all needs_review (apply_schema_rules h diff canonical sp)"
  using schema_rule_review [of h canonical sp] by (auto simp: apply_schema_rules_def list_all_iff)

lemma blocked_rules_count:
  "length (filter (\<lambda>p. po_safety p = Blocked) (apply_schema_rules_blocked cs)) = length cs"
proof -
  have "filter (\<lambda>p. po_safety p = Blocked) (apply_schema_rules_blocked cs) = apply_schema_rules_blocked cs"
    by (auto simp: filter_id_conv apply_schema_rules_blocked_def blocked_op_def)
  then show ?thesis by (simp add: apply_schema_rules_blocked_def)
qed

lemma proposed_blocked_count:
  "length (filter (\<lambda>p. po_safety p = Blocked) (proposed_operations h root scan dx ivt policy resolution)) =
   length (sr_conflicts resolution)"
proof -
  have "filter (\<lambda>p. po_safety p = Blocked) (apply_repair_rules h root scan dx ivt policy) = []"
    by (rule no_proposal [OF apply_repair_rules_safe]) (simp add: safe_proposal_def)
  note none = this no_proposal [OF rename_rules_review, where s = Blocked]
    no_proposal [OF schema_rules_review, where s = Blocked]
  show ?thesis by (simp add: proposed_operations_def none blocked_rules_count)
qed

lemma proposed_not_destructive:
  "filter (\<lambda>p. po_safety p = Destructive) (proposed_operations h root scan dx ivt policy resolution) = []"
  by (rule no_proposal [OF proposed_ok]) (simp add: proposal_ok_def)

lemma generate_plan_counts:
  assumes "generate_plan h inspect uuid pf version root scan policy target = Inr plan"
  shows "count_safety Destructive (operations plan) = 0"
    and "count_safety Blocked (operations plan) = (case schema_conflicts plan of None \<Rightarrow> 0 | Some cs \<Rightarrow> length cs)"
proof -
  obtain ivt resolution and dx :: diagnosis_report where ops: "operations plan = assign_dependencies (map operation_of
       (proposed_operations h root scan (dx_findings dx) ivt policy resolution))"
    and cs: "schema_conflicts plan = (if sr_conflicts resolution = [] then None else Some (sr_conflicts resolution))"
    by (rule generate_plan_operations [OF assms]) blast
  show "count_safety Destructive (operations plan) = 0"
    unfolding ops count_safety_assigned count_safety_proposals proposed_not_destructive by simp
  show "count_safety Blocked (operations plan) = (case schema_conflicts plan of None \<Rightarrow> 0 | Some cs \<Rightarrow> length cs)"
    unfolding ops count_safety_assigned count_safety_proposals proposed_blocked_count cs by simp
qed

lemma check_plan_exit:
  "ck_exit (check_plan ci plan) = Compliant \<longleftrightarrow> ck_reasons (check_plan ci plan) = []"
  by (simp add: check_plan_def Let_def)


section \<open>The dataset fingerprint\<close>

lemma json_u64_eq [simp]: "json_u64 a = json_u64 b \<longleftrightarrow> a = b"
  by (simp add: json_u64_def word_uint_eq_iff)

lemma inj_JStr: "inj JStr"
  by (simp add: inj_def)

lemma fingerprint_json_eq: "fingerprint_json a = fingerprint_json b \<longleftrightarrow> a = b"
  by (auto simp: fingerprint_json_def inj_map_eq_map [OF inj_JStr] intro: fingerprint_entry.equality)

lemma inj_fingerprint_json: "inj fingerprint_json"
  by (simp add: inj_def fingerprint_json_eq)

lemma sort_key_canonical:
  fixes k :: "'a \<Rightarrow> 'b :: linorder"
  assumes "distinct (map k xs)" "distinct (map k ys)" "set xs = set ys"
  shows "sort_key k xs = sort_key k ys"
proof (rule map_sorted_distinct_set_unique)
  show "inj_on k (set (sort_key k xs) \<union> set (sort_key k ys))" using assms by (simp add: distinct_map)
  show "distinct (map k (sort_key k xs))" "distinct (map k (sort_key k ys))"
    using assms by (simp_all only: distinct_map_sort_key)
qed (simp_all add: assms)

lemma sort_key_set_iff:
  fixes k :: "'a \<Rightarrow> 'b :: linorder"
  assumes "distinct (map k xs)" "distinct (map k ys)"
  shows "sort_key k xs = sort_key k ys \<longleftrightarrow> set xs = set ys"
  using sort_key_canonical [OF assms] by (metis set_sort)

definition digest_payload :: "hasher \<Rightarrow> fingerprint_entry list \<Rightarrow> string" where
  "digest_payload h es = ''parqonaut-dataset-fp-v1'' @ [CHR 0x00] @
     render_json h (JArr (map fingerprint_json (sort_key fe_relative_path es)))"

lemma digest_entries_payload: "digest_entries h es = sha256_hex h (digest_payload h es)"
  by (simp add: digest_entries_def digest_payload_def)

lemma fingerprint_digest:
  "fp_digest (compute_dataset_fingerprint h root ivt) = sha256_hex h (digest_payload h (fingerprint_entries root ivt))"
  by (simp add: compute_dataset_fingerprint_def Let_def digest_entries_payload)

lemma digest_payload_eq:
  assumes "inj (render_json h)"
  shows "digest_payload h es = digest_payload h es' \<longleftrightarrow> sort_key fe_relative_path es = sort_key fe_relative_path es'"
  by (simp add: digest_payload_def inj_eq [OF assms] inj_map_eq_map [OF inj_fingerprint_json])

lemma fingerprint_entries_distinct:
  assumes "distinct (map (\<lambda>f. relativize root (pf_path f)) (inv_files ivt))"
  shows "distinct (map fe_relative_path (fingerprint_entries root ivt))"
  unfolding fingerprint_entries_def distinct_map_sort_key using assms by (simp add: comp_def)


section \<open>A plan over two files\<close>

text \<open>A hasher and a reader for the witnesses: an injective rendering, and footers of one row.\<close>

instance json :: countable
  by countable_datatype

definition plain_hasher :: hasher where
  "plain_hasher = \<lparr>sha256_hex = (\<lambda>s. s), canonical_json = (\<lambda>_. []),
     render_json = (\<lambda>j. replicate (to_nat j) (CHR ''x''))\<rparr>"

definition one_row_inspector :: inspector where
  "one_row_inspector a = Inr \<lparr>in_num_rows = 1, in_num_row_groups = 1, in_compressed_sizes = [100],
     in_codecs = [''ZSTD''], in_signature = ''x=INT32'', in_fields = [], in_statistics = True\<rparr>"

definition small_rg_finding :: "string \<Rightarrow> finding" where
  "small_rg_finding i = \<lparr>fi_id = i, fi_code = SMALL_ROW_GROUP, fi_summary = [], fi_payload = None\<rparr>"

definition two_file_scan :: scan_report where
  "two_file_scan = \<lparr>sc_scan_id = ''s'',
     sc_assets = [\<lparr>as_path = ''/d/a'', as_format = FmtParquet, as_size = 5\<rparr>,
       \<lparr>as_path = ''/d/b'', as_format = FmtParquet, as_size = 7\<rparr>],
     sc_findings = [small_rg_finding ''1'', small_rg_finding ''2'']\<rparr>"

definition const_hasher :: hasher where
  "const_hasher = \<lparr>sha256_hex = (\<lambda>s. s), canonical_json = (\<lambda>_. []), render_json = (\<lambda>j. [])\<rparr>"

definition demo_plan :: "(repair_error, repair_plan) res" where
  "demo_plan = generate_plan const_hasher one_row_inspector (\<lambda>_. ''u'') (\<lambda>_. ''p'') ''0.1'' ''/d'' two_file_scan
     effective_policy_default None"

definition demo_inventory :: inventory where
  "demo_inventory = projr (inventory_from_scan one_row_inspector ''/d'' two_file_scan)"

lemma demo_plan_ok: "\<not> isl demo_plan \<and> operations (projr demo_plan) \<noteq> []"
  by code_simp

lemma demo_inventory_ok: "\<not> isl (inventory_from_scan one_row_inspector ''/d'' two_file_scan) \<and>
    row_groups_finding (\<lambda>_. ''u'') demo_inventory (ep_repair effective_policy_default) = []"
  by code_simp

lemma demo_scan_hits: "list_all (\<lambda>f. fi_code f \<noteq> ROW_GROUPS) (sc_findings two_file_scan) \<and>
    length (filter (\<lambda>f. fi_code f = SMALL_ROW_GROUP) (sc_findings two_file_scan)) = 2"
  by code_simp

lemma demo_plan_eq: "generate_plan const_hasher one_row_inspector (\<lambda>_. ''u'') (\<lambda>_. ''p'') ''0.1'' ''/d'' two_file_scan
     effective_policy_default None = Inr (projr demo_plan)"
  using demo_plan_ok unfolding demo_plan_def by (metis sum.collapse(2))

section \<open>Results\<close>

text \<open>
  C9. A generated plan never contains a destructive operation, and an operation it marks
  safe, which runs without authorization, has an action that is safe by nature: no column
  is cast, aligned or renamed and no data repartitioned without review.
\<close>

theorem generated_plan_safety:
  assumes "generate_plan h inspect uuid pf version root scan policy target = Inr plan"
    and "op \<in> set (operations plan)"
  shows "safety op \<noteq> Destructive \<and> (safety op = Safe \<longrightarrow> default_safety (action op) = Safe)"
proof -
  obtain ivt resolution and dx :: diagnosis_report where "operations plan = assign_dependencies (map operation_of
       (proposed_operations h root scan (dx_findings dx) ivt policy resolution))"
    by (rule generate_plan_operations [OF assms(1)]) blast
  then obtain y where y: "y \<in> set (map operation_of (proposed_operations h root scan (dx_findings dx) ivt policy resolution))"
    "safety op = safety y" "action op = action y"
    using assigned_member [of op] assms(2) by metis
  then obtain p where p: "p \<in> set (proposed_operations h root scan (dx_findings dx) ivt policy resolution)"
    "y = operation_of p" by auto
  have "proposal_ok p" using p(1) proposed_ok unfolding list_all_iff by blast
  then show ?thesis using y p by (simp add: operation_of_def proposal_ok_def)
qed

theorem generated_plan_safety_witness:
  "\<not> isl demo_plan \<and> operations (projr demo_plan) \<noteq> [] \<and> safety (hd (operations (projr demo_plan))) \<noteq> Destructive"
  using generated_plan_safety [OF demo_plan_eq, of "hd (operations (projr demo_plan))"] demo_plan_ok by simp

text \<open>
  Two findings of suspiciously small row groups in a scan, which the scanner reports
  once per file, give two operations with the same id when the diagnosis itself proposes no
  row-group rewrite; the generated plan then cannot be sorted, so it can never be executed.
\<close>

theorem small_row_group_findings_break_plan:
  assumes "generate_plan h inspect uuid pf version root scan policy target = Inr plan"
    and "inventory_from_scan inspect root scan = Inr ivt"
    and "row_groups_finding uuid ivt (ep_repair policy) = []"
    and "\<forall>f \<in> set (sc_findings scan). fi_code f \<noteq> ROW_GROUPS"
    and "2 \<le> length (filter (\<lambda>f. fi_code f = SMALL_ROW_GROUP) (sc_findings scan))"
  shows "\<not> (\<exists>out. sort_by_dependencies (operations plan) = Inr out)"
proof -
  obtain dx resolution where dx: "diagnose inspect uuid root scan (ep_repair policy) = Inr dx"
    and ops: "operations plan = assign_dependencies (map operation_of
       (proposed_operations h root scan (dx_findings dx) ivt policy resolution))"
    by (rule generate_plan_operations [OF assms(1)]) (use assms(2) in simp)
  have codes: "\<forall>f \<in> set (dx_findings dx). fi_code f \<noteq> ROW_GROUPS"
    by (rule diagnose_no_row_groups [OF dx assms(2-4)])
  have "\<not> distinct (map po_id (proposed_operations h root scan (dx_findings dx) ivt policy resolution))"
    using scan_hits_collide [OF codes assms(5)] by (simp add: proposed_operations_def)
  then have "\<not> distinct (map operation_id (operations plan))"
    unfolding ops mset_eq_imp_distinct_iff [OF assigned_ids] by (simp add: comp_def operation_of_def)
  then show ?thesis using sort_by_dependencies_distinct by blast
qed

theorem small_row_group_findings_break_plan_witness:
  "\<not> isl demo_plan \<and> \<not> (\<exists>out. sort_by_dependencies (operations (projr demo_plan)) = Inr out)"
proof -
  have i: "inventory_from_scan one_row_inspector ''/d'' two_file_scan = Inr demo_inventory"
    using demo_inventory_ok unfolding demo_inventory_def by (metis sum.collapse(2))
  show ?thesis
    using small_row_group_findings_break_plan [OF demo_plan_eq i] demo_inventory_ok demo_scan_hits demo_plan_ok
    unfolding list_all_iff by simp
qed

text \<open>
  C10. The fingerprint of a dataset depends on the set of file entries only: two inventories,
  of files with distinct relative paths, have the same digest exactly when they list the same
  paths with the same size, rows, row groups, schema signature and codecs, in whatever order
  they were found. The hash is assumed not to collide on the two payloads.
\<close>

theorem fingerprint_detects_changes:
  assumes "inj (render_json h)"
    and "inj_on (sha256_hex h) {digest_payload h (fingerprint_entries root a), digest_payload h (fingerprint_entries root b)}"
    and "distinct (map (\<lambda>f. relativize root (pf_path f)) (inv_files a))"
    and "distinct (map (\<lambda>f. relativize root (pf_path f)) (inv_files b))"
  shows "fp_digest (compute_dataset_fingerprint h root a) = fp_digest (compute_dataset_fingerprint h root b) \<longleftrightarrow>
     set (fp_entries (compute_dataset_fingerprint h root a)) = set (fp_entries (compute_dataset_fingerprint h root b))"
proof -
  note d = assms(3,4) [THEN fingerprint_entries_distinct]
  have "fp_digest (compute_dataset_fingerprint h root a) = fp_digest (compute_dataset_fingerprint h root b) \<longleftrightarrow>
      digest_payload h (fingerprint_entries root a) = digest_payload h (fingerprint_entries root b)"
    unfolding fingerprint_digest by (rule inj_on_eq_iff [OF assms(2)]) simp_all
  then show ?thesis
    by (simp add: digest_payload_eq [OF assms(1)] sort_key_set_iff [OF d] compute_dataset_fingerprint_def Let_def)
qed

lemma plain_hasher_inj: "inj (render_json plain_hasher)" "inj (sha256_hex plain_hasher)"
  by (auto simp: plain_hasher_def inj_def dest: arg_cong [where f = length])

theorem fingerprint_detects_changes_witness:
  "fp_digest (compute_dataset_fingerprint plain_hasher ''/d'' demo_inventory) \<noteq>
   fp_digest (compute_dataset_fingerprint plain_hasher ''/d'' (demo_inventory\<lparr>inv_files := tl (inv_files demo_inventory)\<rparr>))"
proof -
  let ?b = "demo_inventory\<lparr>inv_files := tl (inv_files demo_inventory)\<rparr>"
  have d: "distinct (map (\<lambda>f. relativize ''/d'' (pf_path f)) (inv_files demo_inventory))"
    "distinct (map (\<lambda>f. relativize ''/d'' (pf_path f)) (inv_files ?b))" by code_simp+
  have "length (fingerprint_entries ''/d'' demo_inventory) = 2" "length (fingerprint_entries ''/d'' ?b) = 1"
    by code_simp+
  then have "set (fingerprint_entries ''/d'' demo_inventory) \<noteq> set (fingerprint_entries ''/d'' ?b)"
    using d [THEN fingerprint_entries_distinct, unfolded distinct_map, THEN conjunct1, THEN distinct_card] by force
  then show ?thesis
    using fingerprint_detects_changes [OF plain_hasher_inj(1) inj_on_subset [OF plain_hasher_inj(2) subset_UNIV] d]
    by (simp add: compute_dataset_fingerprint_def Let_def)
qed

text \<open>
  The CI check reports no destructive operation, one blocked operation per unresolvable
  schema conflict, and exits with 0 exactly when it gives no reason; it exits with 4 exactly
  when there are conflicts and the policy fails on them, so the destructive gate of the
  policy never decides the outcome of a generated plan.
\<close>

theorem evaluate_check_report:
  assumes "evaluate_check h inspect uuid pf version root scan policy = Inr r"
  shows "ck_destructive r = 0 \<and> ck_blocked r = ck_unresolvable r \<and>
     (ck_exit r = Compliant \<longleftrightarrow> ck_reasons r = []) \<and>
     (ck_exit r = UnresolvableOrPolicyViolation \<longleftrightarrow> ck_unresolvable r > 0 \<and>
       fail_on_unresolvable_schema (case ep_ci policy of None \<Rightarrow> ci_policy_default | Some ci \<Rightarrow> ci))"
proof -
  let ?ci = "case ep_ci policy of None \<Rightarrow> ci_policy_default | Some ci \<Rightarrow> ci"
  obtain plan where g: "generate_plan h inspect uuid pf version root scan policy None = Inr plan"
    and r: "r = check_plan ?ci plan"
    using assms unfolding evaluate_check_def bind_res_Inr_iff by blast
  note c = generate_plan_counts [OF g]
  show ?thesis unfolding r check_plan_exit using c by (simp add: check_plan_def Let_def)
qed

definition demo_check :: "(repair_error, check_report) res" where
  "demo_check = evaluate_check const_hasher one_row_inspector (\<lambda>_. ''u'') (\<lambda>_. ''p'') ''0.1'' ''/d'' two_file_scan
     effective_policy_default"

lemma demo_check_ok: "\<not> isl demo_check" "ck_safe (projr demo_check) = 2"
  by code_simp+

theorem evaluate_check_report_witness:
  "\<not> isl demo_check \<and> ck_safe (projr demo_check) = 2 \<and> ck_destructive (projr demo_check) = 0 \<and>
     (ck_exit (projr demo_check) = Compliant \<longleftrightarrow> ck_reasons (projr demo_check) = [])"
  using evaluate_check_report [of const_hasher one_row_inspector "\<lambda>_. ''u''" "\<lambda>_. ''p''" "''0.1''" "''/d''" two_file_scan
    effective_policy_default "projr demo_check"] demo_check_ok unfolding demo_check_def by (metis sum.collapse(2))

end
