(* ===== verification/Transform_Engine.thy ===== *)
theory Transform_Engine
  imports Schema_Compat
begin

text \<open>
  The rewriting engine of \<open>parqonaut-transform\<close>: \<open>merge_parquet_files\<close>,
  \<open>split_parquet_file\<close>, \<open>rewrite_parquet_file\<close> (\<open>engine/merge.rs\<close>),
  \<open>rewrite_parquet_with_cast\<close> (\<open>engine/cast.rs\<close>), \<open>rewrite_parquet_with_rename\<close>
  (\<open>engine/rename.rs\<close>) and the writer (\<open>output/writer.rs\<close>).

  A file system is a map from paths to contents. The arrow and parquet crates are the
  fields of a \<open>parquet_io\<close>: decoding a file into a schema and record batches, encoding
  batches, the memory size of a batch, the cast kernel and the checked construction of a
  batch. A writer holds its batches until it is closed, so an encoding error appears at the
  close. What the engine relies on is \<open>parquet_roundtrip\<close>: decoding an encoded file gives
  its schema and its rows, in batches of any size.
\<close>

section \<open>Arrow data\<close>

datatype data_type = DtInt32 | DtInt64 | DtUtf8 | DtFloat64 | DtOther string

record arrow_field =
  af_name :: string
  af_type :: data_type
  af_nullable :: bool

type_synonym arrow_schema = "arrow_field list"
type_synonym cell = string

record batch =
  b_len :: nat
  b_columns :: "cell list list"

definition batch_rows :: "batch \<Rightarrow> cell list list" where
  "batch_rows b = map (\<lambda>i. map (\<lambda>col. col ! i) (b_columns b)) [0..<b_len b]"

datatype transform_error =
    TfIo string
  | TfParquet string
  | TfArrow string
  | TfColumnar string
  | TfInvalidInput string
  | TfSchemaMismatch string
  | TfFilterError string
  | TfSpecError string
  | TfS3Error string
  | TfUnsupported string

datatype codec_name = UNCOMPRESSED | SNAPPY | GZIP | LZO | BROTLI | LZ4 | ZSTD | LZ4_RAW

definition compression_from_str :: "string \<Rightarrow> (transform_error, codec_name) res" where
  "compression_from_str s =
     (let l = to_lowercase s in
      if l = ''uncompressed'' then Inr UNCOMPRESSED
      else if l = ''snappy'' then Inr SNAPPY
      else if l = ''gzip'' then Inr GZIP
      else if l = ''lzo'' then Inr LZO
      else if l = ''brotli'' then Inr BROTLI
      else if l = ''lz4'' then Inr LZ4
      else if l = ''zstd'' then Inr ZSTD
      else if l = ''lz4_raw'' then Inr LZ4_RAW
      else Inl (TfInvalidInput (''Unknown compression: '' @ s)))"

definition compression_option :: "string option \<Rightarrow> (transform_error, codec_name option) res" where
  "compression_option c = (case c of None \<Rightarrow> Inr None | Some s \<Rightarrow> bind_res (compression_from_str s) (\<lambda>k. Inr (Some k)))"

text \<open>\<open>WriterProperties\<close> as \<open>ParquetWriter::new\<close> sets them.\<close>

record writer_props =
  wp_compression :: "codec_name option"
  wp_max_row_group :: u64
  wp_statistics :: bool

definition writer_props_new :: "codec_name option \<Rightarrow> u64 option \<Rightarrow> bool \<Rightarrow> writer_props" where
  "writer_props_new codec row_group_mb rebuild_stats =
     \<lparr>wp_compression = codec,
      wp_max_row_group = (case row_group_mb of None \<Rightarrow> 128 * 1024 * 1024 | Some mb \<Rightarrow> mb * 1024 * 1024),
      wp_statistics = rebuild_stats\<rparr>"

record parquet_io =
  pq_open :: "string \<Rightarrow> (string, arrow_schema \<times> (string, batch) res list) res"
  pq_encode :: "writer_props \<Rightarrow> arrow_schema \<Rightarrow> batch list \<Rightarrow> (string, string) res"
  pq_batch_bytes :: "batch \<Rightarrow> u64"
  pq_cast :: "data_type \<Rightarrow> cell list \<Rightarrow> (string, cell list) res"
  pq_try_new :: "arrow_schema \<Rightarrow> cell list list \<Rightarrow> (string, batch) res"

section \<open>Files\<close>

type_synonym file_system = "(path \<times> string) list"

definition fs_read :: "file_system \<Rightarrow> path \<Rightarrow> string option" where
  "fs_read fs p = map_of fs p"

definition fs_write :: "path \<Rightarrow> string \<Rightarrow> file_system \<Rightarrow> file_system" where
  "fs_write p bytes fs = bt_insert p bytes fs"

definition fs_remove :: "path \<Rightarrow> file_system \<Rightarrow> file_system" where
  "fs_remove p fs = bt_remove p fs"

definition open_parquet ::
  "parquet_io \<Rightarrow> file_system \<Rightarrow> path \<Rightarrow> (transform_error, arrow_schema \<times> (string, batch) res list) res" where
  "open_parquet io fs p = (case fs_read fs p of None \<Rightarrow> Inl (TfIo p)
     | Some bytes \<Rightarrow> map_err TfParquet (pq_open io bytes))"

record writer =
  w_path :: path
  w_props :: writer_props
  w_schema :: arrow_schema
  w_batches :: "batch list"

definition close_writer :: "parquet_io \<Rightarrow> writer \<Rightarrow> file_system \<Rightarrow> (transform_error, file_system) res" where
  "close_writer io w fs =
     bind_res (map_err TfParquet (pq_encode io (w_props w) (w_schema w) (w_batches w))) (\<lambda>bytes.
       Inr (fs_write (w_path w) bytes fs))"

section \<open>Merging and splitting\<close>

record merge_state =
  ms_fs :: file_system
  ms_outputs :: "path list"
  ms_part :: nat
  ms_bytes :: u64
  ms_writer :: "writer option"
  ms_schema :: "arrow_schema option"

record merge_config =
  mc_dir :: path
  mc_basename :: string
  mc_target :: u64
  mc_props :: writer_props
  mc_exact :: "path option"

definition part_name :: "string \<Rightarrow> nat \<Rightarrow> string" where
  "part_name basename i = basename @ ''-part-'' @ show_nat04 i @ ''.parquet''"

definition part_path :: "merge_config \<Rightarrow> nat \<Rightarrow> path" where
  "part_path cfg i = (case mc_exact cfg of
       Some p \<Rightarrow> if i = 0 then p else path_join (mc_dir cfg) (part_name (mc_basename cfg) i)
     | None \<Rightarrow> path_join (mc_dir cfg) (part_name (mc_basename cfg) i))"

definition close_part :: "parquet_io \<Rightarrow> merge_state \<Rightarrow> (transform_error, merge_state) res" where
  "close_part io st = (case ms_writer st of None \<Rightarrow> Inr st
     | Some w \<Rightarrow> bind_res (close_writer io w (ms_fs st)) (\<lambda>fs. Inr (st\<lparr>ms_fs := fs, ms_writer := None\<rparr>)))"

text \<open>\<open>File::create\<close> truncates the file; its contents appear when the writer is closed.\<close>

definition open_part :: "merge_config \<Rightarrow> arrow_schema \<Rightarrow> merge_state \<Rightarrow> merge_state" where
  "open_part cfg schema st =
     (let p = part_path cfg (ms_part st)
      in st\<lparr>ms_fs := fs_write p [] (ms_fs st), ms_outputs := ms_outputs st @ [p], ms_part := ms_part st + 1,
            ms_bytes := 0, ms_writer := Some \<lparr>w_path = p, w_props = mc_props cfg, w_schema = schema, w_batches = []\<rparr>\<rparr>)"

definition push_batch :: "u64 \<Rightarrow> batch \<Rightarrow> merge_state \<Rightarrow> merge_state" where
  "push_batch bytes b st =
     st\<lparr>ms_writer := map_option (\<lambda>w. w\<lparr>w_batches := w_batches w @ [b]\<rparr>) (ms_writer st),
        ms_bytes := ms_bytes st + bytes\<rparr>"

definition needs_part :: "merge_config \<Rightarrow> u64 \<Rightarrow> merge_state \<Rightarrow> bool" where
  "needs_part cfg bytes st \<longleftrightarrow>
     ms_writer st = None \<or> (ms_bytes st + bytes > mc_target cfg \<and> ms_bytes st > 0)"

definition merge_batch ::
  "parquet_io \<Rightarrow> merge_config \<Rightarrow> arrow_schema \<Rightarrow> batch \<Rightarrow> merge_state \<Rightarrow> (transform_error, merge_state) res" where
  "merge_batch io cfg schema b st =
     (let bytes = pq_batch_bytes io b
      in if needs_part cfg bytes st
         then bind_res (close_part io st) (\<lambda>st'. Inr (push_batch bytes b (open_part cfg schema st')))
         else Inr (push_batch bytes b st))"

fun merge_batches ::
  "parquet_io \<Rightarrow> merge_config \<Rightarrow> arrow_schema \<Rightarrow> (string, batch) res list \<Rightarrow> merge_state \<Rightarrow>
   (transform_error, merge_state) res" where
  "merge_batches io cfg schema [] st = Inr st"
| "merge_batches io cfg schema (r # rs) st =
     bind_res (map_err TfArrow r) (\<lambda>b. bind_res (merge_batch io cfg schema b st) (merge_batches io cfg schema rs))"

definition merge_input ::
  "parquet_io \<Rightarrow> merge_config \<Rightarrow> path \<Rightarrow> merge_state \<Rightarrow> (transform_error, merge_state) res" where
  "merge_input io cfg input st =
     bind_res (open_parquet io (ms_fs st) input) (\<lambda>(schema, batches).
       if ms_schema st \<noteq> None \<and> ms_schema st \<noteq> Some schema
       then Inl (TfInvalidInput (''schema mismatch during merge at '' @ input))
       else merge_batches io cfg schema batches (st\<lparr>ms_schema := Some schema\<rparr>))"

fun merge_inputs ::
  "parquet_io \<Rightarrow> merge_config \<Rightarrow> path list \<Rightarrow> merge_state \<Rightarrow> (transform_error, merge_state) res" where
  "merge_inputs io cfg [] st = Inr st"
| "merge_inputs io cfg (p # ps) st = bind_res (merge_input io cfg p st) (merge_inputs io cfg ps)"

definition merge_parquet_files ::
  "parquet_io \<Rightarrow> path list \<Rightarrow> path \<Rightarrow> string \<Rightarrow> u64 \<Rightarrow> string option \<Rightarrow> u64 option \<Rightarrow> bool \<Rightarrow> path option \<Rightarrow>
   file_system \<Rightarrow> (transform_error, path list \<times> file_system) res" where
  "merge_parquet_files io inputs output_dir output_basename target_bytes compression row_group_mb rebuild_stats exact_output fs =
     (if inputs = [] then Inl (TfInvalidInput ''no inputs for merge'')
      else bind_res (compression_option compression) (\<lambda>codec.
        let cfg = \<lparr>mc_dir = output_dir, mc_basename = output_basename, mc_target = target_bytes,
              mc_props = writer_props_new codec row_group_mb rebuild_stats, mc_exact = exact_output\<rparr>;
            st = \<lparr>ms_fs = fs, ms_outputs = [], ms_part = 0, ms_bytes = 0, ms_writer = None, ms_schema = None\<rparr>
        in bind_res (merge_inputs io cfg (sort inputs) st) (\<lambda>st.
           bind_res (close_part io st) (\<lambda>st. Inr (ms_outputs st, ms_fs st)))))"

definition split_parquet_file ::
  "parquet_io \<Rightarrow> path \<Rightarrow> path \<Rightarrow> string \<Rightarrow> u64 \<Rightarrow> string option \<Rightarrow> u64 option \<Rightarrow> bool \<Rightarrow>
   file_system \<Rightarrow> (transform_error, path list \<times> file_system) res" where
  "split_parquet_file io input output_dir output_basename target_bytes compression row_group_mb rebuild_stats fs =
     merge_parquet_files io [input] output_dir output_basename target_bytes compression row_group_mb rebuild_stats None fs"

section \<open>Rewriting one file\<close>

text \<open>The output is created before the batches are read; input and output differ.\<close>

fun map_batches ::
  "(batch \<Rightarrow> (transform_error, batch) res) \<Rightarrow> (string, batch) res list \<Rightarrow> (transform_error, batch list) res" where
  "map_batches f [] = Inr []"
| "map_batches f (r # rs) =
     bind_res (map_err TfArrow r) (\<lambda>b. bind_res (f b) (\<lambda>b'. bind_res (map_batches f rs) (\<lambda>bs. Inr (b' # bs))))"

definition rewrite_with ::
  "parquet_io \<Rightarrow> (batch \<Rightarrow> (transform_error, batch) res) \<Rightarrow> arrow_schema \<Rightarrow> writer_props \<Rightarrow> path \<Rightarrow>
   (string, batch) res list \<Rightarrow> file_system \<Rightarrow> (transform_error, file_system) res" where
  "rewrite_with io f out_schema props output batches fs =
     bind_res (map_batches f batches) (\<lambda>bs.
       close_writer io \<lparr>w_path = output, w_props = props, w_schema = out_schema, w_batches = bs\<rparr> (fs_write output [] fs))"

definition rewrite_parquet_file ::
  "parquet_io \<Rightarrow> path \<Rightarrow> path \<Rightarrow> string option \<Rightarrow> u64 option \<Rightarrow> bool \<Rightarrow> file_system \<Rightarrow>
   (transform_error, file_system) res" where
  "rewrite_parquet_file io input output compression row_group_mb rebuild_stats fs =
     bind_res (open_parquet io fs input) (\<lambda>(schema, batches).
     bind_res (compression_option compression) (\<lambda>codec.
       rewrite_with io Inr schema (writer_props_new codec row_group_mb rebuild_stats) output batches fs))"

fun field_position :: "string \<Rightarrow> arrow_schema \<Rightarrow> nat option" where
  "field_position n [] = None"
| "field_position n (f # fs) = (if af_name f = n then Some 0 else map_option Suc (field_position n fs))"

definition parse_cast_target :: "data_type \<Rightarrow> bool \<Rightarrow> string \<Rightarrow> (transform_error, data_type \<times> bool) res" where
  "parse_cast_target current current_nullable label =
     (case strip_prefix (to_lowercase label) ''nullable='' of
        Some v \<Rightarrow> Inr (current, v = ''true'')
      | None \<Rightarrow>
          (let upper = to_uppercase label in
           if str_contains upper ''INT64'' then Inr (DtInt64, current_nullable)
           else if str_contains upper ''INT32'' then Inr (DtInt32, current_nullable)
           else if str_contains upper ''UTF8'' \<or> str_contains upper ''STRING'' then Inr (DtUtf8, current_nullable)
           else if str_contains upper ''FLOAT'' \<or> str_contains upper ''DOUBLE'' then Inr (DtFloat64, current_nullable)
           else Inl (TfInvalidInput (''unsupported cast target: '' @ label))))"

definition cast_batch ::
  "parquet_io \<Rightarrow> arrow_schema \<Rightarrow> nat \<Rightarrow> data_type \<Rightarrow> data_type \<Rightarrow> batch \<Rightarrow> (transform_error, batch) res" where
  "cast_batch io out_schema i current target b =
     bind_res (if current = target then Inr (b_columns b ! i)
               else map_err (\<lambda>e. TfInvalidInput (''cast failed: '' @ e)) (pq_cast io target (b_columns b ! i))) (\<lambda>casted.
       map_err TfInvalidInput (pq_try_new io out_schema ((b_columns b)[i := casted])))"

definition rewrite_parquet_with_cast ::
  "parquet_io \<Rightarrow> path \<Rightarrow> path \<Rightarrow> string \<Rightarrow> string \<Rightarrow> string option \<Rightarrow> u64 option \<Rightarrow> bool \<Rightarrow> file_system \<Rightarrow>
   (transform_error, file_system) res" where
  "rewrite_parquet_with_cast io input output column target_type compression row_group_mb rebuild_stats fs =
     bind_res (open_parquet io fs input) (\<lambda>(schema, batches).
       case field_position column schema of
         None \<Rightarrow> Inl (TfInvalidInput (''column not found: '' @ column))
       | Some i \<Rightarrow>
           bind_res (parse_cast_target (af_type (schema ! i)) (af_nullable (schema ! i)) target_type) (\<lambda>(dt, nullable).
           bind_res (compression_option compression) (\<lambda>codec.
             let out_schema = schema[i := \<lparr>af_name = column, af_type = dt, af_nullable = nullable\<rparr>]
             in rewrite_with io (cast_batch io out_schema i (af_type (schema ! i)) dt) out_schema
                  (writer_props_new codec row_group_mb rebuild_stats) output batches fs)))"

definition rewrite_parquet_with_rename ::
  "parquet_io \<Rightarrow> path \<Rightarrow> path \<Rightarrow> string \<Rightarrow> string \<Rightarrow> string option \<Rightarrow> u64 option \<Rightarrow> bool \<Rightarrow> file_system \<Rightarrow>
   (transform_error, file_system) res" where
  "rewrite_parquet_with_rename io input output from_col to_col compression row_group_mb rebuild_stats fs =
     (if from_col = to_col then Inl (TfInvalidInput ''rename from and to must differ'')
      else bind_res (open_parquet io fs input) (\<lambda>(schema, batches).
        case field_position from_col schema of
          None \<Rightarrow> Inl (TfInvalidInput (''column not found: '' @ from_col))
        | Some i \<Rightarrow>
            if list_ex (\<lambda>f. af_name f = to_col) schema
            then Inl (TfInvalidInput (''target column already exists: '' @ to_col))
            else bind_res (compression_option compression) (\<lambda>codec.
              let out_schema = schema[i := (schema ! i)\<lparr>af_name := to_col\<rparr>]
              in rewrite_with io (\<lambda>b. map_err (\<lambda>e. TfInvalidInput (''rename batch failed: '' @ e))
                     (pq_try_new io out_schema (b_columns b))) out_schema
                   (writer_props_new codec row_group_mb rebuild_stats) output batches fs)))"


section \<open>What the engine preserves\<close>

definition decode_file :: "parquet_io \<Rightarrow> string \<Rightarrow> (arrow_schema \<times> cell list list) option" where
  "decode_file io bytes = (case pq_open io bytes of Inl _ \<Rightarrow> None
     | Inr (schema, rs) \<Rightarrow> (case collect_res rs of Inl _ \<Rightarrow> None
         | Inr bs \<Rightarrow> Some (schema, concat (map batch_rows bs))))"

definition read_rows :: "parquet_io \<Rightarrow> file_system \<Rightarrow> path \<Rightarrow> cell list list option" where
  "read_rows io fs p = (case fs_read fs p of None \<Rightarrow> None
     | Some bytes \<Rightarrow> map_option snd (decode_file io bytes))"

definition parquet_roundtrip :: "parquet_io \<Rightarrow> bool" where
  "parquet_roundtrip io \<longleftrightarrow> (\<forall>props schema bs bytes. pq_encode io props schema bs = Inr bytes \<longrightarrow>
     decode_file io bytes = Some (schema, concat (map batch_rows bs)))"

lemma fs_read_write [simp]: "fs_read (fs_write p bytes fs) q = (if q = p then Some bytes else fs_read fs q)"
  by (simp add: fs_read_def fs_write_def)

lemma fs_read_remove [simp]: "fs_read (fs_remove p fs) q = (if q = p then None else fs_read fs q)"
  by (simp add: fs_read_def fs_remove_def)

lemma read_rows_cong: "fs_read fs p = fs_read fs' p \<Longrightarrow> read_rows io fs p = read_rows io fs' p"
  by (simp add: read_rows_def)

lemma close_writer_ok:
  assumes "close_writer io w fs = Inr fs'" "parquet_roundtrip io"
  shows "read_rows io fs' (w_path w) = Some (concat (map batch_rows (w_batches w)))"
    and "p \<noteq> w_path w \<Longrightarrow> fs_read fs' p = fs_read fs p"
  using assms by (auto simp: close_writer_def bind_res_Inr_iff read_rows_def parquet_roundtrip_def)

lemma open_parquet_rows:
  assumes "open_parquet io fs p = Inr (schema, rs)" "collect_res rs = Inr bs"
  shows "read_rows io fs p = Some (concat (map batch_rows bs))"
  using assms by (auto simp: open_parquet_def read_rows_def decode_file_def split: option.splits)

lemma map_batches_Inr: "map_batches f rs = Inr bs' \<Longrightarrow>
    \<exists>bs. collect_res rs = Inr bs \<and> list_all2 (\<lambda>b b'. f b = Inr b') bs bs'"
proof (induction rs arbitrary: bs')
  case (Cons r rs)
  then obtain b b' cs where "r = Inr b" "f b = Inr b'" "map_batches f rs = Inr cs" "bs' = b' # cs"
    by (auto simp: bind_res_Inr_iff)
  with Cons.IH [of cs] show ?case by auto
qed simp

subsection \<open>Part names\<close>

lemma part_name_inj: "part_name base i = part_name base j \<longleftrightarrow> i = j"
  by (simp add: part_name_def)

lemma path_join_inj: "is_absolute a = is_absolute b \<Longrightarrow> path_join d a = path_join d b \<longleftrightarrow> a = b"
  by (auto simp: path_join_def)

lemma part_name_absolute: "is_absolute (part_name base i) = is_absolute (part_name base j)"
  by (cases base) (simp_all add: part_name_def is_absolute_def str_starts_with_def)

lemma part_path_inj: "mc_exact cfg = None \<Longrightarrow> part_path cfg i = part_path cfg j \<longleftrightarrow> i = j"
  using path_join_inj [OF part_name_absolute, of "mc_dir cfg" "mc_basename cfg" i j]
  by (simp add: part_path_def part_name_inj)

subsection \<open>Merging keeps every row\<close>

definition closed_parts :: "merge_state \<Rightarrow> path list" where
  "closed_parts st = (if ms_writer st = None then ms_outputs st else butlast (ms_outputs st))"

definition pending_rows :: "merge_state \<Rightarrow> cell list list" where
  "pending_rows st = (case ms_writer st of None \<Rightarrow> [] | Some w \<Rightarrow> concat (map batch_rows (w_batches w)))"

text \<open>
  The invariant of the merge loop: the parts are numbered from 0, the open writer is the
  last of them, files that are no part are as at the start, and the rows of the closed parts
  followed by those of the open writer are the rows read so far.
\<close>

definition merge_inv :: "parquet_io \<Rightarrow> merge_config \<Rightarrow> file_system \<Rightarrow> cell list list \<Rightarrow> merge_state \<Rightarrow> bool" where
  "merge_inv io cfg fs0 acc st \<longleftrightarrow>
     ms_outputs st = map (part_path cfg) [0..<ms_part st] \<and>
     (\<forall>w. ms_writer st = Some w \<longrightarrow> ms_part st > 0 \<and> w_path w = part_path cfg (ms_part st - 1)) \<and>
     (\<forall>p. p \<notin> set (ms_outputs st) \<longrightarrow> fs_read (ms_fs st) p = fs_read fs0 p) \<and>
     (\<exists>rss. map (read_rows io (ms_fs st)) (closed_parts st) = map Some rss \<and> acc = concat rss @ pending_rows st)"

lemma merge_inv_close:
  assumes inv: "merge_inv io cfg fs0 acc st" and rt: "parquet_roundtrip io" and ex: "mc_exact cfg = None"
    and cl: "close_part io st = Inr st'"
  shows "merge_inv io cfg fs0 acc st' \<and> ms_writer st' = None \<and> ms_schema st' = ms_schema st"
proof (cases "ms_writer st")
  case None
  then show ?thesis using cl inv by (simp add: close_part_def)
next
  case (Some w)
  then obtain fs where fs: "close_writer io w (ms_fs st) = Inr fs"
    and st': "st' = st\<lparr>ms_fs := fs, ms_writer := None\<rparr>"
    using cl by (auto simp: close_part_def bind_res_Inr_iff)
  let ?n = "ms_part st - 1"
  have w: "w_path w = part_path cfg ?n" and n: "ms_part st = Suc ?n"
    and outs: "ms_outputs st = map (part_path cfg) [0..<Suc ?n]"
    using inv Some by (auto simp: merge_inv_def)
  have cp: "closed_parts st = map (part_path cfg) [0..<?n]" using Some outs by (simp add: closed_parts_def)
  obtain rss where rss: "map (read_rows io (ms_fs st)) (closed_parts st) = map Some rss"
    and acc: "acc = concat rss @ concat (map batch_rows (w_batches w))"
    using inv Some by (auto simp: merge_inv_def pending_rows_def)
  have keep: "read_rows io fs p = read_rows io (ms_fs st) p" if "p \<in> set (closed_parts st)" for p
  proof (rule read_rows_cong [OF close_writer_ok(2) [OF fs rt]])
    show "p \<noteq> w_path w" using that part_path_inj [OF ex] by (auto simp: cp w)
  qed
  have "map (read_rows io fs) (ms_outputs st) = map Some (rss @ [concat (map batch_rows (w_batches w))])"
  proof -
    have "map (read_rows io fs) (closed_parts st) = map Some rss" unfolding rss [symmetric]
      by (rule map_cong [OF refl keep])
    then show ?thesis using close_writer_ok(1) [OF fs rt] by (simp add: outs cp w)
  qed
  moreover have "fs_read fs p = fs_read fs0 p" if "p \<notin> set (ms_outputs st)" for p
  proof -
    have "p \<noteq> w_path w" using that outs w by auto
    then show ?thesis using close_writer_ok(2) [OF fs rt] inv that by (simp add: merge_inv_def)
  qed
  ultimately show ?thesis
    unfolding merge_inv_def st' closed_parts_def pending_rows_def using outs n acc
    by (intro conjI exI [of _ "rss @ [concat (map batch_rows (w_batches w))]"]) simp_all
qed

lemma merge_inv_open:
  assumes inv: "merge_inv io cfg fs0 acc st" and ex: "mc_exact cfg = None" and none: "ms_writer st = None"
  shows "merge_inv io cfg fs0 acc (open_part cfg schema st)"
proof -
  have outs: "ms_outputs st = map (part_path cfg) [0..<ms_part st]" using inv by (simp add: merge_inv_def)
  have "part_path cfg (ms_part st) \<notin> set (ms_outputs st)"
    using part_path_inj [OF ex] by (auto simp: outs)
  then have "map (read_rows io (fs_write (part_path cfg (ms_part st)) [] (ms_fs st))) (ms_outputs st) =
      map (read_rows io (ms_fs st)) (ms_outputs st)"
    by (intro map_cong refl read_rows_cong) auto
  note same = this
  obtain rss where "map (read_rows io (ms_fs st)) (ms_outputs st) = map Some rss" "acc = concat rss"
    using inv none by (auto simp: merge_inv_def closed_parts_def pending_rows_def)
  then have "\<exists>rss. map (read_rows io (ms_fs (open_part cfg schema st))) (closed_parts (open_part cfg schema st)) = map Some rss \<and>
      acc = concat rss @ pending_rows (open_part cfg schema st)"
    using same by (simp add: open_part_def Let_def closed_parts_def pending_rows_def)
  then show ?thesis using inv
    unfolding merge_inv_def by (simp add: open_part_def Let_def)
qed

lemma merge_inv_push:
  assumes "merge_inv io cfg fs0 acc st" "ms_writer st \<noteq> None"
  shows "merge_inv io cfg fs0 (acc @ batch_rows b) (push_batch n b st)"
  using assms by (auto simp: merge_inv_def push_batch_def closed_parts_def pending_rows_def)

lemma merge_inv_batch:
  assumes inv: "merge_inv io cfg fs0 acc st" and rt: "parquet_roundtrip io" and ex: "mc_exact cfg = None"
    and ok: "merge_batch io cfg schema b st = Inr st'"
  shows "merge_inv io cfg fs0 (acc @ batch_rows b) st'"
proof (cases "needs_part cfg (pq_batch_bytes io b) st")
  case True
  then obtain s where cl: "close_part io st = Inr s"
    and st': "st' = push_batch (pq_batch_bytes io b) b (open_part cfg schema s)"
    using ok by (auto simp: merge_batch_def bind_res_Inr_iff)
  have "merge_inv io cfg fs0 acc (open_part cfg schema s)"
    using merge_inv_close [OF inv rt ex cl] merge_inv_open [OF _ ex] by blast
  then show ?thesis unfolding st' by (rule merge_inv_push) (simp add: open_part_def Let_def)
next
  case False
  then show ?thesis using ok merge_inv_push [OF inv] by (auto simp: merge_batch_def needs_part_def)
qed

lemma merge_inv_batches:
  assumes "merge_inv io cfg fs0 acc st" "parquet_roundtrip io" "mc_exact cfg = None"
    and "merge_batches io cfg schema rs st = Inr st'"
  shows "\<exists>bs. collect_res rs = Inr bs \<and> merge_inv io cfg fs0 (acc @ concat (map batch_rows bs)) st'"
  using assms
proof (induction rs arbitrary: acc st)
  case (Cons r rs)
  then obtain b s where "r = Inr b" "merge_batch io cfg schema b st = Inr s" "merge_batches io cfg schema rs s = Inr st'"
    by (auto simp: bind_res_Inr_iff)
  with Cons.IH [OF merge_inv_batch [OF Cons.prems(1-3)]] Cons.prems(2,3) show ?case by fastforce
qed simp

lemma merge_inv_schema [simp]: "merge_inv io cfg fs0 acc (st\<lparr>ms_schema := x\<rparr>) = merge_inv io cfg fs0 acc st"
  by (simp add: merge_inv_def closed_parts_def pending_rows_def)

lemma merge_inv_inputs:
  assumes "merge_inv io cfg fs0 acc st" "parquet_roundtrip io" "mc_exact cfg = None"
    and "merge_inputs io cfg ps st = Inr st'" and "set ps \<inter> range (part_path cfg) = {}"
  shows "\<exists>iss. map (read_rows io fs0) ps = map Some iss \<and> merge_inv io cfg fs0 (acc @ concat iss) st'"
  using assms
proof (induction ps arbitrary: acc st)
  case (Cons p ps)
  then obtain s schema rs where o: "open_parquet io (ms_fs st) p = Inr (schema, rs)"
    and m: "merge_batches io cfg schema rs (st\<lparr>ms_schema := Some schema\<rparr>) = Inr s"
    and rest: "merge_inputs io cfg ps s = Inr st'"
    by (auto simp: bind_res_Inr_iff merge_input_def split: if_splits)
  obtain bs where bs: "collect_res rs = Inr bs" "merge_inv io cfg fs0 (acc @ concat (map batch_rows bs)) s"
    using merge_inv_batches [OF _ Cons.prems(2,3) m] Cons.prems(1) by auto
  have "p \<notin> set (ms_outputs st)" using Cons.prems(1,5) by (auto simp: merge_inv_def)
  then have "read_rows io fs0 p = Some (concat (map batch_rows bs))"
    using open_parquet_rows [OF o bs(1)] Cons.prems(1) by (metis merge_inv_def read_rows_cong)
  with Cons.IH [OF bs(2) Cons.prems(2,3) rest] Cons.prems(5) show ?case
    by (fastforce intro: exI [of _ "concat (map batch_rows bs) # _"])
qed simp

lemma merge_keeps_rows:
  assumes "parquet_roundtrip io"
    and "merge_parquet_files io inputs dir base target codec rg stats None fs = Inr (outs, fs')"
    and "\<And>i. path_join dir (part_name base i) \<notin> set inputs"
  obtains iss rss n where "map (read_rows io fs) (sort inputs) = map Some iss"
    "map (read_rows io fs') outs = map Some rss" "concat rss = concat iss"
    "outs = map (\<lambda>i. path_join dir (part_name base i)) [0..<n]"
    "\<And>p. p \<notin> set outs \<Longrightarrow> fs_read fs' p = fs_read fs p"
proof -
  obtain c where c: "compression_option codec = Inr c" using assms(2)
    by (auto simp: merge_parquet_files_def bind_res_Inr_iff split: if_splits)
  define cfg where "cfg = \<lparr>mc_dir = dir, mc_basename = base, mc_target = target,
              mc_props = writer_props_new c rg stats, mc_exact = None\<rparr>"
  define st0 where "st0 = \<lparr>ms_fs = fs, ms_outputs = [], ms_part = 0, ms_bytes = 0, ms_writer = None, ms_schema = None\<rparr>"
  have ex: "mc_exact cfg = None" by (simp add: cfg_def)
  have pp: "part_path cfg = (\<lambda>i. path_join dir (part_name base i))" by (rule ext) (simp add: part_path_def cfg_def)
  obtain s s' where s: "merge_inputs io cfg (sort inputs) st0 = Inr s" "close_part io s = Inr s'"
    "outs = ms_outputs s'" "fs' = ms_fs s'"
    using assms(2) c by (auto simp: merge_parquet_files_def bind_res_Inr_iff Let_def cfg_def st0_def split: if_splits)
  have "merge_inv io cfg fs [] st0" by (simp add: merge_inv_def st0_def closed_parts_def pending_rows_def)
  moreover have "set (sort inputs) \<inter> range (part_path cfg) = {}" using assms(3) by (auto simp: pp)
  ultimately obtain iss where iss: "map (read_rows io fs) (sort inputs) = map Some iss" "merge_inv io cfg fs (concat iss) s"
    using merge_inv_inputs [OF _ assms(1) ex s(1), of fs "[]"] by auto
  note fin = merge_inv_close [OF iss(2) assms(1) ex s(2)]
  then obtain rss where "map (read_rows io fs') outs = map Some rss" "concat rss = concat iss"
    by (auto simp: merge_inv_def closed_parts_def pending_rows_def s)
  moreover have "outs = map (\<lambda>i. path_join dir (part_name base i)) [0..<ms_part s']"
    using fin by (simp add: merge_inv_def s pp)
  moreover have "\<And>p. p \<notin> set outs \<Longrightarrow> fs_read fs' p = fs_read fs p" using fin by (simp add: merge_inv_def s)
  ultimately show thesis using that iss(1) by blast
qed

subsection \<open>Rewriting keeps rows\<close>

text \<open>
  The laws of the arrow and parquet crates that the rewriting of single files relies on:
  decoded batches have columns of the batch's length, a cast keeps the length of a column,
  and a batch is built from the given columns or refused.
\<close>

definition wf_batch :: "batch \<Rightarrow> bool" where
  "wf_batch b \<longleftrightarrow> b_columns b \<noteq> [] \<and> list_all (\<lambda>c. length c = b_len b) (b_columns b)"

definition arrow_laws :: "parquet_io \<Rightarrow> bool" where
  "arrow_laws io \<longleftrightarrow> parquet_roundtrip io \<and>
     (\<forall>bytes schema rs b. pq_open io bytes = Inr (schema, rs) \<longrightarrow> Inr b \<in> set rs \<longrightarrow> wf_batch b) \<and>
     (\<forall>dt col col'. pq_cast io dt col = Inr col' \<longrightarrow> length col' = length col) \<and>
     (\<forall>schema cols b. pq_try_new io schema cols = Inr b \<longrightarrow> b_columns b = cols \<and> wf_batch b)"

lemma arrow_roundtrip: "arrow_laws io \<Longrightarrow> parquet_roundtrip io"
  by (simp add: arrow_laws_def)

lemma try_new_rows:
  assumes "arrow_laws io" "pq_try_new io schema cols = Inr b'" "wf_batch b" "length (hd cols) = b_len b"
  shows "b_columns b' = cols" "b_len b' = b_len b"
proof -
  have "b_columns b' = cols \<and> wf_batch b'" using assms(1,2) unfolding arrow_laws_def by blast
  then show "b_columns b' = cols" "b_len b' = b_len b" using assms(4) by (cases cols; auto simp: wf_batch_def)+
qed

lemma collect_res_set: "collect_res rs = Inr bs \<Longrightarrow> b \<in> set bs \<Longrightarrow> Inr b \<in> set rs"
proof (induction rs arbitrary: bs)
  case (Cons r rs)
  then show ?case by (cases r) (auto simp: bind_res_Inr_iff split: sum.splits)
qed simp

lemma rewrite_with_rows:
  assumes laws: "arrow_laws io" and o: "open_parquet io fs input = Inr (schema, rs)"
    and rw: "rewrite_with io f out_schema props output rs fs = Inr fs'"
  obtains bs bs' where "read_rows io fs input = Some (concat (map batch_rows bs))"
    "read_rows io fs' output = Some (concat (map batch_rows bs'))" "list_all2 (\<lambda>b b'. f b = Inr b') bs bs'"
    "list_all wf_batch bs" "\<And>p. p \<noteq> output \<Longrightarrow> fs_read fs' p = fs_read fs p"
proof -
  obtain bs' where m: "map_batches f rs = Inr bs'"
    and cl: "close_writer io \<lparr>w_path = output, w_props = props, w_schema = out_schema, w_batches = bs'\<rparr> (fs_write output [] fs) = Inr fs'"
    using rw by (auto simp: rewrite_with_def bind_res_Inr_iff)
  obtain bs where bs: "collect_res rs = Inr bs" "list_all2 (\<lambda>b b'. f b = Inr b') bs bs'"
    using map_batches_Inr [OF m] by blast
  obtain bytes where "pq_open io bytes = Inr (schema, rs)" using o by (auto simp: open_parquet_def split: option.splits)
  then have "list_all wf_batch bs" using laws collect_res_set [OF bs(1)] by (auto simp: arrow_laws_def list_all_iff)
  then show thesis
    using that [OF open_parquet_rows [OF o bs(1)] _ bs(2)] close_writer_ok [OF cl arrow_roundtrip [OF laws]] by simp
qed

lemma rewrite_file_rows:
  assumes "arrow_laws io" "rewrite_parquet_file io input output codec rg stats fs = Inr fs'"
  shows "read_rows io fs input \<noteq> None" "read_rows io fs' output = read_rows io fs input"
    and "p \<noteq> output \<Longrightarrow> fs_read fs' p = fs_read fs p"
proof -
  obtain schema rs props where "open_parquet io fs input = Inr (schema, rs)"
    "rewrite_with io Inr schema props output rs fs = Inr fs'"
    using assms(2) by (auto simp: rewrite_parquet_file_def bind_res_Inr_iff)
  from rewrite_with_rows [OF assms(1) this] obtain bs bs' where r: "read_rows io fs input = Some (concat (map batch_rows bs))"
    "read_rows io fs' output = Some (concat (map batch_rows bs'))" "list_all2 (\<lambda>b b'. Inr b = (Inr b' :: (transform_error, batch) res)) bs bs'"
    and k: "\<And>p. p \<noteq> output \<Longrightarrow> fs_read fs' p = fs_read fs p" by metis
  have "bs = bs'" using r(3) by (simp add: list.rel_eq)
  then show "read_rows io fs input \<noteq> None" "read_rows io fs' output = read_rows io fs input" using r by simp_all
  show "p \<noteq> output \<Longrightarrow> fs_read fs' p = fs_read fs p" using k .
qed

lemma rename_file_rows:
  assumes "arrow_laws io" "rewrite_parquet_with_rename io input output a b codec rg stats fs = Inr fs'"
  shows "read_rows io fs input \<noteq> None" "read_rows io fs' output = read_rows io fs input"
    and "p \<noteq> output \<Longrightarrow> fs_read fs' p = fs_read fs p"
proof -
  obtain schema rs props out where "open_parquet io fs input = Inr (schema, rs)"
    "rewrite_with io (\<lambda>b. map_err (\<lambda>e. TfInvalidInput (''rename batch failed: '' @ e)) (pq_try_new io out (b_columns b)))
       out props output rs fs = Inr fs'"
    using assms(2) by (auto simp: rewrite_parquet_with_rename_def bind_res_Inr_iff Let_def split: if_splits option.splits)
  from rewrite_with_rows [OF assms(1) this] obtain bs bs' where r: "read_rows io fs input = Some (concat (map batch_rows bs))"
    "read_rows io fs' output = Some (concat (map batch_rows bs'))"
    "list_all2 (\<lambda>b b'. pq_try_new io out (b_columns b) = Inr b') bs bs'" "list_all wf_batch bs"
    and k: "\<And>p. p \<noteq> output \<Longrightarrow> fs_read fs' p = fs_read fs p" by simp metis
  have "map batch_rows bs' = map batch_rows bs" using r(3,4)
  proof (induction rule: list_all2_induct)
    case (Cons x xs y ys)
    have "length (hd (b_columns x)) = b_len x" using Cons.prems by (cases "b_columns x") (auto simp: wf_batch_def)
    then show ?case using Cons try_new_rows [OF assms(1) Cons.hyps(1), of x] by (simp add: batch_rows_def)
  qed simp
  then show "read_rows io fs input \<noteq> None" "read_rows io fs' output = read_rows io fs input" using r by simp_all
  show "p \<noteq> output \<Longrightarrow> fs_read fs' p = fs_read fs p" using k .
qed

lemma cast_batch_len:
  assumes "arrow_laws io" "wf_batch b" "cast_batch io out i cur dt b = Inr b'"
  shows "b_len b' = b_len b"
proof -
  obtain col where c: "pq_try_new io out ((b_columns b)[i := col]) = Inr b'"
    and l: "col = b_columns b ! i \<or> length col = length (b_columns b ! i)"
  proof (cases "cur = dt")
    case True
    then show thesis using that [of "b_columns b ! i"] assms(3) by (simp add: cast_batch_def)
  next
    case False
    then obtain col where "pq_cast io dt (b_columns b ! i) = Inr col" "pq_try_new io out ((b_columns b)[i := col]) = Inr b'"
      using assms(3) by (auto simp: cast_batch_def bind_res_Inr_iff)
    then show thesis using that assms(1) unfolding arrow_laws_def by blast
  qed
  have "length (hd ((b_columns b)[i := col])) = b_len b"
    using assms(2) l by (cases "b_columns b"; cases i) (auto simp: wf_batch_def)
  then show ?thesis using try_new_rows(2) [OF assms(1) c assms(2)] by simp
qed

lemma cast_file_rows:
  assumes "arrow_laws io" "rewrite_parquet_with_cast io input output col ty codec rg stats fs = Inr fs'"
  obtains rows rows' where "read_rows io fs input = Some rows" "read_rows io fs' output = Some rows'"
    "length rows' = length rows" "\<And>p. p \<noteq> output \<Longrightarrow> fs_read fs' p = fs_read fs p"
proof -
  obtain schema rs props out i cur dt where "open_parquet io fs input = Inr (schema, rs)"
    "rewrite_with io (cast_batch io out i cur dt) out props output rs fs = Inr fs'"
    using assms(2) by (auto simp: rewrite_parquet_with_cast_def bind_res_Inr_iff Let_def split: option.splits)
  from rewrite_with_rows [OF assms(1) this] obtain bs bs' where r: "read_rows io fs input = Some (concat (map batch_rows bs))"
    "read_rows io fs' output = Some (concat (map batch_rows bs'))"
    "list_all2 (\<lambda>b b'. cast_batch io out i cur dt b = Inr b') bs bs'" "list_all wf_batch bs"
    and k: "\<And>p. p \<noteq> output \<Longrightarrow> fs_read fs' p = fs_read fs p" by metis
  have "map (length \<circ> batch_rows) bs' = map (length \<circ> batch_rows) bs" using r(3,4)
    by (induction rule: list_all2_induct) (auto simp: batch_rows_def dest: cast_batch_len [OF assms(1)])
  then have "length (concat (map batch_rows bs')) = length (concat (map batch_rows bs))" by (simp add: length_concat)
  then show thesis using that r k by blast
qed

section \<open>A row store for the witnesses\<close>

text \<open>Files of one text column whose cells are single characters; every row is one batch.\<close>

definition demo_schema :: arrow_schema where
  "demo_schema = [\<lparr>af_name = ''x'', af_type = DtUtf8, af_nullable = False\<rparr>]"

definition demo_batch :: "string \<Rightarrow> batch" where
  "demo_batch s = \<lparr>b_len = length s, b_columns = [map (\<lambda>c. [c]) s]\<rparr>"

definition batch_text :: "batch \<Rightarrow> string option" where
  "batch_text b = (case b_columns b of [col] \<Rightarrow>
     if length col = b_len b \<and> list_all (\<lambda>c. length c = 1) col then Some (concat col) else None | _ \<Rightarrow> None)"

definition demo_io :: parquet_io where
  "demo_io = \<lparr>pq_open = (\<lambda>bytes. Inr (demo_schema, map (\<lambda>c. Inr (demo_batch [c])) bytes)),
     pq_encode = (\<lambda>props schema bs. if schema = demo_schema \<and> list_all (\<lambda>b. batch_text b \<noteq> None) bs
       then Inr (concat (map (\<lambda>b. the (batch_text b)) bs)) else Inl ''unsupported''),
     pq_batch_bytes = (\<lambda>b. of_nat (b_len b)),
     pq_cast = (\<lambda>dt col. Inr col),
     pq_try_new = (\<lambda>schema cols. if cols = [] then Inl ''no columns''
       else let b = \<lparr>b_len = length (hd cols), b_columns = cols\<rparr> in if wf_batch b then Inr b else Inl ''lengths'')\<rparr>"

lemma batch_text_rows: "batch_text b = Some s \<Longrightarrow> batch_rows b = map (\<lambda>c. [[c]]) s"
proof -
  assume "batch_text b = Some s"
  then obtain col where col: "b_columns b = [col]" "length col = b_len b" "list_all (\<lambda>c. length c = 1) col" "s = concat col"
    by (auto simp: batch_text_def split: list.splits if_splits)
  have "map (\<lambda>c. [[c]]) (concat col) = map (\<lambda>c. [c]) col" using col(3)
    by (induction col) (auto simp: length_Suc_conv)
  moreover have "batch_rows b = map (\<lambda>c. [c]) col"
    by (rule nth_equalityI) (simp_all add: batch_rows_def col flip: col(2))
  ultimately show ?thesis using col by simp
qed

lemma demo_decode: "decode_file demo_io bytes = Some (demo_schema, map (\<lambda>c. [[c]]) bytes)"
proof -
  have "collect_res (map (\<lambda>c. Inr (demo_batch [c]) :: (string, batch) res) bytes) = Inr (map (\<lambda>c. demo_batch [c]) bytes)"
    using collect_res_map_Inr [of "map (\<lambda>c. demo_batch [c]) bytes"] by (simp add: comp_def)
  moreover have "concat (map batch_rows (map (\<lambda>c. demo_batch [c]) bytes)) = map (\<lambda>c. [[c]]) bytes"
    by (induction bytes) (auto simp: demo_batch_def batch_rows_def)
  ultimately show ?thesis by (simp add: decode_file_def demo_io_def)
qed

lemma demo_roundtrip: "parquet_roundtrip demo_io"
proof -
  have "map (\<lambda>c. [[c]]) (concat (map (\<lambda>b. the (batch_text b)) bs)) = concat (map batch_rows bs)"
    if "list_all (\<lambda>b. batch_text b \<noteq> None) bs" for bs
    using that by (induction bs) (auto simp: batch_text_rows)
  then show ?thesis unfolding parquet_roundtrip_def demo_decode by (simp add: demo_io_def)
qed

lemma demo_laws: "arrow_laws demo_io"
  using demo_roundtrip unfolding arrow_laws_def
  by (auto simp: demo_io_def demo_batch_def wf_batch_def Let_def split: if_splits)

definition demo_files :: file_system where
  "demo_files = [(''/w/a'', ''12''), (''/w/b'', ''345''), (''/w/merged-part-0000.parquet'', ''67'')]"

section \<open>Results\<close>

text \<open>
  C15. Merging keeps the data: when \<open>merge_parquet_files\<close> succeeds, the rows of its output
  parts, in order, are the rows of the inputs in the order of their paths, however the batches
  were cut into parts, and no file but the parts has changed.
\<close>

theorem merge_preserves_rows:
  assumes "parquet_roundtrip io"
    and "merge_parquet_files io inputs dir base target codec rg stats None fs = Inr (outs, fs')"
    and "\<forall>i. path_join dir (part_name base i) \<notin> set inputs"
  shows "\<exists>iss rss. map (read_rows io fs) (sort inputs) = map Some iss \<and> map (read_rows io fs') outs = map Some rss \<and>
     concat rss = concat iss \<and> distinct outs \<and> (\<forall>p. p \<notin> set outs \<longrightarrow> fs_read fs' p = fs_read fs p)"
proof -
  obtain iss rss n where r: "map (read_rows io fs) (sort inputs) = map Some iss"
    "map (read_rows io fs') outs = map Some rss" "concat rss = concat iss"
    and outs: "outs = map (\<lambda>i. path_join dir (part_name base i)) [0..<n]"
    and k: "\<And>p. p \<notin> set outs \<Longrightarrow> fs_read fs' p = fs_read fs p"
    using merge_keeps_rows [OF assms(1,2)] assms(3) by metis
  have "distinct outs" unfolding outs
    by (simp add: distinct_map inj_on_def path_join_inj [OF part_name_absolute] part_name_inj)
  then show ?thesis using r k by blast
qed

definition demo_merge :: "(transform_error, path list \<times> file_system) res" where
  "demo_merge = merge_parquet_files demo_io [''/w/b'', ''/w/a''] ''/o'' ''m'' 2 None None False None demo_files"

lemma demo_merge_eq: "demo_merge = Inr ([''/o/m-part-0000.parquet'', ''/o/m-part-0001.parquet'', ''/o/m-part-0002.parquet''],
    [(''/o/m-part-0000.parquet'', ''12''), (''/o/m-part-0001.parquet'', ''34''), (''/o/m-part-0002.parquet'', ''5'')] @ demo_files)"
  by code_simp

lemma demo_parts_fresh: "path_join ''/o'' (part_name base i) \<notin> set [''/w/b'', ''/w/a'']" if "base \<noteq> []" "hd base \<noteq> CHR ''/''"
  using that by (cases base) (auto simp: path_join_def part_name_def is_absolute_def str_starts_with_def)

theorem merge_preserves_rows_witness:
  "\<exists>outs fs' rss. demo_merge = Inr (outs, fs') \<and> length outs = 3 \<and> map (read_rows demo_io fs') outs = map Some rss \<and>
     concat rss = [[''1''], [''2''], [''3''], [''4''], [''5'']]"
proof -
  obtain outs fs' where m: "demo_merge = Inr (outs, fs')" and l: "length outs = 3" using demo_merge_eq by simp
  have fresh: "\<forall>i. path_join ''/o'' (part_name ''m'' i) \<notin> set [''/w/b'', ''/w/a'']"
    using demo_parts_fresh [of "''m''"] by simp
  have "map (read_rows demo_io demo_files) (sort [''/w/b'', ''/w/a'']) = map Some [[[''1''], [''2'']], [[''3''], [''4''], [''5'']]]"
    by code_simp
  moreover obtain iss rss where "map (read_rows demo_io demo_files) (sort [''/w/b'', ''/w/a'']) = map Some iss"
    "map (read_rows demo_io fs') outs = map Some rss" "concat rss = concat iss"
    using merge_preserves_rows [OF demo_roundtrip m [unfolded demo_merge_def] fresh] by blast
  ultimately have "concat rss = concat [[[''1''], [''2'']], [[''3''], [''4''], [''5'']]]"
    by (metis inj_Some inj_map_eq_map)
  then show ?thesis using m l \<open>map (read_rows demo_io fs') outs = map Some rss\<close> by fastforce
qed

end
