(* ===== verification/Repair_Execute.thy ===== *)
theory Repair_Execute
  imports Transform_Engine Repair_Rules
begin

text \<open>
  Executing a repair plan: \<open>execute.rs\<close> (the operations over a work directory, the guards,
  the audit), \<open>verify.rs\<close> and \<open>manifest.rs\<close>.

  The local file system is a map from paths to contents; directories are implicit. A copy
  fails when its source is missing; other failures of the operating system are not modelled.
  The scanner, the reader of Parquet footers and the digest of the policy are parameters, as
  are times and the execution's id. When an execution fails, what it has already written to
  its staging or output directory is not described.
\<close>

section \<open>Files of a work directory\<close>

definition copy_file :: "path \<Rightarrow> path \<Rightarrow> file_system \<Rightarrow> (repair_error, file_system) res" where
  "copy_file src dest fs = (case fs_read fs src of None \<Rightarrow> Inl (RepairIo src) | Some b \<Rightarrow> Inr (fs_write dest b fs))"

definition rename_file :: "path \<Rightarrow> path \<Rightarrow> file_system \<Rightarrow> (repair_error, file_system) res" where
  "rename_file src dest fs = (case fs_read fs src of None \<Rightarrow> Inl (RepairIo src)
     | Some b \<Rightarrow> Inr (fs_write dest b (fs_remove src fs)))"

definition remove_dir_all :: "path \<Rightarrow> file_system \<Rightarrow> file_system" where
  "remove_dir_all dir fs = filter (\<lambda>(p, _). \<not> str_starts_with p (dir @ ''/'')) fs"

text \<open>\<open>Path::with_extension\<close> on the path of a file.\<close>

definition dir_part :: "path \<Rightarrow> path" where
  "dir_part p = rev (dropWhile (\<lambda>c. c \<noteq> CHR ''/'') (rev p))"

definition name_part :: "path \<Rightarrow> path" where
  "name_part p = rev (takeWhile (\<lambda>c. c \<noteq> CHR ''/'') (rev p))"

definition file_stem :: "string \<Rightarrow> string" where
  "file_stem n = (let before = rev (dropWhile (\<lambda>c. c \<noteq> CHR ''.'') (rev n)) in
     if length before \<le> 1 then n else butlast before)"

definition with_extension :: "path \<Rightarrow> string \<Rightarrow> path" where
  "with_extension p ext = dir_part p @ file_stem (name_part p) @ ''.'' @ ext"

record work_state =
  ws_fs :: file_system
  ws_working :: "(string \<times> path) list"

definition seed_asset :: "path \<Rightarrow> path \<Rightarrow> asset_record \<Rightarrow> work_state \<Rightarrow> (repair_error, work_state) res" where
  "seed_asset root work a st =
     (if as_format a \<noteq> FmtParquet then Inr st
      else let rel = relativize root (as_path a); dest = path_join work rel
           in bind_res (copy_file (as_path a) dest (ws_fs st)) (\<lambda>fs.
                Inr \<lparr>ws_fs = fs, ws_working = bt_insert rel dest (ws_working st)\<rparr>))"

fun seed_assets :: "path \<Rightarrow> path \<Rightarrow> asset_record list \<Rightarrow> work_state \<Rightarrow> (repair_error, work_state) res" where
  "seed_assets root work [] st = Inr st"
| "seed_assets root work (a # as) st = bind_res (seed_asset root work a st) (seed_assets root work as)"

definition seed_work_dir :: "path \<Rightarrow> path \<Rightarrow> scan_report \<Rightarrow> file_system \<Rightarrow> (repair_error, work_state) res" where
  "seed_work_dir root work scan fs = seed_assets root work (sc_assets scan) \<lparr>ws_fs = fs, ws_working = []\<rparr>"

section \<open>Operations\<close>

fun transform_error_to_string :: "transform_error \<Rightarrow> string" where
  "transform_error_to_string (TfIo e) = ''I/O error: '' @ e"
| "transform_error_to_string (TfParquet e) = ''Parquet error: '' @ e"
| "transform_error_to_string (TfArrow e) = ''Arrow error: '' @ e"
| "transform_error_to_string (TfColumnar e) = ''Columnar error: '' @ e"
| "transform_error_to_string (TfInvalidInput e) = ''Invalid input: '' @ e"
| "transform_error_to_string (TfSchemaMismatch e) = ''Schema mismatch: '' @ e"
| "transform_error_to_string (TfFilterError e) = ''Filter expression error: '' @ e"
| "transform_error_to_string (TfSpecError e) = ''Spec parsing error: '' @ e"
| "transform_error_to_string (TfS3Error e) = ''S3 error: '' @ e"
| "transform_error_to_string (TfUnsupported e) = ''Unsupported operation: '' @ e"

definition transform_failed :: "transform_error \<Rightarrow> repair_error" where
  "transform_failed e = TransformFailed (transform_error_to_string e)"

definition drop_input :: "string \<Rightarrow> work_state \<Rightarrow> work_state" where
  "drop_input rel st = (case map_of (ws_working st) rel of None \<Rightarrow> st
     | Some p \<Rightarrow> \<lparr>ws_fs = fs_remove p (ws_fs st), ws_working = bt_remove rel (ws_working st)\<rparr>)"

text \<open>The outputs of the engine are copied into the work directory under new names.\<close>

fun adopt_outputs :: "path \<Rightarrow> (nat \<Rightarrow> string) \<Rightarrow> nat \<Rightarrow> path list \<Rightarrow> work_state \<Rightarrow> (repair_error, work_state) res" where
  "adopt_outputs work name i [] st = Inr st"
| "adopt_outputs work name i (out # outs) st =
     bind_res (copy_file out (path_join work (name i)) (ws_fs st)) (\<lambda>fs.
       adopt_outputs work name (Suc i) outs
         \<lparr>ws_fs = fs, ws_working = bt_insert (name i) (path_join work (name i)) (ws_working st)\<rparr>)"

definition merged_name :: "nat \<Rightarrow> string" where
  "merged_name i = ''merged-part-'' @ show_nat04 i @ ''.parquet''"

definition split_name :: "string \<Rightarrow> nat \<Rightarrow> string" where
  "split_name input_path i = input_path @ ''.split-'' @ show_nat04 i @ ''.parquet''"

definition apply_merge ::
  "parquet_io \<Rightarrow> path \<Rightarrow> u64 \<Rightarrow> string list \<Rightarrow> work_state \<Rightarrow> (repair_error, work_state) res" where
  "apply_merge io work target_bytes input_paths st =
     (let present = filter (\<lambda>rel. map_of (ws_working st) rel \<noteq> None) input_paths;
          abs_paths = map (\<lambda>rel. the (map_of (ws_working st) rel)) present;
          merge_out = path_join work ''_merge_out''
      in if length abs_paths < 2 then Inr st
         else bind_res (map_err transform_failed
             (merge_parquet_files io abs_paths merge_out ''part'' target_bytes None None False None (ws_fs st))) (\<lambda>(outs, fs).
           bind_res (adopt_outputs work merged_name 0 outs (fold drop_input input_paths (st\<lparr>ws_fs := fs\<rparr>))) (\<lambda>st.
             Inr (st\<lparr>ws_fs := remove_dir_all merge_out (ws_fs st)\<rparr>))))"

definition apply_split ::
  "parquet_io \<Rightarrow> path \<Rightarrow> path \<Rightarrow> u64 \<Rightarrow> string \<Rightarrow> work_state \<Rightarrow> (repair_error, work_state) res" where
  "apply_split io root work target_bytes input_path st =
     (let src = (case map_of (ws_working st) input_path of Some p \<Rightarrow> p | None \<Rightarrow> path_join root input_path);
          split_out = path_join work ''_split_out''
      in bind_res (map_err transform_failed
             (split_parquet_file io src split_out ''split'' target_bytes None None True (ws_fs st))) (\<lambda>(outs, fs).
           bind_res (adopt_outputs work (split_name input_path) 0 outs (drop_input input_path (st\<lparr>ws_fs := fs\<rparr>))) (\<lambda>st.
             Inr (st\<lparr>ws_fs := remove_dir_all split_out (ws_fs st)\<rparr>))))"

definition target_paths_all :: "(string \<times> path) list \<Rightarrow> string list \<Rightarrow> string list" where
  "target_paths_all working target_paths = (if target_paths = [] then map fst working else target_paths)"

text \<open>
  The loop that \<open>rename_targets\<close>, \<open>cast_targets\<close> and \<open>rewrite_targets\<close> share: a file is
  rewritten to a temporary beside it, which then replaces it.
\<close>

definition replace_file ::
  "(path \<Rightarrow> path \<Rightarrow> file_system \<Rightarrow> (transform_error, file_system) res) \<Rightarrow> string \<Rightarrow> string \<Rightarrow> string \<Rightarrow> work_state \<Rightarrow>
   (repair_error, work_state) res" where
  "replace_file engine missing ext rel st =
     bind_res (ok_or (RepairPreconditionFailed rel missing) (map_of (ws_working st) rel)) (\<lambda>src.
       let tmp = with_extension src ext
       in bind_res (map_err transform_failed (engine src tmp (ws_fs st))) (\<lambda>fs.
          bind_res (rename_file tmp src fs) (\<lambda>fs.
            Inr \<lparr>ws_fs = fs, ws_working = bt_insert rel src (ws_working st)\<rparr>)))"

fun replace_files ::
  "(path \<Rightarrow> path \<Rightarrow> file_system \<Rightarrow> (transform_error, file_system) res) \<Rightarrow> string \<Rightarrow> string \<Rightarrow> string list \<Rightarrow> work_state \<Rightarrow>
   (repair_error, work_state) res" where
  "replace_files engine missing ext [] st = Inr st"
| "replace_files engine missing ext (rel # rels) st =
     bind_res (replace_file engine missing ext rel st) (replace_files engine missing ext rels)"

definition rename_targets ::
  "parquet_io \<Rightarrow> string list \<Rightarrow> string \<Rightarrow> string \<Rightarrow> work_state \<Rightarrow> (repair_error, work_state) res" where
  "rename_targets io paths from_col to_col =
     replace_files (\<lambda>src tmp. rewrite_parquet_with_rename io src tmp from_col to_col None None True)
       ''rename target missing'' ''parqonaut-rename.parquet'' paths"

definition cast_targets ::
  "parquet_io \<Rightarrow> string list \<Rightarrow> string \<Rightarrow> string \<Rightarrow> work_state \<Rightarrow> (repair_error, work_state) res" where
  "cast_targets io paths column to_type =
     replace_files (\<lambda>src tmp. rewrite_parquet_with_cast io src tmp column to_type None None True)
       ''cast target missing'' ''parqonaut-cast.parquet'' paths"

definition rewrite_targets ::
  "parquet_io \<Rightarrow> string list \<Rightarrow> string option \<Rightarrow> u64 option \<Rightarrow> bool \<Rightarrow> work_state \<Rightarrow> (repair_error, work_state) res" where
  "rewrite_targets io target_paths compression row_group_mb rebuild_stats st =
     replace_files (\<lambda>src tmp. rewrite_parquet_file io src tmp compression row_group_mb rebuild_stats)
       ''target path not in working set'' ''parqonaut-tmp.parquet''
       (filter (\<lambda>p. map_of (ws_working st) p \<noteq> None) (target_paths_all (ws_working st) target_paths)) st"

definition apply_operation ::
  "parquet_io \<Rightarrow> path \<Rightarrow> path \<Rightarrow> repair_operation \<Rightarrow> work_state \<Rightarrow> (repair_error, work_state) res" where
  "apply_operation io root work op st =
     (case action op of
        MergeSmallFiles target_bytes input_paths \<Rightarrow> apply_merge io work target_bytes input_paths st
      | SplitLargeFile target_bytes input_path \<Rightarrow> apply_split io root work target_bytes input_path st
      | ResizeRowGroups target_bytes target_paths \<Rightarrow>
          rewrite_targets io target_paths None (Some (max (target_bytes div (1024 * 1024)) 1)) False st
      | Recompress codec target_paths \<Rightarrow> rewrite_targets io target_paths (Some codec) None False st
      | RebuildStatistics target_paths \<Rightarrow> rewrite_targets io target_paths None None True st
      | CastColumn column _ to_type \<Rightarrow> cast_targets io (target_paths_all (ws_working st) []) column to_type st
      | AlignSchema field _ to_type \<Rightarrow> cast_targets io (target_paths_all (ws_working st) []) field to_type st
      | RenameColumn from_col to_col \<Rightarrow> rename_targets io (target_paths_all (ws_working st) []) from_col to_col st
      | Repartition _ \<Rightarrow> Inl (UnsupportedOperation (operation_id op) (kind_label (action op))))"

section \<open>Running the operations of a plan\<close>

record operation_outcome =
  oo_executed :: "string list"
  oo_skipped :: "string list"
  oo_audit :: "audit_record list"

definition note_executed ::
  "audit_context \<Rightarrow> repair_operation \<Rightarrow> authorization_source \<Rightarrow> timestamp \<Rightarrow> operation_outcome \<Rightarrow> operation_outcome" where
  "note_executed ctx op src now out =
     out\<lparr>oo_executed := oo_executed out @ [operation_id op],
         oo_audit := oo_audit out @ [audit_new ctx (operation_id op) (safety op) src now True None]\<rparr>"

definition note_skipped ::
  "audit_context \<Rightarrow> repair_operation \<Rightarrow> authorization_source \<Rightarrow> string \<Rightarrow> timestamp \<Rightarrow> operation_outcome \<Rightarrow> operation_outcome" where
  "note_skipped ctx op src why now out =
     out\<lparr>oo_skipped := oo_skipped out @ [operation_id op],
         oo_audit := oo_audit out @ [audit_new ctx (operation_id op) (safety op) src now False (Some why)]\<rparr>"

definition run_operation ::
  "parquet_io \<Rightarrow> authorization \<Rightarrow> path \<Rightarrow> path \<Rightarrow> audit_context \<Rightarrow> timestamp \<Rightarrow> repair_operation \<Rightarrow>
   operation_outcome \<times> work_state \<Rightarrow> (repair_error, operation_outcome \<times> work_state) res" where
  "run_operation io auth root work ctx now op os =
     (case safety op of
        Safe \<Rightarrow> bind_res (apply_operation io root work op (snd os)) (\<lambda>st.
          Inr (note_executed ctx op AutomaticSafePolicy now (fst os), st))
      | ReviewRequired \<Rightarrow>
          if is_authorized auth (operation_id op)
          then bind_res (apply_operation io root work op (snd os)) (\<lambda>st.
            Inr (note_executed ctx op ExplicitUser now (fst os), st))
          else Inr (note_skipped ctx op NotAuthorized
            (''review-required operation '' @ operation_id op @ '' not authorized'') now (fst os), snd os)
      | _ \<Rightarrow> Inr (note_skipped ctx op BlockedByPolicy ''operation blocked by safety policy'' now (fst os), snd os))"

fun run_sorted ::
  "parquet_io \<Rightarrow> authorization \<Rightarrow> path \<Rightarrow> path \<Rightarrow> audit_context \<Rightarrow> (nat \<Rightarrow> timestamp) \<Rightarrow> nat \<Rightarrow> repair_operation list \<Rightarrow>
   operation_outcome \<times> work_state \<Rightarrow> (repair_error, operation_outcome \<times> work_state) res" where
  "run_sorted io auth root work ctx clock n [] os = Inr os"
| "run_sorted io auth root work ctx clock n (op # ops) os =
     bind_res (run_operation io auth root work ctx (clock n) op os) (run_sorted io auth root work ctx clock (Suc n) ops)"

definition run_repair_operations ::
  "parquet_io \<Rightarrow> authorization \<Rightarrow> repair_plan \<Rightarrow> path \<Rightarrow> path \<Rightarrow> audit_context \<Rightarrow> (nat \<Rightarrow> timestamp) \<Rightarrow> work_state \<Rightarrow>
   (sort_failure, operation_outcome \<times> work_state) res" where
  "run_repair_operations io auth plan root work ctx clock st =
     bind_res (sort_by_dependencies (operations plan)) (\<lambda>sorted_ops.
       map_err SortError (run_sorted io auth root work ctx clock 0 sorted_ops
         (\<lparr>oo_executed = [], oo_skipped = [], oo_audit = []\<rparr>, st)))"

definition copy_work_to_output :: "path \<Rightarrow> path \<Rightarrow> file_system \<Rightarrow> file_system" where
  "copy_work_to_output work output fs =
     fold (\<lambda>(p, b) acc. case strip_prefix p (work @ ''/'') of None \<Rightarrow> acc
       | Some rel \<Rightarrow> fs_write (path_join output rel) b acc) fs fs"


section \<open>Verification\<close>

datatype verification_outcome = Verified | VerifiedWithWarnings | VerificationFailed

record invariant_result =
  ir_name :: string
  ir_passed :: bool
  ir_detail :: string

record verification_report =
  vr_before_scan_id :: string
  vr_after_scan_id :: string
  vr_invariants :: "invariant_result list"
  vr_resolved :: "string list"
  vr_remaining :: "string list"
  vr_new :: "string list"
  vr_blocked :: "string list"
  vr_outcome :: verification_outcome
  vr_manifest_plan_id :: "string option"
  vr_fingerprint_match :: "bool option"

record execution_manifest =
  em_version :: nat
  em_plan_id :: string
  em_execution_id :: string
  em_parqonaut_version :: string
  em_source_fingerprint :: dataset_fingerprint
  em_output_fingerprint :: dataset_fingerprint
  em_policy_fingerprint :: string
  em_started_at :: timestamp
  em_completed_at :: timestamp
  em_operations :: "audit_record list"
  em_verification :: "verification_report option"

definition MANIFEST_VERSION :: nat where
  "MANIFEST_VERSION = 1"

definition repair_codes :: "string list" where
  "repair_codes = [SMALL_FILES, ROW_GROUPS, COMPRESSION, SCHEMA_DRIFT, MISSING_STATISTICS, OVERSIZED_FILE, SCHEMA_CONFLICT]"

definition code_set :: "diagnosis_report \<Rightarrow> string list" where
  "code_set dx = sort (remdups (map fi_code (dx_findings dx)))"

definition repair_invariants ::
  "inventory \<Rightarrow> inventory \<Rightarrow> (string \<times> string) option \<Rightarrow> invariant_result list" where
  "repair_invariants before after fps =
     [\<lparr>ir_name = ''row_count'', ir_passed = inv_total_rows before = inv_total_rows after,
       ir_detail = ''before='' @ show_int (inv_total_rows before) @ '' after='' @ show_int (inv_total_rows after)\<rparr>,
      \<lparr>ir_name = ''schema_preservation'',
       ir_passed = (length (inv_signatures before) \<ge> length (inv_signatures after) \<or> length (inv_signatures after) \<le> 1),
       ir_detail = ''before_signatures='' @ show_nat (length (inv_signatures before)) @
         '' after_signatures='' @ show_nat (length (inv_signatures after))\<rparr>,
      \<lparr>ir_name = ''output_readability'', ir_passed = inv_files after \<noteq> [],
       ir_detail = ''after_files='' @ show_nat (length (inv_files after))\<rparr>] @
     (case fps of None \<Rightarrow> []
      | Some (recorded, current) \<Rightarrow>
          [\<lparr>ir_name = ''manifest_fingerprint'', ir_passed = (current = recorded),
            ir_detail = ''recorded='' @ recorded @ '' current='' @ current\<rparr>])"

text \<open>\<open>blocked\<close> with a manifest: one entry per blocked operation that was not executed.\<close>

definition blocked_codes :: "string list \<Rightarrow> execution_manifest option \<Rightarrow> string list" where
  "blocked_codes after manifest =
     (let base = filter (\<lambda>c. c = SCHEMA_CONFLICT) after
      in case manifest of None \<Rightarrow> base
         | Some m \<Rightarrow> remdups_adj (sort (base @ map (\<lambda>a. ''blocked:'' @ ar_operation_id a)
             (filter (\<lambda>a. ar_safety a = Blocked \<and> \<not> ar_executed a) (em_operations m)))))"

definition verification_outcome_of :: "bool \<Rightarrow> string list \<Rightarrow> string list \<Rightarrow> string list \<Rightarrow> verification_outcome" where
  "verification_outcome_of row_ok remaining blocked new_codes =
     (if \<not> row_ok \<or> FORMAT_PARQUET_READ_FAILED \<in> set new_codes then VerificationFailed
      else if remaining \<noteq> [] \<or> blocked \<noteq> [] \<or> new_codes \<noteq> [] then VerifiedWithWarnings
      else Verified)"

definition verify_repair ::
  "hasher \<Rightarrow> inspector \<Rightarrow> (nat \<Rightarrow> string) \<Rightarrow> scan_report \<Rightarrow> scan_report \<Rightarrow> path \<Rightarrow> path \<Rightarrow> repair_policy \<Rightarrow>
   execution_manifest option \<Rightarrow> (repair_error, verification_report) res" where
  "verify_repair h inspect uuid before after before_root after_root policy manifest =
     bind_res (inventory_from_scan inspect before_root before) (\<lambda>before_inv.
     bind_res (inventory_from_scan inspect after_root after) (\<lambda>after_inv.
     bind_res (case manifest of None \<Rightarrow> Inr None
       | Some m \<Rightarrow> bind_res (compute_fingerprint_from_scan h inspect after_root after) (\<lambda>cur.
           Inr (Some (fp_digest (em_output_fingerprint m), fp_digest cur)))) (\<lambda>fps.
     bind_res (diagnose inspect uuid before_root before policy) (\<lambda>before_dx.
     bind_res (diagnose inspect uuid after_root after policy) (\<lambda>after_dx.
       let b = code_set before_dx; a = code_set after_dx;
           remaining = filter (\<lambda>c. c \<in> set b \<and> c \<in> set repair_codes) a;
           new_codes = filter (\<lambda>c. c \<notin> set b) a;
           blocked = blocked_codes a manifest
       in Inr \<lparr>vr_before_scan_id = sc_scan_id before, vr_after_scan_id = sc_scan_id after,
            vr_invariants = repair_invariants before_inv after_inv fps,
            vr_resolved = filter (\<lambda>c. c \<notin> set a \<and> c \<in> set repair_codes) b,
            vr_remaining = remaining, vr_new = new_codes, vr_blocked = blocked,
            vr_outcome = verification_outcome_of (inv_total_rows before_inv = inv_total_rows after_inv)
              remaining blocked new_codes,
            vr_manifest_plan_id = map_option em_plan_id manifest,
            vr_fingerprint_match = map_option (\<lambda>(recorded, current). current = recorded) fps\<rparr>)))))"

section \<open>Executing a plan on local directories\<close>

record execution_report =
  er_execution_id :: string
  er_plan_id :: string
  er_started_at :: timestamp
  er_completed_at :: "timestamp option"
  er_executed :: "string list"
  er_skipped :: "string list"
  er_staging_path :: path
  er_output_path :: string
  er_manifest_path :: string
  er_success :: bool

record exec_env =
  ee_io :: parquet_io
  ee_hasher :: hasher
  ee_inspect :: "file_system \<Rightarrow> inspector"
  ee_scan :: "file_system \<Rightarrow> path \<Rightarrow> (repair_error, scan_report) res"
  ee_uuid :: "nat \<Rightarrow> string"
  ee_clock :: "nat \<Rightarrow> timestamp"
  ee_started :: timestamp
  ee_completed :: timestamp
  ee_execution_id :: string
  ee_version :: string
  ee_render :: "execution_manifest \<Rightarrow> string"
  ee_show :: "repair_error \<Rightarrow> string"

record repair_executor =
  rx_authorization :: authorization
  rx_verify_before_publish :: bool

definition path_exists :: "file_system \<Rightarrow> path \<Rightarrow> bool" where
  "path_exists fs p = list_ex (\<lambda>(q, _). q = p \<or> str_starts_with q (p @ ''/'')) fs"

definition staging_dir :: "path \<Rightarrow> string \<Rightarrow> path" where
  "staging_dir parent execution_id = path_join parent (''.parqonaut-staging-'' @ execution_id)"

definition plan_audit_context :: "exec_env \<Rightarrow> repair_plan \<Rightarrow> audit_context" where
  "plan_audit_context env plan = \<lparr>ac_plan_id = plan_id plan, ac_dataset_fingerprint = fp_digest (dataset_fp plan),
     ac_policy_fingerprint = policy_fingerprint plan, ac_executor_version = ee_version env\<rparr>"

definition partial_failure :: "exec_env \<Rightarrow> path \<Rightarrow> sort_failure \<Rightarrow> sort_failure" where
  "partial_failure env staging f = (case f of SortPanic \<Rightarrow> SortPanic
     | SortError e \<Rightarrow> SortError (PartialExecution (staging @ '' ('' @ ee_show env e @ '')'')))"

definition maybe_verify ::
  "exec_env \<Rightarrow> repair_executor \<Rightarrow> repair_plan \<Rightarrow> file_system \<Rightarrow> scan_report \<Rightarrow> scan_report \<Rightarrow> path \<Rightarrow> path \<Rightarrow>
   (repair_error, verification_report option) res" where
  "maybe_verify env rx plan fs before after before_root after_root =
     (if rx_verify_before_publish rx
      then bind_res (verify_repair (ee_hasher env) (ee_inspect env fs) (ee_uuid env) before after before_root after_root
        (ep_repair (plan_policy plan)) None) (\<lambda>v. Inr (Some v))
      else Inr None)"

definition build_manifest ::
  "exec_env \<Rightarrow> repair_plan \<Rightarrow> dataset_fingerprint \<Rightarrow> audit_record list \<Rightarrow> verification_report option \<Rightarrow> execution_manifest" where
  "build_manifest env plan output_fp audit verification =
     \<lparr>em_version = MANIFEST_VERSION, em_plan_id = plan_id plan, em_execution_id = ee_execution_id env,
      em_parqonaut_version = ee_version env, em_source_fingerprint = dataset_fp plan,
      em_output_fingerprint = output_fp, em_policy_fingerprint = policy_fingerprint plan,
      em_started_at = ee_started env, em_completed_at = ee_completed env, em_operations = audit,
      em_verification = verification\<rparr>"

definition build_report ::
  "exec_env \<Rightarrow> repair_plan \<Rightarrow> operation_outcome \<Rightarrow> path \<Rightarrow> string \<Rightarrow> string \<Rightarrow> execution_report" where
  "build_report env plan out staging output_path manifest_path =
     \<lparr>er_execution_id = ee_execution_id env, er_plan_id = plan_id plan, er_started_at = ee_started env,
      er_completed_at = Some (ee_completed env), er_executed = oo_executed out, er_skipped = oo_skipped out,
      er_staging_path = staging, er_output_path = output_path, er_manifest_path = manifest_path, er_success = True\<rparr>"

definition execute_guards ::
  "exec_env \<Rightarrow> repair_plan \<Rightarrow> path \<Rightarrow> scan_report \<Rightarrow> file_system \<Rightarrow> (repair_error, unit) res" where
  "execute_guards env plan output scan fs =
     bind_res (validate_version plan) (\<lambda>_.
       if path_exists fs output then Inl (OutputExists output)
       else if paths_overlap (dataset_root plan) output
       then Inl (SourceDestinationOverlap (dataset_root plan @ '' '' @ [CHR 0xE2, CHR 0x8A, CHR 0x86] @ '' '' @ output))
       else bind_res (compute_fingerprint_from_scan (ee_hasher env) (ee_inspect env fs) (dataset_root plan) scan) (\<lambda>fp.
         verify_against (dataset_fp plan) fp))"

definition execute ::
  "exec_env \<Rightarrow> repair_executor \<Rightarrow> repair_plan \<Rightarrow> path \<Rightarrow> scan_report \<Rightarrow> file_system \<Rightarrow>
   (sort_failure, execution_report \<times> file_system) res" where
  "execute env rx plan output scan fs =
     (let root = dataset_root plan;
          staging = staging_dir (case path_parent output of None \<Rightarrow> ''.'' | Some d \<Rightarrow> d) (ee_execution_id env);
          work = path_join staging ''work''
      in bind_res (map_err SortError (execute_guards env plan output scan fs)) (\<lambda>_.
         bind_res (map_err SortError (seed_work_dir root work scan fs)) (\<lambda>seeded.
         bind_res (map_err (partial_failure env staging) (run_repair_operations (ee_io env) (rx_authorization rx) plan root work
           (plan_audit_context env plan) (ee_clock env) seeded)) (\<lambda>(out, st).
         let copied = copy_work_to_output work output (ws_fs st)
         in bind_res (map_err SortError (ee_scan env copied output)) (\<lambda>after_scan.
            bind_res (map_err SortError (maybe_verify env rx plan copied scan after_scan root output)) (\<lambda>verification.
            bind_res (map_err SortError (compute_fingerprint_from_scan (ee_hasher env) (ee_inspect env copied) output after_scan)) (\<lambda>output_fp.
              let manifest_path = path_join output ''.parqonaut-manifest.json'';
                  manifest = build_manifest env plan output_fp (oo_audit out) verification;
                  written = fs_write manifest_path (ee_render env manifest) copied
              in Inr (build_report env plan out staging output manifest_path, remove_dir_all staging written))))))))"

end
