(* ===== verification/Repair_Execute_Rows.thy ===== *)
theory Repair_Execute_Rows
  imports Repair_Execute
begin

text \<open>
  What running a plan does: which operations run and how they are audited, and that the
  actions the code classes as safe keep every row of the dataset.
\<close>

section \<open>Which operations run\<close>

definition may_run :: "authorization \<Rightarrow> repair_operation \<Rightarrow> bool" where
  "may_run auth op \<longleftrightarrow> is_ok (auth_resolve auth (operation_id op) (safety op))"

definition audit_source :: "authorization \<Rightarrow> repair_operation \<Rightarrow> authorization_source" where
  "audit_source auth op = (case auth_resolve auth (operation_id op) (safety op) of Inr src \<Rightarrow> src
     | Inl _ \<Rightarrow> if safety op = ReviewRequired then NotAuthorized else BlockedByPolicy)"

definition audit_view :: "audit_record \<Rightarrow> string \<times> repair_safety \<times> authorization_source \<times> bool" where
  "audit_view a = (ar_operation_id a, ar_safety a, ar_source a, ar_executed a)"

lemma run_operation_outcome:
  assumes "run_operation io auth root work ctx now op (out, st) = Inr (out', st')"
  shows "oo_executed out' = oo_executed out @ (if may_run auth op then [operation_id op] else [])"
    and "oo_skipped out' = oo_skipped out @ (if may_run auth op then [] else [operation_id op])"
    and "map audit_view (oo_audit out') = map audit_view (oo_audit out) @ [(operation_id op, safety op, audit_source auth op, may_run auth op)]"
    and "if may_run auth op then apply_operation io root work op st = Inr st' else st' = st"
  using assms
  by (cases "safety op"; auto simp: run_operation_def bind_res_Inr_iff note_executed_def note_skipped_def may_run_def
      audit_source_def audit_view_def audit_new_def split: if_splits)+

lemma run_sorted_outcome:
  "run_sorted io auth root work ctx clock n ops (out, st) = Inr (out', st') \<Longrightarrow>
   oo_executed out' = oo_executed out @ map operation_id (filter (may_run auth) ops) \<and>
   oo_skipped out' = oo_skipped out @ map operation_id (filter (\<lambda>op. \<not> may_run auth op) ops) \<and>
   map audit_view (oo_audit out') = map audit_view (oo_audit out) @
     map (\<lambda>op. (operation_id op, safety op, audit_source auth op, may_run auth op)) ops"
proof (induction ops arbitrary: n out st)
  case (Cons op ops)
  then obtain o2 s2 where r: "run_operation io auth root work ctx (clock n) op (out, st) = Inr (o2, s2)"
    and rest: "run_sorted io auth root work ctx clock (Suc n) ops (o2, s2) = Inr (out', st')"
    by (auto simp: bind_res_Inr_iff)
  show ?case using Cons.IH [OF rest] run_operation_outcome(1-3) [OF r] by simp
qed simp

text \<open>The files of a run are those of the operations that may run, applied in order.\<close>

lemma run_sorted_state:
  "run_sorted io auth root work ctx clock n ops (out, st) = Inr (out', st') \<Longrightarrow>
   foldl (\<lambda>r op. bind_res r (apply_operation io root work op)) (Inr st) (filter (may_run auth) ops) = Inr st'"
proof (induction ops arbitrary: n out st)
  case (Cons op ops)
  then obtain o2 s2 where r: "run_operation io auth root work ctx (clock n) op (out, st) = Inr (o2, s2)"
    and rest: "run_sorted io auth root work ctx clock (Suc n) ops (o2, s2) = Inr (out', st')"
    by (auto simp: bind_res_Inr_iff)
  show ?case using Cons.IH [OF rest] run_operation_outcome(4) [OF r] by (auto split: if_splits)
qed simp


section \<open>The rows of the working set\<close>

definition rows_in :: "parquet_io \<Rightarrow> file_system \<Rightarrow> (string \<times> path) list \<Rightarrow> cell list multiset" where
  "rows_in io fs working = sum_list (map (\<lambda>(rel, p). mset (the (read_rows io fs p))) working)"

definition dataset_rows :: "parquet_io \<Rightarrow> work_state \<Rightarrow> cell list multiset" where
  "dataset_rows io st = rows_in io (ws_fs st) (ws_working st)"

text \<open>
  A working set in order: relative names, each the name of a readable file of the work
  directory.
\<close>

definition wf_work :: "path \<Rightarrow> bool" where
  "wf_work work \<longleftrightarrow> work \<noteq> [] \<and> last work \<noteq> CHR ''/''"

definition entry_ok :: "parquet_io \<Rightarrow> path \<Rightarrow> file_system \<Rightarrow> string \<times> path \<Rightarrow> bool" where
  "entry_ok io work fs e \<longleftrightarrow> snd e = work @ ''/'' @ fst e \<and> \<not> is_absolute (fst e) \<and> read_rows io fs (snd e) \<noteq> None"

definition ws_ok :: "parquet_io \<Rightarrow> path \<Rightarrow> work_state \<Rightarrow> bool" where
  "ws_ok io work st \<longleftrightarrow> wf_work work \<and> bt_sorted (ws_working st) \<and>
     list_all (entry_ok io work (ws_fs st)) (ws_working st)"

lemma path_join_work: "wf_work work \<Longrightarrow> \<not> is_absolute rel \<Longrightarrow> path_join work rel = work @ ''/'' @ rel"
  by (simp add: path_join_def wf_work_def)

lemma rows_in_cong:
  "(\<And>rel p. (rel, p) \<in> set w \<Longrightarrow> read_rows io fs p = read_rows io fs' p) \<Longrightarrow> rows_in io fs w = rows_in io fs' w"
  unfolding rows_in_def by (intro arg_cong [of _ _ sum_list] map_cong) auto

lemma rows_in_mset:
  assumes "mset w = mset w'"
  shows "rows_in io fs w = rows_in io fs w'"
proof -
  have "mset (map f w) = mset (map f w')" for f :: "string \<times> path \<Rightarrow> cell list multiset" using assms by simp
  then show ?thesis unfolding rows_in_def by (simp only: flip: sum_mset_sum_list)
qed

lemma rows_in_append: "rows_in io fs (a @ b) = rows_in io fs a + rows_in io fs b"
  by (simp add: rows_in_def)

lemma rows_in_filter: "rows_in io fs w = rows_in io fs (filter P w) + rows_in io fs (filter (\<lambda>x. \<not> P x) w)"
  by (induction w) (auto simp: rows_in_def ac_simps)

lemma mset_bt_insert: "k \<notin> fst ` set m \<Longrightarrow> mset (bt_insert k v m) = add_mset (k, v) (mset m)"
  by (induction m) auto

lemma bt_insert_same: "bt_sorted m \<Longrightarrow> map_of m k = Some v \<Longrightarrow> bt_insert k v m = m"
proof (induction m)
  case (Cons e m)
  have "\<forall>x \<in> set m. fst e < fst x" using Cons.prems(1) by (auto simp: bt_sorted_def)
  then have "fst e \<noteq> k \<Longrightarrow> fst e < k" using map_of_SomeD Cons.prems(2) by (fastforce split: if_splits)
  with Cons show ?case by (cases e) (auto simp: bt_sorted_def)
qed simp

lemma entry_ok_path: "entry_ok io work fs e \<Longrightarrow> snd e = work @ ''/'' @ fst e"
  by (simp add: entry_ok_def)

lemma entry_ok_cong: "read_rows io fs (snd e) = read_rows io fs' (snd e) \<Longrightarrow> entry_ok io work fs e = entry_ok io work fs' e"
  by (simp add: entry_ok_def)

lemma ws_ok_entry: "ws_ok io work st \<Longrightarrow> e \<in> set (ws_working st) \<Longrightarrow> entry_ok io work (ws_fs st) e"
  by (simp add: ws_ok_def list_all_iff)

lemma ws_ok_lookup:
  assumes "ws_ok io work st" "map_of (ws_working st) rel = Some p"
  shows "p = work @ ''/'' @ rel" "\<not> is_absolute rel" "read_rows io (ws_fs st) p \<noteq> None" "(rel, p) \<in> set (ws_working st)"
  using assms map_of_SomeD [OF assms(2)] by (auto simp: ws_ok_def list_all_iff entry_ok_def)

subsection \<open>Rewriting in place\<close>

lemma with_extension_suffix: "suffix (''.'' @ ext) (with_extension p ext)"
  by (simp add: with_extension_def suffix_def)

lemma str_ends_with_iff: "str_ends_with s t \<longleftrightarrow> suffix t s"
  unfolding str_ends_with_def suffix_def by (auto) (metis append_take_drop_id)

lemma suffix_after:
  assumes "suffix t (a @ c # r)" "c \<notin> set t"
  shows "suffix t r"
proof -
  have "suffix (c # r) (a @ c # r)" by (simp add: suffix_def)
  then consider "suffix t (c # r)" | "suffix (c # r) t" using assms(1) suffix_same_cases by blast
  then show ?thesis using assms(2) by cases (auto simp: suffix_Cons dest: set_mono_suffix)
qed

lemma tmp_not_working:
  assumes "ws_ok io work st" "list_all (\<lambda>(rel, _). \<not> str_ends_with rel (''.'' @ ext)) (ws_working st)"
    and "(rel, p) \<in> set (ws_working st)" "CHR ''/'' \<notin> set ext"
  shows "p \<noteq> with_extension q ext"
proof
  assume eq: "p = with_extension q ext"
  have "p = work @ ''/'' @ rel" using assms(1,3) by (auto simp: ws_ok_def list_all_iff entry_ok_def)
  then have "suffix (''.'' @ ext) (work @ CHR ''/'' # rel)" using eq with_extension_suffix [of ext q] by simp
  then have "suffix (''.'' @ ext) rel" by (rule suffix_after) (use assms(4) in simp)
  then show False using assms(2,3) by (auto simp: list_all_iff str_ends_with_iff)
qed

text \<open>An engine that writes a readable file and touches nothing else.\<close>

definition row_engine ::
  "parquet_io \<Rightarrow> (cell list list \<Rightarrow> cell list list \<Rightarrow> bool) \<Rightarrow>
   (path \<Rightarrow> path \<Rightarrow> file_system \<Rightarrow> (transform_error, file_system) res) \<Rightarrow> bool" where
  "row_engine io R engine \<longleftrightarrow> (\<forall>src out fs fs'. engine src out fs = Inr fs' \<longrightarrow>
     (\<exists>rows rows'. read_rows io fs src = Some rows \<and> read_rows io fs' out = Some rows' \<and> R rows rows') \<and>
     (\<forall>p. p \<noteq> out \<longrightarrow> fs_read fs' p = fs_read fs p))"

lemma replace_file_ok:
  assumes ok: "ws_ok io work st" and R: "row_engine io R engine"
    and ext: "list_all (\<lambda>(rel, _). \<not> str_ends_with rel (''.'' @ ext)) (ws_working st)" "CHR ''/'' \<notin> set ext"
    and run: "replace_file engine missing ext rel st = Inr st'"
  obtains src rows rows' where "map_of (ws_working st) rel = Some src" "ws_working st' = ws_working st"
    "read_rows io (ws_fs st) src = Some rows" "read_rows io (ws_fs st') src = Some rows'" "R rows rows'"
    "\<And>rel' p. (rel', p) \<in> set (ws_working st) \<Longrightarrow> p \<noteq> src \<Longrightarrow> read_rows io (ws_fs st') p = read_rows io (ws_fs st) p"
proof -
  obtain src fs fs' where src: "map_of (ws_working st) rel = Some src"
    and e: "engine src (with_extension src ext) (ws_fs st) = Inr fs" and r: "rename_file (with_extension src ext) src fs = Inr fs'"
    and st': "st' = \<lparr>ws_fs = fs', ws_working = bt_insert rel src (ws_working st)\<rparr>"
    using run by (cases "map_of (ws_working st) rel") (auto simp: replace_file_def bind_res_Inr_iff Let_def)
  have ne: "p \<noteq> with_extension src ext" if "(rel', p) \<in> set (ws_working st)" for rel' p
    using tmp_not_working [OF ok ext(1) that ext(2)] .
  obtain rows rows' where rr: "read_rows io (ws_fs st) src = Some rows" "read_rows io fs (with_extension src ext) = Some rows'" "R rows rows'"
    and keep: "\<And>p. p \<noteq> with_extension src ext \<Longrightarrow> fs_read fs p = fs_read (ws_fs st) p"
    using R e unfolding row_engine_def by metis
  have "read_rows io fs' src = Some rows'" using r rr(2) by (auto simp: rename_file_def read_rows_def split: option.splits)
  moreover have "read_rows io fs' p = read_rows io (ws_fs st) p" if "(rel', p) \<in> set (ws_working st)" "p \<noteq> src" for rel' p
  proof (rule read_rows_cong)
    show "fs_read fs' p = fs_read (ws_fs st) p"
      using r keep [OF ne [OF that(1)]] that(2) ne [OF that(1)] by (auto simp: rename_file_def split: option.splits)
  qed
  moreover have "bt_insert rel src (ws_working st) = ws_working st"
    using bt_insert_same [OF _ src] ok by (simp add: ws_ok_def)
  ultimately show thesis using that [OF src, of rows rows'] rr st' by simp
qed

lemma replace_file_rows:
  assumes "ws_ok io work st" "row_engine io (=) engine"
    "list_all (\<lambda>(rel, _). \<not> str_ends_with rel (''.'' @ ext)) (ws_working st)" "CHR ''/'' \<notin> set ext"
    and "replace_file engine missing ext rel st = Inr st'"
  shows "ws_ok io work st' \<and> ws_working st' = ws_working st \<and> dataset_rows io st' = dataset_rows io st"
proof -
  obtain src rows where w: "ws_working st' = ws_working st" and src: "read_rows io (ws_fs st) src = Some rows"
    "read_rows io (ws_fs st') src = Some rows"
    and keep: "\<And>rel' p. (rel', p) \<in> set (ws_working st) \<Longrightarrow> p \<noteq> src \<Longrightarrow> read_rows io (ws_fs st') p = read_rows io (ws_fs st) p"
    by (rule replace_file_ok [OF assms]) blast
  have same: "read_rows io (ws_fs st') p = read_rows io (ws_fs st) p" if "(rel', p) \<in> set (ws_working st)" for rel' p
    using keep [OF that] src by (cases "p = src") auto
  then have "dataset_rows io st' = dataset_rows io st" unfolding dataset_rows_def w by (rule rows_in_cong)
  moreover have "ws_ok io work st'" using assms(1) same by (auto simp: ws_ok_def w list_all_iff entry_ok_def)
  ultimately show ?thesis using w by simp
qed

lemma replace_files_rows:
  assumes "row_engine io (=) engine" "CHR ''/'' \<notin> set ext"
  shows "ws_ok io work st \<Longrightarrow> list_all (\<lambda>(rel, _). \<not> str_ends_with rel (''.'' @ ext)) (ws_working st) \<Longrightarrow>
    replace_files engine missing ext rels st = Inr st' \<Longrightarrow>
    ws_ok io work st' \<and> ws_working st' = ws_working st \<and> dataset_rows io st' = dataset_rows io st"
proof (induction rels arbitrary: st)
  case (Cons rel rels)
  then obtain s where s: "replace_file engine missing ext rel st = Inr s" "replace_files engine missing ext rels s = Inr st'"
    by (auto simp: bind_res_Inr_iff)
  note r = replace_file_rows [OF Cons.prems(1) assms(1) Cons.prems(2) assms(2) s(1)]
  with Cons.IH [of s] Cons.prems(2) s(2) show ?case by simp
qed simp


subsection \<open>Merging and splitting\<close>

lemma drop_inputs:
  "bt_sorted (ws_working st) \<Longrightarrow>
   ws_working (fold drop_input rels st) = filter (\<lambda>e. fst e \<notin> set rels) (ws_working st)"
proof (induction rels arbitrary: st)
  case (Cons rel rels)
  have "ws_working (drop_input rel st) = filter (\<lambda>e. fst e \<noteq> rel) (ws_working st)"
  proof (cases "map_of (ws_working st) rel")
    case None
    then have "filter (\<lambda>e. fst e \<noteq> rel) (ws_working st) = ws_working st"
      by (auto simp: filter_id_conv map_of_eq_None_iff)
    with None show ?thesis by (simp add: drop_input_def)
  next
    case (Some p)
    then show ?thesis by (auto simp: drop_input_def bt_remove_def intro!: filter_cong)
  qed
  moreover have "bt_sorted (ws_working (drop_input rel st))"
    using Cons.prems by (simp add: drop_input_def split: option.split)
  ultimately show ?case using Cons.IH [of "drop_input rel st"] by (simp add: conj_commute) 
qed simp

lemma drop_inputs_fs:
  "(\<And>rel. rel \<in> set rels \<Longrightarrow> map_of (ws_working st) rel \<noteq> Some p) \<Longrightarrow> fs_read (ws_fs (fold drop_input rels st)) p = fs_read (ws_fs st) p"
proof (induction rels arbitrary: st)
  case (Cons rel rels)
  have "map_of (ws_working (drop_input rel st)) r \<noteq> Some p" if "r \<in> set rels" for r
    using Cons.prems that by (auto simp: drop_input_def split: option.splits)
  then have "fs_read (ws_fs (fold drop_input rels (drop_input rel st))) p = fs_read (ws_fs (drop_input rel st)) p"
    by (rule Cons.IH)
  also have "\<dots> = fs_read (ws_fs st) p" using Cons.prems [of rel] by (auto simp: drop_input_def split: option.splits)
  finally show ?case by simp
qed simp

lemma copy_file_ok: "copy_file src dest fs = Inr fs' \<Longrightarrow>
    fs_read fs' dest = fs_read fs src \<and> (\<forall>p. p \<noteq> dest \<longrightarrow> fs_read fs' p = fs_read fs p)"
  by (auto simp: copy_file_def split: option.splits)

text \<open>
  Copying engine outputs, which lie outside the working set, to fresh names adds their rows.
\<close>

lemma adopt_rows:
  assumes "wf_work work" and abs: "\<And>i. \<not> is_absolute (name i)"
    and inj: "\<And>i j. name i = name j \<Longrightarrow> i = j"
  shows "ws_ok io work st \<Longrightarrow> map (read_rows io (ws_fs st)) outs = map Some rss \<Longrightarrow>
    (\<And>j. j \<ge> i \<Longrightarrow> name j \<notin> fst ` set (ws_working st)) \<Longrightarrow>
    (\<And>j. work @ ''/'' @ name j \<notin> set outs) \<Longrightarrow>
    adopt_outputs work name i outs st = Inr st' \<Longrightarrow>
    ws_ok io work st' \<and> dataset_rows io st' = dataset_rows io st + mset (concat rss) \<and>
    fst ` set (ws_working st') \<subseteq> fst ` set (ws_working st) \<union> range name"
proof (induction outs arbitrary: i st rss)
  case Nil
  then show ?case by (auto simp: dataset_rows_def)
next
  case (Cons out outs)
  define dest where "dest = work @ ''/'' @ name i"
  have j: "path_join work (name i) = dest" using path_join_work [OF assms(1) abs] by (simp add: dest_def)
  obtain fs where cp: "copy_file out dest (ws_fs st) = Inr fs"
    and rest: "adopt_outputs work name (Suc i) outs \<lparr>ws_fs = fs, ws_working = bt_insert (name i) dest (ws_working st)\<rparr> = Inr st'"
    using Cons.prems(5) by (auto simp: bind_res_Inr_iff j)
  let ?st = "\<lparr>ws_fs = fs, ws_working = bt_insert (name i) dest (ws_working st)\<rparr>"
  obtain rows rss' where rss: "rss = rows # rss'" using Cons.prems(2) by (cases rss) auto
  note c = copy_file_ok [OF cp]
  have fresh: "name i \<notin> fst ` set (ws_working st)" using Cons.prems(3) by blast
  have other: "read_rows io fs p = read_rows io (ws_fs st) p" if "p \<noteq> dest" for p
    using c that by (intro read_rows_cong) simp
  have new: "read_rows io fs dest = Some rows"
    using Cons.prems(2) c rss by (simp add: read_rows_def)
  have entries: "p \<noteq> dest" if "(rel, p) \<in> set (ws_working st)" for rel p
    using that Cons.prems(1) fresh by (force simp: ws_ok_def list_all_iff entry_ok_def dest_def)
  have ms: "mset (bt_insert (name i) dest (ws_working st)) = mset ((name i, dest) # ws_working st)"
    using mset_bt_insert [OF fresh] by simp
  have "rows_in io fs (ws_working st) = dataset_rows io st"
    unfolding dataset_rows_def by (rule rows_in_cong) (use other entries in blast)
  then have d: "dataset_rows io ?st = dataset_rows io st + mset rows"
    using rows_in_mset [OF ms, of io fs] new by (simp add: dataset_rows_def rows_in_def ac_simps)
  have sets: "set (bt_insert (name i) dest (ws_working st)) = insert (name i, dest) (set (ws_working st))"
    using mset_eq_setD [OF ms] by simp
  have "entry_ok io work fs (name i, dest)" using new abs by (simp add: entry_ok_def dest_def)
  moreover have "entry_ok io work fs e" if "e \<in> set (ws_working st)" for e
    using ws_ok_entry [OF Cons.prems(1) that] entry_ok_cong [OF other, of e work] entries [of "fst e" "snd e"] that by simp
  ultimately have ok: "ws_ok io work ?st" using Cons.prems(1)
    by (simp add: ws_ok_def list_all_iff sets)
  have outs: "map (read_rows io fs) outs = map Some rss'"
  proof -
    have "map (read_rows io fs) outs = map (read_rows io (ws_fs st)) outs"
      by (rule map_cong [OF refl other]) (use Cons.prems(4) [of i] in \<open>auto simp: dest_def\<close>)
    also have "\<dots> = map Some rss'" using Cons.prems(2) rss by simp
    finally show ?thesis .
  qed
  have "name k \<notin> fst ` set (ws_working ?st)" if "k \<ge> Suc i" for k
    using Cons.prems(3) [of k] that inj [of k i] by (auto simp: sets)
  from Cons.IH [OF ok, of rss' "Suc i"] outs this Cons.prems(4) rest
  have "ws_ok io work st' \<and> dataset_rows io st' = dataset_rows io ?st + mset (concat rss') \<and>
    fst ` set (ws_working st') \<subseteq> fst ` set (ws_working ?st) \<union> range name" by simp
  then show ?case unfolding d rss by (auto simp: sets ac_simps)
qed

lemma remove_dir_rows:
  assumes ok: "ws_ok io work st" and "list_all (\<lambda>(rel, _). \<not> str_starts_with rel (d @ ''/'')) (ws_working st)"
  shows "ws_ok io work (st\<lparr>ws_fs := remove_dir_all (work @ ''/'' @ d) (ws_fs st)\<rparr>) \<and>
    dataset_rows io (st\<lparr>ws_fs := remove_dir_all (work @ ''/'' @ d) (ws_fs st)\<rparr>) = dataset_rows io st"
proof -
  have rd: "fs_read (remove_dir_all dir fs) p = fs_read fs p" if "\<not> str_starts_with p (dir @ ''/'')" for dir fs p
    using that by (induction fs) (auto simp: fs_read_def remove_dir_all_def)
  have "read_rows io (remove_dir_all (work @ ''/'' @ d) (ws_fs st)) p = read_rows io (ws_fs st) p"
    if "(rel, p) \<in> set (ws_working st)" for rel p
  proof (rule read_rows_cong [OF rd])
    have "p = work @ ''/'' @ rel" "\<not> str_starts_with rel (d @ ''/'')"
      using assms that by (auto simp: ws_ok_def list_all_iff entry_ok_def)
    then show "\<not> str_starts_with p ((work @ ''/'' @ d) @ ''/'')" by (auto simp: str_starts_with_iff)
  qed
  note same = this
  have "rows_in io (remove_dir_all (work @ ''/'' @ d) (ws_fs st)) (ws_working st) = dataset_rows io st"
    unfolding dataset_rows_def by (rule rows_in_cong [OF same])
  moreover have "entry_ok io work (remove_dir_all (work @ ''/'' @ d) (ws_fs st)) e" if "e \<in> set (ws_working st)" for e
    using ws_ok_entry [OF ok that] entry_ok_cong [OF same, of "fst e" e work] that by simp
  ultimately show ?thesis using ok by (simp add: ws_ok_def dataset_rows_def list_all_iff)
qed


lemma rows_in_paths: "rows_in io fs w = sum_list (map (\<lambda>p. mset (the (read_rows io fs p))) (map snd w))"
  by (induction w) (auto simp: rows_in_def)

lemma mset_concat_rows: "map (read_rows io fs) ps = map Some iss \<Longrightarrow>
    sum_list (map (\<lambda>p. mset (the (read_rows io fs p))) ps) = mset (concat iss)"
  by (induction ps arbitrary: iss) auto

text \<open>Inputs that are all in the working set contribute the rows of the files they name.\<close>

lemma selected_rows:
  assumes ok: "ws_ok io work st" and d: "distinct ins"
    and iss: "map (read_rows io (ws_fs st)) (sort (map (\<lambda>r. the (map_of (ws_working st) r))
      (filter (\<lambda>r. map_of (ws_working st) r \<noteq> None) ins))) = map Some iss"
  shows "rows_in io (ws_fs st) (filter (\<lambda>e. fst e \<in> set ins) (ws_working st)) = mset (concat iss)"
proof -
  let ?w = "ws_working st" and ?sel = "filter (\<lambda>e. fst e \<in> set ins) (ws_working st)"
  let ?abs = "map (\<lambda>r. the (map_of ?w r)) (filter (\<lambda>r. map_of ?w r \<noteq> None) ins)"
  have dw: "distinct (map fst ?w)" using ok by (simp add: ws_ok_def bt_sorted_distinct)
  have path: "p = work @ ''/'' @ r" if "map_of ?w r = Some p" for r p using ws_ok_lookup(1) [OF ok that] .
  have same: "x = y" if "map_of ?w x = Some p" "map_of ?w y = Some p" for x y p
    using path [OF that(1)] path [OF that(2)] by simp
  have "distinct ?abs" using d by (auto simp: distinct_map inj_on_def dest: same)
  moreover have "distinct (map snd ?sel)"
  proof -
    have "map snd ?w = map (\<lambda>r. work @ ''/'' @ r) (map fst ?w)"
      using ok by (auto simp: ws_ok_def list_all_iff entry_ok_def)
    moreover have "inj_on (\<lambda>r. work @ ''/'' @ r) A" for A by (simp add: inj_on_def)
    ultimately have "distinct (map snd ?w)" using dw by (simp only: distinct_map simp_thms)
    then show ?thesis by (simp add: distinct_map_filter)
  qed
  moreover have "set ?abs = set (map snd ?sel)"
  proof -
    have a: "x \<in> set ?abs \<longleftrightarrow> (\<exists>r \<in> set ins. map_of ?w r = Some x)" for x by force
    have b: "x \<in> set (map snd ?sel) \<longleftrightarrow> (\<exists>r \<in> set ins. (r, x) \<in> set ?w)" for x by force
    show ?thesis by (rule set_eqI) (simp only: a b map_of_eq_Some_iff [OF dw])
  qed
  ultimately have "mset (map snd ?sel) = mset (sort ?abs)"
    by (simp only: mset_sort flip: set_eq_iff_mset_eq_distinct)
  then have "sum_list (map (\<lambda>p. mset (the (read_rows io (ws_fs st) p))) (map snd ?sel)) =
      sum_list (map (\<lambda>p. mset (the (read_rows io (ws_fs st) p))) (sort ?abs))"
    by (metis (no_types, lifting) mset_map sum_mset_sum_list)
  then show ?thesis unfolding rows_in_paths using mset_concat_rows [OF iss] by simp
qed


lemma regroup_rows:
  assumes rt: "parquet_roundtrip io" and ok: "ws_ok io work st" and dis: "distinct rels"
    and d: "d \<noteq> []" "\<not> is_absolute d" "last d \<noteq> CHR ''/''" "base \<noteq> []" "\<not> is_absolute base"
    and nm: "\<And>i. \<not> is_absolute (name i)" "\<And>i j. name i = name j \<Longrightarrow> i = j" "\<And>i. \<not> str_starts_with (name i) (d @ ''/'')"
    and fresh: "\<And>rel p. (rel, p) \<in> set (ws_working st) \<Longrightarrow> \<not> str_starts_with rel (d @ ''/'') \<and> (rel \<in> set rels \<or> rel \<notin> range name)"
    and run: "merge_parquet_files io (map (\<lambda>r. the (map_of (ws_working st) r)) (filter (\<lambda>r. map_of (ws_working st) r \<noteq> None) rels))
      (path_join work d) base target codec rg stats None (ws_fs st) = Inr (outs, fs')"
    and adopt: "adopt_outputs work name 0 outs (fold drop_input rels (st\<lparr>ws_fs := fs'\<rparr>)) = Inr st2"
  shows "ws_ok io work (st2\<lparr>ws_fs := remove_dir_all (path_join work d) (ws_fs st2)\<rparr>) \<and>
    dataset_rows io (st2\<lparr>ws_fs := remove_dir_all (path_join work d) (ws_fs st2)\<rparr>) = dataset_rows io st"
proof -
  let ?w = "ws_working st"
  let ?abs = "map (\<lambda>r. the (map_of ?w r)) (filter (\<lambda>r. map_of ?w r \<noteq> None) rels)"
  have wf: "wf_work work" using ok by (simp add: ws_ok_def)
  have jd: "path_join work d = work @ ''/'' @ d" by (rule path_join_work [OF wf d(2)])
  have "\<not> is_absolute (part_name base i)" for i
    using d(4,5) by (cases base) (auto simp: part_name_def is_absolute_def str_starts_with_def)
  then have part: "path_join (path_join work d) (part_name base i) = work @ ''/'' @ d @ ''/'' @ part_name base i" for i
    using d(1,3) by (subst path_join_work) (auto simp: wf_work_def jd)
  have entry: "p = work @ ''/'' @ rel" if "(rel, p) \<in> set ?w" for rel p
    using ws_ok_entry [OF ok that] by (simp add: entry_ok_def)
  have apart: "p \<noteq> work @ ''/'' @ d @ ''/'' @ r" if "(rel, p) \<in> set ?w" for rel p r
    using entry [OF that] fresh [OF that] by (auto simp: str_starts_with_iff)
  have "path_join (path_join work d) (part_name base i) \<notin> set ?abs" for i
  proof
    assume "path_join (path_join work d) (part_name base i) \<in> set ?abs"
    then obtain x y where "map_of ?w x = Some y" "path_join (path_join work d) (part_name base i) = y" by auto
    then show False using apart [OF map_of_SomeD] part by blast
  qed
  from merge_keeps_rows [OF rt run this] obtain iss rss n
    where iss: "map (read_rows io (ws_fs st)) (sort ?abs) = map Some iss" and rss: "map (read_rows io fs') outs = map Some rss"
      and eq: "concat rss = concat iss" and outs: "outs = map (\<lambda>i. work @ ''/'' @ d @ ''/'' @ part_name base i) [0..<n]"
      and keep: "\<And>p. p \<notin> set outs \<Longrightarrow> fs_read fs' p = fs_read (ws_fs st) p"
    unfolding part by metis
  define st1 where "st1 = fold drop_input rels (st\<lparr>ws_fs := fs'\<rparr>)"
  have w1: "ws_working st1 = filter (\<lambda>e. fst e \<notin> set rels) ?w"
    using drop_inputs [of "st\<lparr>ws_fs := fs'\<rparr>" rels] ok by (simp add: st1_def ws_ok_def)
  have kept: "fs_read (ws_fs st1) p = fs_read fs' p" if "\<And>rel. rel \<in> set rels \<Longrightarrow> map_of ?w rel \<noteq> Some p" for p
    using drop_inputs_fs [of rels "st\<lparr>ws_fs := fs'\<rparr>" p] that by (simp add: st1_def)
  have same1: "read_rows io (ws_fs st1) p = read_rows io (ws_fs st) p" if "(rel, p) \<in> set (ws_working st1)" for rel p
  proof (rule read_rows_cong)
    have in_w: "(rel, p) \<in> set ?w" and out: "rel \<notin> set rels" using that by (auto simp: w1)
    have "p \<notin> set outs" using apart [OF in_w] by (auto simp: outs)
    moreover have "map_of ?w r \<noteq> Some p" if "r \<in> set rels" for r
      using entry [OF in_w] entry [of r p] out that by (auto dest!: map_of_SomeD)
    ultimately show "fs_read (ws_fs st1) p = fs_read (ws_fs st) p" using kept keep by simp
  qed
  have "read_rows io (ws_fs st1) p = read_rows io fs' p" if "p \<in> set outs" for p
    using that apart by (intro read_rows_cong kept) (auto simp: outs dest!: map_of_SomeD)
  then have rss1: "map (read_rows io (ws_fs st1)) outs = map Some rss" using rss by (metis map_eq_conv)
  have ok1: "ws_ok io work st1"
  proof -
    have "bt_sorted (ws_working st1)" using ok by (simp add: w1 ws_ok_def bt_sorted_def sorted_wrt_map sorted_wrt_filter)
    moreover have "entry_ok io work (ws_fs st1) e" if "e \<in> set (ws_working st1)" for e
      using ws_ok_entry [OF ok, of e] entry_ok_cong [OF same1, of "fst e" e work] that by (simp add: w1)
    ultimately show ?thesis using wf by (simp add: ws_ok_def list_all_iff)
  qed
  have "dataset_rows io st = rows_in io (ws_fs st) (filter (\<lambda>e. fst e \<in> set rels) ?w) + rows_in io (ws_fs st) (ws_working st1)"
    using rows_in_filter [of io "ws_fs st" ?w "\<lambda>e. fst e \<in> set rels"] by (simp add: dataset_rows_def w1)
  also have "\<dots> = mset (concat rss) + dataset_rows io st1"
    using selected_rows [OF ok dis iss] rows_in_cong [OF same1, of "ws_working st1"] eq by (simp add: dataset_rows_def)
  finally have split: "dataset_rows io st = dataset_rows io st1 + mset (concat rss)" by (simp add: ac_simps)
  have "ws_ok io work st2 \<and> dataset_rows io st2 = dataset_rows io st1 + mset (concat rss) \<and>
      fst ` set (ws_working st2) \<subseteq> fst ` set (ws_working st1) \<union> range name"
  proof (rule adopt_rows [OF wf nm(1) nm(2) ok1 rss1 _ _ adopt [folded st1_def]])
    show "name j \<notin> fst ` set (ws_working st1)" for j using fresh [of "name j"] by (auto simp: w1)
    show "work @ ''/'' @ name j \<notin> set outs" for j using nm(3) [of j] by (auto simp: outs str_starts_with_iff)
  qed
  then have fin: "ws_ok io work st2" "dataset_rows io st2 = dataset_rows io st"
    and keys: "fst ` set (ws_working st2) \<subseteq> fst ` set ?w \<union> range name" using split by (auto simp: w1)
  have "\<not> str_starts_with rel (d @ ''/'')" if "(rel, p) \<in> set (ws_working st2)" for rel p
  proof -
    have "rel \<in> fst ` set ?w \<union> range name" using keys that by (metis fst_conv image_eqI subsetD)
    then consider q where "(rel, q) \<in> set ?w" | i where "rel = name i" by auto
    then show ?thesis using fresh nm(3) by cases blast+
  qed
  then have "list_all (\<lambda>(rel, _). \<not> str_starts_with rel (d @ ''/'')) (ws_working st2)" by (auto simp: list_all_iff)
  then show ?thesis using remove_dir_rows [OF fin(1)] fin(2) unfolding jd by simp
qed


section \<open>Safe operations\<close>

text \<open>
  What the code takes for granted of an operation and does not check. The inputs: a merge
  lists each input once, and the input of a split is in the working set. The names: those an
  operation creates (\<open>merged-part-NNNN.parquet\<close>, \<open><input>.split-NNNN.parquet\<close>,
  the scratch directories \<open>_merge_out\<close> and \<open>_split_out\<close>, the temporaries
  \<open>*.parqonaut-tmp.parquet\<close>) are not names of other files of the working set.
\<close>

fun op_inputs_ok :: "repair_action \<Rightarrow> (string \<times> path) list \<Rightarrow> bool" where
  "op_inputs_ok (MergeSmallFiles _ ins) w \<longleftrightarrow> distinct ins"
| "op_inputs_ok (SplitLargeFile _ p) w \<longleftrightarrow> map_of w p \<noteq> None"
| "op_inputs_ok _ w \<longleftrightarrow> True"

fun op_names_free :: "repair_action \<Rightarrow> (string \<times> path) list \<Rightarrow> bool" where
  "op_names_free (MergeSmallFiles _ ins) w \<longleftrightarrow>
     list_all (\<lambda>(rel, _). \<not> str_starts_with rel ''_merge_out/'' \<and> (rel \<in> set ins \<or> \<not> str_starts_with rel ''merged-part-'')) w"
| "op_names_free (SplitLargeFile _ p) w \<longleftrightarrow>
     list_all (\<lambda>(rel, _). \<not> str_starts_with rel ''_split_out/'' \<and> (rel = p \<or> \<not> str_starts_with rel (p @ ''.split-''))) w"
| "op_names_free _ w \<longleftrightarrow> list_all (\<lambda>(rel, _). \<not> str_ends_with rel ''.parqonaut-tmp.parquet'') w"

lemma rewrite_row_engine: "arrow_laws io \<Longrightarrow> row_engine io (=) (\<lambda>src tmp. rewrite_parquet_file io src tmp codec rg stats)"
  using rewrite_file_rows unfolding row_engine_def by (metis option.exhaust)

lemma rewrite_targets_rows:
  assumes "arrow_laws io" "ws_ok io work st" "list_all (\<lambda>(rel, _). \<not> str_ends_with rel ''.parqonaut-tmp.parquet'') (ws_working st)"
    and "rewrite_targets io paths codec rg stats st = Inr st'"
  shows "ws_ok io work st' \<and> dataset_rows io st' = dataset_rows io st"
proof -
  have n: "CHR ''/'' \<notin> set ''parqonaut-tmp.parquet''" by simp
  have e: "list_all (\<lambda>(rel, _). \<not> str_ends_with rel (''.'' @ ''parqonaut-tmp.parquet'')) (ws_working st)" using assms(3) by simp
  show ?thesis
    using replace_files_rows [OF rewrite_row_engine [OF assms(1)] n assms(2) e assms(4) [unfolded rewrite_targets_def]] by simp
qed

lemma merge_op_rows:
  assumes "arrow_laws io" "ws_ok io work st" "op_inputs_ok (MergeSmallFiles b ins) (ws_working st)"
    and "op_names_free (MergeSmallFiles b ins) (ws_working st)" "apply_merge io work b ins st = Inr st'"
  shows "ws_ok io work st' \<and> dataset_rows io st' = dataset_rows io st"
proof (cases "length (filter (\<lambda>rel. map_of (ws_working st) rel \<noteq> None) ins) < 2")
  case True
  then show ?thesis using assms(2,5) by (simp add: apply_merge_def Let_def)
next
  case False
  then obtain outs fs st2 where run: "merge_parquet_files io (map (\<lambda>r. the (map_of (ws_working st) r))
      (filter (\<lambda>r. map_of (ws_working st) r \<noteq> None) ins)) (path_join work ''_merge_out'') ''part'' b None None False None (ws_fs st) = Inr (outs, fs)"
    and ad: "adopt_outputs work merged_name 0 outs (fold drop_input ins (st\<lparr>ws_fs := fs\<rparr>)) = Inr st2"
    and st': "st' = st2\<lparr>ws_fs := remove_dir_all (path_join work ''_merge_out'') (ws_fs st2)\<rparr>"
    using assms(5) by (auto simp: apply_merge_def Let_def bind_res_Inr_iff)
  have m: "str_starts_with (merged_name i) ''merged-part-''" for i by (simp add: merged_name_def str_starts_with_def)
  show ?thesis unfolding st'
  proof (rule regroup_rows [OF arrow_roundtrip [OF assms(1)] assms(2) _ _ _ _ _ _ _ _ _ _ run ad])
    show "\<not> str_starts_with rel (''_merge_out'' @ ''/'') \<and> (rel \<in> set ins \<or> rel \<notin> range merged_name)"
      if "(rel, p) \<in> set (ws_working st)" for rel p
      using assms(4) that m by (auto simp: list_all_iff)
  qed (use assms(3) in \<open>simp_all add: merged_name_def is_absolute_def str_starts_with_def\<close>)
qed

lemma prefix_before:
  assumes "p @ c # t = q @ r" "c \<notin> set q"
  shows "\<exists>us. p = q @ us"
proof -
  obtain us where "p = q @ us \<or> p @ us = q \<and> c # t = us @ r" using assms(1) unfolding append_eq_append_conv2 by blast
  then show ?thesis using assms(2) by (cases us) auto
qed

lemma split_name_apart:
  assumes "\<not> str_starts_with p ''_split_out/''"
  shows "\<not> str_starts_with (split_name p i) ''_split_out/''"
proof
  assume "str_starts_with (split_name p i) ''_split_out/''"
  then obtain r where r: "p @ CHR ''.'' # ''split-'' @ show_nat04 i @ ''.parquet'' = ''_split_out/'' @ r"
    by (auto simp: split_name_def str_starts_with_iff)
  have "\<exists>us. p = ''_split_out/'' @ us" by (rule prefix_before [OF r]) simp
  then show False using assms by (auto simp: str_starts_with_iff)
qed

lemma split_op_rows:
  assumes "arrow_laws io" "ws_ok io work st" "op_inputs_ok (SplitLargeFile b p) (ws_working st)"
    and "op_names_free (SplitLargeFile b p) (ws_working st)" "apply_split io root work b p st = Inr st'"
  shows "ws_ok io work st' \<and> dataset_rows io st' = dataset_rows io st"
proof -
  obtain src where src: "map_of (ws_working st) p = Some src" using assms(3) by auto
  obtain outs fs st2 where run: "merge_parquet_files io (map (\<lambda>r. the (map_of (ws_working st) r))
      (filter (\<lambda>r. map_of (ws_working st) r \<noteq> None) [p])) (path_join work ''_split_out'') ''split'' b None None True None (ws_fs st) = Inr (outs, fs)"
    and ad: "adopt_outputs work (split_name p) 0 outs (fold drop_input [p] (st\<lparr>ws_fs := fs\<rparr>)) = Inr st2"
    and st': "st' = st2\<lparr>ws_fs := remove_dir_all (path_join work ''_split_out'') (ws_fs st2)\<rparr>"
    using assms(5) src by (auto simp: apply_split_def split_parquet_file_def Let_def bind_res_Inr_iff)
  note pk = ws_ok_lookup [OF assms(2) src]
  have m: "str_starts_with (split_name p i) (p @ ''.split-'')" for i by (simp add: split_name_def str_starts_with_iff)
  have np: "\<not> str_starts_with p ''_split_out/''" using assms(4) pk(4) by (auto simp: list_all_iff)
  show ?thesis unfolding st'
  proof (rule regroup_rows [OF arrow_roundtrip [OF assms(1)] assms(2) _ _ _ _ _ _ _ _ _ _ run ad])
    show "\<not> str_starts_with rel (''_split_out'' @ ''/'') \<and> (rel \<in> set [p] \<or> rel \<notin> range (split_name p))"
      if "(rel, q) \<in> set (ws_working st)" for rel q
      using assms(4) that m by (auto simp: list_all_iff)
    show "\<not> is_absolute (split_name p i)" for i
      using pk(2) by (cases p) (auto simp: split_name_def is_absolute_def str_starts_with_def)
    show "\<not> str_starts_with (split_name p i) (''_split_out'' @ ''/'')" for i using split_name_apart [OF np] by simp
  qed (simp_all add: split_name_def is_absolute_def str_starts_with_def)
qed

lemma safe_op_rows:
  assumes "arrow_laws io" "ws_ok io work st" "default_safety (action op) = Safe" "op_inputs_ok (action op) (ws_working st)"
    and "op_names_free (action op) (ws_working st)"
    and "apply_operation io root work op st = Inr st'"
  shows "ws_ok io work st' \<and> dataset_rows io st' = dataset_rows io st"
  using assms(3-6) merge_op_rows [OF assms(1,2)] split_op_rows [OF assms(1,2)] rewrite_targets_rows [OF assms(1,2)]
  unfolding apply_operation_def by (cases "action op") auto

end
