(* ===== verification/Repair_Execute_Confined.thy ===== *)
theory Repair_Execute_Confined
  imports Repair_Execute Plain_Paths
begin

text \<open>
  Where an execution writes: every file it creates, replaces or removes before the copy to
  the output lies inside its work directory, under a plain relative path.
\<close>

section \<open>Writes inside a directory\<close>

definition confined :: "path \<Rightarrow> file_system \<Rightarrow> file_system \<Rightarrow> bool" where
  "confined work fs fs' \<longleftrightarrow> (\<forall>p. \<not> inside work p \<longrightarrow> fs_read fs' p = fs_read fs p)"

lemma confined_refl [simp, intro]: "confined work fs fs"
  by (simp add: confined_def)

lemma confined_trans: "confined work a b \<Longrightarrow> confined work b c \<Longrightarrow> confined work a c"
  by (simp add: confined_def)

lemma confined_write: "inside work p \<Longrightarrow> confined work fs (fs_write p b fs)"
  by (auto simp: confined_def)

lemma confined_remove: "inside work p \<Longrightarrow> confined work fs (fs_remove p fs)"
  by (auto simp: confined_def)

definition wf_dir :: "path \<Rightarrow> bool" where
  "wf_dir work \<longleftrightarrow> work \<noteq> [] \<and> last work \<noteq> CHR ''/''"

lemma join_dir: "wf_dir work \<Longrightarrow> plain_rel rel \<Longrightarrow> path_join work rel = work @ ''/'' @ rel"
  using plain_rel_relative by (auto simp: wf_dir_def path_join_def)

lemma inside_join: "wf_dir work \<Longrightarrow> plain_rel rel \<Longrightarrow> inside work (path_join work rel)"
  by (auto simp: inside_iff join_dir)

lemma show_nat_no_slash: "CHR ''/'' \<notin> set (show_nat i)"
proof (induction i rule: show_nat.induct)
  case (1 n)
  have d: "CHR ''/'' \<noteq> digit_char k" if "k < 10" for k
  proof
    assume "CHR ''/'' = digit_char k"
    then have "of_char (CHR ''/'') = 48 + k" using of_char_digit [OF that] by simp
    then show False by simp
  qed
  show ?case using 1 d [of n] d [of "n mod 10"] by (subst show_nat.simps) simp
qed

lemma show_nat04_no_slash: "CHR ''/'' \<notin> set (show_nat04 i)"
  using show_nat_no_slash [of i] by (auto simp: show_nat04_def Let_def)

lemma part_name_plain: "CHR ''/'' \<notin> set base \<Longrightarrow> plain_rel (part_name base i)"
  using show_nat04_no_slash [of i] by (auto simp: part_name_def plain_rel_name proper_name_def append_eq_Cons_conv)

lemma merged_name_plain: "plain_rel (merged_name i)"
  using show_nat04_no_slash [of i] by (auto simp: merged_name_def plain_rel_name proper_name_def)

lemma split_name_plain: "plain_rel p \<Longrightarrow> plain_rel (split_name p i)"
proof -
  assume p: "plain_rel p"
  have t: "split_on (CHR ''/'') (a @ b) = butlast (split_on (CHR ''/'') a) @ [last (split_on (CHR ''/'') a) @ b]" if "CHR ''/'' \<notin> set b" for a b :: string
    using that split_on_no_sep [OF that] by (induction a) (auto split: list.split)
  have e: "CHR ''/'' \<notin> set (''.split-'' @ show_nat04 i @ ''.parquet'')" using show_nat04_no_slash [of i] by simp
  have "list_all proper_name (butlast (split_on (CHR ''/'') p))" "CHR ''/'' \<notin> set (last (split_on (CHR ''/'') p))"
    using p split_on_parts_no_sep [OF last_in_set, of "CHR ''/''" p] by (auto simp: plain_rel_def list_all_iff dest: in_set_butlastD)
  then show ?thesis unfolding split_name_def plain_rel_def t [OF e] using e by (auto simp: proper_name_def append_eq_Cons_conv)
qed

lemma dir_name: "dir_part p @ name_part p = p"
  by (simp add: dir_part_def name_part_def flip: rev_append)

lemma dir_part_append: "dir_part (w @ CHR ''/'' # r) = w @ CHR ''/'' # dir_part r"
  by (simp add: dir_part_def dropWhile_append)

lemma name_part_append: "name_part (w @ CHR ''/'' # r) = name_part r"
proof -
  have "takeWhile (\<lambda>c. c \<noteq> CHR ''/'') (rev r @ CHR ''/'' # rev w) = takeWhile (\<lambda>c. c \<noteq> CHR ''/'') (rev r)"
    by (induction "rev r" arbitrary: r rule: list.induct) (simp_all add: takeWhile_tail)
  then show ?thesis by (simp add: name_part_def)
qed

lemma name_part_no_slash: "CHR ''/'' \<notin> set (name_part p)"
  by (auto simp: name_part_def dest: set_takeWhileD)

lemma file_stem_no_slash: "CHR ''/'' \<notin> set n \<Longrightarrow> CHR ''/'' \<notin> set (file_stem n)"
proof -
  assume n: "CHR ''/'' \<notin> set n"
  have "set (butlast (rev (dropWhile (\<lambda>c. c \<noteq> CHR ''.'') (rev n)))) \<subseteq> set n"
    using set_dropWhileD in_set_butlastD by fastforce
  then show ?thesis using n by (auto simp: file_stem_def Let_def)
qed

lemma proper_name_extended: "CHR ''/'' \<notin> set a \<Longrightarrow> CHR ''/'' \<notin> set ext \<Longrightarrow> 2 \<le> length ext \<Longrightarrow> proper_name (a @ ''.'' @ ext)"
  by (cases a; cases ext rule: rev_cases) (auto simp: proper_name_def append_eq_Cons_conv)

lemma dir_part_cases: "dir_part r = [] \<or> (\<exists>d. dir_part r = d @ ''/'')"
proof (cases "dropWhile (\<lambda>c. c \<noteq> CHR ''/'') (rev r)")
  case (Cons c cs)
  then have "c = CHR ''/''" using hd_dropWhile [of "\<lambda>c. c \<noteq> CHR ''/''" "rev r"] by simp
  then show ?thesis using Cons by (simp add: dir_part_def)
qed (simp add: dir_part_def)

lemma inside_with_extension:
  assumes "inside work p" "CHR ''/'' \<notin> set ext" "2 \<le> length ext"
  shows "inside work (with_extension p ext)"
proof -
  obtain r where p: "p = work @ CHR ''/'' # r" and r: "plain_rel r" using assms(1) by (auto simp: inside_iff)
  let ?n = "file_stem (name_part r) @ ''.'' @ ext"
  have "with_extension p ext = work @ ''/'' @ dir_part r @ ?n" by (simp add: with_extension_def p dir_part_append name_part_append)
  moreover have n: "plain_rel ?n"
    using proper_name_extended [OF _ assms(2,3)] file_stem_no_slash [OF name_part_no_slash, of r] assms(2)
    by (subst plain_rel_name) auto
  have "plain_rel (dir_part r @ ?n)" using dir_part_cases [of r]
  proof
    assume "\<exists>d. dir_part r = d @ ''/''"
    then obtain d where d: "dir_part r = d @ ''/''" by blast
    then have "plain_rel (d @ CHR ''/'' # name_part r)" using r dir_name [of r] by simp
    then show ?thesis using d n by simp
  qed (use n in simp)
  ultimately show ?thesis by (auto simp: inside_iff)
qed

section \<open>The engine\<close>

lemma close_writer_confined: "close_writer io w fs = Inr fs' \<Longrightarrow> inside work (w_path w) \<Longrightarrow> confined work fs fs'"
  by (auto simp: close_writer_def bind_res_Inr_iff intro: confined_write)

lemma rewrite_with_confined:
  "rewrite_with io f s pr out rs fs = Inr fs' \<Longrightarrow> inside work out \<Longrightarrow> confined work fs fs'"
  by (auto simp: rewrite_with_def bind_res_Inr_iff intro: confined_trans [OF confined_write close_writer_confined])

lemma engines_confined:
  "rewrite_parquet_file io src out c rg stats fs = Inr fs' \<Longrightarrow> inside work out \<Longrightarrow> confined work fs fs'"
  "rewrite_parquet_with_cast io src out col ty c rg stats fs = Inr fs' \<Longrightarrow> inside work out \<Longrightarrow> confined work fs fs'"
  "rewrite_parquet_with_rename io src out a b c rg stats fs = Inr fs' \<Longrightarrow> inside work out \<Longrightarrow> confined work fs fs'"
  by (auto simp: rewrite_parquet_file_def rewrite_parquet_with_cast_def rewrite_parquet_with_rename_def bind_res_Inr_iff Let_def
      split: option.splits if_splits intro: rewrite_with_confined)

definition parts_inside :: "path \<Rightarrow> merge_config \<Rightarrow> bool" where
  "parts_inside work cfg \<longleftrightarrow> (\<forall>i. inside work (part_path cfg i))"

definition merge_inside :: "path \<Rightarrow> file_system \<Rightarrow> merge_state \<Rightarrow> bool" where
  "merge_inside work fs0 st \<longleftrightarrow> confined work fs0 (ms_fs st) \<and> (\<forall>w. ms_writer st = Some w \<longrightarrow> inside work (w_path w))"

lemma close_part_inside: "merge_inside work fs0 st \<Longrightarrow> close_part io st = Inr st' \<Longrightarrow> merge_inside work fs0 st'"
  by (auto simp: merge_inside_def close_part_def bind_res_Inr_iff split: option.splits
      intro: confined_trans [OF _ close_writer_confined])

lemma merge_batch_inside:
  assumes "merge_inside work fs0 st" "parts_inside work cfg" "merge_batch io cfg schema b st = Inr st'"
  shows "merge_inside work fs0 st'"
proof -
  have push: "merge_inside work fs0 s \<Longrightarrow> merge_inside work fs0 (push_batch n b s)" for s n
    by (auto simp: merge_inside_def push_batch_def)
  have opn: "merge_inside work fs0 s \<Longrightarrow> merge_inside work fs0 (open_part cfg schema s)" for s
    using assms(2) by (auto simp: merge_inside_def open_part_def Let_def parts_inside_def intro: confined_trans [OF _ confined_write])
  show ?thesis using assms(1,3) push opn close_part_inside
    by (auto simp: merge_batch_def Let_def bind_res_Inr_iff split: if_splits)
qed

lemma merge_batches_inside:
  "parts_inside work cfg \<Longrightarrow> merge_inside work fs0 st \<Longrightarrow> merge_batches io cfg schema rs st = Inr st' \<Longrightarrow> merge_inside work fs0 st'"
  by (induction rs arbitrary: st) (auto simp: bind_res_Inr_iff dest: merge_batch_inside)

lemma merge_inputs_inside:
  "parts_inside work cfg \<Longrightarrow> merge_inside work fs0 st \<Longrightarrow> merge_inputs io cfg ps st = Inr st' \<Longrightarrow> merge_inside work fs0 st'"
proof (induction ps arbitrary: st)
  case (Cons p ps)
  then obtain s where s: "merge_input io cfg p st = Inr s" "merge_inputs io cfg ps s = Inr st'" by (auto simp: bind_res_Inr_iff)
  obtain schema rs where m: "merge_batches io cfg schema rs (st\<lparr>ms_schema := Some schema\<rparr>) = Inr s"
    using s(1) by (auto simp: merge_input_def bind_res_Inr_iff split: if_splits)
  have "merge_inside work fs0 (st\<lparr>ms_schema := Some schema\<rparr>)" using Cons.prems(2) by (simp add: merge_inside_def)
  then have "merge_inside work fs0 s" using merge_batches_inside [OF Cons.prems(1) _ m] by blast
  then show ?case using Cons.IH [OF Cons.prems(1)] s(2) by blast
qed simp

lemma merge_confined:
  assumes "merge_parquet_files io inputs dir base target codec rg stats None fs = Inr (outs, fs')"
    and "\<And>i. inside work (path_join dir (part_name base i))"
  shows "confined work fs fs'"
proof -
  obtain c where c: "compression_option codec = Inr c" using assms(1)
    by (auto simp: merge_parquet_files_def bind_res_Inr_iff split: if_splits)
  define cfg where "cfg = \<lparr>mc_dir = dir, mc_basename = base, mc_target = target,
              mc_props = writer_props_new c rg stats, mc_exact = None\<rparr>"
  define st0 where "st0 = \<lparr>ms_fs = fs, ms_outputs = [], ms_part = 0, ms_bytes = 0, ms_writer = None, ms_schema = None\<rparr>"
  obtain s s' where s: "merge_inputs io cfg (sort inputs) st0 = Inr s" "close_part io s = Inr s'" "fs' = ms_fs s'"
    using assms(1) c by (auto simp: merge_parquet_files_def bind_res_Inr_iff Let_def cfg_def st0_def split: if_splits)
  have "parts_inside work cfg" using assms(2) by (simp add: parts_inside_def part_path_def cfg_def)
  moreover have "merge_inside work fs st0" by (simp add: merge_inside_def st0_def)
  ultimately have "merge_inside work fs s'" using close_part_inside merge_inputs_inside s(1,2) by blast
  then show ?thesis by (simp add: merge_inside_def s)
qed


section \<open>The working set\<close>

definition fresh_dir :: "path \<Rightarrow> file_system \<Rightarrow> bool" where
  "fresh_dir d fs = list_all (\<lambda>(q, _). \<not> within d q) fs"

lemma fs_read_iff: "fs_read fs p \<noteq> None \<longleftrightarrow> p \<in> fst ` set fs"
  by (simp add: fs_read_def map_of_eq_None_iff)

lemma fresh_dir_read: "fresh_dir d fs \<Longrightarrow> within d p \<Longrightarrow> fs_read fs p = None"
  using fs_read_iff [of fs p] by (auto simp: fresh_dir_def list_all_iff)

definition work_inv :: "path \<Rightarrow> file_system \<Rightarrow> work_state \<Rightarrow> bool" where
  "work_inv work fs0 st \<longleftrightarrow> fresh_dir work fs0 \<and> confined work fs0 (ws_fs st) \<and>
     (\<forall>(rel, p) \<in> set (ws_working st). inside work p)"

lemma copy_file_confined: "copy_file src dest fs = Inr fs' \<Longrightarrow> inside work dest \<Longrightarrow> confined work fs fs'"
  by (auto simp: copy_file_def split: option.splits intro: confined_write)

lemma work_inv_insert:
  "work_inv work fs0 st \<Longrightarrow> confined work (ws_fs st) fs \<Longrightarrow> inside work p \<Longrightarrow>
   work_inv work fs0 \<lparr>ws_fs = fs, ws_working = bt_insert rel p (ws_working st)\<rparr>"
  using set_bt_insert [of rel p "ws_working st"] by (auto simp: work_inv_def intro: confined_trans)

lemma drop_input_inv: "work_inv work fs0 st \<Longrightarrow> work_inv work fs0 (drop_input rel st)"
  by (auto simp: drop_input_def work_inv_def bt_remove_def split: option.splits dest!: map_of_SomeD
      intro: confined_trans [OF _ confined_remove])

lemma drop_inputs_inv: "work_inv work fs0 st \<Longrightarrow> work_inv work fs0 (fold drop_input rels st)"
  by (induction rels arbitrary: st) (auto intro: drop_input_inv)

lemma adopt_inv:
  assumes "wf_dir work" "\<And>i. plain_rel (name i)"
  shows "work_inv work fs0 st \<Longrightarrow> adopt_outputs work name i outs st = Inr st' \<Longrightarrow> work_inv work fs0 st'"
proof (induction outs arbitrary: i st)
  case (Cons out outs)
  have i: "inside work (path_join work (name i))" using assms by (rule inside_join)
  obtain fs where fs: "copy_file out (path_join work (name i)) (ws_fs st) = Inr fs"
    and rest: "adopt_outputs work name (Suc i) outs
      \<lparr>ws_fs = fs, ws_working = bt_insert (name i) (path_join work (name i)) (ws_working st)\<rparr> = Inr st'"
    using Cons.prems(2) by (auto simp: bind_res_Inr_iff)
  show ?case by (rule Cons.IH [OF work_inv_insert [OF Cons.prems(1) copy_file_confined [OF fs i] i] rest])
qed simp

lemma remove_dir_all_read: "\<not> str_starts_with p (dir @ ''/'') \<Longrightarrow> fs_read (remove_dir_all dir fs) p = fs_read fs p"
  by (induction fs) (auto simp: fs_read_def remove_dir_all_def)

lemma remove_dir_all_inside: "str_starts_with p (dir @ ''/'') \<Longrightarrow> fs_read (remove_dir_all dir fs) p = None"
  by (auto simp: fs_read_def remove_dir_all_def map_of_eq_None_iff)

lemma remove_dir_inv:
  assumes "work_inv work fs0 st" "wf_dir work" "plain_rel sub"
  shows "work_inv work fs0 (st\<lparr>ws_fs := remove_dir_all (path_join work sub) (ws_fs st)\<rparr>)"
proof -
  have "fs_read (remove_dir_all (path_join work sub) (ws_fs st)) p = fs_read fs0 p" if "\<not> inside work p" for p
  proof (cases "str_starts_with p (path_join work sub @ ''/'')")
    case True
    then have "within work p" using assms(2,3) by (auto simp: within_iff str_starts_with_iff join_dir)
    then show ?thesis using True assms(1) fresh_dir_read by (auto simp: work_inv_def remove_dir_all_inside)
  next
    case False
    then show ?thesis using that assms(1) by (auto simp: work_inv_def confined_def remove_dir_all_read)
  qed
  then show ?thesis using assms(1) by (simp add: work_inv_def confined_def)
qed

lemma regroup_inv:
  assumes inv: "work_inv work fs0 st" and wf: "wf_dir work" and sub: "plain_rel sub" and base: "CHR ''/'' \<notin> set base"
    and name: "\<And>i. plain_rel (name i)"
    and run: "merge_parquet_files io inputs (path_join work sub) base target codec rg stats None (ws_fs st) = Inr (outs, fs')"
    and ad: "adopt_outputs work name 0 outs (fold drop_input rels (st\<lparr>ws_fs := fs'\<rparr>)) = Inr st2"
  shows "work_inv work fs0 (st2\<lparr>ws_fs := remove_dir_all (path_join work sub) (ws_fs st2)\<rparr>)"
proof -
  have "wf_dir (path_join work sub)" using wf sub plain_rel_last plain_rel_relative by (simp add: join_dir wf_dir_def)
  then have "inside work (path_join (path_join work sub) (part_name base i))" for i
    using wf sub part_name_plain [OF base, of i] by (auto simp: inside_iff join_dir)
  from merge_confined [OF run this] have "work_inv work fs0 (st\<lparr>ws_fs := fs'\<rparr>)"
    using inv by (auto simp: work_inv_def intro: confined_trans)
  then have "work_inv work fs0 st2" using adopt_inv [OF wf name drop_inputs_inv ad] by blast
  then show ?thesis by (rule remove_dir_inv [OF _ wf sub])
qed

lemma replace_file_inv:
  assumes "work_inv work fs0 st" "replace_file engine missing ext rel st = Inr st'" and ext: "CHR ''/'' \<notin> set ext" "2 \<le> length ext"
    and eng: "\<And>src out fs fs'. engine src out fs = Inr fs' \<Longrightarrow> inside work out \<Longrightarrow> confined work fs fs'"
  shows "work_inv work fs0 st'"
proof -
  obtain src fs fs' where src: "map_of (ws_working st) rel = Some src"
    and e: "engine src (with_extension src ext) (ws_fs st) = Inr fs" and r: "rename_file (with_extension src ext) src fs = Inr fs'"
    and st': "st' = \<lparr>ws_fs = fs', ws_working = bt_insert rel src (ws_working st)\<rparr>"
    using assms(2) by (cases "map_of (ws_working st) rel") (auto simp: replace_file_def bind_res_Inr_iff Let_def)
  have i: "inside work src" using map_of_SomeD [OF src] assms(1) by (auto simp: work_inv_def)
  have "confined work fs fs'" using r i inside_with_extension [OF i ext]
    by (auto simp: rename_file_def split: option.splits intro: confined_trans [OF confined_remove confined_write])
  then have "confined work (ws_fs st) fs'" using confined_trans [OF eng [OF e inside_with_extension [OF i ext]]] by blast
  then show ?thesis unfolding st' by (rule work_inv_insert [OF assms(1) _ i])
qed

lemma replace_files_inv:
  assumes "\<And>src out fs fs'. engine src out fs = Inr fs' \<Longrightarrow> inside work out \<Longrightarrow> confined work fs fs'"
    and "CHR ''/'' \<notin> set ext" "2 \<le> length ext"
  shows "work_inv work fs0 st \<Longrightarrow> replace_files engine missing ext rels st = Inr st' \<Longrightarrow> work_inv work fs0 st'"
proof (induction rels arbitrary: st)
  case (Cons rel rels)
  then obtain s where a: "replace_file engine missing ext rel st = Inr s" and b: "replace_files engine missing ext rels s = Inr st'"
    by (auto simp: bind_res_Inr_iff)
  show ?case by (rule Cons.IH [OF replace_file_inv [OF Cons.prems(1) a assms(2,3,1)] b])
qed simp

text \<open>The input of a split names the files it makes; nothing in the code restricts it.\<close>

fun plain_split :: "repair_action \<Rightarrow> bool" where
  "plain_split (SplitLargeFile _ p) = plain_rel p"
| "plain_split _ = True"

lemma apply_operation_inv:
  assumes inv: "work_inv work fs0 st" and wf: "wf_dir work" and rs: "plain_split (action op)"
    and run: "apply_operation io root work op st = Inr st'"
  shows "work_inv work fs0 st'"
proof -
  have rep: "work_inv work fs0 s'" if "rewrite_targets io ps c rg stats st = Inr s'" for ps c rg stats s'
    by (rule replace_files_inv [where engine = "\<lambda>src tmp. rewrite_parquet_file io src tmp c rg stats", OF engines_confined(1) _ _ inv
        that [unfolded rewrite_targets_def]]) simp_all
  have cast: "work_inv work fs0 s'" if "cast_targets io ps a b st = Inr s'" for ps a b s'
    by (rule replace_files_inv [where engine = "\<lambda>src tmp. rewrite_parquet_with_cast io src tmp a b None None True",
        OF engines_confined(2) _ _ inv that [unfolded cast_targets_def]]) simp_all
  have ren: "work_inv work fs0 s'" if "rename_targets io ps a b st = Inr s'" for ps a b s'
    by (rule replace_files_inv [where engine = "\<lambda>src tmp. rewrite_parquet_with_rename io src tmp a b None None True",
        OF engines_confined(3) _ _ inv that [unfolded rename_targets_def]]) simp_all
  have dirs: "plain_rel ''_merge_out''" "plain_rel ''_split_out''" by (simp_all add: plain_rel_def proper_name_def)
  have merge: "work_inv work fs0 s'" if "apply_merge io work b ins st = Inr s'" for b ins s'
    using that inv regroup_inv [OF inv wf dirs(1), of "''part''" merged_name] merged_name_plain
    by (auto simp: apply_merge_def Let_def bind_res_Inr_iff split: if_splits)
  have spl: "work_inv work fs0 s'" if "apply_split io root work b p st = Inr s'" "plain_rel p" for b p s'
    using that inv regroup_inv [OF inv wf dirs(2), of "''split''" "split_name p", where rels = "[p]"] split_name_plain
    by (auto simp: apply_split_def split_parquet_file_def Let_def bind_res_Inr_iff)
  show ?thesis using run rs rep cast ren merge spl unfolding apply_operation_def by (cases "action op") auto
qed


lemma run_sorted_inv:
  assumes "wf_dir work"
  shows "work_inv work fs0 (snd os) \<Longrightarrow> list_all (\<lambda>op. plain_split (action op)) ops \<Longrightarrow>
    run_sorted io auth root work ctx clock n ops os = Inr os' \<Longrightarrow> work_inv work fs0 (snd os')"
proof (induction ops arbitrary: n os)
  case (Cons op ops)
  then obtain o2 where r: "run_operation io auth root work ctx (clock n) op os = Inr o2"
    and rest: "run_sorted io auth root work ctx clock (Suc n) ops o2 = Inr os'" by (auto simp: bind_res_Inr_iff)
  have "snd o2 = snd os \<or> apply_operation io root work op (snd os) = Inr (snd o2)"
    using r by (auto simp: run_operation_def bind_res_Inr_iff split: repair_safety.splits if_splits)
  then have "work_inv work fs0 (snd o2)"
    using apply_operation_inv [OF Cons.prems(1) assms] Cons.prems(1,2) by auto
  then show ?case using Cons.IH [OF _ _ rest] Cons.prems(2) by simp
qed simp

definition assets_under_root :: "path \<Rightarrow> scan_report \<Rightarrow> bool" where
  "assets_under_root root scan \<longleftrightarrow>
     plain_path root \<and> list_all (\<lambda>a. as_format a = FmtParquet \<longrightarrow> inside root (as_path a)) (sc_assets scan)"

lemma seed_assets_inv:
  assumes "wf_dir work" "plain_path root"
  shows "work_inv work fs0 st \<Longrightarrow> list_all (\<lambda>a. as_format a = FmtParquet \<longrightarrow> inside root (as_path a)) as \<Longrightarrow>
    seed_assets root work as st = Inr st' \<Longrightarrow> work_inv work fs0 st'"
proof (induction as arbitrary: st)
  case (Cons a as)
  then obtain s where s: "seed_asset root work a st = Inr s" and rest: "seed_assets root work as s = Inr st'"
    by (auto simp: bind_res_Inr_iff)
  have "work_inv work fs0 s"
  proof (cases "as_format a = FmtParquet")
    case True
    then have i: "inside work (path_join work (relativize root (as_path a)))"
      using Cons.prems(2) relativize_inside [OF assms(2)] inside_join [OF assms(1)] by (auto simp: inside_iff)
    show ?thesis using s True work_inv_insert [OF Cons.prems(1) copy_file_confined [OF _ i] i]
      by (auto simp: seed_asset_def Let_def bind_res_Inr_iff)
  next
    case False
    then show ?thesis using s Cons.prems(1) by (simp add: seed_asset_def)
  qed
  then show ?case using Cons.IH [OF _ _ rest] Cons.prems(2) by simp
qed simp

text \<open>Files are copied to the output under the names they have in the work directory.\<close>

lemma copy_work_steps:
  assumes "wf_dir output" "\<And>b r. (work @ ''/'' @ r, b) \<in> set src \<Longrightarrow> plain_rel r"
  shows "confined output fs (fold (\<lambda>(p, b) acc. case strip_prefix p (work @ ''/'') of None \<Rightarrow> acc
       | Some rel \<Rightarrow> fs_write (path_join output rel) b acc) src fs)"
  using assms(2)
proof (induction src arbitrary: fs)
  case (Cons e src)
  obtain q b where e: "e = (q, b)" by fastforce
  define fs1 where "fs1 = (case strip_prefix q (work @ ''/'') of None \<Rightarrow> fs | Some rel \<Rightarrow> fs_write (path_join output rel) b fs)"
  have "confined output fs fs1"
  proof (cases "strip_prefix q (work @ ''/'')")
    case (Some rel)
    then have "q = work @ ''/'' @ rel" by (auto simp: strip_prefix_def str_starts_with_iff split: if_splits)
    then have "plain_rel rel" using Cons.prems [of rel b] e by simp
    then show ?thesis using Some inside_join [OF assms(1)] confined_write by (simp add: fs1_def)
  qed (simp add: fs1_def)
  moreover have "plain_rel r" if "(work @ ''/'' @ r, b') \<in> set src" for r b' using Cons.prems [of r b'] that by simp
  ultimately show ?case using Cons.IH [of fs1] confined_trans by (simp add: e fs1_def)
qed simp

lemma staging_wf:
  assumes "CHR ''/'' \<notin> set eid"
  shows "wf_dir (path_join (staging_dir d eid) ''work'')"
    and "\<exists>t. path_join (staging_dir d eid) ''work'' = staging_dir d eid @ ''/'' @ t"
proof -
  have "eid \<noteq> [] \<Longrightarrow> last eid \<noteq> CHR ''/''" using assms last_in_set by metis
  then have "last (staging_dir d eid) \<noteq> CHR ''/'' \<and> staging_dir d eid \<noteq> []"
    by (cases "eid = []") (auto simp: staging_dir_def path_join_def is_absolute_def str_starts_with_def)
  then have "path_join (staging_dir d eid) ''work'' = staging_dir d eid @ ''/'' @ ''work''"
    by (simp add: path_join_def is_absolute_def str_starts_with_def)
  then show "wf_dir (path_join (staging_dir d eid) ''work'')"
    and "\<exists>t. path_join (staging_dir d eid) ''work'' = staging_dir d eid @ ''/'' @ t" by (simp_all add: wf_dir_def)
qed

lemma execute_parts:
  assumes "execute env rx plan output scan fs = Inr (rep, fs')"
  defines "staging \<equiv> staging_dir (case path_parent output of None \<Rightarrow> ''.'' | Some d \<Rightarrow> d) (ee_execution_id env)"
  defines "work \<equiv> path_join staging ''work''"
  obtains seeded out st manifest where "execute_guards env plan output scan fs = Inr ()"
    "seed_work_dir (dataset_root plan) work scan fs = Inr seeded"
    "run_repair_operations (ee_io env) (rx_authorization rx) plan (dataset_root plan) work
       (plan_audit_context env plan) (ee_clock env) seeded = Inr (out, st)"
    "fs' = remove_dir_all staging (fs_write (path_join output ''.parqonaut-manifest.json'') (ee_render env manifest)
       (copy_work_to_output work output (ws_fs st)))"
    "er_executed rep = oo_executed out" "er_skipped rep = oo_skipped out" "em_operations manifest = oo_audit out"
proof -
  from assms(1) obtain seeded out st v fp where parts: "execute_guards env plan output scan fs = Inr ()"
    "seed_work_dir (dataset_root plan) work scan fs = Inr seeded"
    "run_repair_operations (ee_io env) (rx_authorization rx) plan (dataset_root plan) work
       (plan_audit_context env plan) (ee_clock env) seeded = Inr (out, st)"
    and rep: "rep = build_report env plan out staging output (path_join output ''.parqonaut-manifest.json'')"
    and fs': "fs' = remove_dir_all staging (fs_write (path_join output ''.parqonaut-manifest.json'')
       (ee_render env (build_manifest env plan fp (oo_audit out) v)) (copy_work_to_output work output (ws_fs st)))"
    unfolding execute_def Let_def staging_def [symmetric] work_def [symmetric] bind_res_Inr_iff
    by (elim exE conjE) (clarsimp simp: bind_res_Inr_iff)
  show thesis by (rule that [OF parts fs']) (simp_all add: rep build_report_def build_manifest_def)
qed

lemma execute_confined_aux:
  assumes ex: "execute env rx plan output scan fs = Inr (rep, fs')"
    and out: "plain_path output" and under: "assets_under_root (dataset_root plan) scan"
    and rel: "list_all (\<lambda>op. plain_split (action op)) (operations plan)"
    and eid: "CHR ''/'' \<notin> set (ee_execution_id env)"
  defines "staging \<equiv> staging_dir (case path_parent output of None \<Rightarrow> ''.'' | Some d \<Rightarrow> d) (ee_execution_id env)"
  assumes fresh: "fresh_dir staging fs"
  shows "\<exists>fs1 fs2. fs' = remove_dir_all staging fs2 \<and> confined (path_join staging ''work'') fs fs1 \<and> confined output fs1 fs2"
proof -
  define work where "work = path_join staging ''work''"
  obtain seeded out st manifest where seed: "seed_work_dir (dataset_root plan) work scan fs = Inr seeded"
    and run: "run_repair_operations (ee_io env) (rx_authorization rx) plan (dataset_root plan) work
       (plan_audit_context env plan) (ee_clock env) seeded = Inr (out, st)"
    and fs': "fs' = remove_dir_all staging (fs_write (path_join output ''.parqonaut-manifest.json'') (ee_render env manifest)
       (copy_work_to_output work output (ws_fs st)))"
    by (rule execute_parts [OF ex, folded staging_def, folded work_def])
  have wf: "wf_dir work" and ws: "\<exists>t. work = staging @ ''/'' @ t"
    using staging_wf [OF eid] by (simp_all add: work_def staging_def)
  have fw: "fresh_dir work fs" using fresh ws by (auto simp: fresh_dir_def list_all_iff within_iff)
  then have "work_inv work fs \<lparr>ws_fs = fs, ws_working = []\<rparr>" by (simp add: work_inv_def)
  then have "work_inv work fs seeded"
    using seed_assets_inv [OF wf _ _ _ seed [unfolded seed_work_dir_def]] under unfolding assets_under_root_def by blast
  moreover obtain ops where ops: "sort_by_dependencies (operations plan) = Inr ops"
    "run_sorted (ee_io env) (rx_authorization rx) (dataset_root plan) work (plan_audit_context env plan) (ee_clock env) 0 ops
       (\<lparr>oo_executed = [], oo_skipped = [], oo_audit = []\<rparr>, seeded) = Inr (out, st)"
    using run by (auto simp: run_repair_operations_def bind_res_Inr_iff)
  moreover have "list_all (\<lambda>op. plain_split (action op)) ops"
    using rel mset_eq_setD [of ops "operations plan"] sort_by_dependencies_sound [OF ops(1)] by (simp add: list_all_iff)
  ultimately have inv: "work_inv work fs st" using run_sorted_inv [OF wf _ _ ops(2)] by simp
  have wo: "wf_dir output" using plain_path_last [OF \<open>plain_path output\<close>] by (simp add: wf_dir_def)
  have "plain_rel r" if "(work @ ''/'' @ r, b) \<in> set (ws_fs st)" for r b
  proof (rule ccontr)
    assume "\<not> plain_rel r"
    then have "\<not> inside work (work @ ''/'' @ r)" by (simp add: inside_iff)
    then have "fs_read (ws_fs st) (work @ ''/'' @ r) = fs_read fs (work @ ''/'' @ r)" using inv by (simp add: work_inv_def confined_def)
    also have "... = None" using fw by (intro fresh_dir_read) (auto simp: within_iff)
    finally show False using that fs_read_iff [of "ws_fs st" "work @ ''/'' @ r"] by force
  qed
  then have "confined output (ws_fs st) (copy_work_to_output work output (ws_fs st))"
    unfolding copy_work_to_output_def by (rule copy_work_steps [OF wo])
  moreover have "inside output (path_join output ''.parqonaut-manifest.json'')"
    by (rule inside_join [OF wo]) (simp add: plain_rel_def proper_name_def)
  ultimately have "confined output (ws_fs st) (fs_write (path_join output ''.parqonaut-manifest.json'') (ee_render env manifest)
      (copy_work_to_output work output (ws_fs st)))" by (rule confined_trans [OF _ confined_write])
  then show ?thesis using inv fs' unfolding work_def [symmetric] work_inv_def by blast
qed

end
