(* ===== verification/Repair_Execute_Props.thy ===== *)
theory Repair_Execute_Props
  imports Repair_Execute_Rows Repair_Execute_Confined Repair_Plan_Props
begin

text \<open>
  Results about the execution of repair plans on local directories.
\<close>

section \<open>A small dataset\<close>

definition demo_inspect :: "file_system \<Rightarrow> inspector" where
  "demo_inspect fs a = (case fs_read fs (as_path a) of None \<Rightarrow> Inl (DatasetUnreadable (as_path a))
     | Some b \<Rightarrow> Inr \<lparr>in_num_rows = int (length b), in_num_row_groups = 1, in_compressed_sizes = [100],
         in_codecs = [''ZSTD''], in_signature = ''x=UTF8'', in_fields = [], in_statistics = True\<rparr>)"

definition demo_scan :: "file_system \<Rightarrow> path \<Rightarrow> scan_report" where
  "demo_scan fs dir = \<lparr>sc_scan_id = ''s'',
     sc_assets = map (\<lambda>(p, b). \<lparr>as_path = p, as_format = FmtParquet, as_size = of_nat (length b)\<rparr>)
       (filter (\<lambda>(p, _). str_starts_with p (dir @ ''/'')) fs), sc_findings = []\<rparr>"

definition demo_env :: exec_env where
  "demo_env = \<lparr>ee_io = demo_io, ee_hasher = const_hasher, ee_inspect = demo_inspect, ee_scan = (\<lambda>fs d. Inr (demo_scan fs d)),
     ee_uuid = (\<lambda>_. ''u''), ee_clock = int, ee_started = 0, ee_completed = 9, ee_execution_id = ''e1'', ee_version = ''0.1'',
     ee_render = (\<lambda>m. case em_verification m of None \<Rightarrow> ''{}''
       | Some v \<Rightarrow> if vr_outcome v = VerificationFailed then ''failed'' else ''verified''), ee_show = (\<lambda>_. ''error'')\<rparr>"

definition demo_repair_op :: "string \<Rightarrow> repair_safety \<Rightarrow> repair_action \<Rightarrow> repair_operation" where
  "demo_repair_op i sf act = \<lparr>operation_id = i, finding_ids = [], safety = sf, action = act, rationale = [],
     evidence = [], preconditions = [], depends_on = []\<rparr>"

definition demo_source :: file_system where
  "demo_source = [(''/d/a'', ''12''), (''/d/b'', ''345'')]"

definition demo_repair_plan :: repair_plan where
  "demo_repair_plan = \<lparr>plan_schema_version = 1, plan_id = ''p'', plan_parqonaut_version = ''0.1'', dataset_root = ''/d'',
     dataset_fp = projr (compute_fingerprint_from_scan const_hasher (demo_inspect demo_source) ''/d'' (demo_scan demo_source ''/d'')),
     policy_fingerprint = ''f'', plan_policy = effective_policy_default,
     operations = [demo_repair_op ''m'' Safe (MergeSmallFiles 100 [''a'', ''b'']),
       demo_repair_op ''r'' ReviewRequired (RenameColumn ''x'' ''y''), demo_repair_op ''z'' Blocked (AlignSchema ''x'' ''a'' ''b'')],
     expected_outcomes = [], schema_conflicts = None, target_schema = None\<rparr>"

definition demo_executor :: repair_executor where
  "demo_executor = \<lparr>rx_authorization = [], rx_verify_before_publish = True\<rparr>"

definition demo_execution :: "(sort_failure, execution_report \<times> file_system) res" where
  "demo_execution = execute demo_env demo_executor demo_repair_plan ''/o'' (demo_scan demo_source ''/d'') demo_source"

lemma demo_execution_ok:
  "case demo_execution of Inl _ \<Rightarrow> False | Inr (rep, fs) \<Rightarrow> er_executed rep = [''m''] \<and> er_skipped rep = [''r'', ''z''] \<and>
     fs = [(''/d/a'', ''12''), (''/d/b'', ''345''), (''/o/.parqonaut-manifest.json'', ''verified''), (''/o/merged-part-0000.parquet'', ''12345'')]"
  by code_simp


lemma demo_execution_isr: "\<not> isl demo_execution"
  by code_simp

section \<open>Results\<close>

text \<open>
  C11. A run executes exactly the operations that \<open>RepairAuthorization::resolve\<close> accepts:
  safe ones, and review-required ones the user named. Blocked, destructive and unauthorized
  operations are skipped and change no file. The operations run in dependency order, and the
  audit has one record per operation of the plan with its safety, the source of its
  authorization and whether it ran.
\<close>

theorem only_authorized_operations_run:
  assumes "run_repair_operations io auth plan root work ctx clock st = Inr (out, st')"
  shows "\<exists>ops. mset ops = mset (operations plan) \<and> topo_sorted ops \<and>
     oo_executed out = map operation_id (filter (may_run auth) ops) \<and>
     oo_skipped out = map operation_id (filter (\<lambda>op. \<not> may_run auth op) ops) \<and>
     map audit_view (oo_audit out) = map (\<lambda>op. (operation_id op, safety op, audit_source auth op, may_run auth op)) ops \<and>
     foldl (\<lambda>r op. bind_res r (apply_operation io root work op)) (Inr st) (filter (may_run auth) ops) = Inr st'"
proof -
  obtain ops where "sort_by_dependencies (operations plan) = Inr ops"
    "run_sorted io auth root work ctx clock 0 ops (\<lparr>oo_executed = [], oo_skipped = [], oo_audit = []\<rparr>, st) = Inr (out, st')"
    using assms by (auto simp: run_repair_operations_def bind_res_Inr_iff)
  then show ?thesis
    using sort_by_dependencies_sound run_sorted_outcome run_sorted_state by fastforce
qed

definition demo_seeded :: work_state where
  "demo_seeded = \<lparr>ws_fs = [(''/w/a'', ''12''), (''/w/b'', ''345'')], ws_working = [(''a'', ''/w/a''), (''b'', ''/w/b'')]\<rparr>"

definition demo_run :: "(sort_failure, operation_outcome \<times> work_state) res" where
  "demo_run = run_repair_operations demo_io [] demo_repair_plan ''/d'' ''/w'' (plan_audit_context demo_env demo_repair_plan) int demo_seeded"

lemma demo_run_ok: "\<not> isl demo_run"
  by code_simp

theorem only_authorized_operations_run_witness:
  "\<exists>ops. mset ops = mset (operations demo_repair_plan) \<and> topo_sorted ops \<and>
     oo_executed (fst (projr demo_run)) = map operation_id (filter (may_run []) ops)"
proof -
  have "demo_run = Inr (fst (projr demo_run), snd (projr demo_run))" using demo_run_ok by (cases demo_run) auto
  from only_authorized_operations_run [OF this [unfolded demo_run_def]] show ?thesis unfolding demo_run_def by blast
qed

text \<open>
  C12. The operations whose action \<open>RepairAction::default_safety\<close> classes as safe
  (merging, splitting, resizing row groups, recompressing, rebuilding statistics; generated
  plans label them so) lose no data: they keep the multiset of rows of the working set and
  its well-formedness. Assumed of the operation, and checked nowhere in the code: a merge
  lists each input once, the input of a split is in the working set, and the file names the
  operation creates are not those of other files of the working set.
\<close>

theorem safe_operation_lossless:
  assumes "arrow_laws io" and "ws_ok io work st" and "default_safety (action op) = Safe"
    and "op_inputs_ok (action op) (ws_working st)" and "op_names_free (action op) (ws_working st)"
    and "apply_operation io root work op st = Inr st'"
  shows "dataset_rows io st' = dataset_rows io st \<and> ws_ok io work st'"
  using safe_op_rows [OF assms] by simp

theorem safe_operation_lossless_witness:
  "\<exists>st'. apply_operation demo_io ''/d'' ''/w'' (hd (operations demo_repair_plan)) demo_seeded = Inr st' \<and>
     map fst (ws_working st') = [''merged-part-0000.parquet''] \<and> dataset_rows demo_io st' = dataset_rows demo_io demo_seeded"
proof -
  let ?r = "apply_operation demo_io ''/d'' ''/w'' (hd (operations demo_repair_plan)) demo_seeded"
  have r: "\<not> isl ?r \<and> map fst (ws_working (projr ?r)) = [''merged-part-0000.parquet'']" by code_simp
  then have eq: "?r = Inr (projr ?r)" using sum.collapse(2) by metis
  have ok: "ws_ok demo_io ''/w'' demo_seeded"
    by (simp add: ws_ok_def demo_seeded_def wf_work_def bt_sorted_def entry_ok_def is_absolute_def str_starts_with_def
        read_rows_def demo_decode fs_read_def less_list_code)
  have pre: "default_safety (action (hd (operations demo_repair_plan))) = Safe"
    "op_inputs_ok (action (hd (operations demo_repair_plan))) (ws_working demo_seeded)"
    "op_names_free (action (hd (operations demo_repair_plan))) (ws_working demo_seeded)" by code_simp+
  show ?thesis using safe_operation_lossless [OF demo_laws ok pre eq] r eq by (intro exI [of _ "projr ?r"]) simp
qed

text \<open>
  C13. An execution touches nothing but its staging and output directories: every path that is
  not the staging or output directory or beneath it, the source dataset and siblings such as
  \<open><output>2\<close> included, reads as before, and every file there is afterwards was there
  before or lies beneath the output under a plain path. Assumed: the paths of the file system,
  of the output and of the dataset root have no \<open>..\<close>, \<open>.\<close> or empty segment and are
  all absolute or all relative to one directory, the Parquet files of the scan lie beneath the
  root, the inputs of splits are plain relative paths, and the staging directory is new.
  Symbolic links are not modelled.
\<close>

theorem execute_confined:
  assumes "execute env rx plan output scan fs = Inr (rep, fs')"
    and "plain_path output" and "list_all (\<lambda>(q, _). plain_path q \<and> is_absolute q = is_absolute output) fs"
    and "assets_under_root (dataset_root plan) scan"
    and "list_all (\<lambda>op. plain_split (action op)) (operations plan)"
    and "CHR ''/'' \<notin> set (ee_execution_id env)"
    and "staging = staging_dir (case path_parent output of None \<Rightarrow> ''.'' | Some d \<Rightarrow> d) (ee_execution_id env)"
    and "fresh_dir staging fs"
  shows "plain_path staging \<and> (\<forall>p. within staging p \<or> within output p \<or> fs_read fs' p = fs_read fs p) \<and>
     list_all (\<lambda>(p, _). plain_path p \<and> (fs_read fs p \<noteq> None \<or> inside output p)) fs'"
proof -
  obtain fs1 fs2 where fs': "fs' = remove_dir_all staging fs2"
    and c1: "confined (path_join staging ''work'') fs fs1" and c2: "confined output fs1 fs2"
    using execute_confined_aux [OF assms(1,2,4-6)] assms(7,8) by blast
  obtain t where "path_join staging ''work'' = staging @ ''/'' @ t" using staging_wf(2) [OF assms(6)] assms(7) by blast
  then have w: "within staging p" if "inside (path_join staging ''work'') p" for p using that by (auto simp: inside_iff within_iff)
  have out: "fs_read fs' p = fs_read fs p" if "\<not> within staging p" "\<not> inside output p" for p
    using that w [of p] c1 c2 by (auto simp: fs' confined_def within_def remove_dir_all_read)
  have "plain_path p \<and> (fs_read fs p \<noteq> None \<or> inside output p)" if "(p, b) \<in> set fs'" for p b
  proof (cases "inside output p")
    case True
    then show ?thesis using inside_plain [OF assms(2)] by blast
  next
    case False
    have r: "fs_read fs' p \<noteq> None" using that fs_read_iff by force
    then have "\<not> str_starts_with p (staging @ ''/'')" using remove_dir_all_inside fs' by metis
    moreover have "p \<noteq> staging"
    proof
      assume "p = staging"
      then have "\<not> inside (path_join staging ''work'') p" using \<open>path_join staging ''work'' = staging @ ''/'' @ t\<close> by (auto simp: inside_iff)
      then have "fs_read fs' p = fs_read fs p"
        using False c1 c2 \<open>\<not> str_starts_with p (staging @ ''/'')\<close> by (auto simp: fs' confined_def remove_dir_all_read)
      then show False using r fresh_dir_read [OF assms(8)] \<open>p = staging\<close> by (simp add: within_def)
    qed
    ultimately have "fs_read fs p \<noteq> None" using r out False by (simp add: within_def)
    then show ?thesis using assms(3) fs_read_iff [of fs p] by (auto simp: list_all_iff)
  qed
  moreover have "plain_path staging" unfolding assms(7) staging_dir_def
    using assms(6) by (intro sibling_plain [OF assms(2)]) (simp add: plain_rel_name proper_name_def)
  moreover have "within staging p \<or> within output p \<or> fs_read fs' p = fs_read fs p" for p
    using out [of p] inside_within [of "output" p] by blast
  ultimately show ?thesis by (auto simp: list_all_iff)
qed

lemma demo_execution_eq: "demo_execution = Inr (fst (projr demo_execution), snd (projr demo_execution))"
  using sum.collapse(2) [OF demo_execution_isr] by simp

theorem execute_confined_witness:
  "\<not> isl demo_execution \<and> fs_read (snd (projr demo_execution)) ''/d/b'' = Some ''345'' \<and>
   fs_read (snd (projr demo_execution)) ''/o2'' = None"
proof -
  have "plain_path ''/o''" "list_all (\<lambda>(q, _). plain_path q \<and> is_absolute q = is_absolute ''/o'') demo_source"
    "assets_under_root (dataset_root demo_repair_plan) (demo_scan demo_source ''/d'')"
    "list_all (\<lambda>op. plain_split (action op)) (operations demo_repair_plan)"
    "CHR ''/'' \<notin> set (ee_execution_id demo_env)"
    "''/.parqonaut-staging-e1'' = staging_dir (case path_parent ''/o'' of None \<Rightarrow> ''.'' | Some d \<Rightarrow> d) (ee_execution_id demo_env)"
    "fresh_dir ''/.parqonaut-staging-e1'' demo_source" by code_simp+
  from execute_confined [OF demo_execution_eq [unfolded demo_execution_def] this]
  have *: "within ''/.parqonaut-staging-e1'' p \<or> within ''/o'' p \<or>
     fs_read (snd (projr demo_execution)) p = fs_read demo_source p" for p unfolding demo_execution_def by blast
  have "\<not> within ''/.parqonaut-staging-e1'' ''/d/b''" "\<not> within ''/o'' ''/d/b''" "fs_read demo_source ''/d/b'' = Some ''345''"
    "\<not> within ''/.parqonaut-staging-e1'' ''/o2''" "\<not> within ''/o'' ''/o2''" "fs_read demo_source ''/o2'' = None" by code_simp+
  then show ?thesis using * [of "''/d/b''"] * [of "''/o2''"] demo_execution_isr by simp
qed

text \<open>
  C14. An execution that succeeds ran a plan of the supported version, on a dataset whose
  fingerprint is still that of the plan, into an output that did not exist and does not
  overlap the source; it reports as executed only operations that were authorized.
\<close>

theorem execute_guarded:
  assumes "execute env rx plan output scan fs = Inr (rep, fs')"
  shows "plan_schema_version plan = PLAN_SCHEMA_VERSION \<and> \<not> path_exists fs output \<and>
     \<not> paths_overlap (dataset_root plan) output \<and>
     (\<exists>fp. compute_fingerprint_from_scan (ee_hasher env) (ee_inspect env fs) (dataset_root plan) scan = Inr fp \<and>
        fp_digest fp = fp_digest (dataset_fp plan)) \<and>
     set (er_executed rep) \<subseteq> operation_id ` {op \<in> set (operations plan). may_run (rx_authorization rx) op}"
proof -
  obtain seeded out st where g: "execute_guards env plan output scan fs = Inr ()"
    and run: "run_repair_operations (ee_io env) (rx_authorization rx) plan (dataset_root plan)
       (path_join (staging_dir (case path_parent output of None \<Rightarrow> ''.'' | Some d \<Rightarrow> d) (ee_execution_id env)) ''work'')
       (plan_audit_context env plan) (ee_clock env) seeded = Inr (out, st)"
    and ex: "er_executed rep = oo_executed out"
    by (rule execute_parts [OF assms])
  obtain ops where ops: "sort_by_dependencies (operations plan) = Inr ops"
    "oo_executed out = map operation_id (filter (may_run (rx_authorization rx)) ops)"
    using run run_sorted_outcome by (fastforce simp: run_repair_operations_def bind_res_Inr_iff)
  have "set ops = set (operations plan)" using sort_by_dependencies_sound [OF ops(1)] mset_eq_setD by blast
  then have "set (er_executed rep) \<subseteq> operation_id ` {op \<in> set (operations plan). may_run (rx_authorization rx) op}"
    by (auto simp: ex ops(2))
  moreover have "plan_schema_version plan = PLAN_SCHEMA_VERSION \<and> \<not> path_exists fs output \<and>
     \<not> paths_overlap (dataset_root plan) output \<and>
     (\<exists>fp. compute_fingerprint_from_scan (ee_hasher env) (ee_inspect env fs) (dataset_root plan) scan = Inr fp \<and>
        fp_digest fp = fp_digest (dataset_fp plan))"
    using g by (auto simp: execute_guards_def validate_version_def verify_against_def bind_res_Inr_iff split: if_splits)
  ultimately show ?thesis by blast
qed

theorem execute_guarded_witness:
  "\<not> isl demo_execution \<and> \<not> path_exists demo_source ''/o'' \<and>
   set (er_executed (fst (projr demo_execution))) \<subseteq> operation_id ` {op \<in> set (operations demo_repair_plan). may_run [] op}"
  using execute_guarded [OF demo_execution_eq [unfolded demo_execution_def]] demo_execution_isr
  unfolding demo_execution_def demo_executor_def by simp

definition clash_source :: file_system where
  "clash_source = demo_source @ [(''/d/merged-part-0000.parquet'', ''67'')]"

definition clash_execution :: "(sort_failure, execution_report \<times> file_system) res" where
  "clash_execution = execute demo_env demo_executor
     (demo_repair_plan\<lparr>dataset_fp := projr (compute_fingerprint_from_scan const_hasher (demo_inspect clash_source) ''/d'' (demo_scan clash_source ''/d''))\<rparr>)
     ''/o'' (demo_scan clash_source ''/d'') clash_source"

text \<open>
  A merge names its outputs \<open>merged-part-NNNN.parquet\<close> without looking whether the
  dataset has such a file: on a dataset that was merged before, the merge of two other files
  replaces it and its rows are lost. The verification of the result fails, yet the
  execution reports success and leaves the output in place.
\<close>

theorem merge_overwrites_earlier_part:
  "case clash_execution of Inl _ \<Rightarrow> False | Inr (rep, fs) \<Rightarrow> er_success rep \<and>
     fs_read fs ''/d/merged-part-0000.parquet'' = Some ''67'' \<and> fs_read fs ''/o/merged-part-0000.parquet'' = Some ''12345'' \<and>
     length (filter (\<lambda>(p, _). str_starts_with p ''/o/merged'') fs) = 1 \<and>
     fs_read fs ''/o/.parqonaut-manifest.json'' = Some ''failed''"
  by code_simp

text \<open>
  A merge that lists an input twice reads it twice: the merged file has its rows two times.
\<close>

theorem merge_doubles_repeated_input:
  "case apply_operation demo_io ''/d'' ''/w'' (demo_repair_op ''m'' Safe (MergeSmallFiles 100 [''a'', ''a''])) demo_seeded of
     Inl _ \<Rightarrow> False | Inr st \<Rightarrow> map fst (ws_working st) = [''b'', ''merged-part-0000.parquet''] \<and>
       fs_read (ws_fs st) ''/w/merged-part-0000.parquet'' = Some ''1212''"
  by code_simp

end
