(* ===== verification/Storage_Inventory.thy ===== *)
theory Storage_Inventory
  imports Publication_Results
begin

text \<open>
  The inventory of a remote dataset (\<open>parqonaut-storage/src/inventory.rs\<close>): keys relative
  to a dataset, the paths an inventory leaves out, and the listing itself. The loop over pages
  takes fuel, one unit per page; a backend that keeps answering with truncated pages makes the
  loop run forever.
\<close>

section \<open>Relative keys\<close>

definition relative_object_key :: "dataset_location \<Rightarrow> object_location \<Rightarrow> string option" where
  "relative_object_key ds obj =
     (case (ds, obj) of
        (DatasetLocal root, ObjectLocal p) \<Rightarrow>
          if path_starts_with p root
          then Some (trim_start_matches (CHR ''/'') (case path_strip_prefix p root of None \<Rightarrow> p | Some r \<Rightarrow> r))
          else None
      | (DatasetS3 root, ObjectS3 bucket key) \<Rightarrow>
          if s3_bucket root \<noteq> bucket then None
          else let pre = trim_end_matches (CHR ''/'') (s3_prefix root)
               in if pre = [] then Some (trim_start_matches (CHR ''/'') key)
                  else if key = pre then Some []
                  else if str_starts_with key (pre @ ''/'') then Some (drop (length pre + 1) key)
                  else None
      | _ \<Rightarrow> None)"

text \<open>\<open>.parqonaut/versions/{id}/data/{name}\<close> has the logical key \<open>name\<close>.\<close>

definition strip_published_data_relative_key :: "string \<Rightarrow> string option" where
  "strip_published_data_relative_key key =
     Option.bind (strip_prefix key ''.parqonaut/versions/'') (\<lambda>rest.
     Option.bind (split_once (CHR ''/'') rest) (\<lambda>(_, after_version).
       strip_prefix after_version ''data/''))"

definition logical_inventory_key :: "string \<Rightarrow> string" where
  "logical_inventory_key key = (case strip_published_data_relative_key key of None \<Rightarrow> key | Some k \<Rightarrow> k)"

definition dataset_object_relative_key :: "dataset_location \<Rightarrow> object_location \<Rightarrow> string option" where
  "dataset_object_relative_key ds obj = map_option logical_inventory_key (relative_object_key ds obj)"

definition is_excluded_inventory_path :: "string \<Rightarrow> bool" where
  "is_excluded_inventory_path relative_key =
     (let key = trim_start_matches (CHR ''/'') relative_key
      in key = [] \<or> str_ends_with key ''.parqonaut.lock'' \<or> str_ends_with key ''.parqonaut-manifest.json'' \<or>
         list_ex (\<lambda>seg. seg = ''.parqonaut'' \<or> seg = ''_staging'' \<or> str_starts_with seg ''.parqonaut-staging-'')
           (split_on (CHR ''/'') key))"

fun object_sort_key :: "object_location \<Rightarrow> string" where
  "object_sort_key (ObjectLocal p) = p"
| "object_sort_key (ObjectS3 bucket key) = key"

definition meta_key :: "object_metadata \<Rightarrow> string" where
  "meta_key m = object_sort_key (om_location m)"

section \<open>Listing\<close>

record remote_inventory =
  ri_dataset :: dataset_location
  ri_objects :: "object_metadata list"

fun list_pages ::
  "'s storage_backend \<Rightarrow> dataset_location \<Rightarrow> nat \<Rightarrow> string option \<Rightarrow> 's \<Rightarrow>
   ((storage_error, object_metadata list) res \<times> 's) option" where
  "list_pages B ds 0 token s = None"
| "list_pages B ds (Suc fuel) token s =
     (case be_list B ds \<lparr>recursive = True, max_keys = None\<rparr> token s of
        (Inl e, s') \<Rightarrow> Some (Inl e, s')
      | (Inr page, s') \<Rightarrow>
          if \<not> page_truncated page then Some (Inr (page_objects page), s')
          else map_option (\<lambda>(r, t). (bind_res r (\<lambda>rest. Inr (page_objects page @ rest)), t))
                 (list_pages B ds fuel (page_token page) s'))"

definition user_object :: "dataset_location \<Rightarrow> object_metadata \<Rightarrow> bool" where
  "user_object ds m = (case dataset_object_relative_key ds (om_location m) of None \<Rightarrow> False
     | Some key \<Rightarrow> \<not> is_excluded_inventory_path key)"

definition parquet_object :: "dataset_location \<Rightarrow> object_metadata \<Rightarrow> bool" where
  "parquet_object ds m = (case dataset_object_relative_key ds (om_location m) of None \<Rightarrow> False
     | Some key \<Rightarrow> str_ends_with key ''.parquet'')"

definition published_object :: "dataset_location \<Rightarrow> string \<Rightarrow> object_metadata \<Rightarrow> bool" where
  "published_object ds version m =
     (let data_prefix = ''.parqonaut/versions/'' @ version @ ''/data/''
      in case relative_object_key ds (om_location m) of None \<Rightarrow> False
         | Some relative \<Rightarrow>
             (case strip_prefix relative data_prefix of None \<Rightarrow> False
              | Some logical \<Rightarrow> \<not> is_excluded_inventory_path logical \<and> str_ends_with logical ''.parquet''))"

definition published_data_inventory ::
  "'s storage_backend \<Rightarrow> codec \<Rightarrow> dataset_location \<Rightarrow> object_metadata list \<Rightarrow>
   ('s, publication_error, object_metadata list) eff" where
  "published_data_inventory B C ds raw =
     (case ds of DatasetLocal _ \<Rightarrow> eff_return []
      | DatasetS3 _ \<Rightarrow>
          eff_bind (read_current_version B C ds) (\<lambda>v.
            case v of None \<Rightarrow> eff_return []
            | Some version \<Rightarrow>
                eff_bind (is_version_committed B ds version) (\<lambda>committed.
                  eff_return (if committed then filter (published_object ds version) raw else []))))"

text \<open>\<open>dedup_by\<close> keeps the first of adjacent equal keys.\<close>

fun dedup_by_key :: "('a \<Rightarrow> 'k) \<Rightarrow> 'a list \<Rightarrow> 'a list" where
  "dedup_by_key k [] = []"
| "dedup_by_key k [x] = [x]"
| "dedup_by_key k (x # y # zs) = (if k x = k y then dedup_by_key k (x # zs) else x # dedup_by_key k (y # zs))"

definition published_fallback ::
  "'s storage_backend \<Rightarrow> codec \<Rightarrow> dataset_location \<Rightarrow> object_metadata list \<Rightarrow> object_metadata list \<Rightarrow> 's \<Rightarrow>
   object_metadata list \<times> 's" where
  "published_fallback B C ds kept raw s =
     (if list_ex (parquet_object ds) kept then ([], s)
      else (case published_data_inventory B C ds raw s of (Inr ps, t) \<Rightarrow> (ps, t) | (Inl _, t) \<Rightarrow> ([], t)))"

definition list_remote_inventory ::
  "'s storage_backend \<Rightarrow> codec \<Rightarrow> dataset_location \<Rightarrow> nat \<Rightarrow> 's \<Rightarrow>
   ((storage_error, remote_inventory) res \<times> 's) option" where
  "list_remote_inventory B C ds fuel s =
     (case list_pages B ds fuel None s of None \<Rightarrow> None
      | Some (Inl e, s') \<Rightarrow> Some (Inl e, s')
      | Some (Inr raw, s') \<Rightarrow>
          (let kept = filter (user_object ds) raw; fb = published_fallback B C ds kept raw s'
           in Some (Inr \<lparr>ri_dataset = ds, ri_objects = dedup_by_key meta_key (sort_key meta_key (kept @ fst fb))\<rparr>, snd fb)))"

definition inventory_relative_key :: "remote_inventory \<Rightarrow> object_metadata \<Rightarrow> string option" where
  "inventory_relative_key inv' m = dataset_object_relative_key (ri_dataset inv') (om_location m)"

section \<open>Sorting and duplicates\<close>

lemma dedup_subset: "set (dedup_by_key k xs) \<subseteq> set xs"
  by (induction k xs rule: dedup_by_key.induct) auto

lemma dedup_keys: "k ` set (dedup_by_key k xs) = k ` set xs"
  by (induction k xs rule: dedup_by_key.induct) auto

lemma dedup_hd: "xs \<noteq> [] \<Longrightarrow> hd (dedup_by_key k xs) = hd xs \<and> dedup_by_key k xs \<noteq> []"
  by (induction k xs rule: dedup_by_key.induct) auto

lemma dedup_strict:
  fixes k :: "'a \<Rightarrow> 'b :: linorder"
  shows "sorted (map k xs) \<Longrightarrow> sorted_wrt (<) (map k (dedup_by_key k xs))"
proof (induction k xs rule: dedup_by_key.induct)
  case (3 k x y zs)
  show ?case
  proof (cases "k x = k y")
    case True
    then show ?thesis using 3 by auto
  next
    case False
    then have lt: "k x < k y" using 3(3) by auto
    have "\<forall>z \<in> set (dedup_by_key k (y # zs)). k y \<le> k z" using 3(3) dedup_subset [of k "y # zs"] by fastforce
    with lt 3 False show ?thesis by auto
  qed
qed auto

lemma published_data_subset:
  "published_data_inventory B C ds raw s = (Inr ps, t) \<Longrightarrow> set ps \<subseteq> set raw"
  by (auto simp: published_data_inventory_def eff_bind_apply split: dataset_location.splits option.splits prod.splits sum.splits)

lemma published_fallback_subset: "set (fst (published_fallback B C ds kept raw s)) \<subseteq> set raw"
  using published_data_subset [of B C ds raw s]
  by (auto simp: published_fallback_def split: prod.splits sum.splits)

section \<open>Results\<close>

text \<open>
  An inventory is the same whatever the order of the pages: it lists objects in strictly
  increasing order of their keys, every listed object that is not metadata of PARQONAUT is in
  it, and it has nothing that the backend did not list.
\<close>

theorem inventory_sorted_complete:
  assumes "list_remote_inventory B C ds fuel s = Some (Inr inv', s')"
  shows "\<exists>raw t. list_pages B ds fuel None s = Some (Inr raw, t) \<and>
     sorted_wrt (<) (map meta_key (ri_objects inv')) \<and> set (ri_objects inv') \<subseteq> set raw \<and>
     (\<forall>m \<in> set raw. user_object ds m \<longrightarrow> meta_key m \<in> meta_key ` set (ri_objects inv'))"
proof -
  obtain raw t extra where raw: "list_pages B ds fuel None s = Some (Inr raw, t)"
    and objs: "ri_objects inv' = dedup_by_key meta_key (sort_key meta_key (filter (user_object ds) raw @ extra))"
    and extra: "set extra \<subseteq> set raw"
    using assms published_fallback_subset [of B C ds]
    by (auto simp: list_remote_inventory_def Let_def split: option.splits prod.splits sum.splits)
  have "sorted_wrt (<) (map meta_key (ri_objects inv'))" unfolding objs by (rule dedup_strict) simp
  moreover have "set (ri_objects inv') \<subseteq> set raw"
    unfolding objs using extra dedup_subset [of meta_key "sort_key meta_key (filter (user_object ds) raw @ extra)"] by auto
  moreover have "meta_key m \<in> meta_key ` set (ri_objects inv')" if "m \<in> set raw" "user_object ds m" for m
    unfolding objs dedup_keys using that by simp
  ultimately show ?thesis using raw by blast
qed

definition demo_dataset :: dataset_location where
  "demo_dataset = DatasetS3 \<lparr>s3_bucket = ''b'', s3_prefix = ''data''\<rparr>"

definition put_keys :: "string list \<Rightarrow> memory_state" where
  "put_keys ks = fold (\<lambda>k st. snd (memory_create (ObjectS3 ''b'' k) must_not_exist ''x'' st)) ks
     (memory_new CAPS_S3)"

definition inventory_store :: memory_state where
  "inventory_store = put_keys [''data/z.parquet'', ''data/nested/a.parquet'', ''data/_staging/t'', ''data/m.parquet'', ''data2/q.parquet'']"

definition uncommitted_store :: memory_state where
  "uncommitted_store = put_keys [''data/.parqonaut/versions/run1/data/part.parquet'', ''data/.parqonaut/versions/run1/STATE.json'']"

definition listed_keys :: "((storage_error, remote_inventory) res \<times> memory_state) option \<Rightarrow> string list" where
  "listed_keys r = (case r of Some (Inr inv', _) \<Rightarrow> map meta_key (ri_objects inv') | _ \<Rightarrow> [])"

lemma demo_listing: "listed_keys (list_remote_inventory memory_backend plain_codec demo_dataset 1 inventory_store) =
    [''data/m.parquet'', ''data/nested/a.parquet'', ''data/z.parquet'']"
  by code_simp

theorem inventory_sorted_complete_witness:
  "\<exists>inv' s'. list_remote_inventory memory_backend plain_codec demo_dataset 1 inventory_store = Some (Inr inv', s') \<and>
     length (ri_objects inv') = 3 \<and> sorted_wrt (<) (map meta_key (ri_objects inv'))"
proof -
  obtain inv' s' where r: "list_remote_inventory memory_backend plain_codec demo_dataset 1 inventory_store = Some (Inr inv', s')"
    and l: "map meta_key (ri_objects inv') = [''data/m.parquet'', ''data/nested/a.parquet'', ''data/z.parquet'']"
    using demo_listing by (fastforce simp: listed_keys_def split: option.splits sum.splits)
  have "length (ri_objects inv') = 3" using arg_cong [OF l, of length] by simp
  then show ?thesis using inventory_sorted_complete [OF r] r by blast
qed

text \<open>
  The listing terminates on the in-memory store: one page is enough, whatever the store
  holds, and leaves its objects alone.
\<close>

theorem memory_inventory_terminates:
  "\<exists>inv' s'. list_remote_inventory memory_backend C ds (Suc n) s = Some (Inr inv', s')"
  by (simp add: list_remote_inventory_def memory_backend_def memory_list_def Let_def split: prod.splits)

text \<open>
  Data of a version that was never committed is part of the inventory: the key of the
  version's data maps to a logical key before the metadata filter sees it, so a run that
  crashed in the middle of its upload shows up as a dataset, without a commit marker and
  without a current version.
\<close>

theorem uncommitted_data_listed:
  "listed_keys (list_remote_inventory memory_backend plain_codec demo_dataset 1 uncommitted_store) =
     [''data/.parqonaut/versions/run1/data/part.parquet''] \<and>
   fst (is_version_committed memory_backend demo_dataset ''run1'' uncommitted_store) = Inr False \<and>
   fst (read_current_version memory_backend plain_codec demo_dataset uncommitted_store) = Inr None"
  by code_simp

end
