(* ===== verification/Repair_Execute_Storage.thy ===== *)
theory Repair_Execute_Storage
  imports Repair_Execute_Props Storage_Inventory
begin

text \<open>
  Executing a plan from or to object storage (\<open>execute_storage.rs\<close>): the guards, seeding the
  work directory from a remote inventory, and the publication of the result. It composes
  the operations of local execution with the inventory and the publication protocol.
\<close>

section \<open>Locations\<close>

fun requires_storage_execution :: "dataset_location \<Rightarrow> dataset_location \<Rightarrow> bool" where
  "requires_storage_execution (DatasetLocal _) (DatasetLocal _) = False"
| "requires_storage_execution _ _ = True"

fun location_root :: "dataset_location \<Rightarrow> path" where
  "location_root (DatasetLocal p) = p"
| "location_root (DatasetS3 s) = s3_display_uri s"

definition parent_or_here :: "path \<Rightarrow> path" where
  "parent_or_here p = (case path_parent p of None \<Rightarrow> ''.'' | Some d \<Rightarrow> d)"

definition staging_parent_path :: "path \<Rightarrow> dataset_location \<Rightarrow> dataset_location \<Rightarrow> path" where
  "staging_parent_path temp source output =
     (case output of DatasetLocal out \<Rightarrow> parent_or_here out
      | DatasetS3 _ \<Rightarrow> (case source of DatasetLocal src \<Rightarrow> parent_or_here src
          | DatasetS3 _ \<Rightarrow> path_join temp ''parqonaut-repair-staging''))"

fun operation_root :: "dataset_location \<Rightarrow> path \<Rightarrow> path" where
  "operation_root (DatasetLocal p) work = p"
| "operation_root (DatasetS3 _) work = work"

definition before_scan_for_source ::
  "exec_env \<Rightarrow> dataset_location \<Rightarrow> scan_report \<Rightarrow> file_system \<Rightarrow> path \<Rightarrow> (repair_error, scan_report) res" where
  "before_scan_for_source env source scan fs work =
     (case source of DatasetLocal _ \<Rightarrow> Inr scan | DatasetS3 _ \<Rightarrow> ee_scan env fs work)"

section \<open>The environment of a storage execution\<close>

text \<open>
  Beside what local execution uses: the two backends over one store state, the codec of the
  publication records, the url parser, the directory walk of the walkdir crate, the temporary
  directory and the fuel of the listing.
\<close>

record 's storage_env =
  se_source :: "'s storage_backend"
  se_output :: "'s storage_backend"
  se_codec :: codec
  se_url :: url_parser
  se_walk :: "file_system \<Rightarrow> path \<Rightarrow> walk_entry list"
  se_temp :: path
  se_fuel :: nat

datatype storage_failure = StorageFailed sort_failure | ListingDiverges

definition storage_fail :: "repair_error \<Rightarrow> storage_failure" where
  "storage_fail e = StorageFailed (SortError e)"

definition ensure_output_available ::
  "'s storage_backend \<Rightarrow> codec \<Rightarrow> dataset_location \<Rightarrow> file_system \<Rightarrow> ('s, repair_error, unit) eff" where
  "ensure_output_available B C output fs =
     (case output of
        DatasetLocal p \<Rightarrow> if path_exists fs p then eff_fail (OutputExists p) else eff_return ()
      | DatasetS3 _ \<Rightarrow>
          eff_bind (eff_map_err RepairPublication (read_current_version B C output)) (\<lambda>v.
            if v \<noteq> None then eff_fail (OutputExists (dataset_display_uri output)) else eff_return ()))"

definition verify_source_fingerprint ::
  "exec_env \<Rightarrow> dataset_location \<Rightarrow> repair_plan \<Rightarrow> scan_report \<Rightarrow> file_system \<Rightarrow> (repair_error, unit) res" where
  "verify_source_fingerprint env source plan scan fs =
     bind_res (compute_fingerprint_from_scan (ee_hasher env) (ee_inspect env fs) (location_root source) scan) (\<lambda>cur.
       verify_against (dataset_fp plan) cur)"

definition stream_object_to_file ::
  "'s storage_backend \<Rightarrow> object_location \<Rightarrow> path \<Rightarrow> file_system \<Rightarrow> ('s, repair_error, file_system) eff" where
  "stream_object_to_file B obj dest fs =
     eff_bind (eff_map_err RepairStorage (be_read B obj)) (\<lambda>bytes. eff_return (fs_write dest bytes fs))"

fun seed_objects ::
  "'s storage_backend \<Rightarrow> remote_inventory \<Rightarrow> path \<Rightarrow> object_metadata list \<Rightarrow> work_state \<Rightarrow> ('s, repair_error, work_state) eff" where
  "seed_objects B inv' work [] st = eff_return st"
| "seed_objects B inv' work (m # ms) st =
     (case inventory_relative_key inv' m of
        None \<Rightarrow> seed_objects B inv' work ms st
      | Some rel \<Rightarrow>
          if \<not> str_ends_with rel ''.parquet'' then seed_objects B inv' work ms st
          else eff_bind (stream_object_to_file B (om_location m) (path_join work rel) (ws_fs st)) (\<lambda>fs.
            seed_objects B inv' work ms \<lparr>ws_fs = fs, ws_working = bt_insert rel (path_join work rel) (ws_working st)\<rparr>))"

definition seed_work_dir_from_remote ::
  "'s storage_backend \<Rightarrow> remote_inventory \<Rightarrow> path \<Rightarrow> file_system \<Rightarrow> ('s, repair_error, work_state) eff" where
  "seed_work_dir_from_remote B inv' work fs =
     eff_bind (seed_objects B inv' work (ri_objects inv') \<lparr>ws_fs = fs, ws_working = []\<rparr>) (\<lambda>st.
       if ws_working st = [] then eff_fail (DatasetUnreadable ''remote inventory contains no parquet objects'')
       else eff_return st)"

definition seed_working_set ::
  "'s storage_env \<Rightarrow> dataset_location \<Rightarrow> path \<Rightarrow> scan_report \<Rightarrow> file_system \<Rightarrow> ('s, storage_failure, work_state) eff" where
  "seed_working_set senv source work scan fs s =
     (case source of
        DatasetLocal root \<Rightarrow> (map_err storage_fail (seed_work_dir root work scan fs), s)
      | DatasetS3 _ \<Rightarrow>
          (case list_remote_inventory (se_source senv) (se_codec senv) source (se_fuel senv) s of
             None \<Rightarrow> (Inl ListingDiverges, s)
           | Some (Inl e, s') \<Rightarrow> (Inl (storage_fail (RepairStorage e)), s')
           | Some (Inr inv', s') \<Rightarrow>
               eff_map_err storage_fail (seed_work_dir_from_remote (se_source senv) inv' work fs) s'))"

definition deliver_output ::
  "exec_env \<Rightarrow> 's storage_env \<Rightarrow> dataset_location \<Rightarrow> path \<Rightarrow> string \<Rightarrow> execution_manifest \<Rightarrow> file_system \<Rightarrow>
   ('s, repair_error, (string \<times> string) \<times> file_system) eff" where
  "deliver_output env senv output work run_id manifest fs =
     (case output of
        DatasetLocal out \<Rightarrow>
          (let manifest_path = path_join out ''.parqonaut-manifest.json''
           in eff_return ((out, manifest_path),
                fs_write manifest_path (ee_render env manifest) (copy_work_to_output work out fs)))
      | DatasetS3 _ \<Rightarrow>
          eff_bind (publish_work_dir (se_output senv) (se_codec senv) (ee_completed env) output (se_walk senv fs work) run_id
            (Inr (ee_render env manifest))) (\<lambda>paths. eff_return (paths, fs)))"

definition storage_guards ::
  "exec_env \<Rightarrow> 's storage_env \<Rightarrow> repair_plan \<Rightarrow> dataset_location \<Rightarrow> scan_report \<Rightarrow> file_system \<Rightarrow>
   ('s, storage_failure, dataset_location) eff" where
  "storage_guards env senv plan output scan fs =
     eff_bind (eff_lift (map_err storage_fail (validate_version plan))) (\<lambda>_.
     eff_bind (eff_lift (map_err (\<lambda>e. storage_fail (RepairStorage e)) (parse_dataset_location (se_url senv) (dataset_root plan)))) (\<lambda>source.
     eff_bind (eff_map_err storage_fail (ensure_output_available (se_output senv) (se_codec senv) output fs)) (\<lambda>_.
     eff_lift (if locations_overlap source output
       then Inl (storage_fail (SourceDestinationOverlap (dataset_display_uri source @ '' overlaps '' @ dataset_display_uri output)))
       else bind_res (map_err storage_fail (verify_source_fingerprint env source plan scan fs)) (\<lambda>_. Inr source)))))"

text \<open>\<open>run_id\<close> names the publication; the source is read from the plan's root.\<close>

definition execute_storage ::
  "exec_env \<Rightarrow> 's storage_env \<Rightarrow> repair_executor \<Rightarrow> repair_plan \<Rightarrow> dataset_location \<Rightarrow> scan_report \<Rightarrow> string \<Rightarrow> file_system \<Rightarrow>
   ('s, storage_failure, execution_report \<times> file_system) eff" where
  "execute_storage env senv rx plan output scan run_id fs =
     eff_bind (storage_guards env senv plan output scan fs) (\<lambda>source.
     let staging = staging_dir (staging_parent_path (se_temp senv) source output) (ee_execution_id env);
         work = path_join staging ''work'';
         op_root = operation_root source work
     in
     eff_bind (seed_working_set senv source work scan fs) (\<lambda>seeded.
     eff_bind (eff_lift (map_err (\<lambda>f. StorageFailed (partial_failure env staging f))
       (run_repair_operations (ee_io env) (rx_authorization rx) plan op_root work
         (plan_audit_context env plan) (ee_clock env) seeded))) (\<lambda>(out, st).
     eff_bind (eff_lift (map_err storage_fail (before_scan_for_source env source scan (ws_fs st) work))) (\<lambda>before.
     eff_bind (eff_lift (map_err storage_fail (ee_scan env (ws_fs st) work))) (\<lambda>after.
     eff_bind (eff_lift (map_err storage_fail (maybe_verify env rx plan (ws_fs st) before after op_root work))) (\<lambda>verification.
     eff_bind (eff_lift (map_err storage_fail (compute_fingerprint_from_scan (ee_hasher env) (ee_inspect env (ws_fs st)) work after))) (\<lambda>output_fp.
     eff_bind (eff_map_err storage_fail (deliver_output env senv output work run_id
       (build_manifest env plan output_fp (oo_audit out) verification) (ws_fs st))) (\<lambda>((output_path, manifest_path), fs2).
       eff_return (build_report env plan out staging output_path manifest_path, remove_dir_all staging fs2)))))))))"

section \<open>Results\<close>

lemma sorted_codes_diff: "filter (\<lambda>c. c \<notin> set b) b = []"
  by (simp add: filter_empty_conv)

lemma verify_repair_self:
  assumes "verify_repair h inspect uuid scan scan root root policy None = Inr v"
  shows "vr_outcome v \<noteq> VerificationFailed \<and> vr_resolved v = [] \<and> vr_new v = []"
  using assms unfolding verify_repair_def bind_res_Inr_iff
  by (clarsimp simp: Let_def verification_outcome_of_def sorted_codes_diff filter_empty_conv)

text \<open>
  The verification of a repair of a remote dataset cannot fail: the scan of the state
  before the repair is taken from the work directory after the operations have run, so the
  result is compared with itself, whatever rows the operations lost.
\<close>

theorem remote_verification_vacuous:
  assumes "before_scan_for_source env (DatasetS3 src) scan fs work = Inr before"
    and "ee_scan env fs work = Inr after"
    and "maybe_verify env rx plan fs before after (operation_root (DatasetS3 src) work) work = Inr (Some v)"
  shows "vr_outcome v \<noteq> VerificationFailed \<and> vr_resolved v = []"
proof -
  have "before = after" using assms(1,2) by (simp add: before_scan_for_source_def)
  then show ?thesis using assms(3) verify_repair_self
    by (fastforce simp: maybe_verify_def bind_res_Inr_iff split: if_splits)
qed

definition remote_files :: file_system where
  "remote_files = [(''/w/merged-part-0000.parquet'', ''12345'')]"

theorem remote_verification_vacuous_witness:
  "\<exists>v. maybe_verify demo_env demo_executor demo_repair_plan remote_files (demo_scan remote_files ''/w'') (demo_scan remote_files ''/w'')
      (operation_root demo_dataset ''/w'') ''/w'' = Inr (Some v) \<and> vr_outcome v \<noteq> VerificationFailed"
proof -
  let ?r = "maybe_verify demo_env demo_executor demo_repair_plan remote_files (demo_scan remote_files ''/w'') (demo_scan remote_files ''/w'')
      (operation_root demo_dataset ''/w'') ''/w''"
  have "\<not> isl ?r \<and> projr ?r \<noteq> None" by code_simp
  then obtain v where v: "?r = Inr (Some v)" by (cases ?r) auto
  have s: "before_scan_for_source demo_env demo_dataset (demo_scan [] ''/w'') remote_files ''/w'' = Inr (demo_scan remote_files ''/w'')"
    "ee_scan demo_env remote_files ''/w'' = Inr (demo_scan remote_files ''/w'')"
    by (simp_all add: before_scan_for_source_def demo_dataset_def demo_env_def)
  show ?thesis using remote_verification_vacuous [OF s(1) [unfolded demo_dataset_def] s(2) v [unfolded demo_dataset_def]] v
    by blast
qed

lemma ensure_output_rejects:
  assumes "read_current_version B C (DatasetS3 out) s = (Inr (Some v), s')"
  shows "ensure_output_available B C (DatasetS3 out) fs s = (Inl (OutputExists (s3_display_uri out)), s')"
  using assms by (simp add: ensure_output_available_def eff_bind_apply eff_map_err_def)

text \<open>
  A remote output that has a current version is never written to: the execution fails
  with \<open>OutputExists\<close> and the store is as the read of the pointer left it.
\<close>

theorem published_output_not_overwritten:
  assumes "plan_schema_version plan = PLAN_SCHEMA_VERSION"
    and "parse_dataset_location (se_url senv) (dataset_root plan) = Inr source"
    and "read_current_version (se_output senv) (se_codec senv) (DatasetS3 out) s = (Inr (Some v), s')"
  shows "execute_storage env senv rx plan (DatasetS3 out) scan run_id fs s =
    (Inl (storage_fail (OutputExists (s3_display_uri out))), s')"
  using assms ensure_output_rejects [OF assms(3)]
  by (simp add: execute_storage_def storage_guards_def eff_bind_apply validate_version_def eff_map_err_def)

definition demo_storage_env :: "memory_state storage_env" where
  "demo_storage_env = \<lparr>se_source = memory_backend, se_output = memory_backend, se_codec = plain_codec,
     se_url = (\<lambda>s. Inl ''relative URL without a base''), se_walk = (\<lambda>fs d. []), se_temp = ''/tmp'', se_fuel = 1\<rparr>"

definition demo_published_store :: memory_state where
  "demo_published_store = snd (publish_work_dir memory_backend plain_codec 0 demo_dataset
     [WalkFile (Some ''a.parquet'') (Inr ''A'')] ''r1'' (Inr ''J'') (memory_new CAPS_S3))"

theorem published_output_not_overwritten_witness:
  "\<exists>s'. execute_storage demo_env demo_storage_env demo_executor demo_repair_plan demo_dataset (demo_scan demo_source ''/d'') ''r2''
      demo_source demo_published_store = (Inl (storage_fail (OutputExists ''s3://b/data'')), s')"
proof -
  let ?cur = "read_current_version memory_backend plain_codec demo_dataset demo_published_store"
  have "fst ?cur = Inr (Some ''r1'')" by code_simp
  then have c: "read_current_version (se_output demo_storage_env) (se_codec demo_storage_env)
      (DatasetS3 \<lparr>s3_bucket = ''b'', s3_prefix = ''data''\<rparr>) demo_published_store = (Inr (Some ''r1''), snd ?cur)"
    by (simp add: demo_storage_env_def demo_dataset_def prod_eq_iff)
  have "parse_dataset_location (se_url demo_storage_env) (dataset_root demo_repair_plan) = Inr (DatasetLocal ''/d'')" by code_simp
  moreover have "plan_schema_version demo_repair_plan = PLAN_SCHEMA_VERSION" by code_simp
  moreover have "s3_display_uri \<lparr>s3_bucket = ''b'', s3_prefix = ''data''\<rparr> = ''s3://b/data''" by code_simp
  ultimately show ?thesis using published_output_not_overwritten [OF _ _ c] unfolding demo_dataset_def by metis
qed



















end
