(* ===== verification/Orch_State.thy ===== *)
theory Orch_State
  imports Repair_Execute_Storage
begin

text \<open>
  The data of the batch orchestrator (\<open>state.rs\<close>, \<open>error.rs\<close>, \<open>ids.rs\<close>, \<open>journal/mod.rs\<close>): the
  state machine of a dataset, the classes of failure, the records of a run, and the run
  journal as an interface. Identifiers (\<open>DatasetId\<close>, \<open>RunId\<close>, \<open>BatchPlanId\<close>) are strings.
\<close>

section \<open>The state of a dataset\<close>

datatype dataset_state =
    DsPending | DsPlanningValidated | DsRunning | DsRepairComplete | DsVerifying | DsSucceeded
  | DsBlocked | DsFailedRecoverable | DsFailedPermanent | DsCancelled | DsStaleSource
  | DsVerificationFailed

datatype state_transition_error = IllegalTransition dataset_state dataset_state

definition is_terminal :: "dataset_state \<Rightarrow> bool" where
  "is_terminal s = (s \<in> {DsSucceeded, DsBlocked, DsFailedPermanent, DsCancelled,
     DsVerificationFailed, DsStaleSource})"

definition is_runnable :: "dataset_state \<Rightarrow> bool" where
  "is_runnable s = (s \<in> {DsPending, DsFailedRecoverable})"

definition is_resumable :: "dataset_state \<Rightarrow> bool" where
  "is_resumable s = (s \<in> {DsPending, DsPlanningValidated, DsRunning, DsFailedRecoverable, DsCancelled})"

definition recover_after_crash :: "dataset_state \<Rightarrow> dataset_state" where
  "recover_after_crash s =
     (if s \<in> {DsRunning, DsRepairComplete, DsVerifying, DsPlanningValidated} then DsFailedRecoverable else s)"

definition can_transition_to :: "dataset_state \<Rightarrow> dataset_state \<Rightarrow> bool" where
  "can_transition_to s t =
     (s = t \<or> (s, t) \<in> {(DsPending, DsPlanningValidated), (DsPlanningValidated, DsRunning),
        (DsRunning, DsRepairComplete), (DsRepairComplete, DsVerifying), (DsVerifying, DsSucceeded),
        (DsPending, DsStaleSource), (DsPlanningValidated, DsStaleSource),
        (DsRunning, DsFailedRecoverable), (DsRepairComplete, DsFailedRecoverable),
        (DsVerifying, DsFailedRecoverable), (DsRunning, DsFailedPermanent),
        (DsRepairComplete, DsFailedPermanent), (DsVerifying, DsFailedPermanent),
        (DsRunning, DsVerificationFailed), (DsRepairComplete, DsVerificationFailed),
        (DsVerifying, DsVerificationFailed), (DsPending, DsCancelled),
        (DsPlanningValidated, DsCancelled), (DsRunning, DsCancelled), (DsPlanningValidated, DsBlocked),
        (DsFailedRecoverable, DsRunning), (DsPlanningValidated, DsFailedRecoverable),
        (DsCancelled, DsFailedRecoverable), (DsStaleSource, DsStaleSource)})"

definition transition :: "dataset_state \<Rightarrow> dataset_state \<Rightarrow> (state_transition_error, dataset_state) res" where
  "transition s t = (if can_transition_to s t then Inr t else Inl (IllegalTransition s t))"

lemmas state_class_defs = is_terminal_def is_runnable_def is_resumable_def recover_after_crash_def

section \<open>Failures\<close>

datatype failure_class =
    FcRecoverable | FcPermanent | FcBlocked | FcStaleSource | FcVerificationFailed | FcCancelled

datatype orchestrator_error =
    InvalidConfig string
  | UnsupportedConfigVersion nat nat
  | UnsupportedBatchPlanVersion nat nat
  | DuplicateDatasetId string
  | PathOverlap string
  | OrchLockHeld string
  | JournalError string
  | OrchRepair repair_error
  | OrchIo string
  | OrchJson string
  | PlanIdentityMismatch string string string
  | RunAlreadyCompleted
  | RunCancelled
  | OrchState state_transition_error
  | OrchStorage string

section \<open>The records of a run\<close>

record run_identity =
  ri_run_id :: string
  ri_batch_plan_id :: string
  ri_config_fingerprint :: string
  ri_batch_name :: string
  ri_output_root :: string
  ri_parqonaut_version :: string
  ri_plan_digest :: string
  ri_started_at :: timestamp
  ri_updated_at :: timestamp
  ri_completed_at :: "timestamp option"
  ri_cancelled_at :: "timestamp option"

record dataset_run_record =
  dr_dataset_id :: string
  dr_output_path :: string
  dr_repair_plan_id :: string
  dr_policy_fingerprint :: string
  dr_state :: dataset_state
  dr_attempts :: u32
  dr_source_fingerprint :: "string option"
  dr_output_fingerprint :: "string option"
  dr_error_class :: "failure_class option"
  dr_error_message :: "string option"
  dr_started_at :: "timestamp option"
  dr_updated_at :: timestamp
  dr_completed_at :: "timestamp option"

section \<open>The journal interface\<close>

text \<open>
  The trait \<open>RunJournal\<close> as a record of its operations over the journal's state.
\<close>

record 'j run_journal =
  rj_run_identity :: "('j, orchestrator_error, run_identity option) eff"
  rj_list_datasets :: "('j, orchestrator_error, dataset_run_record list) eff"
  rj_dataset :: "string \<Rightarrow> ('j, orchestrator_error, dataset_run_record option) eff"
  rj_upsert_dataset :: "dataset_run_record \<Rightarrow> ('j, orchestrator_error, unit) eff"
  rj_mark_run_completed :: "timestamp \<Rightarrow> ('j, orchestrator_error, unit) eff"
  rj_mark_run_cancelled :: "timestamp \<Rightarrow> ('j, orchestrator_error, unit) eff"

text \<open>
  What a journal promises: in a state that is ready, it stands for one run identity and a
  finite map of dataset records; reads return them without changing the state, the listing is
  in the order of the dataset ids, and writes change just the record or the mark they name.
\<close>

locale journal =
  fixes J :: "'j run_journal"
    and ready :: "'j \<Rightarrow> bool"
    and identity :: "'j \<Rightarrow> run_identity"
    and records :: "'j \<Rightarrow> string \<rightharpoonup> dataset_run_record"
  assumes identity_read: "ready j \<Longrightarrow> rj_run_identity J j = (Inr (Some (identity j)), j)"
    and list_read: "ready j \<Longrightarrow> \<exists>rs. rj_list_datasets J j = (Inr rs, j) \<and>
      sorted (map dr_dataset_id rs) \<and> distinct (map dr_dataset_id rs) \<and>
      (\<forall>r. r \<in> set rs \<longleftrightarrow> records j (dr_dataset_id r) = Some r)"
    and dataset_read: "ready j \<Longrightarrow> rj_dataset J i j = (Inr (records j i), j)"
    and records_key: "ready j \<Longrightarrow> records j i = Some r \<Longrightarrow> dr_dataset_id r = i"
    and upsert: "ready j \<Longrightarrow> \<exists>j'. rj_upsert_dataset J r j = (Inr (), j') \<and> ready j' \<and>
      identity j' = identity j \<and> records j' = (records j)(dr_dataset_id r \<mapsto> r)"
    and completed: "ready j \<Longrightarrow> \<exists>j'. rj_mark_run_completed J t j = (Inr (), j') \<and> ready j' \<and>
      identity j' = (identity j)\<lparr>ri_completed_at := Some t, ri_updated_at := t\<rparr> \<and> records j' = records j"
    and cancelled: "ready j \<Longrightarrow> \<exists>j'. rj_mark_run_cancelled J t j = (Inr (), j') \<and> ready j' \<and>
      identity j' = (identity j)\<lparr>ri_cancelled_at := Some t, ri_updated_at := t\<rparr> \<and> records j' = records j"

section \<open>Recovery of the records after an interruption\<close>

fun state_debug :: "dataset_state \<Rightarrow> string" where
  "state_debug DsPending = ''Pending''"
| "state_debug DsPlanningValidated = ''PlanningValidated''"
| "state_debug DsRunning = ''Running''"
| "state_debug DsRepairComplete = ''RepairComplete''"
| "state_debug DsVerifying = ''Verifying''"
| "state_debug DsSucceeded = ''Succeeded''"
| "state_debug DsBlocked = ''Blocked''"
| "state_debug DsFailedRecoverable = ''FailedRecoverable''"
| "state_debug DsFailedPermanent = ''FailedPermanent''"
| "state_debug DsCancelled = ''Cancelled''"
| "state_debug DsStaleSource = ''StaleSource''"
| "state_debug DsVerificationFailed = ''VerificationFailed''"

definition recovered_record :: "timestamp \<Rightarrow> dataset_run_record \<Rightarrow> dataset_run_record" where
  "recovered_record now r =
     r\<lparr>dr_state := recover_after_crash (dr_state r), dr_error_class := Some FcRecoverable,
       dr_error_message := Some (''recovered after interruption from '' @ state_debug (dr_state r)),
       dr_updated_at := now\<rparr>"

fun recover_records :: "'j run_journal \<Rightarrow> timestamp \<Rightarrow> dataset_run_record list \<Rightarrow> ('j, orchestrator_error, unit) eff" where
  "recover_records J now [] = eff_return ()"
| "recover_records J now (r # rs) =
     (if recover_after_crash (dr_state r) \<noteq> dr_state r
      then eff_bind (rj_upsert_dataset J (recovered_record now r)) (\<lambda>_. recover_records J now rs)
      else recover_records J now rs)"

definition recover_journal_states :: "'j run_journal \<Rightarrow> timestamp \<Rightarrow> ('j, orchestrator_error, unit) eff" where
  "recover_journal_states J now = eff_bind (rj_list_datasets J) (recover_records J now)"

text \<open>What recovery makes of a record, as a specification.\<close>

definition recover_spec :: "timestamp \<Rightarrow> dataset_run_record \<Rightarrow> dataset_run_record" where
  "recover_spec now r = (if recover_after_crash (dr_state r) \<noteq> dr_state r then recovered_record now r else r)"

lemma recovered_record_id [simp]: "dr_dataset_id (recovered_record now r) = dr_dataset_id r"
  by (simp add: recovered_record_def)

lemma recover_spec_id [simp]: "dr_dataset_id (recover_spec now r) = dr_dataset_id r"
  by (simp add: recover_spec_def)

lemma recover_spec_settled: "let s = dr_state (recover_spec now r) in is_terminal s \<or> is_runnable s"
  by (cases "dr_state r") (simp_all add: recover_spec_def recovered_record_def state_class_defs)

lemma recover_spec_terminal: "is_terminal (dr_state r) \<Longrightarrow> recover_spec now r = r"
  by (auto simp: recover_spec_def state_class_defs)

context journal
begin

lemma recover_records_spec:
  assumes "ready j" "distinct (map dr_dataset_id rs)" "\<forall>r \<in> set rs. records j (dr_dataset_id r) = Some r"
  shows "\<exists>j'. recover_records J now rs j = (Inr (), j') \<and> ready j' \<and> identity j' = identity j \<and>
    records j' = (\<lambda>i. if i \<in> dr_dataset_id ` set rs then map_option (recover_spec now) (records j i) else records j i)"
  using assms
proof (induction rs arbitrary: j)
  case (Cons r rs)
  obtain j1 where j1: "rj_upsert_dataset J (recovered_record now r) j = (Inr (), j1)" "ready j1"
    "identity j1 = identity j" "records j1 = (records j)(dr_dataset_id r \<mapsto> recovered_record now r)"
    using upsert [OF Cons.prems(1), of "recovered_record now r"] by auto
  show ?case
  proof (cases "recover_after_crash (dr_state r) = dr_state r")
    case True
    then show ?thesis using Cons.IH [OF Cons.prems(1)] Cons.prems
      by (fastforce simp: recover_spec_def fun_eq_iff)
  next
    case False
    have "\<forall>q \<in> set rs. records j1 (dr_dataset_id q) = Some q"
      using Cons.prems by (auto simp: j1(4) image_iff)
    from Cons.IH [OF j1(2) _ this] Cons.prems(2) obtain j2 where
      "recover_records J now rs j1 = (Inr (), j2)" "ready j2" "identity j2 = identity j1"
      "records j2 = (\<lambda>i. if i \<in> dr_dataset_id ` set rs then map_option (recover_spec now) (records j1 i) else records j1 i)"
      by auto
    with False j1 Cons.prems show ?thesis
      by (auto simp: eff_bind_apply recover_spec_def fun_eq_iff)
  qed
qed (auto simp: eff_defs)

lemma recover_journal_states_spec:
  assumes "ready j"
  shows "\<exists>j'. recover_journal_states J now j = (Inr (), j') \<and> ready j' \<and> identity j' = identity j \<and>
    records j' = (\<lambda>i. map_option (recover_spec now) (records j i))"
proof -
  obtain rs where rs: "rj_list_datasets J j = (Inr rs, j)" "distinct (map dr_dataset_id rs)"
    "\<forall>r. r \<in> set rs \<longleftrightarrow> records j (dr_dataset_id r) = Some r"
    using list_read [OF assms] by auto
  have "i \<notin> dr_dataset_id ` set rs \<Longrightarrow> records j i = None" for i
    using rs(3) records_key [OF assms] by (metis image_eqI not_Some_eq)
  then have all: "(if i \<in> dr_dataset_id ` set rs then map_option (recover_spec now) (records j i) else records j i) =
      map_option (recover_spec now) (records j i)" for i
    by simp
  have "\<forall>r \<in> set rs. records j (dr_dataset_id r) = Some r" using rs(3) by blast
  from recover_records_spec [OF assms rs(2) this, of now] show ?thesis
    by (simp only: recover_journal_states_def eff_bind_apply rs(1) prod.case sum.case all)
qed

end

end
