(* ===== verification/Orch_Batch.thy ===== *)
theory Orch_Batch
  imports Orch_State
begin

text \<open>
  Batch configurations and batch plans (\<open>config.rs\<close>, \<open>location.rs\<close>, \<open>paths.rs\<close>, \<open>overlap.rs\<close>,
  \<open>plan.rs\<close>, \<open>auth.rs\<close>): validation, resolution of the locations of each dataset, the
  overlap check, planning of every dataset, and the checks that tie a plan to a run.
\<close>

section \<open>Configuration\<close>

type_synonym config_location = dataset_location

record batch_section =
  bs_name :: string
  bs_max_concurrency :: u32
  bs_output_root :: "config_location option"
  bs_run_root :: "path option"
  bs_max_storage_requests :: u32

record dataset_config =
  dc_id :: string
  dc_path :: config_location
  dc_policy :: "path option"
  dc_target_schema :: "path option"
  dc_authorize :: "string list"
  dc_output :: "path option"

record batch_config =
  bc_schema_version :: nat
  bc_batch :: batch_section
  bc_datasets :: "dataset_config list"

definition BATCH_CONFIG_SCHEMA_VERSION :: nat where
  "BATCH_CONFIG_SCHEMA_VERSION = 1"

definition BATCH_PLAN_SCHEMA_VERSION :: nat where
  "BATCH_PLAN_SCHEMA_VERSION = 1"

text \<open>The loop that inserts every id into a set and stops at the first repeated one.\<close>

fun first_duplicate :: "'a list \<Rightarrow> 'a list \<Rightarrow> 'a option" where
  "first_duplicate seen [] = None"
| "first_duplicate seen (x # xs) = (if x \<in> set seen then Some x else first_duplicate (x # seen) xs)"

definition validate_config :: "batch_config \<Rightarrow> (orchestrator_error, unit) res" where
  "validate_config c =
     (if bc_schema_version c \<noteq> BATCH_CONFIG_SCHEMA_VERSION
      then Inl (UnsupportedConfigVersion (bc_schema_version c) BATCH_CONFIG_SCHEMA_VERSION)
      else if bs_max_concurrency (bc_batch c) = 0
      then Inl (InvalidConfig ''batch.max_concurrency must be >= 1'')
      else if bs_max_storage_requests (bc_batch c) = 0
      then Inl (InvalidConfig ''batch.max_storage_requests must be >= 1'')
      else (case first_duplicate [] (map dc_id (bc_datasets c)) of
          Some i \<Rightarrow> Inl (DuplicateDatasetId i)
        | None \<Rightarrow> if bs_output_root (bc_batch c) = None
            then Inl (InvalidConfig ''batch.output_root is required'') else Inr ()))"

definition require_output_root :: "batch_config \<Rightarrow> (orchestrator_error, config_location) res" where
  "require_output_root c =
     ok_or (InvalidConfig ''batch.output_root is required for planning and execution'') (bs_output_root (bc_batch c))"

section \<open>Locations\<close>

definition local_path_for_policy :: "path \<Rightarrow> path \<Rightarrow> path" where
  "local_path_for_policy base p = (if is_absolute p then p else path_join base p)"

fun resolve_dataset_location :: "path \<Rightarrow> dataset_location \<Rightarrow> dataset_location" where
  "resolve_dataset_location base (DatasetLocal p) = DatasetLocal (if is_absolute p then p else path_join base p)"
| "resolve_dataset_location base (DatasetS3 s) = DatasetS3 s"

text \<open>\<open>canonicalize\<close> is the file system's resolution of a path, with its errors.\<close>

definition canonicalize_local_location ::
  "(path \<Rightarrow> (orchestrator_error, path) res) \<Rightarrow> path \<Rightarrow> dataset_location \<Rightarrow> (orchestrator_error, dataset_location) res" where
  "canonicalize_local_location canonicalize base loc =
     (case resolve_dataset_location base loc of
        DatasetLocal p \<Rightarrow> bind_res (canonicalize p) (\<lambda>c. Inr (DatasetLocal c))
      | DatasetS3 s \<Rightarrow> Inr (DatasetS3 s))"

definition join_output_segment :: "dataset_location \<Rightarrow> string \<Rightarrow> (orchestrator_error, dataset_location) res" where
  "join_output_segment root segment =
     (if segment = [] \<or> str_contains segment ''..'' \<or> CHR ''/'' \<in> set segment
      then Inl (InvalidConfig (''invalid output segment `'' @ segment @ ''`''))
      else (case root of
          DatasetLocal p \<Rightarrow> Inr (DatasetLocal (path_join p segment))
        | DatasetS3 s \<Rightarrow> Inr (DatasetS3 \<lparr>s3_bucket = s3_bucket s,
            s3_prefix = (if s3_prefix s = [] then segment
              else trim_end_matches (CHR ''/'') (s3_prefix s) @ ''/'' @ segment)\<rparr>)))"

definition parse_location_config :: "url_parser \<Rightarrow> string \<Rightarrow> (orchestrator_error, dataset_location) res" where
  "parse_location_config url raw = map_err (\<lambda>e. InvalidConfig (storage_error_to_string e)) (parse_dataset_location url raw)"

definition parse_output_override :: "url_parser \<Rightarrow> string \<Rightarrow> path \<Rightarrow> (orchestrator_error, dataset_location) res" where
  "parse_output_override url raw base =
     (let trimmed = str_trim raw
      in if str_contains trimmed ''://'' \<or> is_absolute trimmed
         then bind_res (parse_location_config url trimmed) (\<lambda>loc. Inr (resolve_dataset_location base loc))
         else Inl (InvalidConfig (''output override `'' @ raw @ ''` is not an absolute path or URI'')))"

definition resolve_dataset_output ::
  "url_parser \<Rightarrow> path \<Rightarrow> dataset_location \<Rightarrow> dataset_config \<Rightarrow> (orchestrator_error, dataset_location) res" where
  "resolve_dataset_output url base root ds =
     (case dc_output ds of
        None \<Rightarrow> join_output_segment root (dc_id ds)
      | Some raw \<Rightarrow>
          if str_contains raw ''://'' \<or> is_absolute raw then parse_output_override url raw base
          else if CHR ''/'' \<in> set raw \<or> str_contains raw ''..''
          then Inr (DatasetLocal (local_path_for_policy base raw))
          else join_output_segment root raw)"

section \<open>Overlap of the locations of a batch\<close>

record batch_path_spec =
  ps_dataset_id :: string
  ps_source :: dataset_location
  ps_output :: dataset_location

definition self_overlap_detail :: "batch_path_spec \<Rightarrow> string option" where
  "self_overlap_detail s =
     (if locations_overlap (ps_source s) (ps_output s)
      then Some (''dataset `'' @ ps_dataset_id s @ ''`: source `'' @ dataset_display_uri (ps_source s) @
        ''` overlaps output `'' @ dataset_display_uri (ps_output s) @ ''`'')
      else None)"

definition overlap_pairs :: "batch_path_spec \<Rightarrow> batch_path_spec \<Rightarrow> (string \<times> dataset_location \<times> string \<times> dataset_location) list" where
  "overlap_pairs l r =
     [(''source'', ps_source l, ''source'', ps_source r), (''source'', ps_source l, ''output'', ps_output r),
      (''output'', ps_output l, ''source'', ps_source r), (''output'', ps_output l, ''output'', ps_output r)]"

definition cross_overlap_detail :: "batch_path_spec \<Rightarrow> batch_path_spec \<Rightarrow> string option" where
  "cross_overlap_detail l r =
     (case find (\<lambda>(_, lp, _, rp). locations_overlap lp rp) (overlap_pairs l r) of
        None \<Rightarrow> None
      | Some (lk, lp, rk, rp) \<Rightarrow>
          Some (''datasets `'' @ ps_dataset_id l @ ''` and `'' @ ps_dataset_id r @ ''`: '' @ lk @ '' `'' @
            dataset_display_uri lp @ ''` overlaps '' @ rk @ '' `'' @ dataset_display_uri rp @ ''`''))"

fun first_some :: "('a \<Rightarrow> 'b option) \<Rightarrow> 'a list \<Rightarrow> 'b option" where
  "first_some f [] = None"
| "first_some f (x # xs) = (case f x of None \<Rightarrow> first_some f xs | Some y \<Rightarrow> Some y)"

fun first_cross_overlap :: "batch_path_spec list \<Rightarrow> string option" where
  "first_cross_overlap [] = None"
| "first_cross_overlap (l # rs) =
     (case first_some (cross_overlap_detail l) rs of None \<Rightarrow> first_cross_overlap rs | Some d \<Rightarrow> Some d)"

definition validate_batch_overlap :: "batch_path_spec list \<Rightarrow> (orchestrator_error, unit) res" where
  "validate_batch_overlap specs =
     (case first_some self_overlap_detail specs of
        Some d \<Rightarrow> Inl (PathOverlap d)
      | None \<Rightarrow> (case first_cross_overlap specs of Some d \<Rightarrow> Inl (PathOverlap d) | None \<Rightarrow> Inr ()))"

section \<open>Output mappings\<close>

text \<open>An \<open>OutputMapping\<close> has the fields of a \<^typ>\<open>batch_path_spec\<close>.\<close>

fun map_outputs ::
  "url_parser \<Rightarrow> (path \<Rightarrow> (orchestrator_error, path) res) \<Rightarrow> path \<Rightarrow> dataset_location \<Rightarrow> dataset_config list \<Rightarrow>
   (orchestrator_error, batch_path_spec list) res" where
  "map_outputs url canon base root [] = Inr []"
| "map_outputs url canon base root (ds # rest) =
     bind_res (canonicalize_local_location canon base (dc_path ds)) (\<lambda>src.
     bind_res (resolve_dataset_output url base root ds) (\<lambda>out.
     bind_res (map_outputs url canon base root rest) (\<lambda>ms.
       Inr (\<lparr>ps_dataset_id = dc_id ds, ps_source = src, ps_output = out\<rparr> # ms))))"

fun first_repeated_output :: "string list \<Rightarrow> batch_path_spec list \<Rightarrow> batch_path_spec option" where
  "first_repeated_output seen [] = None"
| "first_repeated_output seen (m # ms) =
     (if dataset_display_uri (ps_output m) \<in> set seen then Some m
      else first_repeated_output (dataset_display_uri (ps_output m) # seen) ms)"

definition resolve_output_mappings ::
  "url_parser \<Rightarrow> (path \<Rightarrow> (orchestrator_error, path) res) \<Rightarrow> batch_config \<Rightarrow> path \<Rightarrow>
   (orchestrator_error, batch_path_spec list) res" where
  "resolve_output_mappings url canon config base =
     bind_res (require_output_root config) (\<lambda>root0.
     bind_res (map_outputs url canon base (resolve_dataset_location base root0) (bc_datasets config)) (\<lambda>ms.
       case first_repeated_output [] ms of
         Some m \<Rightarrow> Inl (PathOverlap (''datasets `'' @ ps_dataset_id m @ ''` and others target the same output `'' @
           dataset_display_uri (ps_output m) @ ''`''))
       | None \<Rightarrow> bind_res (validate_batch_overlap ms) (\<lambda>_. Inr ms)))"

definition resolve_run_root :: "batch_config \<Rightarrow> path \<Rightarrow> (orchestrator_error, path) res" where
  "resolve_run_root config base =
     (case bs_run_root (bc_batch config) of
        Some r \<Rightarrow> Inr (local_path_for_policy base r)
      | None \<Rightarrow> bind_res (require_output_root config) (\<lambda>root0.
          (case resolve_dataset_location base root0 of
             DatasetLocal p \<Rightarrow> Inr p
           | DatasetS3 _ \<Rightarrow> Inr (path_join (path_join base ''.parqonaut'') ''runs''))))"

section \<open>Batch plans\<close>

record dataset_plan =
  dp_dataset_id :: string
  dp_source_path :: string
  dp_output_path :: string
  dp_repair_plan :: repair_plan
  dp_authorize :: "string list"

record batch_plan =
  bp_schema_version :: nat
  bp_batch_plan_id :: string
  bp_config_fingerprint :: string
  bp_batch_name :: string
  bp_max_concurrency :: u32
  bp_max_storage_requests :: u32
  bp_output_root :: string
  bp_run_root :: string
  bp_parqonaut_version :: string
  bp_datasets :: "dataset_plan list"

record batch_summary =
  bu_dataset_count :: nat
  bu_safe :: nat
  bu_review_required :: nat
  bu_blocked :: nat

text \<open>
  What planning uses of its surroundings: the url crate, hashing and serde's rendering of the
  configuration and of a plan, the file system (canonical paths, policy and schema files, already
  parsed), the scan of a dataset and the inspection of its files.
\<close>

record batch_env =
  be_url :: url_parser
  be_hasher :: hasher
  be_render_config :: "batch_config \<Rightarrow> string"
  be_render_plan :: "batch_plan \<Rightarrow> string"
  be_canonicalize :: "path \<Rightarrow> (orchestrator_error, path) res"
  be_read_policy :: "path \<Rightarrow> (orchestrator_error, (string \<times> toml) list) res"
  be_read_schema :: "path \<Rightarrow> (orchestrator_error, field_descriptor list) res"
  be_policy_fingerprint :: "effective_policy \<Rightarrow> string"
  be_scan :: "dataset_location \<Rightarrow> (repair_error, scan_report) res"
  be_inspect :: inspector
  be_uuid :: "nat \<Rightarrow> string"
  be_version :: string

definition config_fingerprint :: "batch_env \<Rightarrow> batch_config \<Rightarrow> string" where
  "config_fingerprint env c = stable_hex_id (be_hasher env) ''batch-config'' (be_render_config env c)"

definition resolve_policy :: "batch_env \<Rightarrow> path \<Rightarrow> dataset_config \<Rightarrow> (orchestrator_error, effective_policy) res" where
  "resolve_policy env base ds =
     (case dc_policy ds of
        None \<Rightarrow> Inr (effective_policy_from_toml None)
      | Some p \<Rightarrow> bind_res (be_read_policy env (local_path_for_policy base p)) (\<lambda>t. Inr (effective_policy_from_toml (Some t))))"

definition resolve_target_schema ::
  "batch_env \<Rightarrow> path \<Rightarrow> dataset_config \<Rightarrow> (orchestrator_error, field_descriptor list option) res" where
  "resolve_target_schema env base ds =
     (case dc_target_schema ds of
        None \<Rightarrow> Inr None
      | Some p \<Rightarrow> bind_res (be_read_schema env (local_path_for_policy base p)) (\<lambda>s. Inr (Some s)))"

definition unscannable_dataset_plan ::
  "batch_env \<Rightarrow> dataset_location \<Rightarrow> effective_policy \<Rightarrow> field_descriptor list option \<Rightarrow> repair_plan" where
  "unscannable_dataset_plan env loc policy target =
     (let root = location_root loc;
          digest = stable_hex_id (be_hasher env) ''unscannable-dataset'' root;
          policy_fp = be_policy_fingerprint env policy
      in \<lparr>plan_schema_version = PLAN_SCHEMA_VERSION,
          plan_id = stable_hex_id (be_hasher env) ''plan'' (digest @ '':'' @ policy_fp),
          plan_parqonaut_version = be_version env, dataset_root = root,
          dataset_fp = \<lparr>fp_version = 1, fp_root = root, fp_entries = [], fp_digest = digest\<rparr>,
          policy_fingerprint = policy_fp, plan_policy = policy, operations = [], expected_outcomes = [],
          schema_conflicts = None, target_schema = target\<rparr>)"

definition plan_dataset ::
  "batch_env \<Rightarrow> dataset_location \<Rightarrow> effective_policy \<Rightarrow> field_descriptor list option \<Rightarrow> repair_plan" where
  "plan_dataset env source policy target =
     (case bind_res (be_scan env source) (\<lambda>scan.
        generate_plan (be_hasher env) (be_inspect env) (be_uuid env) (be_policy_fingerprint env) (be_version env)
          (location_root source) scan policy target) of
        Inr plan \<Rightarrow> plan
      | Inl _ \<Rightarrow> unscannable_dataset_plan env source policy target)"

fun plan_datasets ::
  "batch_env \<Rightarrow> path \<Rightarrow> (dataset_config \<times> batch_path_spec) list \<Rightarrow> (orchestrator_error, dataset_plan list) res" where
  "plan_datasets env base [] = Inr []"
| "plan_datasets env base ((cfg, m) # rest) =
     bind_res (resolve_policy env base cfg) (\<lambda>policy.
     bind_res (resolve_target_schema env base cfg) (\<lambda>target.
     bind_res (plan_datasets env base rest) (\<lambda>ps.
       Inr (\<lparr>dp_dataset_id = ps_dataset_id m, dp_source_path = dataset_display_uri (ps_source m),
             dp_output_path = dataset_display_uri (ps_output m),
             dp_repair_plan = plan_dataset env (ps_source m) policy target, dp_authorize = dc_authorize cfg\<rparr> # ps))))"

definition plan_payload :: "string \<Rightarrow> string \<Rightarrow> string \<Rightarrow> dataset_plan list \<Rightarrow> json" where
  "plan_payload config_fp output_root run_root ds =
     JObj [(''config_fingerprint'', JStr config_fp), (''output_root'', JStr output_root), (''run_root'', JStr run_root),
       (''datasets'', JArr (map (\<lambda>d. JObj [(''id'', JStr (dp_dataset_id d)), (''output'', JStr (dp_output_path d)),
          (''plan_id'', JStr (plan_id (dp_repair_plan d))),
          (''source_fp'', JStr (fp_digest (dataset_fp (dp_repair_plan d)))),
          (''policy_fp'', JStr (policy_fingerprint (dp_repair_plan d)))]) ds))]"

definition build_batch_plan :: "batch_env \<Rightarrow> batch_config \<Rightarrow> path \<Rightarrow> (orchestrator_error, batch_plan) res" where
  "build_batch_plan env config config_path =
     bind_res (validate_config config) (\<lambda>_.
     let base = (case path_parent config_path of None \<Rightarrow> ''.'' | Some d \<Rightarrow> d) in
     bind_res (resolve_output_mappings (be_url env) (be_canonicalize env) config base) (\<lambda>ms.
     bind_res (require_output_root config) (\<lambda>root0.
     bind_res (resolve_run_root config base) (\<lambda>run_root.
     bind_res (plan_datasets env base (zip (bc_datasets config) ms)) (\<lambda>ds.
       let output_root = dataset_display_uri (resolve_dataset_location base root0);
           config_fp = config_fingerprint env config
       in Inr \<lparr>bp_schema_version = BATCH_PLAN_SCHEMA_VERSION,
            bp_batch_plan_id = stable_hex_id (be_hasher env) ''batch-plan''
              (canonical_json (be_hasher env) (plan_payload config_fp output_root run_root ds)),
            bp_config_fingerprint = config_fp, bp_batch_name = bs_name (bc_batch config),
            bp_max_concurrency = bs_max_concurrency (bc_batch config),
            bp_max_storage_requests = bs_max_storage_requests (bc_batch config),
            bp_output_root = output_root, bp_run_root = run_root, bp_parqonaut_version = be_version env,
            bp_datasets = ds\<rparr>)))))"

fun validate_dataset_versions :: "dataset_plan list \<Rightarrow> (orchestrator_error, unit) res" where
  "validate_dataset_versions [] = Inr ()"
| "validate_dataset_versions (d # ds) =
     (if plan_schema_version (dp_repair_plan d) \<noteq> PLAN_SCHEMA_VERSION
      then Inl (UnsupportedBatchPlanVersion (plan_schema_version (dp_repair_plan d)) PLAN_SCHEMA_VERSION)
      else validate_dataset_versions ds)"

definition validate_plan_version :: "batch_plan \<Rightarrow> (orchestrator_error, unit) res" where
  "validate_plan_version p =
     (if bp_schema_version p \<noteq> BATCH_PLAN_SCHEMA_VERSION
      then Inl (UnsupportedBatchPlanVersion (bp_schema_version p) BATCH_PLAN_SCHEMA_VERSION)
      else validate_dataset_versions (bp_datasets p))"

definition plan_digest :: "batch_env \<Rightarrow> batch_plan \<Rightarrow> string" where
  "plan_digest env p = stable_hex_id (be_hasher env) ''batch-plan-body'' (be_render_plan env p)"

definition plan_operations :: "batch_plan \<Rightarrow> repair_operation list" where
  "plan_operations p = concat (map (\<lambda>d. operations (dp_repair_plan d)) (bp_datasets p))"

definition summary :: "batch_plan \<Rightarrow> batch_summary" where
  "summary p = \<lparr>bu_dataset_count = length (bp_datasets p),
     bu_safe = count_safety Safe (plan_operations p),
     bu_review_required = count_safety ReviewRequired (plan_operations p),
     bu_blocked = count_safety Blocked (plan_operations p)\<rparr>"

definition dataset_locations ::
  "url_parser \<Rightarrow> batch_plan \<Rightarrow> (orchestrator_error, (string \<times> dataset_location \<times> dataset_location) list) res" where
  "dataset_locations url p =
     collect_res (map (\<lambda>d. bind_res (parse_location_config url (dp_source_path d)) (\<lambda>src.
       bind_res (parse_location_config url (dp_output_path d)) (\<lambda>out. Inr (dp_dataset_id d, src, out)))) (bp_datasets p))"

definition effective_run_root :: "batch_plan \<Rightarrow> path" where
  "effective_run_root p = (if bp_run_root p = [] then bp_output_root p else bp_run_root p)"

definition validate_batch_plan :: "url_parser \<Rightarrow> batch_plan \<Rightarrow> (orchestrator_error, unit) res" where
  "validate_batch_plan url p =
     bind_res (dataset_locations url p) (\<lambda>locs.
       validate_batch_overlap (map (\<lambda>(i, src, out). \<lparr>ps_dataset_id = i, ps_source = src, ps_output = out\<rparr>) locs))"

section \<open>Plans and runs\<close>

definition mismatch :: "string \<Rightarrow> string \<Rightarrow> string \<Rightarrow> (orchestrator_error, unit) res" where
  "mismatch field expected found =
     (if expected = found then Inr () else Inl (PlanIdentityMismatch field expected found))"

definition assert_plan_matches_identity ::
  "batch_env \<Rightarrow> batch_plan \<Rightarrow> run_identity \<Rightarrow> (orchestrator_error, unit) res" where
  "assert_plan_matches_identity env p r =
     bind_res (validate_plan_version p) (\<lambda>_.
     bind_res (mismatch ''batch_plan_id'' (ri_batch_plan_id r) (bp_batch_plan_id p)) (\<lambda>_.
     bind_res (mismatch ''config_fingerprint'' (ri_config_fingerprint r) (bp_config_fingerprint p)) (\<lambda>_.
     bind_res (mismatch ''output_root'' (ri_output_root r) (bp_output_root p)) (\<lambda>_.
       mismatch ''plan_digest'' (ri_plan_digest r) (plan_digest env p)))))"

definition assert_dataset_record_matches_plan ::
  "dataset_plan \<Rightarrow> dataset_run_record \<Rightarrow> (orchestrator_error, unit) res" where
  "assert_dataset_record_matches_plan d r =
     bind_res (mismatch ''output_path'' (dr_output_path r) (dp_output_path d)) (\<lambda>_.
     bind_res (mismatch ''repair_plan_id'' (dr_repair_plan_id r) (plan_id (dp_repair_plan d))) (\<lambda>_.
     bind_res (mismatch ''policy_fingerprint'' (dr_policy_fingerprint r) (policy_fingerprint (dp_repair_plan d))) (\<lambda>_.
       if dr_state r = DsSucceeded
       then (case dr_source_fingerprint r of
           None \<Rightarrow> Inr ()
         | Some fp \<Rightarrow> if fp = [] then Inr ()
             else mismatch ''source_fingerprint'' fp (fp_digest (dataset_fp (dp_repair_plan d))))
       else Inr ())))"

definition find_record :: "dataset_run_record list \<Rightarrow> string \<Rightarrow> dataset_run_record option" where
  "find_record rs i = find (\<lambda>r. dr_dataset_id r = i) rs"

fun assert_datasets :: "dataset_run_record list \<Rightarrow> dataset_plan list \<Rightarrow> (orchestrator_error, unit) res" where
  "assert_datasets rs [] = Inr ()"
| "assert_datasets rs (d # ds) =
     (case find_record rs (dp_dataset_id d) of
        None \<Rightarrow> assert_datasets rs ds
      | Some r \<Rightarrow> bind_res (assert_dataset_record_matches_plan d r) (\<lambda>_. assert_datasets rs ds))"

definition assert_datasets_match_plan :: "batch_plan \<Rightarrow> dataset_run_record list \<Rightarrow> (orchestrator_error, unit) res" where
  "assert_datasets_match_plan p rs = assert_datasets rs (bp_datasets p)"

end
