(* ===== verification/Orch_Executor.thy ===== *)
theory Orch_Executor
  imports Orch_Batch
begin

text \<open>
  Execution of the datasets of a batch (\<open>executor/mod.rs\<close>, \<open>lock.rs\<close>, and the remote state queries of
  \<open>storage.rs\<close>): the lock of a local output, one attempt at a dataset, the retry loop with its journal
  records, and the selection of tasks and completion of outcomes around the scheduler.
\<close>

section \<open>The lock of a local output\<close>

definition lock_path_for :: "path \<Rightarrow> path" where
  "lock_path_for output = output @ ''.parqonaut.lock''"

definition read_lock_owner :: "file_system \<Rightarrow> path \<Rightarrow> string option" where
  "read_lock_owner fs p = map_option str_trim (fs_read fs p)"

definition fs_remove_file :: "path \<Rightarrow> file_system \<Rightarrow> file_system" where
  "fs_remove_file p fs = bt_remove p fs"

fun acquire_inner :: "bool \<Rightarrow> path \<Rightarrow> string \<Rightarrow> (file_system, orchestrator_error, unit) eff" where
  "acquire_inner retried output run_id fs =
     (let p = lock_path_for output;
          held = Inl (OrchLockHeld (''output `'' @ output @ ''` is locked (existing lockfile `'' @ p @ ''`)''))
      in if fs_read fs p = None then (Inr (), fs_write p (run_id @ [CHR 0x0A]) fs)
         else if retried then (held, fs)
         else if read_lock_owner fs p = Some run_id then
           (let fs1 = fs_remove_file p fs
            in if fs_read fs1 p = None then (Inr (), fs_write p (run_id @ [CHR 0x0A]) fs1) else (held, fs1))
         else (held, fs))"

definition dataset_lock_acquire :: "path \<Rightarrow> string \<Rightarrow> (file_system, orchestrator_error, unit) eff" where
  "dataset_lock_acquire output run_id = acquire_inner False output run_id"

definition dataset_lock_drop :: "path \<Rightarrow> file_system \<Rightarrow> file_system" where
  "dataset_lock_drop output fs = fs_remove_file (lock_path_for output) fs"

section \<open>Failures\<close>

fun classify_repair_error :: "repair_error \<Rightarrow> failure_class" where
  "classify_repair_error (DatasetChanged _ _) = FcStaleSource"
| "classify_repair_error (ReviewRequiredNotAuthorized _) = FcBlocked"
| "classify_repair_error (DestructiveNotAllowed _) = FcBlocked"
| "classify_repair_error (VerificationInvariantFailed _ _) = FcVerificationFailed"
| "classify_repair_error (PartialExecution _) = FcRecoverable"
| "classify_repair_error (RepairIo _) = FcRecoverable"
| "classify_repair_error (TransformFailed _) = FcRecoverable"
| "classify_repair_error (RepairStorage _) = FcRecoverable"
| "classify_repair_error (RepairPublication _) = FcRecoverable"
| "classify_repair_error (OutputExists _) = FcPermanent"
| "classify_repair_error (SourceDestinationOverlap _) = FcPermanent"
| "classify_repair_error (UnsupportedOperation _ _) = FcPermanent"
| "classify_repair_error (RepairPreconditionFailed _ _) = FcPermanent"
| "classify_repair_error (DatasetUnreadable _) = FcPermanent"
| "classify_repair_error (ScanFailed _) = FcPermanent"
| "classify_repair_error (InvalidPlan _) = FcPermanent"
| "classify_repair_error (UnsupportedPlanVersion _ _) = FcPermanent"
| "classify_repair_error (RepairJson _) = FcPermanent"

fun failure_state :: "failure_class \<Rightarrow> dataset_state" where
  "failure_state FcRecoverable = DsFailedRecoverable"
| "failure_state FcPermanent = DsFailedPermanent"
| "failure_state FcBlocked = DsBlocked"
| "failure_state FcStaleSource = DsStaleSource"
| "failure_state FcVerificationFailed = DsVerificationFailed"
| "failure_state FcCancelled = DsCancelled"

text \<open>A task may also panic or, when a listing never ends, not come back.\<close>

datatype once_failure = DatasetFailure failure_class string | OncePanicked | OnceDiverges

section \<open>Configuration, outcomes and the surroundings of a task\<close>

definition DEFAULT_MAX_RETRIES :: u32 where
  "DEFAULT_MAX_RETRIES = 2"

datatype execution_mode = Fresh | Resume | DryRun

record batch_executor_config =
  xc_max_retries :: u32
  xc_interrupt_after_completed :: "nat option"
  xc_max_storage_requests :: u32

definition executor_config_default :: batch_executor_config where
  "executor_config_default =
     \<lparr>xc_max_retries = DEFAULT_MAX_RETRIES, xc_interrupt_after_completed = None, xc_max_storage_requests = 8\<rparr>"

record dataset_execution_outcome =
  oc_dataset_id :: string
  oc_state :: dataset_state
  oc_attempts :: u32
  oc_error_class :: "failure_class option"
  oc_error_message :: "string option"
  oc_skipped :: bool

text \<open>
  The state a task works on: the journal, the files, the object store, the cancellation flag and
  the counter of completed datasets.
\<close>

record ('j, 's) world =
  wd_journal :: 'j
  wd_fs :: file_system
  wd_store :: 's
  wd_cancelled :: bool
  wd_completed :: nat

text \<open>
  What a task uses: the environments of local and storage execution (one per attempt, since every
  execution has its own id), the scan of a location, the texts of errors, the clock of an attempt, the
  cancellations that arrive from outside before an attempt, and what a failed execution leaves
  behind in the file system, about which nothing is assumed.
\<close>

record 's exec_runtime =
  xr_env :: "u32 \<Rightarrow> exec_env"
  xr_storage :: "u32 \<Rightarrow> 's storage_env"
  xr_scan :: "dataset_location \<Rightarrow> file_system \<Rightarrow> ('s, repair_error, scan_report) eff"
  xr_show :: "repair_error \<Rightarrow> string"
  xr_show_lock :: "orchestrator_error \<Rightarrow> string"
  xr_join_error :: string
  xr_time :: "u32 \<Rightarrow> timestamp"
  xr_cancel_before :: "u32 \<Rightarrow> bool"
  xr_leftover :: "u32 \<Rightarrow> file_system \<Rightarrow> file_system"

definition on_store :: "('s, 'e, 'a) eff \<Rightarrow> (('j, 's) world, 'e, 'a) eff" where
  "on_store m w = (case m (wd_store w) of (r, s) \<Rightarrow> (r, w\<lparr>wd_store := s\<rparr>))"

definition on_fs :: "(file_system, 'e, 'a) eff \<Rightarrow> (('j, 's) world, 'e, 'a) eff" where
  "on_fs m w = (case m (wd_fs w) of (r, fs) \<Rightarrow> (r, w\<lparr>wd_fs := fs\<rparr>))"

definition repair_failure :: "'s exec_runtime \<Rightarrow> repair_error \<Rightarrow> once_failure" where
  "repair_failure X e = DatasetFailure (classify_repair_error e) (xr_show X e)"

section \<open>Journal records\<close>

definition record_for ::
  "dataset_plan \<Rightarrow> dataset_state \<Rightarrow> u32 \<Rightarrow> string option \<Rightarrow> failure_class option \<Rightarrow> string option \<Rightarrow>
   timestamp option \<Rightarrow> timestamp \<Rightarrow> timestamp option \<Rightarrow> dataset_run_record" where
  "record_for ds state attempts fp cls msg started now completed =
     \<lparr>dr_dataset_id = dp_dataset_id ds, dr_output_path = dp_output_path ds,
      dr_repair_plan_id = plan_id (dp_repair_plan ds), dr_policy_fingerprint = policy_fingerprint (dp_repair_plan ds),
      dr_state = state, dr_attempts = attempts, dr_source_fingerprint = fp, dr_output_fingerprint = None,
      dr_error_class = cls, dr_error_message = msg, dr_started_at = started, dr_updated_at = now,
      dr_completed_at = completed\<rparr>"

text \<open>A journal that refuses the record is only warned about.\<close>

definition upsert_record :: "'j run_journal \<Rightarrow> dataset_run_record \<Rightarrow> ('j, 's) world \<Rightarrow> ('j, 's) world" where
  "upsert_record J r w = w\<lparr>wd_journal := snd (rj_upsert_dataset J r (wd_journal w))\<rparr>"

section \<open>One attempt\<close>

definition remote_output_committed ::
  "'s storage_env \<Rightarrow> dataset_location \<Rightarrow> string \<Rightarrow> ('s, publication_error, bool) eff" where
  "remote_output_committed S output run_id =
     (case output of DatasetLocal _ \<Rightarrow> eff_return False | DatasetS3 _ \<Rightarrow> is_version_committed (se_output S) output run_id)"

definition remote_publication_state ::
  "'s storage_env \<Rightarrow> dataset_location \<Rightarrow> string \<Rightarrow> ('s, publication_error, publication_state option) eff" where
  "remote_publication_state S output run_id =
     (case output of DatasetLocal _ \<Rightarrow> eff_return None | DatasetS3 _ \<Rightarrow> observed_state (se_output S) (se_codec S) output run_id)"

definition parse_location :: "'s storage_env \<Rightarrow> string \<Rightarrow> (once_failure, dataset_location) res" where
  "parse_location S raw =
     map_err (\<lambda>e. DatasetFailure FcPermanent (storage_error_to_string e)) (parse_dataset_location (se_url S) raw)"

definition observe_source ::
  "'s exec_runtime \<Rightarrow> u32 \<Rightarrow> dataset_location \<Rightarrow> dataset_plan \<Rightarrow> (('j, 's) world, once_failure, string) eff" where
  "observe_source X n source ds w =
     eff_bind (eff_map_err (repair_failure X) (on_store (xr_scan X source (wd_fs w)))) (\<lambda>scan.
     eff_bind (eff_lift (map_err (repair_failure X) (compute_fingerprint_from_scan (ee_hasher (xr_env X n))
       (ee_inspect (xr_env X n) (wd_fs w)) (location_root source) scan))) (\<lambda>fp.
     eff_bind (eff_lift (map_err (\<lambda>e. DatasetFailure FcStaleSource (xr_show X e))
       (verify_against (dataset_fp (dp_repair_plan ds)) fp))) (\<lambda>_.
       eff_return (fp_digest fp)))) w"

definition succeeded_outcome :: "dataset_plan \<Rightarrow> u32 \<Rightarrow> bool \<Rightarrow> dataset_execution_outcome" where
  "succeeded_outcome ds n skipped =
     \<lparr>oc_dataset_id = dp_dataset_id ds, oc_state = DsSucceeded, oc_attempts = n, oc_error_class = None,
      oc_error_message = None, oc_skipped = skipped\<rparr>"

definition note_succeeded ::
  "'s exec_runtime \<Rightarrow> 'j run_journal \<Rightarrow> dataset_plan \<Rightarrow> u32 \<Rightarrow> ('j, 's) world \<Rightarrow> ('j, 's) world" where
  "note_succeeded X J ds n w = upsert_record J (record_for ds DsSucceeded n
     (Some (fp_digest (dataset_fp (dp_repair_plan ds)))) None None (Some (xr_time X n)) (xr_time X n) (Some (xr_time X n))) w"

definition note_running ::
  "'s exec_runtime \<Rightarrow> 'j run_journal \<Rightarrow> dataset_plan \<Rightarrow> u32 \<Rightarrow> string \<Rightarrow> ('j, 's) world \<Rightarrow> ('j, 's) world" where
  "note_running X J ds n fp w = upsert_record J
     (record_for ds DsRunning n (Some fp) None None (Some (xr_time X n)) (xr_time X n) None) w"

definition task_executor :: "repair_executor \<Rightarrow> dataset_plan \<Rightarrow> repair_executor" where
  "task_executor rx ds = rx\<lparr>rx_authorization := dp_authorize ds\<rparr>"

definition run_storage ::
  "'s exec_runtime \<Rightarrow> repair_executor \<Rightarrow> dataset_plan \<Rightarrow> string \<Rightarrow> u32 \<Rightarrow> dataset_location \<Rightarrow> scan_report \<Rightarrow>
   (('j, 's) world, once_failure, unit) eff" where
  "run_storage X rx ds run_id n output scan w =
     (case execute_storage (xr_env X n) (xr_storage X n) (task_executor rx ds) (dp_repair_plan ds) output scan run_id
        (wd_fs w) (wd_store w) of
        (Inr (rep, fs), s) \<Rightarrow> (Inr (), w\<lparr>wd_fs := fs, wd_store := s\<rparr>)
      | (Inl f, s) \<Rightarrow>
          (Inl (case f of ListingDiverges \<Rightarrow> OnceDiverges | StorageFailed SortPanic \<Rightarrow> OncePanicked
             | StorageFailed (SortError e) \<Rightarrow> repair_failure X e),
           w\<lparr>wd_fs := xr_leftover X n (wd_fs w), wd_store := s\<rparr>))"

definition run_local ::
  "'s exec_runtime \<Rightarrow> repair_executor \<Rightarrow> dataset_plan \<Rightarrow> u32 \<Rightarrow> path \<Rightarrow> scan_report \<Rightarrow>
   (('j, 's) world, once_failure, unit) eff" where
  "run_local X rx ds n output scan w =
     (case execute (xr_env X n) (task_executor rx ds) (dp_repair_plan ds) output scan (wd_fs w) of
        Inr (rep, fs) \<Rightarrow> (Inr (), w\<lparr>wd_fs := fs\<rparr>)
      | Inl f \<Rightarrow>
          (Inl (case f of SortError e \<Rightarrow> repair_failure X e | SortPanic \<Rightarrow> OncePanicked),
           w\<lparr>wd_fs := xr_leftover X n (wd_fs w)\<rparr>))"

text \<open>The end of an attempt: the result of the execution is journalled.\<close>

definition finish_attempt ::
  "'s exec_runtime \<Rightarrow> 'j run_journal \<Rightarrow> dataset_plan \<Rightarrow> u32 \<Rightarrow> (once_failure, unit) res \<times> ('j, 's) world \<Rightarrow>
   (once_failure, dataset_execution_outcome) res \<times> ('j, 's) world" where
  "finish_attempt X J ds n rw =
     (case rw of
        (Inr _, w) \<Rightarrow> (Inr (succeeded_outcome ds n False), note_succeeded X J ds n w)
      | (Inl (DatasetFailure c m), w) \<Rightarrow>
          (Inl (DatasetFailure c m), upsert_record J (record_for ds (failure_state c) n None (Some c) (Some m)
             (Some (xr_time X n)) (xr_time X n) (Some (xr_time X n))) w)
      | (Inl f, w) \<Rightarrow> (Inl f, w))"

definition attempt_storage ::
  "'s exec_runtime \<Rightarrow> 'j run_journal \<Rightarrow> repair_executor \<Rightarrow> dataset_plan \<Rightarrow> string \<Rightarrow> u32 \<Rightarrow> dataset_location \<Rightarrow> dataset_location \<Rightarrow>
   (('j, 's) world, once_failure, dataset_execution_outcome) eff" where
  "attempt_storage X J rx ds run_id n source output w =
     (case on_store (remote_publication_state (xr_storage X n) output run_id) w of
        (st, w1) \<Rightarrow>
          if st = Inr (Some Current) \<or> st = Inr (Some Committed)
          then (Inr (succeeded_outcome ds n True), note_succeeded X J ds n w1)
          else (case observe_source X n source ds w1 of
              (Inl f, w2) \<Rightarrow> (Inl f, w2)
            | (Inr fp, w2) \<Rightarrow>
                (case on_store (xr_scan X source (wd_fs w2)) (note_running X J ds n fp w2) of
                   (Inl e, w3) \<Rightarrow> (Inl (repair_failure X e), w3)
                 | (Inr scan, w3) \<Rightarrow> finish_attempt X J ds n (run_storage X rx ds run_id n output scan w3))))"

text \<open>
  Local execution runs in a blocking task of its own: its panic arrives as a join error, which ends the
  attempt before the result is journalled.
\<close>

definition joined ::
  "'s exec_runtime \<Rightarrow> (once_failure, 'a) res \<times> ('j, 's) world \<Rightarrow> (once_failure, 'a) res \<times> ('j, 's) world" where
  "joined X rw =
     (case rw of
        (Inl OncePanicked, w) \<Rightarrow> (Inl (DatasetFailure FcPermanent (''dataset task join error: '' @ xr_join_error X)), w)
      | _ \<Rightarrow> rw)"

definition attempt_local ::
  "'s exec_runtime \<Rightarrow> 'j run_journal \<Rightarrow> repair_executor \<Rightarrow> dataset_plan \<Rightarrow> string \<Rightarrow> u32 \<Rightarrow> path \<Rightarrow> path \<Rightarrow>
   (('j, 's) world, once_failure, dataset_execution_outcome) eff" where
  "attempt_local X J rx ds run_id n source output w =
     (case on_fs (dataset_lock_acquire output run_id) w of
        (Inl e, w1) \<Rightarrow> (Inl (DatasetFailure FcPermanent (xr_show_lock X e)), w1)
      | (Inr _, w1) \<Rightarrow>
          (let unlock = (\<lambda>v. v\<lparr>wd_fs := dataset_lock_drop output (wd_fs v)\<rparr>)
           in case observe_source X n (DatasetLocal source) ds w1 of
                (Inl f, w2) \<Rightarrow> (Inl f, unlock w2)
              | (Inr fp, w2) \<Rightarrow>
                  (case on_store (xr_scan X (DatasetLocal source) (wd_fs w2)) (note_running X J ds n fp w2) of
                     (Inl e, w3) \<Rightarrow> (Inl (repair_failure X e), unlock w3)
                   | (Inr scan, w3) \<Rightarrow> joined X (finish_attempt X J ds n (apsnd unlock (run_local X rx ds n output scan w3))))))"

definition execute_dataset_once ::
  "'s exec_runtime \<Rightarrow> 'j run_journal \<Rightarrow> repair_executor \<Rightarrow> dataset_plan \<Rightarrow> string \<Rightarrow> u32 \<Rightarrow>
   (('j, 's) world, once_failure, dataset_execution_outcome) eff" where
  "execute_dataset_once X J rx ds run_id n =
     eff_bind (eff_lift (parse_location (xr_storage X n) (dp_source_path ds))) (\<lambda>source.
     eff_bind (eff_lift (parse_location (xr_storage X n) (dp_output_path ds))) (\<lambda>output.
     (\<lambda>w. case on_store (remote_output_committed (xr_storage X n) output run_id) w of
        (r, w1) \<Rightarrow>
          if r = Inr True then (Inr (succeeded_outcome ds n True), note_succeeded X J ds n w1)
          else (case (source, output) of
              (DatasetLocal src, DatasetLocal out) \<Rightarrow> attempt_local X J rx ds run_id n src out w1
            | _ \<Rightarrow> attempt_storage X J rx ds run_id n source output w1))))"

section \<open>The retry loop\<close>

definition cancelled_outcome :: "dataset_plan \<Rightarrow> u32 \<Rightarrow> dataset_execution_outcome" where
  "cancelled_outcome ds n =
     \<lparr>oc_dataset_id = dp_dataset_id ds, oc_state = DsCancelled, oc_attempts = n, oc_error_class = Some FcCancelled,
      oc_error_message = Some ''batch run cancelled'', oc_skipped = False\<rparr>"

definition failed_outcome :: "dataset_plan \<Rightarrow> u32 \<Rightarrow> failure_class \<Rightarrow> string \<Rightarrow> dataset_execution_outcome" where
  "failed_outcome ds n c m =
     \<lparr>oc_dataset_id = dp_dataset_id ds, oc_state = failure_state c, oc_attempts = n, oc_error_class = Some c,
      oc_error_message = Some m, oc_skipped = False\<rparr>"

definition note_completed :: "batch_executor_config \<Rightarrow> dataset_execution_outcome \<Rightarrow> ('j, 's) world \<Rightarrow> ('j, 's) world" where
  "note_completed cfg o' w =
     (if oc_state o' = DsSucceeded
      then w\<lparr>wd_completed := wd_completed w + 1,
             wd_cancelled := (wd_cancelled w \<or> xc_interrupt_after_completed cfg = Some (wd_completed w + 1))\<rparr>
      else w)"

definition max_attempts :: "batch_executor_config \<Rightarrow> u32" where
  "max_attempts cfg = saturating_add32 (xc_max_retries cfg) 1"

text \<open>The record written before an attempt and the one after a failure that will be retried.\<close>

definition note_validated ::
  "'s exec_runtime \<Rightarrow> 'j run_journal \<Rightarrow> dataset_plan \<Rightarrow> dataset_state option \<Rightarrow> u32 \<Rightarrow> ('j, 's) world \<Rightarrow> ('j, 's) world" where
  "note_validated X J ds prior n w =
     (if prior \<noteq> Some DsSucceeded
      then upsert_record J (record_for ds DsPlanningValidated n None None None (Some (xr_time X n)) (xr_time X n) None) w
      else w)"

lemma attempt_measure: "n + 1 < (m :: u32) \<Longrightarrow> 2 ^ 32 - unat (n + 1 + 1) < 2 ^ 32 - unat (n + 1)"
proof -
  assume "n + 1 < m"
  moreover have "unat m < 2 ^ 32" using unsigned_less [of m] by simp
  ultimately have "unat (n + 1) < 2 ^ 32 - 1" by (simp add: word_less_nat_alt)
  then show ?thesis using unat_plus1_32 [of "n + 1"] by linarith
qed

text \<open>The attempts so far are \<open>n\<close>; the loop ends because an attempt is repeated below the limit only.\<close>

function retry_loop ::
  "'s exec_runtime \<Rightarrow> 'j run_journal \<Rightarrow> repair_executor \<Rightarrow> batch_executor_config \<Rightarrow> dataset_plan \<Rightarrow> string \<Rightarrow>
   dataset_state option \<Rightarrow> u32 \<Rightarrow> (('j, 's) world, once_failure, dataset_execution_outcome) eff" where
  "retry_loop X J rx cfg ds run_id prior n w =
     (if wd_cancelled w \<or> xr_cancel_before X n
      then (Inr (cancelled_outcome ds n), upsert_record J (record_for ds DsCancelled n None (Some FcCancelled)
              (Some ''batch run cancelled'') None (xr_time X n) (Some (xr_time X n))) (w\<lparr>wd_cancelled := True\<rparr>))
      else (case execute_dataset_once X J rx ds run_id (n + 1) (note_validated X J ds prior (n + 1) w) of
          (Inr o', w1) \<Rightarrow> (Inr o', note_completed cfg o' w1)
        | (Inl (DatasetFailure c m), w1) \<Rightarrow>
            if c = FcRecoverable \<and> n + 1 < max_attempts cfg
            then retry_loop X J rx cfg ds run_id prior (n + 1)
              (upsert_record J (record_for ds DsFailedRecoverable (n + 1) None (Some c) (Some m) None (xr_time X (n + 1)) None) w1)
            else (Inr (failed_outcome ds (n + 1) c m),
              upsert_record J (record_for ds (failure_state c) (n + 1) None (Some c) (Some m) (Some (xr_time X (n + 1)))
                (xr_time X (n + 1)) (Some (xr_time X (n + 1)))) w1)
        | (Inl f, w1) \<Rightarrow> (Inl f, w1)))"
  by pat_completeness auto

termination
  by (relation "measure (\<lambda>(X, J, rx, cfg, ds, run_id, prior, n, w). 2 ^ 32 - unat (n + 1))")
    (auto dest: attempt_measure)

definition execute_dataset_with_retries ::
  "'s exec_runtime \<Rightarrow> 'j run_journal \<Rightarrow> repair_executor \<Rightarrow> batch_executor_config \<Rightarrow> dataset_plan \<Rightarrow> string \<Rightarrow>
   dataset_state option \<Rightarrow> (('j, 's) world, once_failure, dataset_execution_outcome) eff" where
  "execute_dataset_with_retries X J rx cfg ds run_id prior w =
     (case rj_dataset J (dp_dataset_id ds) (wd_journal w) of
        (r, j) \<Rightarrow> retry_loop X J rx cfg ds run_id prior
          (case r of Inr (Some rec) \<Rightarrow> dr_attempts rec | _ \<Rightarrow> 0) (w\<lparr>wd_journal := j\<rparr>))"

section \<open>A run\<close>

definition skipped_outcome :: "string \<Rightarrow> dataset_state option \<Rightarrow> dataset_execution_outcome" where
  "skipped_outcome i prior =
     \<lparr>oc_dataset_id = i, oc_state = (case prior of None \<Rightarrow> DsCancelled | Some s \<Rightarrow> s), oc_attempts = 0,
      oc_error_class = (if prior = None then Some FcCancelled else None),
      oc_error_message = (if prior = None then Some ''batch run cancelled before start'' else None),
      oc_skipped = True\<rparr>"

definition run_task ::
  "'s exec_runtime \<Rightarrow> 'j run_journal \<Rightarrow> repair_executor \<Rightarrow> batch_executor_config \<Rightarrow> string \<Rightarrow> dataset_plan \<times> dataset_state option \<Rightarrow>
   (('j, 's) world, once_failure, dataset_execution_outcome) eff" where
  "run_task X J rx cfg run_id dsp w =
     (if wd_cancelled w then (Inr (skipped_outcome (dp_dataset_id (fst dsp)) (snd dsp)), w)
      else execute_dataset_with_retries X J rx cfg (fst dsp) run_id (snd dsp) w)"

text \<open>\<open>cancelled_at i\<close> is the flag as the loop over the datasets reads it at its \<open>i\<close>-th turn.\<close>

fun select_tasks ::
  "(nat \<Rightarrow> bool) \<Rightarrow> nat \<Rightarrow> execution_mode \<Rightarrow> dataset_run_record list \<Rightarrow> dataset_plan list \<Rightarrow>
   (dataset_plan \<times> dataset_state option) list" where
  "select_tasks cancelled_at i mode existing [] = []"
| "select_tasks cancelled_at i mode existing (d # ds) =
     (if cancelled_at i then []
      else (let prior = find_record existing (dp_dataset_id d);
                rest = select_tasks cancelled_at (Suc i) mode existing ds
            in case prior of
                 Some r \<Rightarrow>
                   if mode = Resume \<and> (dr_state r = DsSucceeded \<or> \<not> is_runnable (dr_state r) \<and> is_terminal (dr_state r))
                   then rest else (d, Some (dr_state r)) # rest
               | None \<Rightarrow> (d, None) # rest))"

definition recorded_outcome :: "dataset_run_record \<Rightarrow> dataset_execution_outcome option" where
  "recorded_outcome r =
     (if dr_state r = DsSucceeded
      then Some \<lparr>oc_dataset_id = dr_dataset_id r, oc_state = DsSucceeded, oc_attempts = dr_attempts r,
        oc_error_class = None, oc_error_message = None, oc_skipped = True\<rparr>
      else if is_terminal (dr_state r)
      then Some \<lparr>oc_dataset_id = dr_dataset_id r, oc_state = dr_state r, oc_attempts = dr_attempts r,
        oc_error_class = dr_error_class r, oc_error_message = dr_error_message r, oc_skipped = True\<rparr>
      else None)"

fun complete_outcomes ::
  "dataset_run_record list \<Rightarrow> dataset_plan list \<Rightarrow> dataset_execution_outcome list \<Rightarrow> dataset_execution_outcome list" where
  "complete_outcomes existing [] os = os"
| "complete_outcomes existing (d # ds) os =
     complete_outcomes existing ds
       (if list_ex (\<lambda>o'. oc_dataset_id o' = dp_dataset_id d) os then os
        else (case find_record existing (dp_dataset_id d) of
            None \<Rightarrow> os
          | Some r \<Rightarrow> (case recorded_outcome r of None \<Rightarrow> os | Some o' \<Rightarrow> os @ [o'])))"

definition run_guards :: "url_parser \<Rightarrow> batch_plan \<Rightarrow> (orchestrator_error, unit) res" where
  "run_guards url p = bind_res (validate_plan_version p) (\<lambda>_. validate_batch_plan url p)"

record dry_run_preview =
  dy_dataset_id :: string
  dy_source_path :: string
  dy_output_path :: string
  dy_action :: string
  dy_repair_plan_id :: string

record dry_run_report =
  dy_batch_plan_id :: string
  dy_dataset_count :: nat
  dy_max_concurrency :: u32
  dy_datasets :: "dry_run_preview list"
  dy_creates_journal :: bool

definition dry_run :: "url_parser \<Rightarrow> batch_plan \<Rightarrow> (orchestrator_error, dry_run_report) res" where
  "dry_run url p =
     bind_res (run_guards url p) (\<lambda>_. Inr \<lparr>dy_batch_plan_id = bp_batch_plan_id p, dy_dataset_count = length (bp_datasets p),
       dy_max_concurrency = bp_max_concurrency p,
       dy_datasets = map (\<lambda>d. \<lparr>dy_dataset_id = dp_dataset_id d, dy_source_path = dp_source_path d,
          dy_output_path = dp_output_path d, dy_action = ''repair'', dy_repair_plan_id = plan_id (dp_repair_plan d)\<rparr>) (bp_datasets p),
       dy_creates_journal = False\<rparr>)"

end
