(* ===== verification/Orch_Journal.thy ===== *)
theory Orch_Journal
  imports Orch_State
begin

text \<open>
  The SQLite journal (\<open>journal/sqlite.rs\<close>): the rows of its two tables, the text the columns
  hold, and the operations of \<open>RunJournal\<close> on them. It provides the journal interface.
  Times are written and read by the chrono crate, a parameter.
\<close>

section \<open>The text of the columns\<close>

fun state_to_str :: "dataset_state \<Rightarrow> string" where
  "state_to_str DsPending = ''pending''"
| "state_to_str DsPlanningValidated = ''planning_validated''"
| "state_to_str DsRunning = ''running''"
| "state_to_str DsRepairComplete = ''repair_complete''"
| "state_to_str DsVerifying = ''verifying''"
| "state_to_str DsSucceeded = ''succeeded''"
| "state_to_str DsBlocked = ''blocked''"
| "state_to_str DsFailedRecoverable = ''failed_recoverable''"
| "state_to_str DsFailedPermanent = ''failed_permanent''"
| "state_to_str DsCancelled = ''cancelled''"
| "state_to_str DsStaleSource = ''stale_source''"
| "state_to_str DsVerificationFailed = ''verification_failed''"

definition all_states :: "dataset_state list" where
  "all_states = [DsPending, DsPlanningValidated, DsRunning, DsRepairComplete, DsVerifying, DsSucceeded,
     DsBlocked, DsFailedRecoverable, DsFailedPermanent, DsCancelled, DsStaleSource, DsVerificationFailed]"

definition parse_state :: "string \<Rightarrow> dataset_state" where
  "parse_state raw = (case find (\<lambda>s. state_to_str s = raw) all_states of None \<Rightarrow> DsPending | Some s \<Rightarrow> s)"

fun failure_debug :: "failure_class \<Rightarrow> string" where
  "failure_debug FcRecoverable = ''Recoverable''"
| "failure_debug FcPermanent = ''Permanent''"
| "failure_debug FcBlocked = ''Blocked''"
| "failure_debug FcStaleSource = ''StaleSource''"
| "failure_debug FcVerificationFailed = ''VerificationFailed''"
| "failure_debug FcCancelled = ''Cancelled''"

definition parse_failure :: "string option \<Rightarrow> failure_class option" where
  "parse_failure raw = (case raw of None \<Rightarrow> None | Some s \<Rightarrow>
     if s = ''recoverable'' then Some FcRecoverable
     else if s = ''permanent'' then Some FcPermanent
     else if s = ''blocked'' then Some FcBlocked
     else if s = ''stalesource'' then Some FcStaleSource
     else if s = ''verificationfailed'' then Some FcVerificationFailed
     else if s = ''cancelled'' then Some FcCancelled
     else None)"

record ts_codec =
  to_rfc3339 :: "timestamp \<Rightarrow> string"
  parse_from_rfc3339 :: "string \<Rightarrow> timestamp option"

definition parse_ts :: "ts_codec \<Rightarrow> timestamp \<Rightarrow> string \<Rightarrow> timestamp" where
  "parse_ts T now s = (case parse_from_rfc3339 T s of None \<Rightarrow> now | Some t \<Rightarrow> t)"

lemma parse_state_to_str [simp]: "parse_state (state_to_str s) = s"
  by (cases s) (simp_all add: parse_state_def all_states_def)

lemma failure_lowercase:
  "to_lowercase (failure_debug c) =
     (case c of FcRecoverable \<Rightarrow> ''recoverable'' | FcPermanent \<Rightarrow> ''permanent'' | FcBlocked \<Rightarrow> ''blocked''
      | FcStaleSource \<Rightarrow> ''stalesource'' | FcVerificationFailed \<Rightarrow> ''verificationfailed''
      | FcCancelled \<Rightarrow> ''cancelled'')"
  by (cases c) (simp_all, code_simp+)

lemma parse_failure_debug [simp]:
  "parse_failure (map_option (\<lambda>c. to_lowercase (failure_debug c)) c) = c"
  by (cases c) (auto simp: parse_failure_def failure_lowercase split: failure_class.split)

section \<open>Rows\<close>

record run_row =
  rr_run_id :: string
  rr_batch_plan_id :: string
  rr_config_fingerprint :: string
  rr_batch_name :: string
  rr_output_root :: string
  rr_parqonaut_version :: string
  rr_plan_digest :: string
  rr_started_at :: string
  rr_updated_at :: string
  rr_completed_at :: "string option"
  rr_cancelled_at :: "string option"

record dataset_row =
  dw_run_id :: string
  dw_dataset_id :: string
  dw_output_path :: string
  dw_repair_plan_id :: string
  dw_policy_fingerprint :: string
  dw_state :: string
  dw_attempts :: "64 word"
  dw_source_fingerprint :: "string option"
  dw_output_fingerprint :: "string option"
  dw_error_class :: "string option"
  dw_error_message :: "string option"
  dw_started_at :: "string option"
  dw_updated_at :: string
  dw_completed_at :: "string option"

record sqlite_db =
  db_batch_runs :: "run_row list"
  db_dataset_runs :: "dataset_row list"

definition run_row_of :: "ts_codec \<Rightarrow> run_identity \<Rightarrow> run_row" where
  "run_row_of T r =
     \<lparr>rr_run_id = ri_run_id r, rr_batch_plan_id = ri_batch_plan_id r,
      rr_config_fingerprint = ri_config_fingerprint r, rr_batch_name = ri_batch_name r,
      rr_output_root = ri_output_root r, rr_parqonaut_version = ri_parqonaut_version r,
      rr_plan_digest = ri_plan_digest r, rr_started_at = to_rfc3339 T (ri_started_at r),
      rr_updated_at = to_rfc3339 T (ri_updated_at r),
      rr_completed_at = map_option (to_rfc3339 T) (ri_completed_at r),
      rr_cancelled_at = map_option (to_rfc3339 T) (ri_cancelled_at r)\<rparr>"

definition map_identity_row :: "ts_codec \<Rightarrow> timestamp \<Rightarrow> run_row \<Rightarrow> run_identity" where
  "map_identity_row T now r =
     \<lparr>ri_run_id = rr_run_id r, ri_batch_plan_id = rr_batch_plan_id r,
      ri_config_fingerprint = rr_config_fingerprint r, ri_batch_name = rr_batch_name r,
      ri_output_root = rr_output_root r, ri_parqonaut_version = rr_parqonaut_version r,
      ri_plan_digest = rr_plan_digest r, ri_started_at = parse_ts T now (rr_started_at r),
      ri_updated_at = parse_ts T now (rr_updated_at r),
      ri_completed_at = map_option (parse_ts T now) (rr_completed_at r),
      ri_cancelled_at = map_option (parse_ts T now) (rr_cancelled_at r)\<rparr>"

definition dataset_row_of :: "ts_codec \<Rightarrow> string \<Rightarrow> dataset_run_record \<Rightarrow> dataset_row" where
  "dataset_row_of T run_id r =
     \<lparr>dw_run_id = run_id, dw_dataset_id = dr_dataset_id r, dw_output_path = dr_output_path r,
      dw_repair_plan_id = dr_repair_plan_id r, dw_policy_fingerprint = dr_policy_fingerprint r,
      dw_state = state_to_str (dr_state r), dw_attempts = ucast (dr_attempts r),
      dw_source_fingerprint = dr_source_fingerprint r, dw_output_fingerprint = dr_output_fingerprint r,
      dw_error_class = map_option (\<lambda>c. to_lowercase (failure_debug c)) (dr_error_class r),
      dw_error_message = dr_error_message r, dw_started_at = map_option (to_rfc3339 T) (dr_started_at r),
      dw_updated_at = to_rfc3339 T (dr_updated_at r),
      dw_completed_at = map_option (to_rfc3339 T) (dr_completed_at r)\<rparr>"

definition map_dataset_row :: "ts_codec \<Rightarrow> timestamp \<Rightarrow> dataset_row \<Rightarrow> dataset_run_record" where
  "map_dataset_row T now r =
     \<lparr>dr_dataset_id = dw_dataset_id r, dr_output_path = dw_output_path r,
      dr_repair_plan_id = dw_repair_plan_id r, dr_policy_fingerprint = dw_policy_fingerprint r,
      dr_state = parse_state (dw_state r), dr_attempts = ucast (dw_attempts r),
      dr_source_fingerprint = dw_source_fingerprint r, dr_output_fingerprint = dw_output_fingerprint r,
      dr_error_class = parse_failure (dw_error_class r), dr_error_message = dw_error_message r,
      dr_started_at = map_option (parse_ts T now) (dw_started_at r),
      dr_updated_at = parse_ts T now (dw_updated_at r),
      dr_completed_at = map_option (parse_ts T now) (dw_completed_at r)\<rparr>"

section \<open>The operations\<close>

text \<open>
  \<open>INSERT OR IGNORE\<close> on the primary key \<open>run_id\<close>; the upsert replaces the row with the key
  (\<open>run_id\<close>, \<open>dataset_id\<close>) or adds one.
\<close>

definition ensure_run :: "ts_codec \<Rightarrow> run_identity \<Rightarrow> sqlite_db \<Rightarrow> sqlite_db" where
  "ensure_run T r db =
     (if list_ex (\<lambda>q. rr_run_id q = ri_run_id r) (db_batch_runs db) then db
      else db\<lparr>db_batch_runs := db_batch_runs db @ [run_row_of T r]\<rparr>)"

definition same_key :: "dataset_row \<Rightarrow> dataset_row \<Rightarrow> bool" where
  "same_key a b = (dw_run_id a = dw_run_id b \<and> dw_dataset_id a = dw_dataset_id b)"

definition upsert_row :: "dataset_row \<Rightarrow> dataset_row list \<Rightarrow> dataset_row list" where
  "upsert_row w ws =
     (if list_ex (same_key w) ws then map (\<lambda>v. if same_key w v then w else v) ws else ws @ [w])"

definition NO_ROW :: string where
  "NO_ROW = ''no rows returned by a query that expected to return at least one row''"

definition sqlite_upsert :: "ts_codec \<Rightarrow> dataset_run_record \<Rightarrow> (sqlite_db, orchestrator_error, unit) eff" where
  "sqlite_upsert T r db =
     (case db_batch_runs db of
        [] \<Rightarrow> (Inl (JournalError NO_ROW), db)
      | run # _ \<Rightarrow>
          (Inr (), db\<lparr>db_dataset_runs := upsert_row (dataset_row_of T (rr_run_id run) r) (db_dataset_runs db)\<rparr>))"

definition sqlite_run_identity :: "ts_codec \<Rightarrow> timestamp \<Rightarrow> (sqlite_db, orchestrator_error, run_identity option) eff" where
  "sqlite_run_identity T now db =
     (Inr (case db_batch_runs db of [] \<Rightarrow> None | run # _ \<Rightarrow> Some (map_identity_row T now run)), db)"

definition sqlite_list :: "ts_codec \<Rightarrow> timestamp \<Rightarrow> (sqlite_db, orchestrator_error, dataset_run_record list) eff" where
  "sqlite_list T now db =
     (Inr (map (map_dataset_row T now) (sort_key dw_dataset_id (db_dataset_runs db))), db)"

definition sqlite_dataset :: "ts_codec \<Rightarrow> timestamp \<Rightarrow> string \<Rightarrow> (sqlite_db, orchestrator_error, dataset_run_record option) eff" where
  "sqlite_dataset T now i db =
     (Inr (map_option (map_dataset_row T now) (find (\<lambda>w. dw_dataset_id w = i) (db_dataset_runs db))), db)"

definition sqlite_completed :: "ts_codec \<Rightarrow> timestamp \<Rightarrow> (sqlite_db, orchestrator_error, unit) eff" where
  "sqlite_completed T t db =
     (Inr (), db\<lparr>db_batch_runs := map (\<lambda>r. r\<lparr>rr_completed_at := Some (to_rfc3339 T t), rr_updated_at := to_rfc3339 T t\<rparr>)
        (db_batch_runs db)\<rparr>)"

definition sqlite_cancelled :: "ts_codec \<Rightarrow> timestamp \<Rightarrow> (sqlite_db, orchestrator_error, unit) eff" where
  "sqlite_cancelled T t db =
     (Inr (), db\<lparr>db_batch_runs := map (\<lambda>r. r\<lparr>rr_cancelled_at := Some (to_rfc3339 T t), rr_updated_at := to_rfc3339 T t\<rparr>)
        (db_batch_runs db)\<rparr>)"

text \<open>\<open>now\<close> is the clock that stands in for a time that does not parse.\<close>

definition sqlite_journal_ops :: "ts_codec \<Rightarrow> timestamp \<Rightarrow> sqlite_db run_journal" where
  "sqlite_journal_ops T now =
     \<lparr>rj_run_identity = sqlite_run_identity T now, rj_list_datasets = sqlite_list T now,
      rj_dataset = sqlite_dataset T now, rj_upsert_dataset = sqlite_upsert T,
      rj_mark_run_completed = sqlite_completed T, rj_mark_run_cancelled = sqlite_cancelled T\<rparr>"

definition open_journal :: "ts_codec \<Rightarrow> run_identity \<Rightarrow> sqlite_db" where
  "open_journal T r = ensure_run T r \<lparr>db_batch_runs = [], db_dataset_runs = []\<rparr>"

section \<open>The journal interface holds of the SQLite journal\<close>

text \<open>What is relied on of chrono: a time that is written reads back.\<close>

definition ts_roundtrip :: "ts_codec \<Rightarrow> bool" where
  "ts_roundtrip T \<longleftrightarrow> (\<forall>t. parse_from_rfc3339 T (to_rfc3339 T t) = Some t)"

lemma parse_ts_roundtrip [simp]: "ts_roundtrip T \<Longrightarrow> parse_ts T now (to_rfc3339 T t) = t"
  by (simp add: parse_ts_def ts_roundtrip_def)

lemma map_parse_ts_roundtrip [simp]:
  "ts_roundtrip T \<Longrightarrow> map_option (parse_ts T now) (map_option (to_rfc3339 T) x) = x"
  by (cases x) simp_all

lemma attempts_roundtrip [simp]: "ucast (ucast (a :: u32) :: 64 word) = a"
  by (rule bit_word_eqI) (simp add: bit_ucast_iff)

lemma map_dataset_row_of: "ts_roundtrip T \<Longrightarrow> map_dataset_row T now (dataset_row_of T run r) = r"
  by (simp add: map_dataset_row_def dataset_row_of_def)

lemma map_identity_row_of: "ts_roundtrip T \<Longrightarrow> map_identity_row T now (run_row_of T r) = r"
  by (simp add: map_identity_row_def run_row_of_def)

definition sqlite_ready :: "sqlite_db \<Rightarrow> bool" where
  "sqlite_ready db \<longleftrightarrow> (\<exists>run. db_batch_runs db = [run] \<and>
     (\<forall>w \<in> set (db_dataset_runs db). dw_run_id w = rr_run_id run)) \<and>
     distinct (map dw_dataset_id (db_dataset_runs db))"

definition sqlite_identity :: "ts_codec \<Rightarrow> timestamp \<Rightarrow> sqlite_db \<Rightarrow> run_identity" where
  "sqlite_identity T now db = map_identity_row T now (hd (db_batch_runs db))"

definition sqlite_records :: "ts_codec \<Rightarrow> timestamp \<Rightarrow> sqlite_db \<Rightarrow> string \<rightharpoonup> dataset_run_record" where
  "sqlite_records T now db i =
     map_option (map_dataset_row T now) (find (\<lambda>w. dw_dataset_id w = i) (db_dataset_runs db))"

lemma map_dataset_row_id [simp]: "dr_dataset_id (map_dataset_row T now w) = dw_dataset_id w"
  by (simp add: map_dataset_row_def)

lemma dataset_row_of_keys [simp]:
  "dw_dataset_id (dataset_row_of T run r) = dr_dataset_id r" "dw_run_id (dataset_row_of T run r) = run"
  by (simp_all add: dataset_row_of_def)

lemma find_distinct_key:
  "distinct (map dw_dataset_id ws) \<Longrightarrow>
   (find (\<lambda>w. dw_dataset_id w = i) ws = Some v \<longleftrightarrow> v \<in> set ws \<and> dw_dataset_id v = i)"
  by (induction ws) (auto simp: image_iff)

definition put_row :: "dataset_row \<Rightarrow> dataset_row \<Rightarrow> dataset_row" where
  "put_row w v = (if dw_dataset_id v = dw_dataset_id w then w else v)"

lemma upsert_row_same_run:
  assumes "\<forall>v \<in> set ws. dw_run_id v = dw_run_id w"
  shows "upsert_row w ws =
    (if dw_dataset_id w \<in> dw_dataset_id ` set ws then map (put_row w) ws else ws @ [w])"
proof -
  have key: "same_key w v \<longleftrightarrow> dw_dataset_id v = dw_dataset_id w" if "v \<in> set ws" for v
    using assms that by (auto simp: same_key_def)
  then have "list_ex (same_key w) ws \<longleftrightarrow> (\<exists>v \<in> set ws. dw_dataset_id v = dw_dataset_id w)"
    by (auto simp: list_ex_iff)
  moreover have "map (\<lambda>v. if same_key w v then w else v) ws = map (put_row w) ws"
    using key by (simp add: put_row_def)
  ultimately show ?thesis by (simp add: upsert_row_def image_iff eq_commute)
qed

lemma put_row_id [simp]: "dw_dataset_id (put_row w v) = dw_dataset_id v"
  by (simp add: put_row_def)

lemma upsert_row_ids:
  assumes "\<forall>v \<in> set ws. dw_run_id v = dw_run_id w"
  shows "map dw_dataset_id (upsert_row w ws) =
    (if dw_dataset_id w \<in> dw_dataset_id ` set ws then map dw_dataset_id ws else map dw_dataset_id ws @ [dw_dataset_id w])"
  by (simp add: upsert_row_same_run [OF assms] comp_def)

lemma find_put_row:
  "find (\<lambda>v. dw_dataset_id v = i) (map (put_row w) ws) =
   (if i = dw_dataset_id w \<and> i \<in> dw_dataset_id ` set ws then Some w else find (\<lambda>v. dw_dataset_id v = i) ws)"
  by (induction ws) (auto simp: put_row_def)

lemma find_upsert_row:
  assumes "\<forall>v \<in> set ws. dw_run_id v = dw_run_id w"
  shows "find (\<lambda>v. dw_dataset_id v = i) (upsert_row w ws) =
    (if i = dw_dataset_id w then Some w else find (\<lambda>v. dw_dataset_id v = i) ws)"
  by (auto simp: upsert_row_same_run [OF assms] find_put_row find_append find_key_None split: option.split)

lemma set_upsert_row: "set (upsert_row w ws) \<subseteq> insert w (set ws)"
  by (auto simp: upsert_row_def)

lemma sqlite_ready_upsert:
  assumes "sqlite_ready db" "db_batch_runs db = [run]" "dw_run_id w = rr_run_id run"
  shows "sqlite_ready (db\<lparr>db_dataset_runs := upsert_row w (db_dataset_runs db)\<rparr>)"
proof -
  have runs: "\<forall>v \<in> set (db_dataset_runs db). dw_run_id v = dw_run_id w"
    using assms by (auto simp: sqlite_ready_def)
  have "\<forall>v \<in> set (upsert_row w (db_dataset_runs db)). dw_run_id v = rr_run_id run"
    using set_upsert_row [of w] runs assms(3) by fastforce
  moreover have "distinct (map dw_dataset_id (upsert_row w (db_dataset_runs db)))"
    using assms(1) by (simp add: upsert_row_ids [OF runs] sqlite_ready_def)
  ultimately show ?thesis using assms(2) by (simp add: sqlite_ready_def)
qed

locale sqlite_journal =
  fixes T :: ts_codec and now :: timestamp
  assumes roundtrip: "ts_roundtrip T"
begin

lemma list_law:
  assumes "sqlite_ready db"
  shows "\<exists>rs. sqlite_list T now db = (Inr rs, db) \<and> sorted (map dr_dataset_id rs) \<and>
    distinct (map dr_dataset_id rs) \<and>
    (\<forall>r. r \<in> set rs \<longrightarrow> sqlite_records T now db (dr_dataset_id r) = Some r) \<and>
    (\<forall>r. sqlite_records T now db (dr_dataset_id r) = Some r \<longrightarrow> r \<in> set rs)"
proof -
  have d: "distinct (map dw_dataset_id (db_dataset_runs db))" using assms by (simp add: sqlite_ready_def)
  define ws where "ws = sort_key dw_dataset_id (db_dataset_runs db)"
  have ids: "map dr_dataset_id (map (map_dataset_row T now) ws) = map dw_dataset_id ws" by simp
  have "distinct (map dw_dataset_id ws)" using d by (simp add: ws_def distinct_map)
  moreover have "set ws = set (db_dataset_runs db)" by (simp add: ws_def)
  ultimately show ?thesis
    unfolding sqlite_list_def sqlite_records_def ws_def [symmetric] using d
    by (intro exI [of _ "map (map_dataset_row T now) ws"] conjI)
      (auto simp: find_distinct_key ids comp_def ws_def)
qed

lemma upsert_law:
  assumes "sqlite_ready db"
  shows "\<exists>db'. sqlite_upsert T r db = (Inr (), db') \<and> sqlite_ready db' \<and>
    sqlite_identity T now db' = sqlite_identity T now db \<and>
    sqlite_records T now db' = (sqlite_records T now db)(dr_dataset_id r \<mapsto> r)"
proof -
  obtain run where run: "db_batch_runs db = [run]" "\<forall>v \<in> set (db_dataset_runs db). dw_run_id v = rr_run_id run"
    using assms by (auto simp: sqlite_ready_def)
  show ?thesis
    using sqlite_ready_upsert [OF assms run(1), of "dataset_row_of T (rr_run_id run) r"] run
    by (simp add: sqlite_upsert_def sqlite_identity_def sqlite_records_def fun_eq_iff find_upsert_row
        map_dataset_row_of [OF roundtrip])
qed

lemma mark_laws:
  assumes "sqlite_ready db"
  shows "\<exists>db'. sqlite_completed T t db = (Inr (), db') \<and> sqlite_ready db' \<and>
      sqlite_identity T now db' = (sqlite_identity T now db)\<lparr>ri_completed_at := Some t, ri_updated_at := t\<rparr> \<and>
      sqlite_records T now db' = sqlite_records T now db"
    and "\<exists>db'. sqlite_cancelled T t db = (Inr (), db') \<and> sqlite_ready db' \<and>
      sqlite_identity T now db' = (sqlite_identity T now db)\<lparr>ri_cancelled_at := Some t, ri_updated_at := t\<rparr> \<and>
      sqlite_records T now db' = sqlite_records T now db"
  using assms
  by (auto simp: sqlite_completed_def sqlite_cancelled_def sqlite_ready_def sqlite_identity_def
      sqlite_records_def fun_eq_iff map_identity_row_def roundtrip)

end

sublocale sqlite_journal \<subseteq>
  journal "sqlite_journal_ops T now" sqlite_ready "sqlite_identity T now" "sqlite_records T now"
proof
  fix j i r t
  assume rdy: "sqlite_ready j"
  show "rj_run_identity (sqlite_journal_ops T now) j = (Inr (Some (sqlite_identity T now j)), j)"
    using rdy by (auto simp: sqlite_journal_ops_def sqlite_run_identity_def sqlite_identity_def sqlite_ready_def)
  show "rj_dataset (sqlite_journal_ops T now) i j = (Inr (sqlite_records T now j i), j)"
    by (simp add: sqlite_journal_ops_def sqlite_dataset_def sqlite_records_def)
  show "sqlite_records T now j i = Some r \<Longrightarrow> dr_dataset_id r = i"
    using rdy by (auto simp: sqlite_records_def sqlite_ready_def find_distinct_key)
qed (use list_law upsert_law mark_laws in \<open>fastforce simp: sqlite_journal_ops_def\<close>)+

context sqlite_journal
begin

lemmas recovered = recover_journal_states_spec

end

section \<open>Results\<close>

lemma sqlite_ready_open [simp]: "sqlite_ready (open_journal T r)"
  by (simp add: sqlite_ready_def open_journal_def ensure_run_def)

lemma sqlite_journalI: "ts_roundtrip T \<Longrightarrow> sqlite_journal T"
  by (simp add: sqlite_journal_def)

definition demo_ts :: ts_codec where
  "demo_ts = \<lparr>to_rfc3339 = (\<lambda>t. if t < 0 then CHR ''-'' # show_nat (nat (- t)) else CHR ''+'' # show_nat (nat t)),
     parse_from_rfc3339 = (\<lambda>s. case s of [] \<Rightarrow> None
       | c # cs \<Rightarrow> Some (if c = CHR ''-'' then - int (nat_of_digits cs) else int (nat_of_digits cs)))\<rparr>"

lemma demo_ts_roundtrip: "ts_roundtrip demo_ts"
  by (auto simp: ts_roundtrip_def demo_ts_def nat_of_digits_show)

interpretation demo_journal: sqlite_journal demo_ts 0
  by (rule sqlite_journalI) (rule demo_ts_roundtrip)

definition demo_identity :: run_identity where
  "demo_identity = \<lparr>ri_run_id = ''run-1'', ri_batch_plan_id = ''bp'', ri_config_fingerprint = ''cfg'',
     ri_batch_name = ''nightly'', ri_output_root = ''/out'', ri_parqonaut_version = ''0.3.0'',
     ri_plan_digest = ''d'', ri_started_at = 5, ri_updated_at = 5, ri_completed_at = None, ri_cancelled_at = None\<rparr>"

definition demo_record :: "string \<Rightarrow> dataset_state \<Rightarrow> dataset_run_record" where
  "demo_record i s = \<lparr>dr_dataset_id = i, dr_output_path = ''/out/'' @ i, dr_repair_plan_id = ''p'',
     dr_policy_fingerprint = ''f'', dr_state = s, dr_attempts = 3, dr_source_fingerprint = Some ''abc'',
     dr_output_fingerprint = None, dr_error_class = Some FcStaleSource, dr_error_message = None,
     dr_started_at = Some 7, dr_updated_at = 9, dr_completed_at = None\<rparr>"

text \<open>
  C17. A dataset record written to the SQLite journal reads back as it was written, whatever its
  state, failure class, attempts and times are, and the records of the other datasets stay as
  they were.
\<close>

theorem journal_roundtrip:
  assumes "ts_roundtrip T" and "sqlite_ready db" and "sqlite_upsert T r db = (res, db')"
  shows "res = Inr () \<and> sqlite_ready db' \<and>
    sqlite_dataset T now (dr_dataset_id r) db' = (Inr (Some r), db') \<and>
    (\<forall>i. i \<noteq> dr_dataset_id r \<longrightarrow> fst (sqlite_dataset T now i db') = fst (sqlite_dataset T now i db)) \<and>
    fst (sqlite_run_identity T now db') = fst (sqlite_run_identity T now db)"
proof -
  obtain db1 where db1: "sqlite_upsert T r db = (Inr (), db1)" "sqlite_ready db1"
    "sqlite_identity T now db1 = sqlite_identity T now db"
    "sqlite_records T now db1 = (sqlite_records T now db)(dr_dataset_id r \<mapsto> r)"
    using sqlite_journal.upsert_law [OF sqlite_journalI [OF assms(1)] assms(2)] by blast
  have read: "sqlite_dataset T now i d = (Inr (sqlite_records T now d i), d)" for i d
    by (simp add: sqlite_dataset_def sqlite_records_def)
  have "fst (sqlite_run_identity T now db1) = fst (sqlite_run_identity T now db)"
    using db1(2,3) assms(2) by (auto simp: sqlite_run_identity_def sqlite_identity_def sqlite_ready_def)
  then show ?thesis using db1 assms(3) by (auto simp: read)
qed

theorem journal_roundtrip_witness:
  "fst (sqlite_dataset demo_ts 0 ''a'' (snd (sqlite_upsert demo_ts (demo_record ''a'' DsStaleSource)
     (open_journal demo_ts demo_identity)))) = Inr (Some (demo_record ''a'' DsStaleSource))"
  using journal_roundtrip [OF demo_ts_roundtrip sqlite_ready_open [of demo_ts demo_identity],
      where r = "demo_record ''a'' DsStaleSource" and now = 0]
  by (metis (no_types, lifting) demo_record_def dataset_run_record.select_convs(1) eq_fst_iff prod.collapse)

text \<open>
  Recovery of an interrupted run: every record that was left in flight becomes
  \<open>FailedRecoverable\<close>, so that afterwards each dataset is terminal or can be run again; terminal
  records, the identity of the run and the set of datasets do not change.
\<close>

theorem recovery_makes_runnable:
  assumes "ts_roundtrip T" and "sqlite_ready db"
    and "recover_journal_states (sqlite_journal_ops T now) t db = (res, db')"
  shows "res = Inr () \<and> sqlite_ready db' \<and>
    (\<forall>i. sqlite_records T now db' i = map_option (recover_spec t) (sqlite_records T now db i)) \<and>
    (\<forall>i r. sqlite_records T now db' i = Some r \<longrightarrow> is_terminal (dr_state r) \<or> is_runnable (dr_state r)) \<and>
    (\<forall>i r. sqlite_records T now db i = Some r \<and> is_terminal (dr_state r) \<longrightarrow> sqlite_records T now db' i = Some r) \<and>
    sqlite_identity T now db' = sqlite_identity T now db"
proof -
  obtain db1 where db1: "recover_journal_states (sqlite_journal_ops T now) t db = (Inr (), db1)"
    "sqlite_ready db1" "sqlite_identity T now db1 = sqlite_identity T now db"
    "sqlite_records T now db1 = (\<lambda>i. map_option (recover_spec t) (sqlite_records T now db i))"
    using sqlite_journal.recovered [OF sqlite_journalI [OF assms(1)] assms(2)] by blast
  with assms(3) have eqs: "res = Inr ()" "db' = db1" by simp_all
  have "is_terminal (dr_state r) \<or> is_runnable (dr_state r)" if "sqlite_records T now db1 i = Some r" for i r
    using that recover_spec_settled [of t] by (auto simp: db1(4) Let_def)
  moreover have "sqlite_records T now db1 i = Some r"
    if "sqlite_records T now db i = Some r" "is_terminal (dr_state r)" for i r
    using that by (simp add: db1(4) recover_spec_terminal)
  ultimately show ?thesis using db1 unfolding eqs by (simp; blast)
qed

definition demo_db :: sqlite_db where
  "demo_db = snd (sqlite_upsert demo_ts (demo_record ''b'' DsRunning) (open_journal demo_ts demo_identity))"

lemma demo_db_facts:
  "sqlite_ready demo_db" "sqlite_records demo_ts 0 demo_db ''b'' = Some (demo_record ''b'' DsRunning)"
proof -
  obtain db1 where "sqlite_upsert demo_ts (demo_record ''b'' DsRunning) (open_journal demo_ts demo_identity) = (Inr (), db1)"
    "sqlite_ready db1" "sqlite_records demo_ts 0 db1 =
      (sqlite_records demo_ts 0 (open_journal demo_ts demo_identity))(''b'' \<mapsto> demo_record ''b'' DsRunning)"
    using demo_journal.upsert_law [OF sqlite_ready_open, of "demo_record ''b'' DsRunning"]
    by (auto simp: demo_record_def)
  then show "sqlite_ready demo_db" "sqlite_records demo_ts 0 demo_db ''b'' = Some (demo_record ''b'' DsRunning)"
    by (simp_all add: demo_db_def)
qed

theorem recovery_makes_runnable_witness:
  "\<exists>r. sqlite_records demo_ts 0 (snd (recover_journal_states (sqlite_journal_ops demo_ts 0) 11 demo_db)) ''b'' = Some r \<and>
     dr_state r = DsFailedRecoverable"
proof -
  obtain res db' where run: "recover_journal_states (sqlite_journal_ops demo_ts 0) 11 demo_db = (res, db')"
    by fastforce
  from recovery_makes_runnable [OF demo_ts_roundtrip demo_db_facts(1) run] show ?thesis
    by (simp add: run demo_db_facts(2) recover_spec_def recovered_record_def recover_after_crash_def demo_record_def)
qed

end
