(* ===== verification/Orch_Batch_Props.thy ===== *)
theory Orch_Batch_Props
  imports Orch_Batch Repair_Plan_Props
begin

text \<open>
  Results on batch plans: the validation of a plan keeps the datasets of a batch apart, a plan
  that is built has one entry per configured dataset, and a resumed run is tied to its plan.
\<close>

section \<open>Disjoint locations\<close>

text \<open>The objects or files a location stands for, as the overlap check reads it.\<close>

fun location_holds :: "dataset_location \<Rightarrow> object_location \<Rightarrow> bool" where
  "location_holds (DatasetLocal d) (ObjectLocal p) = path_starts_with p d"
| "location_holds (DatasetS3 s) (ObjectS3 b k) = (b = s3_bucket s \<and> str_starts_with k (normalize_s3_prefix (s3_prefix s)))"
| "location_holds _ _ = False"

lemma location_holds_overlap: "location_holds a x \<Longrightarrow> location_holds b x \<Longrightarrow> locations_overlap a b"
proof (cases x)
  case (ObjectLocal p)
  assume "location_holds a x" "location_holds b x"
  with ObjectLocal show ?thesis
    by (cases a; cases b) (auto simp: paths_overlap_def path_starts_with_def dest: prefix_same_cases)
next
  case (ObjectS3 bk k)
  assume "location_holds a x" "location_holds b x"
  with ObjectS3 show ?thesis
    by (cases a; cases b) (auto simp: s3_prefixes_overlap_def Let_def dest: common_prefix_comparable)
qed

lemma location_holds_object_at:
  assumes "wf_s3 s" "object_at (DatasetS3 s) rel = Inr x"
  shows "location_holds (DatasetS3 s) x"
  using assms object_key_under_prefix
  by (auto simp: object_at_def bind_res_Inr_iff wf_s3_normalize)

lemma first_some_None: "first_some f xs = None \<longleftrightarrow> (\<forall>x \<in> set xs. f x = None)"
  by (induction xs) (auto split: option.splits)

lemma self_overlap_detail_None: "self_overlap_detail s = None \<longleftrightarrow> \<not> locations_overlap (ps_source s) (ps_output s)"
  by (simp add: self_overlap_detail_def)

lemma cross_overlap_detail_None:
  "cross_overlap_detail l r = None \<longleftrightarrow>
     \<not> locations_overlap (ps_source l) (ps_source r) \<and> \<not> locations_overlap (ps_source l) (ps_output r) \<and>
     \<not> locations_overlap (ps_output l) (ps_source r) \<and> \<not> locations_overlap (ps_output l) (ps_output r)"
  by (auto simp: cross_overlap_detail_def overlap_pairs_def)

lemma first_cross_overlap_None:
  "first_cross_overlap xs = None \<Longrightarrow> i < j \<Longrightarrow> j < length xs \<Longrightarrow> cross_overlap_detail (xs ! i) (xs ! j) = None"
proof (induction xs arbitrary: i j)
  case (Cons x xs)
  then obtain j' where j: "j = Suc j'" by (cases j) auto
  show ?case
    using Cons.prems Cons.IH [of "i - 1" j']
    by (cases i) (auto simp: j first_some_None split: option.splits)
qed simp

text \<open>What a validated batch promises of two of its entries, in either order.\<close>

lemma validated_pair:
  assumes "validate_batch_overlap xs = Inr ()" "i < length xs" "j < length xs"
  shows "\<not> locations_overlap (ps_output (xs ! i)) (ps_source (xs ! j))"
    and "i \<noteq> j \<Longrightarrow> \<not> locations_overlap (ps_output (xs ! i)) (ps_output (xs ! j))"
    and "i \<noteq> j \<Longrightarrow> \<not> locations_overlap (ps_source (xs ! i)) (ps_source (xs ! j))"
proof -
  have self: "\<not> locations_overlap (ps_source (xs ! k)) (ps_output (xs ! k))" if "k < length xs" for k
    using assms(1) that
    by (auto simp: validate_batch_overlap_def first_some_None self_overlap_detail_None split: option.splits)
  have cross: "cross_overlap_detail (xs ! k) (xs ! l) = None" if "k < l" "l < length xs" for k l
    using assms(1) that
    by (auto simp: validate_batch_overlap_def split: option.splits intro: first_cross_overlap_None)
  consider "i = j" | "i < j" | "j < i" by linarith
  then show "\<not> locations_overlap (ps_output (xs ! i)) (ps_source (xs ! j))"
    using self [of i] cross [of i j] cross [of j i] assms(2,3)
    by cases (auto simp: cross_overlap_detail_None locations_overlap_sym)
  show "i \<noteq> j \<Longrightarrow> \<not> locations_overlap (ps_output (xs ! i)) (ps_output (xs ! j))"
    "i \<noteq> j \<Longrightarrow> \<not> locations_overlap (ps_source (xs ! i)) (ps_source (xs ! j))"
    using cross [of i j] cross [of j i] assms(2,3)
    by (auto simp: cross_overlap_detail_None locations_overlap_sym linorder_neq_iff)
qed

lemma collect_res_nth: "collect_res rs = Inr xs \<Longrightarrow> k < length rs \<Longrightarrow> rs ! k = Inr (xs ! k)"
proof (induction rs arbitrary: xs k)
  case (Cons r rs)
  then show ?case by (cases k) (auto split: sum.splits)
qed simp

lemma dataset_locations_nth:
  assumes "dataset_locations url p = Inr locs" "k < length (bp_datasets p)"
  shows "\<exists>src out. locs ! k = (dp_dataset_id (bp_datasets p ! k), src, out) \<and>
    parse_location_config url (dp_source_path (bp_datasets p ! k)) = Inr src \<and>
    parse_location_config url (dp_output_path (bp_datasets p ! k)) = Inr out"
  using collect_res_nth [OF assms(1) [unfolded dataset_locations_def], of k] assms(2)
  by (auto simp: bind_res_Inr_iff)

text \<open>
  C20. In a batch plan that validates, nothing that lies under the output of a dataset lies under
  the source of any dataset of the batch or under the output of another one: repairs of
  different datasets cannot overwrite each other or any input.
\<close>

theorem batch_locations_disjoint:
  assumes "validate_batch_plan url p = Inr ()"
    and "i < length (bp_datasets p)" and "j < length (bp_datasets p)"
    and "parse_location_config url (dp_output_path (bp_datasets p ! i)) = Inr out"
    and "parse_location_config url (dp_source_path (bp_datasets p ! j)) = Inr src"
    and "parse_location_config url (dp_output_path (bp_datasets p ! j)) = Inr out'"
    and "location_holds out x"
  shows "\<not> location_holds src x \<and> (i \<noteq> j \<longrightarrow> \<not> location_holds out' x)"
proof -
  obtain locs where locs: "dataset_locations url p = Inr locs"
    "validate_batch_overlap (map (\<lambda>(i, src, out). \<lparr>ps_dataset_id = i, ps_source = src, ps_output = out\<rparr>) locs) = Inr ()"
    using assms(1) by (auto simp: validate_batch_plan_def bind_res_Inr_iff)
  have len: "length locs = length (bp_datasets p)"
    using locs(1) collect_res_Inr_length by (fastforce simp: dataset_locations_def)
  note pair = validated_pair [OF locs(2), of i j]
  show ?thesis
    using dataset_locations_nth [OF locs(1) assms(2)] dataset_locations_nth [OF locs(1) assms(3)]
      pair assms(2-7) location_holds_overlap [of out x]
    by (auto simp: len)
qed

text \<open>A url parser for the witnesses: \<open>s3://host/path\<close> and \<open>file:///path\<close>.\<close>

definition demo_url :: url_parser where
  "demo_url s =
     (if str_starts_with s ''s3://'' then
        (case split_once (CHR ''/'') (drop 5 s) of
           None \<Rightarrow> Inr \<lparr>url_scheme = ''s3'', url_username = [], url_password = None, url_host = Some (drop 5 s),
             url_path = [], url_file_path = None\<rparr>
         | Some (h, r) \<Rightarrow> Inr \<lparr>url_scheme = ''s3'', url_username = [], url_password = None, url_host = Some h,
             url_path = CHR ''/'' # r, url_file_path = None\<rparr>)
      else if str_starts_with s ''file:///'' then
        Inr \<lparr>url_scheme = ''file'', url_username = [], url_password = None, url_host = None,
          url_path = drop 7 s, url_file_path = Some (drop 7 s)\<rparr>
      else Inl ''relative URL without a base'')"

definition demo_env_batch :: batch_env where
  "demo_env_batch = \<lparr>be_url = demo_url, be_hasher = \<lparr>sha256_hex = (\<lambda>_. ''ab''), canonical_json = (\<lambda>_. []), render_json = (\<lambda>_. [])\<rparr>, be_render_config = (\<lambda>c. bs_name (bc_batch c)),
     be_render_plan = (\<lambda>p. bp_batch_plan_id p), be_canonicalize = Inr, be_read_policy = (\<lambda>_. Inr []),
     be_read_schema = (\<lambda>_. Inr []), be_policy_fingerprint = (\<lambda>_. ''p''), be_scan = (\<lambda>_. Inl (ScanFailed ''no'')),
     be_inspect = one_row_inspector, be_uuid = (\<lambda>_. ''u''), be_version = ''0.3.0''\<rparr>"

definition demo_config :: batch_config where
  "demo_config = \<lparr>bc_schema_version = 1,
     bc_batch = \<lparr>bs_name = ''n'', bs_max_concurrency = 2, bs_output_root = Some (DatasetS3 \<lparr>s3_bucket = ''b'', s3_prefix = ''out''\<rparr>),
       bs_run_root = None, bs_max_storage_requests = 8\<rparr>,
     bc_datasets = map (\<lambda>i. \<lparr>dc_id = i, dc_path = DatasetLocal (''/data/'' @ i), dc_policy = None, dc_target_schema = None,
       dc_authorize = [], dc_output = None\<rparr>) [''a'', ''b'']\<rparr>"

definition demo_batch :: "(orchestrator_error, batch_plan) res" where
  "demo_batch = build_batch_plan demo_env_batch demo_config ''/cfg/batch.toml''"

lemma demo_batch_facts:
  "\<not> isl demo_batch" "validate_batch_plan demo_url (projr demo_batch) = Inr ()"
  "length (bp_datasets (projr demo_batch)) = 2"
  "parse_location_config demo_url (dp_output_path (bp_datasets (projr demo_batch) ! 0)) = Inr (DatasetS3 \<lparr>s3_bucket = ''b'', s3_prefix = ''out/a''\<rparr>)"
  "parse_location_config demo_url (dp_output_path (bp_datasets (projr demo_batch) ! 1)) = Inr (DatasetS3 \<lparr>s3_bucket = ''b'', s3_prefix = ''out/b''\<rparr>)"
  "parse_location_config demo_url (dp_source_path (bp_datasets (projr demo_batch) ! 1)) = Inr (DatasetLocal ''/data/b'')"
  by code_simp+

lemma demo_batch_eq: "build_batch_plan demo_env_batch demo_config ''/cfg/batch.toml'' = Inr (projr demo_batch)"
  using demo_batch_facts(1) unfolding demo_batch_def by (metis sum.collapse(2))

theorem batch_locations_disjoint_witness:
  "\<not> location_holds (DatasetS3 \<lparr>s3_bucket = ''b'', s3_prefix = ''out/b''\<rparr>) (ObjectS3 ''b'' ''out/a/part-0.parquet'')"
proof -
  have "location_holds (DatasetS3 \<lparr>s3_bucket = ''b'', s3_prefix = ''out/a''\<rparr>) (ObjectS3 ''b'' ''out/a/part-0.parquet'')"
    by code_simp
  from batch_locations_disjoint [OF demo_batch_facts(2) _ _ demo_batch_facts(4) demo_batch_facts(6,5) this] demo_batch_facts(3)
  show ?thesis by simp
qed

section \<open>Building a plan\<close>

lemma first_duplicate_None: "first_duplicate seen xs = None \<longleftrightarrow> distinct xs \<and> set xs \<inter> set seen = {}"
  by (induction seen xs rule: first_duplicate.induct) auto

lemma map_outputs_ids:
  "map_outputs url canon base root ds = Inr ms \<Longrightarrow> map ps_dataset_id ms = map dc_id ds"
  by (induction ds arbitrary: ms) (auto simp: bind_res_Inr_iff)

lemma resolve_output_mappings_valid:
  "resolve_output_mappings url canon config base = Inr ms \<Longrightarrow>
   validate_batch_overlap ms = Inr () \<and> map ps_dataset_id ms = map dc_id (bc_datasets config)"
  by (auto simp: resolve_output_mappings_def bind_res_Inr_iff map_outputs_ids split: option.splits)

lemma generate_plan_version:
  "generate_plan h inspect uuid fp version root scan policy target = Inr plan \<Longrightarrow> plan_schema_version plan = PLAN_SCHEMA_VERSION"
  by (auto simp: generate_plan_def bind_res_Inr_iff Let_def)

lemma plan_dataset_version: "plan_schema_version (plan_dataset env source policy target) = PLAN_SCHEMA_VERSION"
  by (auto simp: plan_dataset_def unscannable_dataset_plan_def Let_def bind_res_Inr_iff
      split: sum.split dest: generate_plan_version)

lemma plan_datasets_entries:
  "plan_datasets env base cms = Inr ps \<Longrightarrow>
   map dp_dataset_id ps = map (\<lambda>(c, m). ps_dataset_id m) cms \<and>
   map dp_source_path ps = map (\<lambda>(c, m). dataset_display_uri (ps_source m)) cms \<and>
   map dp_output_path ps = map (\<lambda>(c, m). dataset_display_uri (ps_output m)) cms \<and>
   map dp_authorize ps = map (\<lambda>(c, m). dc_authorize c) cms \<and> validate_dataset_versions ps = Inr ()"
  by (induction cms arbitrary: ps) (auto simp: bind_res_Inr_iff plan_dataset_version)

lemma map_zip_snd: "length xs = length ys \<Longrightarrow> map (\<lambda>(x, y). f y) (zip xs ys) = map f ys"
  by (induction xs ys rule: list_induct2) auto

lemma map_zip_fst: "length xs = length ys \<Longrightarrow> map (\<lambda>(x, y). f x) (zip xs ys) = map f xs"
  by (induction xs ys rule: list_induct2) auto

lemma built_plan_facts:
  assumes "build_batch_plan env config path = Inr p"
  shows "map dp_dataset_id (bp_datasets p) = map dc_id (bc_datasets config) \<and>
    distinct (map dp_dataset_id (bp_datasets p)) \<and>
    map dp_authorize (bp_datasets p) = map dc_authorize (bc_datasets config) \<and>
    validate_plan_version p = Inr () \<and> bp_max_concurrency p \<noteq> 0 \<and> bp_max_storage_requests p \<noteq> 0 \<and>
    (\<exists>ms. validate_batch_overlap ms = Inr () \<and>
      map dp_source_path (bp_datasets p) = map (dataset_display_uri \<circ> ps_source) ms \<and>
      map dp_output_path (bp_datasets p) = map (dataset_display_uri \<circ> ps_output) ms)"
proof -
  define base where "base = (case path_parent path of None \<Rightarrow> ''.'' | Some d \<Rightarrow> d)"
  obtain ms ds where v: "validate_config config = Inr ()"
    and ms: "resolve_output_mappings (be_url env) (be_canonicalize env) config base = Inr ms"
    and ds: "plan_datasets env base (zip (bc_datasets config) ms) = Inr ds"
    and p: "bp_datasets p = ds" "bp_schema_version p = BATCH_PLAN_SCHEMA_VERSION"
      "bp_max_concurrency p = bs_max_concurrency (bc_batch config)"
      "bp_max_storage_requests p = bs_max_storage_requests (bc_batch config)"
    using assms unfolding build_batch_plan_def base_def [symmetric] by (auto simp: bind_res_Inr_iff Let_def)
  have ids: "map ps_dataset_id ms = map dc_id (bc_datasets config)" and ok: "validate_batch_overlap ms = Inr ()"
    using resolve_output_mappings_valid [OF ms] by auto
  have len: "length (bc_datasets config) = length ms" using ids map_eq_imp_length_eq by metis
  have "distinct (map dc_id (bc_datasets config))" "bs_max_concurrency (bc_batch config) \<noteq> 0"
    "bs_max_storage_requests (bc_batch config) \<noteq> 0"
    using v by (auto simp: validate_config_def first_duplicate_None split: if_splits option.splits)
  then show ?thesis
    using plan_datasets_entries [OF ds] ids ok
    by (auto simp: p validate_plan_version_def map_zip_snd [OF len] map_zip_fst [OF len] comp_def intro!: exI [of _ ms])
qed

text \<open>
  C21. A batch plan that is built has one entry per configured dataset, in their order, with
  distinct ids and the authorizations of its configuration; its versions pass the version check,
  at least one job and one storage request are allowed, and the resolved locations it was built
  from pass the overlap check.
\<close>

theorem built_plan_well_formed:
  assumes "build_batch_plan env config path = Inr p"
  shows "map dp_dataset_id (bp_datasets p) = map dc_id (bc_datasets config) \<and>
    distinct (map dp_dataset_id (bp_datasets p)) \<and>
    map dp_authorize (bp_datasets p) = map dc_authorize (bc_datasets config) \<and>
    validate_plan_version p = Inr () \<and> bp_max_concurrency p \<noteq> 0 \<and> bp_max_storage_requests p \<noteq> 0 \<and>
    (\<exists>ms. validate_batch_overlap ms = Inr () \<and>
      map dp_source_path (bp_datasets p) = map (dataset_display_uri \<circ> ps_source) ms \<and>
      map dp_output_path (bp_datasets p) = map (dataset_display_uri \<circ> ps_output) ms)"
  using assms by (rule built_plan_facts)

theorem built_plan_well_formed_witness:
  "map dp_dataset_id (bp_datasets (projr demo_batch)) = [''a'', ''b''] \<and> validate_plan_version (projr demo_batch) = Inr ()"
  using built_plan_well_formed [OF demo_batch_eq] by (simp add: demo_config_def)

text \<open>
  A dataset that could not be scanned or planned gets a plan with no operations, and that plan
  never runs: its fingerprint has the prefix \<open>unscannable-dataset-\<close>, which no fingerprint of a
  dataset has (digests are hexadecimal), so execution always reports a changed source.
\<close>

theorem unscannable_plan_never_runs:
  assumes "\<And>text. CHR ''-'' \<notin> set (sha256_hex (be_hasher env) text)"
    and "be_scan env source = Inl e"
  shows "operations (plan_dataset env source policy target) = [] \<and>
    verify_against (dataset_fp (plan_dataset env source policy target)) (compute_dataset_fingerprint (be_hasher env) root ivt)
      \<noteq> Inr ()"
proof -
  have "CHR ''-'' \<notin> set (fp_digest (compute_dataset_fingerprint (be_hasher env) root ivt))"
    using assms(1) by (simp add: compute_dataset_fingerprint_def digest_entries_def Let_def)
  moreover have "CHR ''-'' \<in> set (stable_hex_id (be_hasher env) ''unscannable-dataset'' r)" for r
    by (simp add: stable_hex_id_def)
  ultimately have "stable_hex_id (be_hasher env) ''unscannable-dataset'' r \<noteq>
      fp_digest (compute_dataset_fingerprint (be_hasher env) root ivt)" for r
    by metis
  then show ?thesis
    by (simp add: plan_dataset_def assms(2) unscannable_dataset_plan_def verify_against_def Let_def)
qed

theorem unscannable_plan_never_runs_witness:
  "operations (plan_dataset demo_env_batch (DatasetLocal ''/d'') effective_policy_default None) = []"
  using unscannable_plan_never_runs [where env = demo_env_batch and source = "DatasetLocal ''/d''" and e = "ScanFailed ''no''"]
  by (simp add: demo_env_batch_def)

section \<open>Plans and runs\<close>

lemma mismatch_Inr [simp]: "mismatch f a b = Inr () \<longleftrightarrow> a = b"
  by (simp add: mismatch_def)

lemma assert_datasets_Inr:
  "assert_datasets rs ds = Inr () \<longleftrightarrow>
   (\<forall>d \<in> set ds. \<forall>r. find_record rs (dp_dataset_id d) = Some r \<longrightarrow> assert_dataset_record_matches_plan d r = Inr ())"
  by (induction ds) (auto simp: bind_res_Inr_iff split: option.splits)

lemma assert_record_Inr:
  "assert_dataset_record_matches_plan d r = Inr () \<longleftrightarrow>
     dr_output_path r = dp_output_path d \<and> dr_repair_plan_id r = plan_id (dp_repair_plan d) \<and>
     dr_policy_fingerprint r = policy_fingerprint (dp_repair_plan d) \<and>
     (dr_state r = DsSucceeded \<longrightarrow> dr_source_fingerprint r \<in> {None, Some [], Some (fp_digest (dataset_fp (dp_repair_plan d)))})"
  by (auto simp: assert_dataset_record_matches_plan_def bind_res_Inr_iff split: option.splits)

lemma assert_identity_Inr:
  "assert_plan_matches_identity env p r = Inr () \<longleftrightarrow>
     validate_plan_version p = Inr () \<and> ri_batch_plan_id r = bp_batch_plan_id p \<and>
     ri_config_fingerprint r = bp_config_fingerprint p \<and> ri_output_root r = bp_output_root p \<and>
     ri_plan_digest r = plan_digest env p"
  by (auto simp: assert_plan_matches_identity_def bind_res_Inr_iff)

end
