(* ===== verification/Orch_Scheduler.thy ===== *)
theory Orch_Scheduler
  imports Parq_Prelude "HOL-Library.Multiset"
begin

text \<open>
  The bounded scheduler (\<open>scheduler/mod.rs\<close>, \<open>cancel.rs\<close>) as a step relation: the control
  points of \<open>run_bounded_cancellable\<close>, the spawned tasks of the join set, the permits of the
  semaphore, the two counters and the cancellation flag, which may be raised at any moment. The steps
  of the loop and of the tasks interleave freely. A task is its position in the list of tasks;
  what it returns is left open.
\<close>

section \<open>States\<close>

datatype 'r slot = Spawned nat | Started nat | Finished nat "'r option"

datatype sched_pc = AtLoop | AtFill | AtTake | AtAcquire nat | AtJoin | AtDrain | Returned

text \<open>
  \<open>sc_results\<close> keeps the task beside its result, and \<open>sc_panics\<close> the tasks whose panic was logged.
\<close>

record 'r sched =
  sc_pc :: sched_pc
  sc_pending :: "nat list"
  sc_slots :: "'r slot list"
  sc_permits :: nat
  sc_active :: nat
  sc_peak :: nat
  sc_results :: "(nat \<times> 'r) list"
  sc_panics :: "nat list"
  sc_cancelled :: bool

definition scheduler_new :: "u32 \<Rightarrow> nat" where
  "scheduler_new max_jobs = unat (max max_jobs 1)"

definition record_start :: "'r sched \<Rightarrow> 'r sched" where
  "record_start s = s\<lparr>sc_active := sc_active s + 1, sc_peak := max (sc_peak s) (sc_active s + 1)\<rparr>"

definition record_end :: "'r sched \<Rightarrow> 'r sched" where
  "record_end s = s\<lparr>sc_active := sc_active s - 1\<rparr>"

definition push_joined :: "nat \<Rightarrow> 'r option \<Rightarrow> 'r sched \<Rightarrow> 'r sched" where
  "push_joined t r s =
     (case r of Some v \<Rightarrow> s\<lparr>sc_results := sc_results s @ [(t, v)]\<rparr>
      | None \<Rightarrow> s\<lparr>sc_panics := sc_panics s @ [t]\<rparr>)"

definition sched_init :: "nat \<Rightarrow> nat \<Rightarrow> bool \<Rightarrow> 'r sched" where
  "sched_init max_jobs n cancelled =
     \<lparr>sc_pc = AtLoop, sc_pending = [0..<n], sc_slots = [], sc_permits = max_jobs, sc_active = 0, sc_peak = 0,
      sc_results = [], sc_panics = [], sc_cancelled = cancelled\<rparr>"

section \<open>Steps\<close>

inductive sched_step :: "nat \<Rightarrow> 'r sched \<Rightarrow> 'r sched \<Rightarrow> bool" for max_jobs :: nat where
  loop_go: "sc_pc s = AtLoop \<Longrightarrow> \<not> sc_cancelled s \<Longrightarrow> sched_step max_jobs s (s\<lparr>sc_pc := AtFill\<rparr>)"
| loop_stop: "sc_pc s = AtLoop \<Longrightarrow> sc_cancelled s \<Longrightarrow> sched_step max_jobs s (s\<lparr>sc_pc := AtDrain\<rparr>)"
| fill_full: "sc_pc s = AtFill \<Longrightarrow> \<not> length (sc_slots s) < max_jobs \<Longrightarrow>
    sched_step max_jobs s (s\<lparr>sc_pc := AtJoin\<rparr>)"
| fill_cancelled: "sc_pc s = AtFill \<Longrightarrow> length (sc_slots s) < max_jobs \<Longrightarrow> sc_cancelled s \<Longrightarrow>
    sched_step max_jobs s (s\<lparr>sc_pc := AtJoin\<rparr>)"
| fill_more: "sc_pc s = AtFill \<Longrightarrow> length (sc_slots s) < max_jobs \<Longrightarrow> \<not> sc_cancelled s \<Longrightarrow>
    sched_step max_jobs s (s\<lparr>sc_pc := AtTake\<rparr>)"
| take_none: "sc_pc s = AtTake \<Longrightarrow> sc_pending s = [] \<Longrightarrow> sched_step max_jobs s (s\<lparr>sc_pc := AtJoin\<rparr>)"
| take_task: "sc_pc s = AtTake \<Longrightarrow> sc_pending s = t # ts \<Longrightarrow>
    sched_step max_jobs s (s\<lparr>sc_pc := AtAcquire t, sc_pending := ts\<rparr>)"
| acquire: "sc_pc s = AtAcquire t \<Longrightarrow> 0 < sc_permits s \<Longrightarrow>
    sched_step max_jobs s (s\<lparr>sc_pc := AtFill, sc_permits := sc_permits s - 1, sc_slots := sc_slots s @ [Spawned t]\<rparr>)"
| join_empty: "sc_pc s = AtJoin \<Longrightarrow> sc_slots s = [] \<Longrightarrow> sched_step max_jobs s (s\<lparr>sc_pc := AtDrain\<rparr>)"
| join_next: "sc_pc s = AtJoin \<Longrightarrow> sc_slots s = xs @ Finished t r # ys \<Longrightarrow>
    sched_step max_jobs s ((push_joined t r s)\<lparr>sc_pc := AtLoop, sc_slots := xs @ ys\<rparr>)"
| drain_next: "sc_pc s = AtDrain \<Longrightarrow> sc_slots s = xs @ Finished t r # ys \<Longrightarrow>
    sched_step max_jobs s ((push_joined t r s)\<lparr>sc_slots := xs @ ys\<rparr>)"
| drain_done: "sc_pc s = AtDrain \<Longrightarrow> sc_slots s = [] \<Longrightarrow> sched_step max_jobs s (s\<lparr>sc_pc := Returned\<rparr>)"
| task_start: "sc_slots s = xs @ Spawned t # ys \<Longrightarrow>
    sched_step max_jobs s ((record_start s)\<lparr>sc_slots := xs @ Started t # ys\<rparr>)"
| task_end: "sc_slots s = xs @ Started t # ys \<Longrightarrow>
    sched_step max_jobs s ((record_end s)\<lparr>sc_slots := xs @ Finished t (Some v) # ys, sc_permits := sc_permits s + 1\<rparr>)"
| task_panic: "sc_slots s = xs @ Started t # ys \<Longrightarrow>
    sched_step max_jobs s (s\<lparr>sc_slots := xs @ Finished t None # ys, sc_permits := sc_permits s + 1\<rparr>)"
| cancel: "\<not> sc_cancelled s \<Longrightarrow> sched_step max_jobs s (s\<lparr>sc_cancelled := True\<rparr>)"

abbreviation sched_run :: "nat \<Rightarrow> nat \<Rightarrow> bool \<Rightarrow> 'r sched \<Rightarrow> bool" where
  "sched_run max_jobs n cancelled s \<equiv> (sched_step max_jobs)\<^sup>*\<^sup>* (sched_init max_jobs n cancelled) s"

section \<open>Invariant\<close>

fun slot_task :: "'r slot \<Rightarrow> nat" where
  "slot_task (Spawned t) = t"
| "slot_task (Started t) = t"
| "slot_task (Finished t r) = t"

fun slot_unfinished :: "'r slot \<Rightarrow> nat" where
  "slot_unfinished (Finished t r) = 0"
| "slot_unfinished _ = 1"

fun slot_started :: "'r slot \<Rightarrow> nat" where
  "slot_started (Started t) = 1"
| "slot_started _ = 0"

fun slot_panicked :: "'r slot \<Rightarrow> nat" where
  "slot_panicked (Finished t None) = 1"
| "slot_panicked _ = 0"

definition unfinished :: "'r sched \<Rightarrow> nat" where
  "unfinished s = sum_list (map slot_unfinished (sc_slots s))"

definition started :: "'r sched \<Rightarrow> nat" where
  "started s = sum_list (map slot_started (sc_slots s))"

definition panicked :: "'r sched \<Rightarrow> nat" where
  "panicked s = sum_list (map slot_panicked (sc_slots s)) + length (sc_panics s)"

fun held_task :: "sched_pc \<Rightarrow> nat list" where
  "held_task (AtAcquire t) = [t]"
| "held_task _ = []"

definition all_tasks :: "'r sched \<Rightarrow> nat multiset" where
  "all_tasks s = mset (sc_pending s) + mset (held_task (sc_pc s)) + mset (map slot_task (sc_slots s)) +
     mset (map fst (sc_results s)) + mset (sc_panics s)"

lemmas sched_counts = unfinished_def started_def panicked_def

definition sched_inv :: "nat \<Rightarrow> nat \<Rightarrow> 'r sched \<Rightarrow> bool" where
  "sched_inv max_jobs n s \<longleftrightarrow>
     0 < max_jobs \<and> length (sc_slots s) \<le> max_jobs \<and> sc_permits s + unfinished s = max_jobs \<and>
     ((\<exists>t. sc_pc s = AtAcquire t) \<or> sc_pc s = AtTake \<longrightarrow> length (sc_slots s) < max_jobs) \<and>
     sc_active s = started s + panicked s \<and> sc_peak s \<le> max_jobs + panicked s \<and>
     all_tasks s = mset [0..<n] \<and> (sc_pc s = Returned \<longrightarrow> sc_slots s = [])"

lemma slot_unfinished_le: "sum_list (map slot_unfinished xs) \<le> length xs"
proof (induction xs)
  case (Cons x xs)
  then show ?case by (cases x) auto
qed simp

lemma started_le_unfinished: "started s \<le> unfinished s"
proof -
  have "slot_started x \<le> slot_unfinished x" for x :: "'a slot" by (cases x) auto
  then have "sum_list (map slot_started xs) \<le> sum_list (map slot_unfinished xs)" for xs :: "'a slot list"
    by (simp add: sum_list_mono)
  then show ?thesis by (simp add: sched_counts)
qed

lemma sched_inv_init: "0 < max_jobs \<Longrightarrow> sched_inv max_jobs n (sched_init max_jobs n c)"
  by (simp add: sched_inv_def sched_init_def sched_counts all_tasks_def)

lemma sched_inv_step: "sched_step max_jobs s s' \<Longrightarrow> sched_inv max_jobs n s \<Longrightarrow> sched_inv max_jobs n s'"
proof (induction rule: sched_step.induct)
  case (task_start s xs t ys)
  have "started s < unfinished s"
    using started_le_unfinished [of "s\<lparr>sc_slots := xs @ ys\<rparr>"] task_start.hyps by (simp add: sched_counts)
  with task_start show ?case
    by (simp add: sched_inv_def sched_counts record_start_def all_tasks_def)
next
  case (join_next s xs t r ys)
  then show ?case by (cases r) (auto simp: sched_inv_def sched_counts push_joined_def all_tasks_def)
next
  case (drain_next s xs t r ys)
  then show ?case by (cases r) (auto simp: sched_inv_def sched_counts push_joined_def all_tasks_def)
next
  case (acquire s t)
  then show ?case by (auto simp: sched_inv_def sched_counts all_tasks_def)
next
  case (task_end s xs t ys v)
  then show ?case by (auto simp: sched_inv_def sched_counts record_end_def all_tasks_def)
next
  case (task_panic s xs t ys)
  then show ?case by (auto simp: sched_inv_def sched_counts all_tasks_def)
qed (auto simp: sched_inv_def sched_counts all_tasks_def)

lemma sched_inv_run: "0 < max_jobs \<Longrightarrow> sched_run max_jobs n c s \<Longrightarrow> sched_inv max_jobs n s"
  by (erule rtranclp_induct [where P = "sched_inv max_jobs n"]) (auto intro: sched_inv_init sched_inv_step)

section \<open>Termination\<close>

text \<open>
  Every step uses up some of a potential: a task costs less the further it has got, and a turn
  of the loop is paid for by the task it joins.
\<close>

fun slot_cost :: "'r slot \<Rightarrow> nat" where
  "slot_cost (Spawned t) = 8"
| "slot_cost (Started t) = 7"
| "slot_cost (Finished t r) = 6"

fun pc_cost :: "sched_pc \<Rightarrow> nat" where
  "pc_cost AtLoop = 6"
| "pc_cost AtFill = 5"
| "pc_cost AtTake = 4"
| "pc_cost (AtAcquire t) = 15"
| "pc_cost AtJoin = 3"
| "pc_cost AtDrain = 1"
| "pc_cost Returned = 0"

definition sched_cost :: "'r sched \<Rightarrow> nat" where
  "sched_cost s = 20 * length (sc_pending s) + sum_list (map slot_cost (sc_slots s)) + pc_cost (sc_pc s) +
     (if sc_cancelled s then 0 else 1)"

lemma sched_step_cost: "sched_step max_jobs s s' \<Longrightarrow> sched_cost s' < sched_cost s"
proof (induction rule: sched_step.induct)
  case (join_next s xs t r ys)
  then show ?case by (cases r) (simp_all add: sched_cost_def push_joined_def)
next
  case (drain_next s xs t r ys)
  then show ?case by (cases r) (simp_all add: sched_cost_def push_joined_def)
qed (simp_all add: sched_cost_def record_start_def record_end_def)

lemma slots_progress:
  assumes "sc_slots s \<noteq> []" "\<not> (\<exists>xs t r ys. sc_slots s = xs @ Finished t r # ys)"
  shows "\<exists>s'. sched_step max_jobs s s'"
proof -
  obtain x xs where s: "sc_slots s = [] @ x # xs" using assms(1) by (cases "sc_slots s") auto
  show ?thesis
  proof (cases x)
    case (Spawned t) then show ?thesis using task_start s by metis
  next
    case (Started t) then show ?thesis using task_panic s by metis
  next
    case (Finished t r) then show ?thesis using s assms(2) by blast
  qed
qed

lemma sched_progress:
  assumes "sched_inv max_jobs n s" "sc_pc s \<noteq> Returned"
  shows "\<exists>s'. sched_step max_jobs s s'"
proof (cases "sc_pc s")
  case (AtAcquire t)
  then have "0 < sc_permits s"
    using assms slot_unfinished_le [of "sc_slots s"] by (auto simp: sched_inv_def sched_counts)
  then show ?thesis using acquire AtAcquire by blast
next
  case AtTake
  then show ?thesis using take_none take_task by (cases "sc_pending s") blast+
next
  case AtJoin
  then show ?thesis using join_empty join_next slots_progress by metis
next
  case AtDrain
  then show ?thesis using drain_done drain_next slots_progress by metis
qed (use assms loop_go loop_stop fill_full fill_cancelled fill_more in blast)+

lemma sched_terminates:
  assumes "sched_inv max_jobs n s"
  shows "\<exists>s'. (sched_step max_jobs)\<^sup>*\<^sup>* s s' \<and> sc_pc s' = Returned"
  using assms
proof (induction "sched_cost s" arbitrary: s rule: less_induct)
  case less
  show ?case
  proof (cases "sc_pc s = Returned")
    case False
    then obtain s1 where s1: "sched_step max_jobs s s1" using sched_progress less.prems by blast
    with less.hyps [OF sched_step_cost [OF s1] sched_inv_step [OF s1 less.prems]] show ?thesis
      by (meson converse_rtranclp_into_rtranclp)
  qed auto
qed

section \<open>Results\<close>

lemma scheduler_new_eq: "scheduler_new j = max (unat j) 1"
  by (simp add: scheduler_new_def max_def word_le_nat_alt)

lemma scheduler_new_pos [simp]: "0 < scheduler_new j"
  by (simp add: scheduler_new_eq)

lemma all_tasks_distinct:
  assumes "all_tasks s = mset [0..<n]"
  shows "distinct (sc_pending s @ held_task (sc_pc s) @ map slot_task (sc_slots s) @ map fst (sc_results s) @ sc_panics s)"
    (is "distinct ?ts")
proof -
  have "mset ?ts = mset [0..<n]" using assms by (simp add: all_tasks_def ac_simps)
  then show ?thesis by (metis mset_eq_imp_distinct_iff distinct_upt)
qed

text \<open>
  C18. The scheduler never has more than \<open>max_jobs\<close> tasks spawned and unfinished, at any point of
  any interleaving; the recorded peak is at most \<open>max_jobs\<close> plus the number of tasks that panicked
  (a panic skips \<open>record_end\<close>), and with no panic the active counter is the number of running
  tasks. Every task is in just one place: waiting, running, returned or logged as panicked.
\<close>

theorem scheduler_bounded:
  assumes "sched_run (scheduler_new max_jobs) n cancelled s"
  shows "unfinished s \<le> scheduler_new max_jobs \<and>
    sc_peak s \<le> scheduler_new max_jobs + panicked s \<and>
    sc_active s = started s + panicked s \<and> started s \<le> scheduler_new max_jobs \<and>
    all_tasks s = mset [0..<n] \<and> distinct (map fst (sc_results s))"
proof -
  have I: "sched_inv (scheduler_new max_jobs) n s" using sched_inv_run [OF scheduler_new_pos assms] .
  then have "distinct (map fst (sc_results s))"
    using all_tasks_distinct [of s n] by (simp add: sched_inv_def)
  then show ?thesis using I started_le_unfinished [of s] by (auto simp: sched_inv_def)
qed

definition drain_inv :: "'r sched \<Rightarrow> bool" where
  "drain_inv s \<longleftrightarrow>
     (sc_pc s \<in> {AtDrain, Returned} \<longrightarrow> sc_cancelled s \<or> sc_pending s = []) \<and>
     (sc_pc s = AtJoin \<longrightarrow> sc_cancelled s \<or> sc_pending s = [] \<or> sc_slots s \<noteq> [])"

lemma drain_inv_step: "sched_step max_jobs s s' \<Longrightarrow> 0 < max_jobs \<Longrightarrow> drain_inv s \<Longrightarrow> drain_inv s'"
  by (induction rule: sched_step.induct)
    (auto simp: drain_inv_def push_joined_def record_start_def record_end_def split: option.splits)

lemma drain_inv_init: "drain_inv (sched_init max_jobs n c)"
  by (simp add: drain_inv_def sched_init_def)

lemma drain_inv_run: "0 < max_jobs \<Longrightarrow> sched_run max_jobs n c s \<Longrightarrow> drain_inv s"
  by (erule rtranclp_induct [where P = drain_inv]) (auto intro: drain_inv_step drain_inv_init)

lemma returned_complete:
  assumes "sched_inv max_jobs n s" "drain_inv s" "sc_pc s = Returned" "\<not> sc_cancelled s"
  shows "mset (map fst (sc_results s)) + mset (sc_panics s) = mset [0..<n]"
  using assms by (auto simp: sched_inv_def drain_inv_def all_tasks_def)

lemma cancelled_step:
  "sched_step max_jobs s s' \<Longrightarrow> sc_cancelled s \<Longrightarrow>
   sc_cancelled s' \<and> (sc_pc s' = AtTake \<longrightarrow> sc_pc s = AtTake) \<and>
   (sc_pending s' = sc_pending s \<or> sc_pc s = AtTake \<and> sc_pc s' \<noteq> AtTake \<and> sc_pending s' = tl (sc_pending s))"
  by (induction rule: sched_step.induct) (auto simp: push_joined_def record_start_def record_end_def split: option.splits)

text \<open>
  C19. The scheduler always returns: no run is infinite, and from any state of a run the scheduler
  can go on until it returns (it never waits for a permit or for an empty join set). When it has
  returned and was not cancelled, each task has returned its result or was logged as panicked.
\<close>

theorem scheduler_returns:
  fixes s :: "'r sched"
  assumes "sched_run (scheduler_new max_jobs) n cancelled s"
  shows "wf {(y, x :: 'r sched). sched_step (scheduler_new max_jobs) x y} \<and>
    (\<exists>s'. (sched_step (scheduler_new max_jobs))\<^sup>*\<^sup>* s s' \<and> sc_pc s' = Returned) \<and>
    (sc_pc s = Returned \<longrightarrow> sc_slots s = [] \<and>
      (sc_cancelled s \<or> mset (map fst (sc_results s)) + mset (sc_panics s) = mset [0..<n]))"
proof -
  have I: "sched_inv (scheduler_new max_jobs) n s" using sched_inv_run [OF scheduler_new_pos assms] .
  have "wf {(y, x :: 'r sched). sched_step (scheduler_new max_jobs) x y}"
    by (rule wf_subset [OF wf_measure [of sched_cost]]) (auto dest: sched_step_cost)
  then show ?thesis
    using sched_terminates [OF I] returned_complete [OF I drain_inv_run [OF scheduler_new_pos assms]] I
    by (auto simp: sched_inv_def)
qed

text \<open>
  Cancellation: once the flag is raised no task is taken from the pending ones, save the one
  the loop may be about to take at that moment.
\<close>

theorem cancel_stops_scheduling:
  assumes "(sched_step max_jobs)\<^sup>*\<^sup>* s s'" and "sc_cancelled s"
  shows "sc_cancelled s' \<and>
    (sc_pending s' = sc_pending s \<or> sc_pc s = AtTake \<and> sc_pending s' = tl (sc_pending s))"
proof -
  have "sc_cancelled s' \<and> (sc_pending s' = sc_pending s \<and> (sc_pc s' = AtTake \<longrightarrow> sc_pc s = AtTake) \<or>
      sc_pc s = AtTake \<and> sc_pending s' = tl (sc_pending s) \<and> sc_pc s' \<noteq> AtTake)"
    using assms(1)
  proof (induction rule: rtranclp_induct)
    case (step y z)
    then show ?case using cancelled_step [OF step.hyps(2)] by auto
  qed (use assms(2) in simp)
  then show ?thesis by blast
qed

section \<open>Witnesses\<close>

text \<open>One worker and two tasks: the first task panics, then the second one starts.\<close>

abbreviation demo_sched :: "sched_pc \<Rightarrow> nat list \<Rightarrow> bool slot list \<Rightarrow> nat \<Rightarrow> nat \<Rightarrow> nat list \<Rightarrow> bool sched" where
  "demo_sched pc pending slots permits active panics \<equiv>
     \<lparr>sc_pc = pc, sc_pending = pending, sc_slots = slots, sc_permits = permits, sc_active = active, sc_peak = active,
      sc_results = [], sc_panics = panics, sc_cancelled = False\<rparr>"

lemma sched_run_snoc: "sched_run m n c s \<Longrightarrow> sched_step m s s' \<Longrightarrow> sched_run m n c s'"
  by (rule rtranclp.rtrancl_into_rtrancl)

lemma demo_sched_run:
  "sched_run 1 2 False (demo_sched AtFill [] [Started 1] 0 2 [0])"
proof -
  have "sched_run 1 2 False (demo_sched AtLoop [0, 1] [] 1 0 [])"
    by (simp add: sched_init_def upt_rec)
  then have "sched_run 1 2 False (demo_sched AtFill [0, 1] [] 1 0 [])"
    by (rule sched_run_snoc) (use sched_step.loop_go [where s = "demo_sched AtLoop [0, 1] [] 1 0 []" and max_jobs = 1] in \<open>simp add: push_joined_def record_start_def\<close>)
  then have "sched_run 1 2 False (demo_sched AtTake [0, 1] [] 1 0 [])"
    by (rule sched_run_snoc) (use sched_step.fill_more [where s = "demo_sched AtFill [0, 1] [] 1 0 []" and max_jobs = 1] in \<open>simp add: push_joined_def record_start_def\<close>)
  then have "sched_run 1 2 False (demo_sched (AtAcquire 0) [1] [] 1 0 [])"
    by (rule sched_run_snoc) (use sched_step.take_task [where s = "demo_sched AtTake [0, 1] [] 1 0 []" and max_jobs = 1 and t = 0 and ts = "[1]"] in \<open>simp add: push_joined_def record_start_def\<close>)
  then have "sched_run 1 2 False (demo_sched AtFill [1] [Spawned 0] 0 0 [])"
    by (rule sched_run_snoc) (use sched_step.acquire [where s = "demo_sched (AtAcquire 0) [1] [] 1 0 []" and max_jobs = 1 and t = 0] in \<open>simp add: push_joined_def record_start_def\<close>)
  then have "sched_run 1 2 False (demo_sched AtJoin [1] [Spawned 0] 0 0 [])"
    by (rule sched_run_snoc) (use sched_step.fill_full [where s = "demo_sched AtFill [1] [Spawned 0] 0 0 []" and max_jobs = 1] in \<open>simp add: push_joined_def record_start_def\<close>)
  then have "sched_run 1 2 False (demo_sched AtJoin [1] [Started 0] 0 1 [])"
    by (rule sched_run_snoc) (use sched_step.task_start [where s = "demo_sched AtJoin [1] [Spawned 0] 0 0 []" and max_jobs = 1 and t = 0 and xs = "[]" and ys = "[]"] in \<open>simp add: push_joined_def record_start_def\<close>)
  then have "sched_run 1 2 False (demo_sched AtJoin [1] [Finished 0 None] 1 1 [])"
    by (rule sched_run_snoc) (use sched_step.task_panic [where s = "demo_sched AtJoin [1] [Started 0] 0 1 []" and max_jobs = 1 and t = 0 and xs = "[]" and ys = "[]"] in \<open>simp add: push_joined_def record_start_def\<close>)
  then have "sched_run 1 2 False (demo_sched AtLoop [1] [] 1 1 [0])"
    by (rule sched_run_snoc) (use sched_step.join_next [where s = "demo_sched AtJoin [1] [Finished 0 None] 1 1 []" and max_jobs = 1 and t = 0 and r = None and xs = "[]" and ys = "[]"] in \<open>simp add: push_joined_def record_start_def\<close>)
  then have "sched_run 1 2 False (demo_sched AtFill [1] [] 1 1 [0])"
    by (rule sched_run_snoc) (use sched_step.loop_go [where s = "demo_sched AtLoop [1] [] 1 1 [0]" and max_jobs = 1] in \<open>simp add: push_joined_def record_start_def\<close>)
  then have "sched_run 1 2 False (demo_sched AtTake [1] [] 1 1 [0])"
    by (rule sched_run_snoc) (use sched_step.fill_more [where s = "demo_sched AtFill [1] [] 1 1 [0]" and max_jobs = 1] in \<open>simp add: push_joined_def record_start_def\<close>)
  then have "sched_run 1 2 False (demo_sched (AtAcquire 1) [] [] 1 1 [0])"
    by (rule sched_run_snoc) (use sched_step.take_task [where s = "demo_sched AtTake [1] [] 1 1 [0]" and max_jobs = 1 and t = 1 and ts = "[]"] in \<open>simp add: push_joined_def record_start_def\<close>)
  then have "sched_run 1 2 False (demo_sched AtFill [] [Spawned 1] 0 1 [0])"
    by (rule sched_run_snoc) (use sched_step.acquire [where s = "demo_sched (AtAcquire 1) [] [] 1 1 [0]" and max_jobs = 1 and t = 1] in \<open>simp add: push_joined_def record_start_def\<close>)
  then show ?thesis
    by (rule sched_run_snoc) (use sched_step.task_start [where s = "demo_sched AtFill [] [Spawned 1] 0 1 [0]" and max_jobs = 1 and t = 1 and xs = "[]" and ys = "[]"] in \<open>simp add: push_joined_def record_start_def numeral_2_eq_2\<close>)
qed

lemma demo_sched_cancel:
  "(sched_step 1)\<^sup>*\<^sup>* (sched_init 1 2 True :: bool sched) ((sched_init 1 2 True)\<lparr>sc_pc := Returned\<rparr>)"
proof -
  have "sched_step 1 (sched_init 1 2 True) ((sched_init 1 2 True)\<lparr>sc_pc := AtDrain\<rparr> :: bool sched)"
    by (rule loop_stop) (simp_all add: sched_init_def)
  moreover have "sched_step 1 ((sched_init 1 2 True)\<lparr>sc_pc := AtDrain\<rparr>) ((sched_init 1 2 True)\<lparr>sc_pc := Returned\<rparr> :: bool sched)"
    using drain_done [where s = "(sched_init 1 2 True)\<lparr>sc_pc := AtDrain\<rparr> :: bool sched" and max_jobs = 1]
    by (simp add: sched_init_def)
  ultimately show ?thesis by (meson rtranclp.intros)
qed

lemma scheduler_new_1 [simp]: "scheduler_new 1 = 1"
  by (simp add: scheduler_new_eq)

theorem scheduler_bounded_witness:
  "unfinished (demo_sched AtFill [] [Started 1] 0 2 [0]) \<le> 1 \<and> panicked (demo_sched AtFill [] [Started 1] 0 2 [0]) = 1"
  using scheduler_bounded [where max_jobs = 1, unfolded scheduler_new_1, OF demo_sched_run]
  by (simp add: panicked_def)

theorem scheduler_returns_witness:
  "\<exists>s'. (sched_step 1)\<^sup>*\<^sup>* (demo_sched AtFill [] [Started 1] 0 2 [0]) s' \<and> sc_pc s' = Returned"
  using scheduler_returns [where max_jobs = 1, unfolded scheduler_new_1, OF demo_sched_run] by blast

theorem cancel_stops_scheduling_witness:
  "sc_pending ((sched_init 1 2 True)\<lparr>sc_pc := Returned\<rparr> :: bool sched) = [0, 1]"
  using cancel_stops_scheduling [OF demo_sched_cancel] by (simp add: sched_init_def upt_rec)

text \<open>
  A panicked task leaves the active counter one too high, so the recorded peak can exceed
  \<open>max_jobs\<close> although no two tasks ran at once.
\<close>

lemma panic_inflates_peak: "\<exists>s :: bool sched. sched_run (scheduler_new 1) 2 False s \<and> sc_peak s = 2 \<and> started s = 1"
  using demo_sched_run by (intro exI [of _ "demo_sched AtFill [] [Started 1] 0 2 [0]"]) (simp add: started_def)

end
