(* ===== verification/Orch_Executor_Props.thy ===== *)
theory Orch_Executor_Props
  imports Orch_Executor Orch_Journal Orch_Batch_Props Orch_Scheduler
begin

text \<open>
  Results on the execution of datasets: what an attempt and the retry loop do to the journal,
  proved once over the journal interface; the bound on attempts; and the outcomes of a run.
\<close>

declare retry_loop.simps [simp del]

section \<open>The journal under an attempt\<close>

lemma world_frame [simp]:
  "wd_journal (snd (on_store m w)) = wd_journal w" "wd_journal (snd (on_fs f w)) = wd_journal w"
  "wd_journal (upsert_record J r w) = snd (rj_upsert_dataset J r (wd_journal w))"
  by (simp_all add: on_store_def on_fs_def upsert_record_def split: prod.split)

lemma on_store_journal: "on_store m w = (r, w') \<Longrightarrow> wd_journal w' = wd_journal w"
  using world_frame(1) [of m w] by simp

lemma on_fs_journal: "on_fs m w = (r, w') \<Longrightarrow> wd_journal w' = wd_journal w"
  using world_frame(2) [of m w] by simp

lemma observe_source_journal: "observe_source X n source ds w = (r, w') \<Longrightarrow> wd_journal w' = wd_journal w"
  unfolding observe_source_def
  by (auto simp: eff_bind_apply eff_map_err_def on_store_def split: prod.splits sum.splits)

lemma run_journal_frame:
  "run_storage X rx ds run_id n output scan w = (r, w') \<Longrightarrow> wd_journal w' = wd_journal w"
  "run_local X rx ds n out scan w = (r, w') \<Longrightarrow> wd_journal w' = wd_journal w"
  by (auto simp: run_storage_def run_local_def split: prod.splits sum.splits)

lemmas journal_frame = on_store_journal on_fs_journal observe_source_journal run_journal_frame

lemma record_for_simps [simp]:
  "dr_dataset_id (record_for ds st n fp c m t now e) = dp_dataset_id ds"
  "dr_state (record_for ds st n fp c m t now e) = st"
  "dr_attempts (record_for ds st n fp c m t now e) = n"
  by (simp_all add: record_for_def)

lemma record_for_matches:
  assumes "st = DsSucceeded \<Longrightarrow> fp = Some (fp_digest (dataset_fp (dp_repair_plan ds)))"
  shows "assert_dataset_record_matches_plan ds (record_for ds st n fp c m t now e) = Inr ()"
  using assms by (auto simp: assert_record_Inr record_for_def)

text \<open>The record of a dataset agrees with an outcome and with the plan.\<close>

definition agrees :: "dataset_plan \<Rightarrow> dataset_execution_outcome \<Rightarrow> dataset_run_record \<Rightarrow> bool" where
  "agrees ds o' r \<longleftrightarrow> dr_state r = oc_state o' \<and> dr_attempts r = oc_attempts o' \<and> oc_dataset_id o' = dp_dataset_id ds \<and>
     assert_dataset_record_matches_plan ds r = Inr ()"

context journal
begin

text \<open>Only the record of dataset \<open>i\<close> changed.\<close>

definition touches :: "string \<Rightarrow> 'j \<Rightarrow> 'j \<Rightarrow> bool" where
  "touches i j j' \<longleftrightarrow> ready j' \<and> identity j' = identity j \<and> (\<forall>k. k \<noteq> i \<longrightarrow> records j' k = records j k)"

lemma touches_refl: "ready j \<Longrightarrow> touches i j j"
  by (simp add: touches_def)

lemma touches_trans: "touches i j j1 \<Longrightarrow> touches i j1 j2 \<Longrightarrow> touches i j j2"
  by (simp add: touches_def)

lemma touches_ready: "touches i j j' \<Longrightarrow> ready j'"
  by (simp add: touches_def)

lemma upsert_touches:
  assumes "touches i j (wd_journal w)" "dr_dataset_id r = i"
  shows "touches i j (wd_journal (upsert_record J r w))" "records (wd_journal (upsert_record J r w)) i = Some r"
  using upsert [OF touches_ready [OF assms(1)], of r] assms by (auto simp: touches_def)

lemma note_touches:
  assumes "touches (dp_dataset_id ds) j (wd_journal w)"
  shows "touches (dp_dataset_id ds) j (wd_journal (note_succeeded X J ds n w))"
    and "touches (dp_dataset_id ds) j (wd_journal (note_running X J ds n fp w))"
    and "touches (dp_dataset_id ds) j (wd_journal (note_validated X J ds prior n w))"
  using assms upsert_touches [OF assms]
  by (simp_all add: note_succeeded_def note_running_def note_validated_def del: world_frame)

lemma note_succeeded_agrees:
  assumes "touches (dp_dataset_id ds) j (wd_journal w)"
  shows "\<exists>r. records (wd_journal (note_succeeded X J ds n w)) (dp_dataset_id ds) = Some r \<and>
    agrees ds (succeeded_outcome ds n skipped) r"
  using upsert_touches(2) [OF assms] record_for_matches
  by (auto simp: note_succeeded_def agrees_def succeeded_outcome_def simp del: world_frame)

text \<open>The result of an attempt: a success is recorded, and a failure touched one record at most.\<close>

definition attempt_ok :: "dataset_plan \<Rightarrow> u32 \<Rightarrow> 'j \<Rightarrow> (once_failure, dataset_execution_outcome) res \<times> ('j, 's) world \<Rightarrow> bool" where
  "attempt_ok ds n j rw \<longleftrightarrow> touches (dp_dataset_id ds) j (wd_journal (snd rw)) \<and>
     (case fst rw of Inl _ \<Rightarrow> True
      | Inr o' \<Rightarrow> oc_state o' = DsSucceeded \<and> oc_attempts o' = n \<and>
          (\<exists>r. records (wd_journal (snd rw)) (dp_dataset_id ds) = Some r \<and> agrees ds o' r))"

lemma attempt_ok_fail: "touches (dp_dataset_id ds) j (wd_journal w) \<Longrightarrow> attempt_ok ds n j (Inl f, w)"
  by (simp add: attempt_ok_def)

lemma attempt_ok_succeeded:
  "touches (dp_dataset_id ds) j (wd_journal w) \<Longrightarrow>
   attempt_ok ds n j (Inr (succeeded_outcome ds n skipped), note_succeeded X J ds n w)"
  using note_touches(1) note_succeeded_agrees by (auto simp: attempt_ok_def succeeded_outcome_def)

lemma finish_attempt_ok:
  assumes "touches (dp_dataset_id ds) j (wd_journal (snd rw))"
  shows "attempt_ok ds n j (finish_attempt X J ds n rw)"
proof (cases rw)
  case (Pair r w)
  then have t: "touches (dp_dataset_id ds) j (wd_journal w)" using assms by simp
  show ?thesis
  proof (cases r)
    case (Inl f)
    then show ?thesis
      using attempt_ok_fail [OF t] attempt_ok_fail [OF upsert_touches(1) [OF t record_for_simps(1)]]
      by (cases f) (simp_all add: finish_attempt_def Pair)
  next
    case (Inr u)
    then show ?thesis using attempt_ok_succeeded [OF t] by (simp add: finish_attempt_def Pair)
  qed
qed

lemma joined_ok: "attempt_ok ds n j rw \<Longrightarrow> attempt_ok ds n j (joined X rw)"
  by (auto simp: joined_def attempt_ok_def split: prod.splits sum.splits once_failure.splits)

lemma attempt_storage_ok:
  assumes "touches (dp_dataset_id ds) j (wd_journal w)"
  shows "attempt_ok ds n j (attempt_storage X J rx ds run_id n source output w)"
proof -
  obtain st w1 where w1: "on_store (remote_publication_state (xr_storage X n) output run_id) w = (st, w1)" by fastforce
  obtain q w2 where w2: "observe_source X n source ds w1 = (q, w2)" by fastforce
  have t: "touches (dp_dataset_id ds) j (wd_journal w1)" "touches (dp_dataset_id ds) j (wd_journal w2)"
    using assms journal_frame(1) [OF w1] journal_frame(3) [OF w2] by simp_all
  show ?thesis
  proof (cases q)
    case (Inr fp)
    obtain r w3 where w3: "on_store (xr_scan X source (wd_fs w2)) (note_running X J ds n fp w2) = (r, w3)" by fastforce
    have t3: "touches (dp_dataset_id ds) j (wd_journal w3)"
      using note_touches(2) [OF t(2)] journal_frame(1) [OF w3] by simp
    have "touches (dp_dataset_id ds) j (wd_journal (snd (run_storage X rx ds run_id n output scan w3)))" for scan
      using t3 journal_frame(4) [of X rx ds run_id n "output" scan w3] by (metis prod.collapse)
    from finish_attempt_ok [OF this] show ?thesis
      using attempt_ok_succeeded [OF t(1)] attempt_ok_fail [OF t3]
      by (cases r) (simp_all add: attempt_storage_def w1 w2 w3 Inr)
  next
    case (Inl f)
    then show ?thesis
      using attempt_ok_succeeded [OF t(1)] attempt_ok_fail [OF t(2)] by (simp add: attempt_storage_def w1 w2)
  qed
qed

lemma unlocked:
  "touches i j (wd_journal w) \<Longrightarrow> touches i j (wd_journal (w\<lparr>wd_fs := fs\<rparr>))"
  by simp

lemma attempt_local_ok:
  assumes "touches (dp_dataset_id ds) j (wd_journal w)"
  shows "attempt_ok ds n j (attempt_local X J rx ds run_id n src out w)"
proof -
  obtain l w1 where w1: "on_fs (dataset_lock_acquire out run_id) w = (l, w1)" by fastforce
  obtain q w2 where w2: "observe_source X n (DatasetLocal src) ds w1 = (q, w2)" by fastforce
  have t: "touches (dp_dataset_id ds) j (wd_journal w1)" "touches (dp_dataset_id ds) j (wd_journal w2)"
    using assms journal_frame(2) [OF w1] journal_frame(3) [OF w2] by simp_all
  show ?thesis
  proof (cases q)
    case (Inr fp)
    obtain r w3 where w3: "on_store (xr_scan X (DatasetLocal src) (wd_fs w2)) (note_running X J ds n fp w2) = (r, w3)" by fastforce
    have t3: "touches (dp_dataset_id ds) j (wd_journal w3)"
      using note_touches(2) [OF t(2)] journal_frame(1) [OF w3] by simp
    have "touches (dp_dataset_id ds) j (wd_journal (snd (run_local X rx ds n out scan w3)))" for scan
      using t3 journal_frame(5) [of X rx ds n out scan w3] by (metis prod.collapse)
    then have "touches (dp_dataset_id ds) j (wd_journal (snd (apsnd (\<lambda>v. v\<lparr>wd_fs := dataset_lock_drop out (wd_fs v)\<rparr>)
        (run_local X rx ds n out scan w3))))" for scan
      by (simp add: snd_apsnd)
    from joined_ok [OF finish_attempt_ok [OF this]] show ?thesis
      using attempt_ok_fail [OF t(1)] attempt_ok_fail [OF unlocked [OF t3]]
      by (cases l; cases r) (simp_all add: attempt_local_def w1 w2 w3 Inr Let_def)
  next
    case (Inl f)
    then show ?thesis
      using attempt_ok_fail [OF t(1)] attempt_ok_fail [OF unlocked [OF t(2)]]
      by (cases l) (simp_all add: attempt_local_def w1 w2 Let_def)
  qed
qed

lemma execute_dataset_once_ok:
  assumes "touches (dp_dataset_id ds) j (wd_journal w)"
  shows "attempt_ok ds n j (execute_dataset_once X J rx ds run_id n w)"
proof (cases "parse_location (xr_storage X n) (dp_source_path ds)"; cases "parse_location (xr_storage X n) (dp_output_path ds)")
  fix source dest
  assume p: "parse_location (xr_storage X n) (dp_source_path ds) = Inr source"
    "parse_location (xr_storage X n) (dp_output_path ds) = Inr dest"
  obtain r w1 where w1: "on_store (remote_output_committed (xr_storage X n) dest run_id) w = (r, w1)" by fastforce
  have t: "touches (dp_dataset_id ds) j (wd_journal w1)" using assms journal_frame(1) [OF w1] by simp
  show ?thesis
    using attempt_ok_succeeded [OF t] attempt_local_ok [OF t] attempt_storage_ok [OF t] p w1
    by (cases source; cases dest) (simp_all add: execute_dataset_once_def eff_bind_apply)
qed (use attempt_ok_fail [OF assms] in \<open>simp_all add: execute_dataset_once_def eff_bind_apply\<close>)

lemma note_completed_journal [simp]: "wd_journal (note_completed cfg o' w) = wd_journal w"
  by (simp add: note_completed_def)

lemma upsert_agrees:
  assumes "touches (dp_dataset_id ds) j (wd_journal w)" "dr_state r = oc_state o'" "dr_attempts r = oc_attempts o'"
    "oc_dataset_id o' = dp_dataset_id ds" "dr_dataset_id r = dp_dataset_id ds" "assert_dataset_record_matches_plan ds r = Inr ()"
  shows "touches (dp_dataset_id ds) j (wd_journal (upsert_record J r w)) \<and>
    (\<exists>q. records (wd_journal (upsert_record J r w)) (dp_dataset_id ds) = Some q \<and> agrees ds o' q)"
  using upsert_touches [OF assms(1,5)] assms by (simp add: agrees_def del: world_frame)

lemma retry_loop_ok:
  assumes "retry_loop X J rx cfg ds run_id prior n w = (Inr o', w')" "touches (dp_dataset_id ds) j (wd_journal w)"
  shows "touches (dp_dataset_id ds) j (wd_journal w') \<and>
    (\<exists>r. records (wd_journal w') (dp_dataset_id ds) = Some r \<and> agrees ds o' r)"
  using assms
proof (induction "2 ^ 32 - unat (n + 1)" arbitrary: n w rule: less_induct)
  case less
  note run = less.prems(1) [unfolded retry_loop.simps [of X J rx cfg ds run_id prior n w]]
  show ?case
  proof (cases "wd_cancelled w \<or> xr_cancel_before X n")
    case True
    let ?r = "record_for ds DsCancelled n None (Some FcCancelled) (Some ''batch run cancelled'') None (xr_time X n) (Some (xr_time X n))"
    have t: "touches (dp_dataset_id ds) j (wd_journal (w\<lparr>wd_cancelled := True\<rparr>))" using less.prems(2) by simp
    have m: "assert_dataset_record_matches_plan ds ?r = Inr ()" by (rule record_for_matches) simp
    have res: "o' = cancelled_outcome ds n" "w' = upsert_record J ?r (w\<lparr>wd_cancelled := True\<rparr>)"
      using run True by simp_all
    show ?thesis unfolding res
      by (rule upsert_agrees [OF t _ _ _ record_for_simps(1) m]) (simp_all add: cancelled_outcome_def)
  next
    case False
    obtain q w1 where q: "execute_dataset_once X J rx ds run_id (n + 1) (note_validated X J ds prior (n + 1) w) = (q, w1)"
      by fastforce
    have ok: "attempt_ok ds (n + 1) j (q, w1)"
      using execute_dataset_once_ok [OF note_touches(3) [OF less.prems(2)]] q by metis
    then have t: "touches (dp_dataset_id ds) j (wd_journal w1)" by (simp add: attempt_ok_def)
    show ?thesis
    proof (cases q)
      case (Inr oc)
      then show ?thesis using run False ok by (auto simp: q attempt_ok_def)
    next
      case (Inl f)
      then obtain c m where f: "f = DatasetFailure c m" using run False q by (cases f) auto
      let ?retry = "record_for ds DsFailedRecoverable (n + 1) None (Some c) (Some m) None (xr_time X (n + 1)) None"
      let ?last = "record_for ds (failure_state c) (n + 1) None (Some c) (Some m) (Some (xr_time X (n + 1))) (xr_time X (n + 1)) (Some (xr_time X (n + 1)))"
      show ?thesis
      proof (cases "c = FcRecoverable \<and> n + 1 < max_attempts cfg")
        case True
        with run False q Inl f have "retry_loop X J rx cfg ds run_id prior (n + 1) (upsert_record J ?retry w1) = (Inr o', w')"
          by simp
        from less.hyps [OF attempt_measure [OF True [THEN conjunct2]] this upsert_touches(1) [OF t record_for_simps(1)]]
        show ?thesis .
      next
        case final: False
        have "failure_state c \<noteq> DsSucceeded" by (cases c) simp_all
        then have m: "assert_dataset_record_matches_plan ds ?last = Inr ()" by (intro record_for_matches) simp
        have res: "o' = failed_outcome ds (n + 1) c m" "w' = upsert_record J ?last w1"
          using run False final q Inl f by simp_all
        show ?thesis unfolding res
          by (rule upsert_agrees [OF t _ _ _ record_for_simps(1) m]) (simp_all add: failed_outcome_def)
      qed
    qed
  qed
qed

lemma with_retries_ok:
  assumes "execute_dataset_with_retries X J rx cfg ds run_id prior w = (Inr o', w')" "ready (wd_journal w)"
  shows "touches (dp_dataset_id ds) (wd_journal w) (wd_journal w') \<and>
    (\<exists>r. records (wd_journal w') (dp_dataset_id ds) = Some r \<and> agrees ds o' r)"
  using retry_loop_ok [of X rx cfg ds run_id prior _ "w\<lparr>wd_journal := wd_journal w\<rparr>" o' w' "wd_journal w"] assms touches_refl
  by (simp add: execute_dataset_with_retries_def dataset_read)

end

context sqlite_journal
begin

lemma task_recorded:
  assumes "execute_dataset_with_retries X (sqlite_journal_ops T now) rx cfg ds run_id prior w = (Inr o', w')"
    "sqlite_ready (wd_journal w)"
  shows "sqlite_ready (wd_journal w') \<and>
    (\<forall>i. i \<noteq> dp_dataset_id ds \<longrightarrow> sqlite_records T now (wd_journal w') i = sqlite_records T now (wd_journal w) i) \<and>
    (\<exists>r. sqlite_records T now (wd_journal w') (dp_dataset_id ds) = Some r \<and> agrees ds o' r)"
  using with_retries_ok [OF assms] by (auto simp: touches_def)

end

section \<open>Attempts\<close>

lemma finish_attempt_Inr: "finish_attempt X J ds n rw = (Inr o', w') \<Longrightarrow> \<exists>sk. o' = succeeded_outcome ds n sk"
  by (auto simp: finish_attempt_def split: prod.splits sum.splits once_failure.splits)

lemma joined_Inr: "joined X rw = (Inr o', w') \<Longrightarrow> rw = (Inr o', w')"
  by (auto simp: joined_def split: prod.splits sum.splits once_failure.splits)

lemma once_success: "execute_dataset_once X J rx ds run_id n w = (Inr o', w') \<Longrightarrow> \<exists>sk. o' = succeeded_outcome ds n sk"
  unfolding execute_dataset_once_def eff_bind_apply attempt_local_def attempt_storage_def Let_def
  by (auto split: prod.splits sum.splits if_splits dataset_location.splits dest!: joined_Inr dest: finish_attempt_Inr)

lemma unat_not_max_32: "n \<noteq> - 1 \<Longrightarrow> unat (n :: u32) < 2 ^ 32 - 1"
proof -
  assume "n \<noteq> - 1"
  then have "unat n \<noteq> unat (- 1 :: u32)" by (metis word_unat_eq_iff)
  moreover have "unat (- 1 :: u32) = 2 ^ 32 - 1" by (simp add: unsigned_minus_1_eq_mask mask_eq_exp_minus_1)
  moreover have "unat n < 2 ^ 32" using unsigned_less [of n, where 'a = nat] by simp
  ultimately show ?thesis by linarith
qed

definition attempts_ok :: "batch_executor_config \<Rightarrow> u32 \<Rightarrow> dataset_execution_outcome \<Rightarrow> bool" where
  "attempts_ok cfg n o' \<longleftrightarrow>
     (oc_state o' = DsCancelled \<and> oc_attempts o' = n \<or> n < oc_attempts o') \<and>
     unat (oc_attempts o') \<le> max (unat n + 1) (unat (max_attempts cfg)) \<and>
     (oc_state o' = DsFailedRecoverable \<longrightarrow> max_attempts cfg \<le> oc_attempts o')"

lemma attempts_ok_step:
  assumes "unat n < 2 ^ 32 - 1" "n + 1 < max_attempts cfg" "attempts_ok cfg (n + 1) o'"
  shows "attempts_ok cfg n o'"
proof -
  have u: "unat (n + 1) = unat n + 1" using unat_plus1_32 [OF assms(1)] .
  have "unat n + 1 < unat (max_attempts cfg)" using assms(2) u by (simp add: word_less_nat_alt)
  then show ?thesis using assms(3) by (auto simp: attempts_ok_def word_less_nat_alt u)
qed

lemma attempts_ok_end:
  assumes "unat n < 2 ^ 32 - 1" "oc_attempts o' = n + 1" "oc_state o' = DsFailedRecoverable \<Longrightarrow> \<not> n + 1 < max_attempts cfg"
  shows "attempts_ok cfg n o'"
  using assms unat_plus1_32 [OF assms(1)] by (auto simp: attempts_ok_def word_less_nat_alt word_le_nat_alt not_less)

lemma retry_loop_attempts:
  assumes "retry_loop X J rx cfg ds run_id prior n w = (Inr o', w')" "unat n < 2 ^ 32 - 1"
  shows "attempts_ok cfg n o'"
  using assms
proof (induction "2 ^ 32 - unat (n + 1)" arbitrary: n w rule: less_induct)
  case less
  note run = less.prems(1) [unfolded retry_loop.simps [of X J rx cfg ds run_id prior n w]]
  show ?case
  proof (cases "wd_cancelled w \<or> xr_cancel_before X n")
    case True
    then show ?thesis using run by (auto simp: attempts_ok_def cancelled_outcome_def)
  next
    case False
    obtain q w1 where q: "execute_dataset_once X J rx ds run_id (n + 1) (note_validated X J ds prior (n + 1) w) = (q, w1)"
      by fastforce
    show ?thesis
    proof (cases q)
      case (Inr oc)
      then show ?thesis using run False q once_success [of X J rx ds run_id "n + 1"] less.prems(2)
        by (fastforce simp: succeeded_outcome_def intro: attempts_ok_end)
    next
      case (Inl f)
      then obtain c m where f: "f = DatasetFailure c m" using run False q by (cases f) auto
      show ?thesis
      proof (cases "c = FcRecoverable \<and> n + 1 < max_attempts cfg")
        case True
        have "unat (n + 1) < 2 ^ 32 - 1"
          using True unsigned_less [of "max_attempts cfg", where 'a = nat] by (simp add: word_less_nat_alt)
        then have "attempts_ok cfg (n + 1) o'"
          using less.hyps [OF attempt_measure [OF True [THEN conjunct2]]] run False q Inl f True by simp
        then show ?thesis using attempts_ok_step less.prems(2) True by blast
      next
        case final: False
        have "failure_state c = DsFailedRecoverable \<Longrightarrow> c = FcRecoverable" by (cases c) simp_all
        then show ?thesis using run False q Inl f final less.prems(2)
          by (auto simp: failed_outcome_def intro!: attempts_ok_end)
      qed
    qed
  qed
qed

text \<open>A failure of an attempt never leaves the loop; only a panic or a listing that does not end does.\<close>

lemma retry_loop_escapes:
  assumes "retry_loop X J rx cfg ds run_id prior n w = (Inl f, w')"
  shows "f = OncePanicked \<or> f = OnceDiverges"
  using assms
proof (induction "2 ^ 32 - unat (n + 1)" arbitrary: n w rule: less_induct)
  case less
  note run = less.prems [unfolded retry_loop.simps [of X J rx cfg ds run_id prior n w]]
  obtain q w1 where q: "execute_dataset_once X J rx ds run_id (n + 1) (note_validated X J ds prior (n + 1) w) = (q, w1)"
    by fastforce
  show ?case
  proof (cases "\<exists>m. q = Inl (DatasetFailure FcRecoverable m) \<and> n + 1 < max_attempts cfg")
    case True
    then show ?thesis using less.hyps [OF attempt_measure] run q by (auto split: if_splits)
  next
    case False
    then show ?thesis using run q by (cases f) (auto split: if_splits sum.splits once_failure.splits)
  qed
qed

section \<open>Selection and completion\<close>

lemma select_tasks_member:
  "(d, pr) \<in> set (select_tasks c i mode existing ds) \<Longrightarrow>
   d \<in> set ds \<and> pr = map_option dr_state (find_record existing (dp_dataset_id d)) \<and>
   (mode = Resume \<longrightarrow> (\<forall>r. find_record existing (dp_dataset_id d) = Some r \<longrightarrow> \<not> is_terminal (dr_state r)))"
  by (induction ds arbitrary: i) (auto simp: Let_def is_runnable_def is_terminal_def split: if_splits option.splits)

text \<open>Without cancellation the selection is a filter.\<close>

definition selected :: "execution_mode \<Rightarrow> dataset_run_record list \<Rightarrow> dataset_plan \<Rightarrow> bool" where
  "selected mode existing d \<longleftrightarrow> \<not> (mode = Resume \<and>
     (\<exists>r. find_record existing (dp_dataset_id d) = Some r \<and> is_terminal (dr_state r)))"

lemma select_tasks_filter:
  "map fst (select_tasks (\<lambda>_. False) i mode existing ds) = filter (selected mode existing) ds"
  by (induction ds arbitrary: i) (auto simp: selected_def Let_def is_runnable_def is_terminal_def split: option.splits)

lemma find_record_id: "find_record rs i = Some r \<Longrightarrow> dr_dataset_id r = i"
  by (auto simp: find_record_def find_Some_iff)

lemma recorded_outcome_terminal: "is_terminal (dr_state r) \<Longrightarrow> \<exists>o'. recorded_outcome r = Some o' \<and> oc_dataset_id o' = dr_dataset_id r"
  by (auto simp: recorded_outcome_def)

lemma complete_outcomes_ids:
  assumes "distinct (map dp_dataset_id ds)"
    and "\<forall>d \<in> set ds. dp_dataset_id d \<notin> oc_dataset_id ` set os \<longrightarrow>
      (\<exists>r. find_record existing (dp_dataset_id d) = Some r \<and> is_terminal (dr_state r))"
  shows "mset (map oc_dataset_id (complete_outcomes existing ds os)) =
    mset (map oc_dataset_id os) + mset (filter (\<lambda>i. i \<notin> oc_dataset_id ` set os) (map dp_dataset_id ds))"
  using assms
proof (induction ds arbitrary: os)
  case (Cons d ds)
  show ?case
  proof (cases "dp_dataset_id d \<in> oc_dataset_id ` set os")
    case True
    then have "list_ex (\<lambda>o'. oc_dataset_id o' = dp_dataset_id d) os" by (auto simp: list_ex_iff)
    with True Cons show ?thesis by simp
  next
    case False
    then have n: "\<not> list_ex (\<lambda>o'. oc_dataset_id o' = dp_dataset_id d) os" by (force simp: list_ex_iff image_iff)
    obtain r o' where r: "find_record existing (dp_dataset_id d) = Some r" "recorded_outcome r = Some o'"
      "oc_dataset_id o' = dp_dataset_id d"
      using Cons.prems(2) False recorded_outcome_terminal find_record_id by (metis list.set_intros(1))
    have "filter (\<lambda>i. i \<notin> oc_dataset_id ` set (os @ [o'])) (map dp_dataset_id ds) =
        filter (\<lambda>i. i \<notin> oc_dataset_id ` set os) (map dp_dataset_id ds)"
      using Cons.prems(1) r(3) by (intro filter_cong) (auto, metis imageI)
    then have "mset (filter (\<lambda>i. i \<notin> oc_dataset_id ` set (os @ [o'])) (map dp_dataset_id ds)) =
        mset (filter (\<lambda>i. i \<notin> oc_dataset_id ` set os) (map dp_dataset_id ds))"
      by (rule arg_cong)
    with False n r Cons show ?thesis by simp
  qed
qed simp

lemma map_nth_upt: "map (\<lambda>t. f (xs ! t)) [0..<length xs] = map f xs"
  by (rule nth_equalityI) simp_all

lemma map_filter_key:
  "distinct (map f xs) \<Longrightarrow> map f (filter P xs) = filter (\<lambda>i. i \<in> f ` set (filter P xs)) (map f xs)"
proof -
  assume "distinct (map f xs)"
  then have "inj_on f (set xs)" by (simp add: distinct_map)
  then have "filter (\<lambda>x. f x \<in> f ` set (filter P xs)) xs = filter P xs"
    by (intro filter_cong) (auto dest: inj_onD)
  then show ?thesis by (simp add: filter_map comp_def)
qed

lemma mset_filter_split:
  assumes "distinct xs" "mset ys = mset (filter P xs)"
  shows "mset ys + mset (filter (\<lambda>x. x \<notin> set ys) xs) = mset xs"
proof -
  have s: "set ys = set (filter P xs)" using assms(2) by (metis set_mset_mset)
  then have "filter (\<lambda>x. x \<notin> set ys) xs = filter (\<lambda>x. \<not> P x) xs" by (intro filter_cong) auto
  then show ?thesis using assms(2) by simp
qed

section \<open>Results\<close>

definition demo_dataset_plan :: dataset_plan where
  "demo_dataset_plan = \<lparr>dp_dataset_id = ''a'', dp_source_path = ''file:///d'', dp_output_path = ''file:///o'',
     dp_repair_plan = demo_repair_plan, dp_authorize = []\<rparr>"

definition demo_runtime :: "memory_state exec_runtime" where
  "demo_runtime = \<lparr>xr_env = (\<lambda>_. demo_env), xr_storage = (\<lambda>_. demo_storage_env\<lparr>se_url := demo_url\<rparr>),
     xr_scan = (\<lambda>loc fs. eff_return (demo_scan fs (location_root loc))), xr_show = (\<lambda>_. ''error''), xr_show_lock = (\<lambda>_. ''locked''),
     xr_join_error = ''task panicked'',
     xr_time = (\<lambda>n. 100 + uint n), xr_cancel_before = (\<lambda>_. False), xr_leftover = (\<lambda>_ fs. fs)\<rparr>"

definition demo_world :: "(sqlite_db, memory_state) world" where
  "demo_world = \<lparr>wd_journal = open_journal demo_ts demo_identity, wd_fs = demo_source, wd_store = memory_new CAPS_S3,
     wd_cancelled = False, wd_completed = 0\<rparr>"

abbreviation demo_task ::
  "(once_failure, dataset_execution_outcome) res \<times> (sqlite_db, memory_state) world" where
  "demo_task \<equiv> execute_dataset_with_retries demo_runtime (sqlite_journal_ops demo_ts 0) demo_executor executor_config_default
     demo_dataset_plan ''run-1'' None demo_world"

lemma demo_task_ok: "\<not> isl (fst demo_task)"
  by code_simp

lemma demo_task_state: "oc_state (projr (fst demo_task)) = DsSucceeded"
  by code_simp

lemma demo_task_eq: "demo_task = (Inr (projr (fst demo_task)), snd demo_task)"
  using demo_task_ok by (metis prod.collapse sum.collapse(2))

text \<open>
  C22. Whatever a dataset task does, the journal ends up with what the task reports: when the retry
  loop returns an outcome, the SQLite journal holds a record of that dataset with the state and the
  number of attempts of the outcome, this record agrees with the plan (so that a resume accepts it),
  and the records of the other datasets are as before.
\<close>

theorem outcome_journaled:
  assumes "ts_roundtrip T" and "sqlite_ready (wd_journal w)"
    and "execute_dataset_with_retries X (sqlite_journal_ops T now) rx cfg ds run_id prior w = (Inr o', w')"
  shows "(\<exists>r. sqlite_records T now (wd_journal w') (dp_dataset_id ds) = Some r \<and>
      dr_state r = oc_state o' \<and> dr_attempts r = oc_attempts o' \<and>
      assert_dataset_record_matches_plan ds r = Inr ()) \<and>
    oc_dataset_id o' = dp_dataset_id ds \<and> sqlite_ready (wd_journal w') \<and>
    (\<forall>i. i \<noteq> dp_dataset_id ds \<longrightarrow>
      sqlite_records T now (wd_journal w') i = sqlite_records T now (wd_journal w) i)"
  using sqlite_journal.task_recorded [OF sqlite_journalI [OF assms(1)] assms(3,2)] by (auto simp: agrees_def)

theorem outcome_journaled_witness:
  "\<exists>r. sqlite_records demo_ts 0 (wd_journal (snd demo_task)) ''a'' = Some r \<and> dr_state r = DsSucceeded"
proof -
  have "sqlite_ready (wd_journal demo_world)" by (simp add: demo_world_def)
  from outcome_journaled [OF demo_ts_roundtrip this demo_task_eq] demo_task_state show ?thesis
    by (auto simp: demo_dataset_plan_def)
qed

text \<open>
  C23. The retry loop is bounded and its counter of attempts never decreases. Every call ends in
  an outcome, unless an attempt panics or the listing of a remote source does not end; no failure
  of an attempt escapes. Unless the counter is about to overflow, the attempts of the outcome are
  at least those recorded before, a cancellation included, more than those for any other outcome,
  and at most the larger of one more than those recorded before and \<open>max_retries + 1\<close>; a
  recoverable failure is reported only after \<open>max_retries + 1\<close> attempts.
\<close>

theorem retries_bounded:
  assumes "rj_dataset J (dp_dataset_id ds) (wd_journal w) = (Inr rec, j)"
    and "n = (case rec of None \<Rightarrow> 0 | Some r \<Rightarrow> dr_attempts r)" and "n \<noteq> - 1"
  shows "case fst (execute_dataset_with_retries X J rx cfg ds run_id prior w) of
      Inl f \<Rightarrow> f = OncePanicked \<or> f = OnceDiverges
    | Inr o' \<Rightarrow> n \<le> oc_attempts o' \<and> (oc_state o' \<noteq> DsCancelled \<longrightarrow> n < oc_attempts o') \<and>
        unat (oc_attempts o') \<le> max (unat n + 1) (unat (xc_max_retries cfg) + 1) \<and>
        (oc_state o' = DsFailedRecoverable \<longrightarrow> max_attempts cfg \<le> oc_attempts o')"
proof -
  have eq: "execute_dataset_with_retries X J rx cfg ds run_id prior w = retry_loop X J rx cfg ds run_id prior n (w\<lparr>wd_journal := j\<rparr>)"
    using assms by (cases rec) (simp_all add: execute_dataset_with_retries_def)
  show ?thesis
  proof (cases "fst (execute_dataset_with_retries X J rx cfg ds run_id prior w)")
    case (Inl f)
    then have "f = OncePanicked \<or> f = OnceDiverges" using retry_loop_escapes eq by (metis prod.collapse)
    then show ?thesis using Inl by simp
  next
    case (Inr o')
    then have "attempts_ok cfg n o'" using retry_loop_attempts [OF _ unat_not_max_32 [OF assms(3)]] eq by (metis prod.collapse)
    moreover have "unat (max_attempts cfg) \<le> unat (xc_max_retries cfg) + 1"
      by (simp add: max_attempts_def unat_saturating_add32)
    ultimately show ?thesis using Inr by (auto simp: attempts_ok_def)
  qed
qed

lemma demo_task_attempts: "oc_attempts (projr (fst demo_task)) = 1"
  by code_simp

theorem retries_bounded_witness:
  "0 < oc_attempts (projr (fst demo_task)) \<and> unat (oc_attempts (projr (fst demo_task))) \<le> 3"
proof -
  have read: "rj_dataset (sqlite_journal_ops demo_ts 0) (dp_dataset_id demo_dataset_plan) (wd_journal demo_world) =
      (Inr None, wd_journal demo_world)"
    by (simp add: sqlite_journal_ops_def sqlite_dataset_def demo_world_def open_journal_def ensure_run_def)
  have retries: "xc_max_retries executor_config_default = 2" by (simp add: executor_config_default_def DEFAULT_MAX_RETRIES_def)
  obtain o' where o': "fst demo_task = Inr o'" using demo_task_ok by (cases "fst demo_task") auto
  have "0 < oc_attempts o' \<and> unat (oc_attempts o') \<le> 3"
    using retries_bounded [OF read, where n = 0 and X = demo_runtime and rx = demo_executor and cfg = executor_config_default and run_id = "''run-1''" and prior = None] demo_task_state
    unfolding o' by (simp add: retries)
  then show ?thesis by (simp add: o')
qed

text \<open>
  A resumed run executes exactly the datasets that have no terminal record: a dataset that
  succeeded, was blocked, failed for good, became stale or was cancelled is not run again.
\<close>

theorem resume_selects_unfinished:
  "map fst (select_tasks (\<lambda>_. False) 0 Resume existing ds) =
    filter (\<lambda>d. case find_record existing (dp_dataset_id d) of None \<Rightarrow> True | Some r \<Rightarrow> \<not> is_terminal (dr_state r)) ds"
  unfolding select_tasks_filter by (intro filter_cong) (auto simp: selected_def split: option.splits)

text \<open>
  Every dataset is reported exactly once: when the scheduler has returned from the selected tasks,
  uncancelled and with no panic, and each task returned an outcome of its dataset, the outcomes of the
  run, completed from the journal, name every dataset of the plan once, in a fresh run as in a resumed one.
\<close>

theorem run_reports_every_dataset:
  assumes "tasks = select_tasks (\<lambda>_. False) 0 mode existing ds" and "distinct (map dp_dataset_id ds)"
    and "sched_run (scheduler_new jobs) (length tasks) False s" and "sc_pc s = Returned"
    and "\<not> sc_cancelled s" and "sc_panics s = []"
    and "\<And>t o'. (t, o') \<in> set (sc_results s) \<Longrightarrow> oc_dataset_id o' = dp_dataset_id (fst (tasks ! t))"
  shows "mset (map oc_dataset_id (complete_outcomes existing ds (map snd (sc_results s)))) = mset (map dp_dataset_id ds)"
proof -
  define os where "os = map snd (sc_results s)"
  let ?sel = "filter (selected mode existing) ds"
  have tasks: "map fst tasks = ?sel" using assms(1) select_tasks_filter by simp
  have res: "mset (map fst (sc_results s)) = mset [0..<length tasks]"
    using returned_complete [OF sched_inv_run drain_inv_run, OF scheduler_new_pos assms(3) scheduler_new_pos assms(3-5)] assms(6)
    by simp
  have "map oc_dataset_id os = map (\<lambda>t. dp_dataset_id (fst (tasks ! t))) (map fst (sc_results s))"
    using assms(7) by (auto simp: os_def)
  then have "mset (map oc_dataset_id os) = image_mset (\<lambda>t. dp_dataset_id (fst (tasks ! t))) (mset [0..<length tasks])"
    using res by (metis mset_map)
  also have "\<dots> = mset (map dp_dataset_id (map fst tasks))"
    unfolding mset_map [symmetric] map_nth_upt [of "\<lambda>p. dp_dataset_id (fst p)" tasks] by (simp add: comp_def)
  finally have os: "mset (map oc_dataset_id os) = mset (map dp_dataset_id ?sel)" using tasks by simp
  also have "map dp_dataset_id ?sel = filter (\<lambda>i. i \<in> dp_dataset_id ` set ?sel) (map dp_dataset_id ds)"
    using assms(2) by (rule map_filter_key)
  finally have split: "mset (map oc_dataset_id os) + mset (filter (\<lambda>i. i \<notin> set (map oc_dataset_id os)) (map dp_dataset_id ds)) =
      mset (map dp_dataset_id ds)"
    by (rule mset_filter_split [OF assms(2)])
  have "\<exists>r. find_record existing (dp_dataset_id d) = Some r \<and> is_terminal (dr_state r)"
    if "d \<in> set ds" "dp_dataset_id d \<notin> oc_dataset_id ` set os" for d
  proof -
    have "dp_dataset_id ` set ?sel = oc_dataset_id ` set os" using os by (metis set_map set_mset_mset)
    then have "\<not> selected mode existing d" using that by auto
    then show ?thesis by (simp add: selected_def)
  qed
  then show ?thesis
    using complete_outcomes_ids [OF assms(2), of os existing] split unfolding os_def [symmetric] by simp
qed

text \<open>One worker and one task that returns \<open>v\<close>.\<close>

abbreviation single_sched ::
  "sched_pc \<Rightarrow> nat list \<Rightarrow> 'r slot list \<Rightarrow> nat \<Rightarrow> nat \<Rightarrow> nat \<Rightarrow> (nat \<times> 'r) list \<Rightarrow> 'r sched" where
  "single_sched pc pending slots permits active peak results \<equiv>
     \<lparr>sc_pc = pc, sc_pending = pending, sc_slots = slots, sc_permits = permits, sc_active = active, sc_peak = peak,
      sc_results = results, sc_panics = [], sc_cancelled = False\<rparr>"

lemma single_sched_run: "sched_run 1 1 False (single_sched Returned [] [] 1 0 1 [(0, v)])"
proof -
  have "sched_run 1 1 False (single_sched AtLoop [0] [] 1 0 0 [])" by (simp add: sched_init_def)
  then have "sched_run 1 1 False (single_sched AtFill [0] [] 1 0 0 [])"
    by (rule sched_run_snoc) (use sched_step.loop_go [where s = "single_sched AtLoop [0] [] 1 0 0 []" and max_jobs = 1] in \<open>simp add: push_joined_def record_start_def record_end_def\<close>)
  then have "sched_run 1 1 False (single_sched AtTake [0] [] 1 0 0 [])"
    by (rule sched_run_snoc) (use sched_step.fill_more [where s = "single_sched AtFill [0] [] 1 0 0 []" and max_jobs = 1] in \<open>simp add: push_joined_def record_start_def record_end_def\<close>)
  then have "sched_run 1 1 False (single_sched (AtAcquire 0) [] [] 1 0 0 [])"
    by (rule sched_run_snoc) (use sched_step.take_task [where s = "single_sched AtTake [0] [] 1 0 0 []" and max_jobs = 1 and t = 0 and ts = "[]"] in \<open>simp add: push_joined_def record_start_def record_end_def\<close>)
  then have "sched_run 1 1 False (single_sched AtFill [] [Spawned 0] 0 0 0 [])"
    by (rule sched_run_snoc) (use sched_step.acquire [where s = "single_sched (AtAcquire 0) [] [] 1 0 0 []" and max_jobs = 1 and t = 0] in \<open>simp add: push_joined_def record_start_def record_end_def\<close>)
  then have "sched_run 1 1 False (single_sched AtJoin [] [Spawned 0] 0 0 0 [])"
    by (rule sched_run_snoc) (use sched_step.fill_full [where s = "single_sched AtFill [] [Spawned 0] 0 0 0 []" and max_jobs = 1] in \<open>simp add: push_joined_def record_start_def record_end_def\<close>)
  then have "sched_run 1 1 False (single_sched AtJoin [] [Started 0] 0 1 1 [])"
    by (rule sched_run_snoc) (use sched_step.task_start [where s = "single_sched AtJoin [] [Spawned 0] 0 0 0 []" and max_jobs = 1 and t = 0 and xs = "[]" and ys = "[]"] in \<open>simp add: push_joined_def record_start_def record_end_def\<close>)
  then have "sched_run 1 1 False (single_sched AtJoin [] [Finished 0 (Some v)] 1 0 1 [])"
    by (rule sched_run_snoc) (use sched_step.task_end [where s = "single_sched AtJoin [] [Started 0] 0 1 1 []" and max_jobs = 1 and t = 0 and xs = "[]" and ys = "[]" and v = v] in \<open>simp add: push_joined_def record_start_def record_end_def\<close>)
  then have "sched_run 1 1 False (single_sched AtLoop [] [] 1 0 1 [(0, v)])"
    by (rule sched_run_snoc) (use sched_step.join_next [where s = "single_sched AtJoin [] [Finished 0 (Some v)] 1 0 1 []" and max_jobs = 1 and t = 0 and r = "Some v" and xs = "[]" and ys = "[]"] in \<open>simp add: push_joined_def record_start_def record_end_def\<close>)
  then have "sched_run 1 1 False (single_sched AtFill [] [] 1 0 1 [(0, v)])"
    by (rule sched_run_snoc) (use sched_step.loop_go [where s = "single_sched AtLoop [] [] 1 0 1 [(0, v)]" and max_jobs = 1] in \<open>simp add: push_joined_def record_start_def record_end_def\<close>)
  then have "sched_run 1 1 False (single_sched AtTake [] [] 1 0 1 [(0, v)])"
    by (rule sched_run_snoc) (use sched_step.fill_more [where s = "single_sched AtFill [] [] 1 0 1 [(0, v)]" and max_jobs = 1] in \<open>simp add: push_joined_def record_start_def record_end_def\<close>)
  then have "sched_run 1 1 False (single_sched AtJoin [] [] 1 0 1 [(0, v)])"
    by (rule sched_run_snoc) (use sched_step.take_none [where s = "single_sched AtTake [] [] 1 0 1 [(0, v)]" and max_jobs = 1] in \<open>simp add: push_joined_def record_start_def record_end_def\<close>)
  then have "sched_run 1 1 False (single_sched AtDrain [] [] 1 0 1 [(0, v)])"
    by (rule sched_run_snoc) (use sched_step.join_empty [where s = "single_sched AtJoin [] [] 1 0 1 [(0, v)]" and max_jobs = 1] in \<open>simp add: push_joined_def record_start_def record_end_def\<close>)
  then show ?thesis
    by (rule sched_run_snoc) (use sched_step.drain_done [where s = "single_sched AtDrain [] [] 1 0 1 [(0, v)]" and max_jobs = 1] in \<open>simp add: push_joined_def record_start_def record_end_def\<close>)
qed

text \<open>A resumed run of two datasets: the first succeeded before, the second is run.\<close>

definition demo_second_plan :: dataset_plan where
  "demo_second_plan = demo_dataset_plan\<lparr>dp_dataset_id := ''b''\<rparr>"

theorem run_reports_every_dataset_witness:
  "mset (map oc_dataset_id (complete_outcomes [demo_record ''a'' DsSucceeded] [demo_dataset_plan, demo_second_plan]
     [succeeded_outcome demo_second_plan 1 False])) = {#''a'', ''b''#}"
proof -
  have t: "[(demo_second_plan, None)] =
      select_tasks (\<lambda>_. False) 0 Resume [demo_record ''a'' DsSucceeded] [demo_dataset_plan, demo_second_plan]"
    by (simp add: demo_dataset_plan_def demo_second_plan_def demo_record_def find_record_def)
  have "sched_run (scheduler_new 1) (length [(demo_second_plan, None :: dataset_state option)]) False
      (single_sched Returned [] [] 1 0 1 [(0, succeeded_outcome demo_second_plan 1 False)])"
    using single_sched_run by simp
  from run_reports_every_dataset [OF t _ this] show ?thesis
    by (simp add: demo_dataset_plan_def demo_second_plan_def succeeded_outcome_def)
qed

end
