(* ===== verification/Orch_Run.thy ===== *)
theory Orch_Run
  imports Orch_Executor_Props
begin

text \<open>
  Runs of a batch (\<open>run.rs\<close>, \<open>report.rs\<close>, \<open>verify.rs\<close>): when a run is complete, what a resume does before
  and after the datasets are executed, the status of a run, the aggregate report with its exit
  code, and the verification of a batch.
\<close>

section \<open>Options and completion\<close>

record batch_run_options =
  ro_dry_run :: bool
  ro_jobs :: "u32 option"
  ro_cancelled :: bool
  ro_interrupt_after_completed :: "nat option"

definition validate_options :: "batch_run_options \<Rightarrow> (orchestrator_error, unit) res" where
  "validate_options o' =
     (if ro_jobs o' = Some 0 then Inl (InvalidConfig ''jobs must be >= 1 when specified'') else Inr ())"

definition effective_jobs :: "batch_run_options \<Rightarrow> batch_plan \<Rightarrow> u32" where
  "effective_jobs o' p = (case ro_jobs o' of None \<Rightarrow> bp_max_concurrency p | Some j \<Rightarrow> j)"

definition run_is_complete :: "batch_plan \<Rightarrow> dataset_run_record list \<Rightarrow> bool" where
  "run_is_complete p rs =
     list_all (\<lambda>d. case find_record rs (dp_dataset_id d) of None \<Rightarrow> False | Some r \<Rightarrow> is_terminal (dr_state r)) (bp_datasets p)"

definition RUNS_DIR :: path where "RUNS_DIR = ''.parqonaut/runs''"

definition run_directory :: "path \<Rightarrow> string \<Rightarrow> path" where
  "run_directory root run_id = path_join (path_join root RUNS_DIR) run_id"

section \<open>Starting, resuming and ending a run\<close>

definition new_identity :: "batch_env \<Rightarrow> batch_plan \<Rightarrow> string \<Rightarrow> timestamp \<Rightarrow> run_identity" where
  "new_identity env p run_id now =
     \<lparr>ri_run_id = run_id, ri_batch_plan_id = bp_batch_plan_id p, ri_config_fingerprint = bp_config_fingerprint p,
      ri_batch_name = bp_batch_name p, ri_output_root = bp_output_root p, ri_parqonaut_version = be_version env,
      ri_plan_digest = plan_digest env p, ri_started_at = now, ri_updated_at = now, ri_completed_at = None,
      ri_cancelled_at = None\<rparr>"

definition read_identity :: "'j run_journal \<Rightarrow> ('j, orchestrator_error, run_identity) eff" where
  "read_identity J = eff_bind (rj_run_identity J) (\<lambda>i. eff_lift (ok_or (JournalError ''missing run identity'') i))"

definition check_run :: "batch_env \<Rightarrow> 'j run_journal \<Rightarrow> batch_plan \<Rightarrow> ('j, orchestrator_error, run_identity \<times> dataset_run_record list) eff" where
  "check_run env J p =
     eff_bind (read_identity J) (\<lambda>i.
     eff_bind (eff_lift (assert_plan_matches_identity env p i)) (\<lambda>_.
     eff_bind (rj_list_datasets J) (\<lambda>rs.
     eff_bind (eff_lift (assert_datasets_match_plan p rs)) (\<lambda>_. eff_return (i, rs)))))"

text \<open>What a resume decides to do: preview, nothing, or execute the unfinished datasets.\<close>

datatype resume_decision = ResumePreview dry_run_report | AlreadyCompleted | ResumeExecutes

definition resume_batch ::
  "batch_env \<Rightarrow> 'j run_journal \<Rightarrow> batch_plan \<Rightarrow> batch_run_options \<Rightarrow> timestamp \<Rightarrow> ('j, orchestrator_error, resume_decision) eff" where
  "resume_batch env J p opts now =
     eff_bind (eff_lift (validate_options opts)) (\<lambda>_.
     eff_bind (check_run env J p) (\<lambda>(i, rs).
       if ro_dry_run opts then eff_bind (eff_lift (dry_run (be_url env) p)) (\<lambda>d. eff_return (ResumePreview d))
       else if run_is_complete p rs then
         (if ri_completed_at i = None then eff_bind (rj_mark_run_completed J now) (\<lambda>_. eff_return AlreadyCompleted)
          else eff_return AlreadyCompleted)
       else eff_bind (check_run env J p) (\<lambda>_. eff_bind (recover_journal_states J now) (\<lambda>_. eff_return ResumeExecutes))))"

definition end_run ::
  "'j run_journal \<Rightarrow> batch_plan \<Rightarrow> bool \<Rightarrow> timestamp \<Rightarrow> ('j, orchestrator_error, dataset_run_record list) eff" where
  "end_run J p cancelled now =
     eff_bind (rj_list_datasets J) (\<lambda>rs.
     eff_bind (if cancelled then rj_mark_run_cancelled J now
               else if run_is_complete p rs then rj_mark_run_completed J now else eff_return ()) (\<lambda>_.
       eff_return rs))"

section \<open>Report\<close>

record state_counts =
  ct_pending :: u32
  ct_running :: u32
  ct_succeeded :: u32
  ct_failed_recoverable :: u32
  ct_failed_permanent :: u32
  ct_blocked :: u32
  ct_cancelled :: u32
  ct_stale_source :: u32
  ct_verification_failed :: u32
  ct_other :: u32

definition counts_default :: state_counts where
  "counts_default = \<lparr>ct_pending = 0, ct_running = 0, ct_succeeded = 0, ct_failed_recoverable = 0, ct_failed_permanent = 0,
     ct_blocked = 0, ct_cancelled = 0, ct_stale_source = 0, ct_verification_failed = 0, ct_other = 0\<rparr>"

fun count_state :: "dataset_state \<Rightarrow> state_counts \<Rightarrow> state_counts" where
  "count_state DsPending c = c\<lparr>ct_pending := ct_pending c + 1\<rparr>"
| "count_state DsPlanningValidated c = c\<lparr>ct_pending := ct_pending c + 1\<rparr>"
| "count_state DsRunning c = c\<lparr>ct_running := ct_running c + 1\<rparr>"
| "count_state DsRepairComplete c = c\<lparr>ct_running := ct_running c + 1\<rparr>"
| "count_state DsVerifying c = c\<lparr>ct_running := ct_running c + 1\<rparr>"
| "count_state DsSucceeded c = c\<lparr>ct_succeeded := ct_succeeded c + 1\<rparr>"
| "count_state DsFailedRecoverable c = c\<lparr>ct_failed_recoverable := ct_failed_recoverable c + 1\<rparr>"
| "count_state DsFailedPermanent c = c\<lparr>ct_failed_permanent := ct_failed_permanent c + 1\<rparr>"
| "count_state DsBlocked c = c\<lparr>ct_blocked := ct_blocked c + 1\<rparr>"
| "count_state DsCancelled c = c\<lparr>ct_cancelled := ct_cancelled c + 1\<rparr>"
| "count_state DsStaleSource c = c\<lparr>ct_stale_source := ct_stale_source c + 1\<rparr>"
| "count_state DsVerificationFailed c = c\<lparr>ct_verification_failed := ct_verification_failed c + 1\<rparr>"

definition count_states :: "dataset_run_record list \<Rightarrow> state_counts" where
  "count_states rs = fold (\<lambda>r c. count_state (dr_state r) c) rs counts_default"

record dataset_verify_result =
  vf_dataset_id :: string
  vf_outcome :: verification_outcome
  vf_message :: string

record batch_verification_summary =
  vs_ok :: bool
  vs_passed :: u32
  vs_failed :: u32
  vs_skipped :: u32

record dataset_report_entry =
  en_dataset_id :: string
  en_output_path :: string
  en_state :: dataset_state
  en_attempts :: u32
  en_repair_plan_id :: string
  en_policy_fingerprint :: string
  en_source_fingerprint :: "string option"
  en_error_class :: "failure_class option"
  en_error_message :: "string option"
  en_manifest_path :: "string option"
  en_verification :: "dataset_verify_result option"

record batch_aggregate_report =
  ag_run_id :: string
  ag_batch_plan_id :: string
  ag_config_fingerprint :: string
  ag_plan_digest :: string
  ag_output_root :: string
  ag_parqonaut_version :: string
  ag_max_concurrency :: u32
  ag_started_at :: timestamp
  ag_completed_at :: "timestamp option"
  ag_cancelled_at :: "timestamp option"
  ag_dataset_count :: nat
  ag_state_counts :: state_counts
  ag_datasets :: "dataset_report_entry list"
  ag_verification :: "batch_verification_summary option"

definition report_entry :: "(string \<times> dataset_verify_result) list \<Rightarrow> dataset_run_record \<Rightarrow> dataset_report_entry" where
  "report_entry verified r =
     \<lparr>en_dataset_id = dr_dataset_id r, en_output_path = dr_output_path r, en_state = dr_state r, en_attempts = dr_attempts r,
      en_repair_plan_id = dr_repair_plan_id r, en_policy_fingerprint = dr_policy_fingerprint r,
      en_source_fingerprint = dr_source_fingerprint r, en_error_class = dr_error_class r, en_error_message = dr_error_message r,
      en_manifest_path = (if dr_state r = DsSucceeded
        then Some (trim_end_matches (CHR ''/'') (dr_output_path r) @ ''/.parqonaut-manifest.json'') else None),
      en_verification = map_of verified (dr_dataset_id r)\<rparr>"

definition build_aggregate_report ::
  "batch_plan \<Rightarrow> run_identity \<Rightarrow> dataset_run_record list \<Rightarrow> batch_verification_summary option \<Rightarrow>
   (string \<times> dataset_verify_result) list \<Rightarrow> batch_aggregate_report" where
  "build_aggregate_report p i rs verification verified =
     \<lparr>ag_run_id = ri_run_id i, ag_batch_plan_id = ri_batch_plan_id i, ag_config_fingerprint = ri_config_fingerprint i,
      ag_plan_digest = ri_plan_digest i, ag_output_root = ri_output_root i, ag_parqonaut_version = bp_parqonaut_version p,
      ag_max_concurrency = bp_max_concurrency p, ag_started_at = ri_started_at i, ag_completed_at = ri_completed_at i,
      ag_cancelled_at = ri_cancelled_at i, ag_dataset_count = length (bp_datasets p), ag_state_counts = count_states rs,
      ag_datasets = map (report_entry verified) rs, ag_verification = verification\<rparr>"

definition exit_code :: "batch_aggregate_report \<Rightarrow> int" where
  "exit_code a =
     (if ag_cancelled_at a \<noteq> None then 130
      else if ct_succeeded (ag_state_counts a) = of_nat (ag_dataset_count a) then 0
      else if ct_succeeded (ag_state_counts a) > 0 then 2
      else 1)"

section \<open>Status\<close>

record batch_status_report =
  bt_identity :: run_identity
  bt_state_counts :: state_counts
  bt_datasets :: "dataset_run_record list"
  bt_resumable :: bool
  bt_completed :: bool

definition read_status :: "'j run_journal \<Rightarrow> batch_plan \<Rightarrow> ('j, orchestrator_error, batch_status_report) eff" where
  "read_status J p =
     eff_bind (read_identity J) (\<lambda>i.
     eff_bind (rj_list_datasets J) (\<lambda>rs.
       let completed = run_is_complete p rs
       in eff_return \<lparr>bt_identity = i, bt_state_counts = count_states rs, bt_datasets = rs,
            bt_resumable = (\<not> completed \<and> (ri_cancelled_at i \<noteq> None \<or> length rs < length (bp_datasets p) \<or>
              list_ex (\<lambda>r. is_runnable (dr_state r) \<or> dr_state r = DsFailedRecoverable \<or> dr_state r = DsCancelled) rs)),
            bt_completed = completed\<rparr>))"

section \<open>Verification of a batch\<close>

text \<open>
  The scans of a directory and of a location, the manifest of an output (\<^const>\<open>None\<close> when there is
  no such file), and whether a remote version is committed.
\<close>

record verify_env =
  ve_url :: url_parser
  ve_hasher :: hasher
  ve_inspect :: inspector
  ve_uuid :: "nat \<Rightarrow> string"
  ve_scan_directory :: "path \<Rightarrow> (repair_error, scan_report) res"
  ve_scan_location :: "dataset_location \<Rightarrow> (orchestrator_error, scan_report) res"
  ve_manifest :: "path \<Rightarrow> (repair_error, execution_manifest) res option"
  ve_committed :: "dataset_location \<Rightarrow> string \<Rightarrow> (orchestrator_error, bool) res"

record batch_verify_report =
  vb_ok :: bool
  vb_datasets :: "dataset_verify_result list"
  vb_passed :: u32
  vb_failed :: u32
  vb_skipped :: u32

definition MANIFEST_NAME :: string where "MANIFEST_NAME = ''.parqonaut-manifest.json''"

definition local_manifest_if_present :: "verify_env \<Rightarrow> dataset_location \<Rightarrow> execution_manifest option" where
  "local_manifest_if_present V output =
     (case output of
        DatasetS3 _ \<Rightarrow> None
      | DatasetLocal p \<Rightarrow> (case ve_manifest V (path_join p MANIFEST_NAME) of Some (Inr m) \<Rightarrow> Some m | _ \<Rightarrow> None))"

definition uses_remote :: "dataset_plan \<Rightarrow> bool" where
  "uses_remote d = (str_starts_with (dp_source_path d) ''s3://'' \<or> str_starts_with (dp_output_path d) ''s3://'')"

definition verify_inputs ::
  "verify_env \<Rightarrow> dataset_plan \<Rightarrow>
   (orchestrator_error, scan_report \<times> scan_report \<times> path \<times> path \<times> execution_manifest option) res" where
  "verify_inputs V d =
     (if uses_remote d then
        bind_res (parse_location_config (ve_url V) (dp_source_path d)) (\<lambda>src.
        bind_res (parse_location_config (ve_url V) (dp_output_path d)) (\<lambda>out.
        bind_res (ve_scan_location V src) (\<lambda>before.
        bind_res (ve_scan_location V out) (\<lambda>after.
          Inr (before, after, location_root src, location_root out, local_manifest_if_present V out)))))
      else
        bind_res (map_err OrchRepair (ve_scan_directory V (dp_source_path d))) (\<lambda>before.
        bind_res (map_err OrchRepair (ve_scan_directory V (dp_output_path d))) (\<lambda>after.
        bind_res (case ve_manifest V (path_join (dp_output_path d) MANIFEST_NAME) of
            None \<Rightarrow> Inr None | Some r \<Rightarrow> bind_res (map_err OrchRepair r) (\<lambda>m. Inr (Some m))) (\<lambda>manifest.
          Inr (before, after, dp_source_path d, dp_output_path d, manifest)))))"

definition verify_dataset ::
  "verify_env \<Rightarrow> string option \<Rightarrow> dataset_plan \<Rightarrow> (orchestrator_error, bool \<times> verification_report) res" where
  "verify_dataset V run_id d =
     bind_res (verify_inputs V d) (\<lambda>(before, after, src_root, out_root, manifest).
     bind_res (map_err OrchRepair (verify_repair (ve_hasher V) (ve_inspect V) (ve_uuid V) before after src_root out_root
       (ep_repair (effective_policy_from_toml None)) manifest)) (\<lambda>report.
       let ok = (vr_outcome report = Verified \<or> vr_outcome report = VerifiedWithWarnings)
       in if ok \<and> str_starts_with (dp_output_path d) ''s3://''
          then bind_res (parse_location_config (ve_url V) (dp_output_path d)) (\<lambda>out.
               bind_res (ve_committed V out (case run_id of None \<Rightarrow> ''batch-run'' | Some r \<Rightarrow> r)) (\<lambda>committed.
                 Inr (committed, report)))
          else Inr (ok, report)))"

definition verify_result :: "dataset_plan \<Rightarrow> bool \<Rightarrow> verification_report \<Rightarrow> dataset_verify_result" where
  "verify_result d ok report =
     \<lparr>vf_dataset_id = dp_dataset_id d, vf_outcome = (if ok then vr_outcome report else VerificationFailed),
      vf_message = ''resolved='' @ show_nat (length (vr_resolved report)) @ '' remaining='' @
        show_nat (length (vr_remaining report)) @ '' new='' @ show_nat (length (vr_new report))\<rparr>"

definition skipped_result :: "dataset_plan \<Rightarrow> dataset_state \<Rightarrow> dataset_verify_result" where
  "skipped_result d st =
     \<lparr>vf_dataset_id = dp_dataset_id d, vf_outcome = VerificationFailed,
      vf_message = ''dataset state is '' @ state_debug st @ '', expected succeeded''\<rparr>"

fun verify_datasets ::
  "verify_env \<Rightarrow> string option \<Rightarrow> dataset_run_record list \<Rightarrow> dataset_plan list \<Rightarrow> batch_verify_report \<Rightarrow>
   (orchestrator_error, batch_verify_report) res" where
  "verify_datasets V run_id rs [] acc = Inr acc"
| "verify_datasets V run_id rs (d # ds) acc =
     (case find_record rs (dp_dataset_id d) of
        None \<Rightarrow> Inl (InvalidConfig (''missing journal record for dataset `'' @ dp_dataset_id d @ ''`''))
      | Some r \<Rightarrow>
          if dr_state r \<noteq> DsSucceeded
          then verify_datasets V run_id rs ds (acc\<lparr>vb_skipped := vb_skipped acc + 1,
                 vb_datasets := vb_datasets acc @ [skipped_result d (dr_state r)]\<rparr>)
          else bind_res (verify_dataset V run_id d) (\<lambda>(ok, report).
            verify_datasets V run_id rs ds
              ((if ok then acc\<lparr>vb_passed := vb_passed acc + 1\<rparr> else acc\<lparr>vb_failed := vb_failed acc + 1\<rparr>)
                \<lparr>vb_datasets := vb_datasets acc @ [verify_result d ok report]\<rparr>)))"

definition verify_batch ::
  "verify_env \<Rightarrow> batch_plan \<Rightarrow> dataset_run_record list \<Rightarrow> string option \<Rightarrow> (orchestrator_error, batch_verify_report) res" where
  "verify_batch V p rs run_id =
     bind_res (validate_plan_version p) (\<lambda>_.
     bind_res (verify_datasets V run_id rs (bp_datasets p)
       \<lparr>vb_ok = True, vb_datasets = [], vb_passed = 0, vb_failed = 0, vb_skipped = 0\<rparr>) (\<lambda>a.
       Inr (a\<lparr>vb_ok := (vb_failed a = 0)\<rparr>)))"

end
