(* ===== verification/Orch_Run_Props.thy ===== *)
theory Orch_Run_Props
  imports Orch_Run
begin

text \<open>
  Results on runs: the exit code, what a resume does, and the verification of local batches.
\<close>

section \<open>Counts and the exit code\<close>

lemma count_state_succeeded: "ct_succeeded (count_state s c) = ct_succeeded c + (if s = DsSucceeded then 1 else 0)"
  by (cases s) simp_all

lemma fold_count_succeeded:
  "ct_succeeded (fold (\<lambda>r c. count_state (dr_state r) c) rs c) =
   ct_succeeded c + of_nat (length (filter (\<lambda>r. dr_state r = DsSucceeded) rs))"
  by (induction rs arbitrary: c) (simp_all add: count_state_succeeded)

lemma count_states_succeeded:
  "ct_succeeded (count_states rs) = of_nat (length (filter (\<lambda>r. dr_state r = DsSucceeded) rs))"
  by (simp add: count_states_def fold_count_succeeded counts_default_def)

lemma of_nat_u32_eq: "m < 2 ^ 32 \<Longrightarrow> n < 2 ^ 32 \<Longrightarrow> (of_nat m :: u32) = of_nat n \<longleftrightarrow> m = n"
  by (simp add: word_unat_eq_iff unsigned_of_nat take_bit_nat_eq_self)

lemma all_succeeded_iff:
  fixes rs :: "dataset_run_record list" and ds :: "dataset_plan list"
  assumes "distinct (map dr_dataset_id rs)" "distinct (map dp_dataset_id ds)"
    "dr_dataset_id ` set rs \<subseteq> dp_dataset_id ` set ds"
  shows "length (filter (\<lambda>r. dr_state r = DsSucceeded) rs) = length ds \<longleftrightarrow>
    (\<forall>d \<in> set ds. \<exists>r \<in> set rs. dr_dataset_id r = dp_dataset_id d \<and> dr_state r = DsSucceeded)"
proof -
  let ?ok = "filter (\<lambda>r. dr_state r = DsSucceeded) rs" and ?ids = "dp_dataset_id ` set ds"
  have d: "distinct (map dr_dataset_id ?ok)" using assms(1) by (rule distinct_map_filter)
  have len: "length ?ok = card (dr_dataset_id ` set ?ok)" using distinct_card [OF d] by simp
  have lds: "length ds = card ?ids" using distinct_card [OF assms(2)] by simp
  have sub: "dr_dataset_id ` set ?ok \<subseteq> ?ids" using assms(3) by auto
  have "length ?ok = length ds \<longleftrightarrow> dr_dataset_id ` set ?ok = ?ids"
    unfolding len lds using sub by (metis List.finite_set card_subset_eq finite_imageI)
  also have "\<dots> \<longleftrightarrow> ?ids \<subseteq> dr_dataset_id ` set ?ok" using sub by blast
  also have "\<dots> \<longleftrightarrow> (\<forall>d \<in> set ds. dp_dataset_id d \<in> dr_dataset_id ` set ?ok)" by (simp add: image_subset_iff)
  also have "\<dots> \<longleftrightarrow> (\<forall>d \<in> set ds. \<exists>r \<in> set rs. dr_dataset_id r = dp_dataset_id d \<and> dr_state r = DsSucceeded)"
  proof -
    have "dp_dataset_id d \<in> dr_dataset_id ` set ?ok \<longleftrightarrow>
        (\<exists>r \<in> set rs. dr_dataset_id r = dp_dataset_id d \<and> dr_state r = DsSucceeded)" for d :: dataset_plan
      by (simp add: image_iff eq_commute [of "dp_dataset_id d"]) blast
    then show ?thesis by simp
  qed
  finally show ?thesis .
qed

text \<open>
  The exit code of a batch: for records of distinct datasets of the plan, the code is 0 exactly
  when the run was never cancelled and every dataset of the plan has a succeeded record; it is 130 exactly
  when the run was cancelled, at any time.
\<close>

theorem exit_code_spec:
  assumes "distinct (map dr_dataset_id rs)" and "distinct (map dp_dataset_id (bp_datasets p))"
    and "dr_dataset_id ` set rs \<subseteq> dp_dataset_id ` set (bp_datasets p)" and "length (bp_datasets p) < 2 ^ 32"
  shows "(exit_code (build_aggregate_report p i rs v m) = 0 \<longleftrightarrow> ri_cancelled_at i = None \<and>
      (\<forall>d \<in> set (bp_datasets p). \<exists>r \<in> set rs. dr_dataset_id r = dp_dataset_id d \<and> dr_state r = DsSucceeded)) \<and>
    (exit_code (build_aggregate_report p i rs v m) = 130 \<longleftrightarrow> ri_cancelled_at i \<noteq> None)"
proof -
  let ?k = "length (filter (\<lambda>r. dr_state r = DsSucceeded) rs)"
  have "length rs = card (dr_dataset_id ` set rs)" "length (bp_datasets p) = card (dp_dataset_id ` set (bp_datasets p))"
    using distinct_card [OF assms(1)] distinct_card [OF assms(2)] by simp_all
  then have "length rs \<le> length (bp_datasets p)"
    using card_mono [OF _ assms(3)] by simp
  then have "?k < 2 ^ 32" using length_filter_le [of "\<lambda>r. dr_state r = DsSucceeded" rs] assms(4) by linarith
  then have "(of_nat ?k :: u32) = of_nat (length (bp_datasets p)) \<longleftrightarrow> ?k = length (bp_datasets p)"
    using of_nat_u32_eq assms(4) by blast
  then show ?thesis
    by (auto simp: exit_code_def build_aggregate_report_def count_states_succeeded all_succeeded_iff [OF assms(1-3)])
qed

definition demo_batch_plan :: batch_plan where
  "demo_batch_plan = (projr demo_batch)\<lparr>bp_datasets := [demo_dataset_plan, demo_second_plan]\<rparr>"

lemma demo_batch_plan_ids [simp]: "map dp_dataset_id (bp_datasets demo_batch_plan) = [''a'', ''b'']"
  by (simp add: demo_batch_plan_def demo_dataset_plan_def demo_second_plan_def)

lemma demo_batch_plan_datasets: "bp_datasets demo_batch_plan = [demo_dataset_plan, demo_second_plan]"
  by (simp add: demo_batch_plan_def)

theorem exit_code_spec_witness:
  "exit_code (build_aggregate_report demo_batch_plan demo_identity
     [demo_record ''a'' DsSucceeded, demo_record ''b'' DsSucceeded] None []) = 0"
  using exit_code_spec [of "[demo_record ''a'' DsSucceeded, demo_record ''b'' DsSucceeded]" demo_batch_plan demo_identity None "[]"]
  by (simp add: demo_batch_plan_datasets demo_record_def demo_dataset_plan_def demo_second_plan_def demo_identity_def)

section \<open>Verification of local datasets\<close>

lemma verify_datasets_error:
  assumes "d \<in> set ds" "find_record rs (dp_dataset_id d) = Some r" "dr_state r = DsSucceeded" "verify_dataset V run_id d = Inl e"
  shows "isl (verify_datasets V run_id rs ds acc)"
  using assms
proof (induction ds arbitrary: acc)
  case (Cons x xs)
  show ?case
  proof (cases "x = d")
    case False
    then have IH: "isl (verify_datasets V run_id rs xs acc')" for acc' using Cons by auto
    show ?thesis using IH by (cases "verify_dataset V run_id x") (auto split: option.splits)
  qed (use Cons.prems in simp)
qed simp

lemma display_uri_scheme:
  "str_starts_with (dataset_display_uri loc) ''s3://'' \<or> str_starts_with (dataset_display_uri loc) ''file://''"
  by (cases loc) (auto simp: s3_display_uri_def str_starts_with_iff)

text \<open>
  Verification of a local batch never succeeds: a plan stores the locations of its datasets as
  URIs, and for a dataset whose source and output are local the verification opens these texts as
  paths, below a directory named \<open>file:\<close>. Where no such directory exists, verifying a built
  plan with a succeeded local dataset ends with an error.
\<close>

theorem local_verification_fails:
  assumes "build_batch_plan env config path = Inr p"
    and "\<And>dir. str_starts_with dir ''file://'' \<Longrightarrow> isl (ve_scan_directory V dir)"
    and "d \<in> set (bp_datasets p)" and "\<not> uses_remote d"
    and "find_record rs (dp_dataset_id d) = Some r" and "dr_state r = DsSucceeded"
  shows "isl (verify_batch V p rs run_id)"
proof -
  obtain ms where wf: "validate_plan_version p = Inr ()"
    and ms: "map dp_source_path (bp_datasets p) = map (dataset_display_uri \<circ> ps_source) (ms :: batch_path_spec list)"
    using built_plan_facts [OF assms(1)] by auto
  have "dp_source_path d \<in> set (map (dataset_display_uri \<circ> ps_source) ms)"
    unfolding ms [symmetric] using assms(3) by simp
  then obtain loc where "dp_source_path d = dataset_display_uri loc" by auto
  then have "str_starts_with (dp_source_path d) ''file://''"
    using display_uri_scheme [of loc] assms(4) by (auto simp: uses_remote_def)
  from assms(2) [OF this] obtain e where "verify_dataset V run_id d = Inl e"
    using assms(4) by (auto simp: verify_dataset_def verify_inputs_def isl_def)
  then have "isl (verify_datasets V run_id rs (bp_datasets p) acc)" for acc
    using verify_datasets_error [OF assms(3,5,6)] by blast
  then show ?thesis
    by (simp add: verify_batch_def wf isl_def) (metis bind_res.simps(1))
qed

definition local_config :: batch_config where
  "local_config = demo_config\<lparr>bc_batch := (bc_batch demo_config)\<lparr>bs_output_root := Some (DatasetLocal ''/out'')\<rparr>\<rparr>"

definition local_batch :: "(orchestrator_error, batch_plan) res" where
  "local_batch = build_batch_plan demo_env_batch local_config ''/cfg/batch.toml''"

lemma local_batch_facts:
  "\<not> isl local_batch" "map dp_dataset_id (bp_datasets (projr local_batch)) = [''a'', ''b'']"
  "list_all (\<lambda>d. \<not> uses_remote d) (bp_datasets (projr local_batch))"
  by code_simp+

lemma local_batch_eq: "build_batch_plan demo_env_batch local_config ''/cfg/batch.toml'' = Inr (projr local_batch)"
  using local_batch_facts(1) unfolding local_batch_def by (metis sum.collapse(2))

definition demo_verify_env :: verify_env where
  "demo_verify_env = \<lparr>ve_url = demo_url, ve_hasher = const_hasher, ve_inspect = one_row_inspector, ve_uuid = (\<lambda>_. ''u''),
     ve_scan_directory = (\<lambda>dir. if is_absolute dir then Inr \<lparr>sc_scan_id = [], sc_assets = [], sc_findings = []\<rparr> else Inl (ScanFailed dir)),
     ve_scan_location = (\<lambda>_. Inl RunCancelled), ve_manifest = (\<lambda>_. None), ve_committed = (\<lambda>_ _. Inr False)\<rparr>"

theorem local_verification_fails_witness:
  "isl (verify_batch demo_verify_env (projr local_batch) [demo_record ''a'' DsSucceeded, demo_record ''b'' DsSucceeded] None)"
proof -
  let ?d = "hd (bp_datasets (projr local_batch))"
  have mem: "?d \<in> set (bp_datasets (projr local_batch))" and i: "dp_dataset_id ?d = ''a''"
    using local_batch_facts(2) by (cases "bp_datasets (projr local_batch)"; simp)+
  have "\<not> uses_remote ?d" using local_batch_facts(3) mem by (simp add: list_all_iff)
  moreover have "isl (ve_scan_directory demo_verify_env dir)" if "str_starts_with dir ''file://''" for dir
    using that by (auto simp: demo_verify_env_def is_absolute_def str_starts_with_iff)
  moreover have "find_record [demo_record ''a'' DsSucceeded, demo_record ''b'' DsSucceeded] (dp_dataset_id ?d) =
      Some (demo_record ''a'' DsSucceeded)"
    unfolding i by (simp add: find_record_def demo_record_def)
  moreover have "dr_state (demo_record ''a'' DsSucceeded) = DsSucceeded" by (simp add: demo_record_def)
  ultimately show ?thesis using local_verification_fails [OF local_batch_eq _ mem] by metis
qed

section \<open>Resuming a run\<close>

lemma recover_spec_matches:
  "assert_dataset_record_matches_plan d r = Inr () \<Longrightarrow> assert_dataset_record_matches_plan d (recover_spec t r) = Inr ()"
  by (auto simp: assert_record_Inr recover_spec_def recovered_record_def recover_after_crash_def)

lemma find_record_distinct:
  "distinct (map dr_dataset_id rs) \<Longrightarrow> find_record rs i = Some r \<longleftrightarrow> r \<in> set rs \<and> dr_dataset_id r = i"
  by (induction rs) (auto simp: find_record_def image_iff)

definition plan_accepts :: "batch_plan \<Rightarrow> (string \<rightharpoonup> dataset_run_record) \<Rightarrow> bool" where
  "plan_accepts p recs \<longleftrightarrow> (\<forall>d \<in> set (bp_datasets p). \<forall>r. recs (dp_dataset_id d) = Some r \<longrightarrow>
     assert_dataset_record_matches_plan d r = Inr ())"

lemma recover_spec_not_terminal: "\<not> is_terminal (dr_state r) \<Longrightarrow> \<not> is_terminal (dr_state (recover_spec t r))"
  by (cases "dr_state r") (simp_all add: recover_spec_def recovered_record_def state_class_defs)

context journal
begin

lemma listing:
  assumes "ready j"
  shows "\<exists>rs. rj_list_datasets J j = (Inr rs, j) \<and> find_record rs = records j"
proof -
  obtain rs where rs: "rj_list_datasets J j = (Inr rs, j)" "distinct (map dr_dataset_id rs)"
    "\<forall>r. r \<in> set rs \<longleftrightarrow> records j (dr_dataset_id r) = Some r"
    using list_read [OF assms] by auto
  have "find_record rs i = Some r \<longleftrightarrow> records j i = Some r" for i r
    unfolding find_record_distinct [OF rs(2)] using rs(3) records_key [OF assms] by metis
  then have "find_record rs i = records j i" for i by (metis not_Some_eq)
  then show ?thesis using rs(1) by auto
qed

lemma check_run_ok:
  assumes "ready j" "assert_plan_matches_identity env p (identity j) = Inr ()" "plan_accepts p (records j)"
  shows "\<exists>rs. check_run env J p j = (Inr (identity j, rs), j) \<and> rj_list_datasets J j = (Inr rs, j) \<and> find_record rs = records j"
proof -
  obtain rs where rs: "rj_list_datasets J j = (Inr rs, j)" "find_record rs = records j" using listing [OF assms(1)] by blast
  have "assert_datasets_match_plan p rs = Inr ()"
    using assms(3) by (auto simp: assert_datasets_match_plan_def assert_datasets_Inr plan_accepts_def rs(2))
  then show ?thesis
    using assms(2) rs by (auto simp: check_run_def read_identity_def eff_bind_apply identity_read [OF assms(1)])
qed

lemma resume_ok:
  assumes "ready j" "assert_plan_matches_identity env p (identity j) = Inr ()" "plan_accepts p (records j)"
    "\<not> ro_dry_run opts" "ro_jobs opts \<noteq> Some 0"
  shows "\<exists>dec j'. resume_batch env J p opts t j = (Inr dec, j') \<and> ready j' \<and>
    (dec = AlreadyCompleted \<and> records j' = records j \<and>
       (\<forall>d \<in> set (bp_datasets p). \<exists>r. records j (dp_dataset_id d) = Some r \<and> is_terminal (dr_state r)) \<or>
     dec = ResumeExecutes \<and> records j' = (\<lambda>i. map_option (recover_spec t) (records j i)) \<and>
       (\<exists>d \<in> set (bp_datasets p). \<forall>r. records j (dp_dataset_id d) = Some r \<longrightarrow> \<not> is_terminal (dr_state r)))"
proof -
  obtain rs where rs: "check_run env J p j = (Inr (identity j, rs), j)" "find_record rs = records j"
    using check_run_ok [OF assms(1-3)] by blast
  have complete: "run_is_complete p rs \<longleftrightarrow>
      (\<forall>d \<in> set (bp_datasets p). \<exists>r. records j (dp_dataset_id d) = Some r \<and> is_terminal (dr_state r))"
    by (auto simp: run_is_complete_def list_all_iff rs(2) split: option.splits)
  have head: "resume_batch env J p opts t j = (if run_is_complete p rs
      then (if ri_completed_at (identity j) = None then eff_bind (rj_mark_run_completed J t) (\<lambda>_. eff_return AlreadyCompleted)
        else eff_return AlreadyCompleted) j
      else eff_bind (recover_journal_states J t) (\<lambda>_. eff_return ResumeExecutes) j)"
    using assms(4,5) by (simp add: resume_batch_def eff_bind_apply validate_options_def rs(1))
  show ?thesis
  proof (cases "run_is_complete p rs")
    case True
    then show ?thesis using head complete completed [OF assms(1), of t] assms(1)
      by (auto simp: eff_bind_apply)
  next
    case False
    then show ?thesis using head complete recover_journal_states_spec [OF assms(1), of t]
      by (auto simp: eff_bind_apply)
  qed
qed

lemma resume_selects:
  assumes "ready j" "records j = (\<lambda>i. map_option (recover_spec t) (recs i))" "d \<in> set (bp_datasets p)"
    "\<forall>r. recs (dp_dataset_id d) = Some r \<longrightarrow> \<not> is_terminal (dr_state r)"
  shows "\<exists>rs. rj_list_datasets J j = (Inr rs, j) \<and> select_tasks (\<lambda>_. False) 0 Resume rs (bp_datasets p) \<noteq> [] \<and>
    (\<forall>r \<in> set rs. is_terminal (dr_state r) \<or> is_runnable (dr_state r))"
proof -
  obtain rs where rs: "rj_list_datasets J j = (Inr rs, j)" "distinct (map dr_dataset_id rs)"
    "\<forall>r. r \<in> set rs \<longleftrightarrow> records j (dr_dataset_id r) = Some r"
    using list_read [OF assms(1)] by auto
  have find: "find_record rs = records j" using listing [OF assms(1)] rs(1) by auto
  have "selected Resume rs d"
    using assms(4) recover_spec_not_terminal [of _ t] by (auto simp: selected_def find assms(2) split: option.splits)
  then have "map fst (select_tasks (\<lambda>_. False) 0 Resume rs (bp_datasets p)) \<noteq> []"
    using assms(3) by (auto simp: select_tasks_filter filter_empty_conv)
  moreover have "is_terminal (dr_state r) \<or> is_runnable (dr_state r)" if "r \<in> set rs" for r
    using that rs(3) recover_spec_settled [of t] by (auto simp: assms(2) Let_def)
  ultimately show ?thesis using rs(1) by auto
qed

end

context sqlite_journal
begin

lemmas resumed = resume_ok
lemmas resume_selected = resume_selects

end

text \<open>
  C24. A resume makes progress: when the plan matches the journal, either every dataset of the plan is
  already terminal and nothing but the completion of the run is recorded, or the interrupted records are
  recovered, so that every record is terminal or runnable, and at least one dataset is selected to be
  run again.
\<close>

theorem resume_makes_progress:
  assumes "ts_roundtrip T" and "sqlite_ready db"
    and "assert_plan_matches_identity env p (sqlite_identity T now db) = Inr ()"
    and "plan_accepts p (sqlite_records T now db)"
    and "\<not> ro_dry_run opts" and "ro_jobs opts \<noteq> Some 0"
  shows "\<exists>dec db'. resume_batch env (sqlite_journal_ops T now) p opts t db = (Inr dec, db') \<and> sqlite_ready db' \<and>
    (dec = AlreadyCompleted \<and> sqlite_records T now db' = sqlite_records T now db \<and>
       (\<forall>d \<in> set (bp_datasets p). \<exists>r. sqlite_records T now db (dp_dataset_id d) = Some r \<and> is_terminal (dr_state r)) \<or>
     dec = ResumeExecutes \<and>
       (\<exists>rs. sqlite_list T now db' = (Inr rs, db') \<and> select_tasks (\<lambda>_. False) 0 Resume rs (bp_datasets p) \<noteq> [] \<and>
         (\<forall>r \<in> set rs. is_terminal (dr_state r) \<or> is_runnable (dr_state r))))"
proof -
  note sq = sqlite_journalI [OF assms(1)]
  from sqlite_journal.resumed [OF sq assms(2-6), of t] obtain dec db' where
    run: "resume_batch env (sqlite_journal_ops T now) p opts t db = (Inr dec, db')" "sqlite_ready db'" and
    cases: "dec = AlreadyCompleted \<and> sqlite_records T now db' = sqlite_records T now db \<and>
       (\<forall>d \<in> set (bp_datasets p). \<exists>r. sqlite_records T now db (dp_dataset_id d) = Some r \<and> is_terminal (dr_state r)) \<or>
     dec = ResumeExecutes \<and> sqlite_records T now db' = (\<lambda>i. map_option (recover_spec t) (sqlite_records T now db i)) \<and>
       (\<exists>d \<in> set (bp_datasets p). \<forall>r. sqlite_records T now db (dp_dataset_id d) = Some r \<longrightarrow> \<not> is_terminal (dr_state r))"
    by blast
  have list: "rj_list_datasets (sqlite_journal_ops T now) = sqlite_list T now" by (simp add: sqlite_journal_ops_def)
  from cases show ?thesis
  proof
    assume "dec = ResumeExecutes \<and> sqlite_records T now db' = (\<lambda>i. map_option (recover_spec t) (sqlite_records T now db i)) \<and>
       (\<exists>d \<in> set (bp_datasets p). \<forall>r. sqlite_records T now db (dp_dataset_id d) = Some r \<longrightarrow> \<not> is_terminal (dr_state r))"
    then obtain rs where "dec = ResumeExecutes" "sqlite_list T now db' = (Inr rs, db')"
      "select_tasks (\<lambda>_. False) 0 Resume rs (bp_datasets p) \<noteq> []"
      "\<forall>r \<in> set rs. is_terminal (dr_state r) \<or> is_runnable (dr_state r)"
      using sqlite_journal.resume_selected [OF sq run(2), of now t "sqlite_records T now db" _ p] unfolding list by blast
    then show ?thesis using run by blast
  qed (use run in blast)
qed

abbreviation resumed_plan :: batch_plan where
  "resumed_plan \<equiv> projr demo_batch"

lemma resumed_plan_facts: "validate_plan_version resumed_plan = Inr ()" "bp_datasets resumed_plan \<noteq> []"
  by code_simp+

definition resumed_db :: sqlite_db where
  "resumed_db = open_journal demo_ts (new_identity demo_env_batch resumed_plan ''run-1'' 5)"

lemma resumed_db_facts:
  "sqlite_ready resumed_db" "sqlite_records demo_ts 0 resumed_db = Map.empty"
  "assert_plan_matches_identity demo_env_batch resumed_plan (sqlite_identity demo_ts 0 resumed_db) = Inr ()"
  subgoal by (simp add: resumed_db_def)
  subgoal by (simp add: resumed_db_def sqlite_records_def open_journal_def ensure_run_def fun_eq_iff)
  subgoal by (simp add: resumed_db_def new_identity_def sqlite_identity_def open_journal_def ensure_run_def
      assert_plan_matches_identity_def run_row_of_def map_identity_row_def mismatch_def resumed_plan_facts(1))
  done

theorem resume_makes_progress_witness:
  "\<exists>db'. resume_batch demo_env_batch (sqlite_journal_ops demo_ts 0) resumed_plan
      \<lparr>ro_dry_run = False, ro_jobs = None, ro_cancelled = False, ro_interrupt_after_completed = None\<rparr> 11 resumed_db =
      (Inr ResumeExecutes, db')"
proof -
  let ?o = "\<lparr>ro_dry_run = False, ro_jobs = None, ro_cancelled = False, ro_interrupt_after_completed = None\<rparr>"
  have "plan_accepts resumed_plan (sqlite_records demo_ts 0 resumed_db)"
    by (simp add: plan_accepts_def resumed_db_facts(2))
  from resume_makes_progress [OF demo_ts_roundtrip resumed_db_facts(1,3) this, of ?o 11] show ?thesis
    using resumed_plan_facts(2) by (auto simp: resumed_db_facts(2))
qed

end
