(* ===== verification/Service_Store.thy ===== *)
theory Service_Store
  imports Orch_Journal
begin

text \<open>
  The tables of the service database (\<open>paraclete-store\<close>): their rows, the errors of the store, and
  the SQL statements the stores are written with, over lists of rows. Text columns hold the text the
  code writes, so that an unknown status is a value of the model too. What a statement leaves open,
  the order of rows with equal sort keys, is a parameter of the environment.
\<close>

section \<open>Identifiers and errors\<close>

record target_identity =
  ti_target_kind :: string
  ti_normalized_key :: string

datatype store_error =
    StMigrate string
  | StSql string
  | StJson string
  | StReportValidation string
  | StRunNotFound string
  | StJobNotFound string
  | StAuthToken string
  | StAuthTokenNotFound string

section \<open>Rows\<close>

record scan_job_row =
  sj_job_id :: string
  sj_submitted_at :: string
  sj_started_at :: "string option"
  sj_completed_at :: "string option"
  sj_status :: string
  sj_target_kind :: string
  sj_normalized_target_key :: string
  sj_request_json :: string
  sj_failure_code :: "string option"
  sj_failure_message :: "string option"
  sj_run_id :: "string option"
  sj_worker_id :: "string option"
  sj_attempt_count :: int
  sj_heartbeat_at :: "string option"
  sj_leased_until :: "string option"
  sj_recovery_note :: "string option"
  sj_job_kind :: string
  sj_payload_schema_version :: int
  sj_cancel_requested :: int
  sj_result_ref_json :: "string option"

record scan_run_row =
  sr_run_id :: string
  sr_request_scan_id :: string
  sr_target_kind :: string
  sr_normalized_target_key :: string
  sr_target_json :: string
  sr_started_at :: string
  sr_completed_at :: string
  sr_run_outcome :: string
  sr_engine_revision :: "string option"
  sr_contract_schema_version :: string
  sr_report_format_version :: string
  sr_report_sha256 :: string
  sr_summary_json :: string

record scan_asset_row =
  sa_run_id :: string
  sa_path :: string
  sa_format :: string
  sa_inspection_status :: string
  sa_failure_kind :: "string option"
  sa_failure_message :: "string option"
  sa_dataset_id :: "string option"

record scan_dataset_row =
  sd_run_id :: string
  sd_dataset_id :: string
  sd_grouping_kind :: string
  sd_partition_layout :: string
  sd_file_count :: int

record scan_finding_row =
  sf_run_id :: string
  sf_fingerprint :: string
  sf_code :: string
  sf_severity :: string
  sf_category :: string
  sf_asset_path :: "string option"
  sf_dataset_id :: "string option"

record auth_token_row =
  at_token_id :: string
  at_token_hash :: string
  at_label :: string
  at_role :: string
  at_created_at :: string
  at_disabled_at :: "string option"
  at_note :: "string option"
  at_token_prefix :: "string option"
  at_last_used_at :: "string option"
  at_replaced_by_token_id :: "string option"

record scan_store =
  ss_runs :: "scan_run_row list"
  ss_reports :: "(string \<times> string) list"
  ss_assets :: "scan_asset_row list"
  ss_datasets :: "scan_dataset_row list"
  ss_findings :: "scan_finding_row list"
  ss_jobs :: "scan_job_row list"
  ss_tokens :: "auth_token_row list"

definition empty_store :: scan_store where
  "empty_store = \<lparr>ss_runs = [], ss_reports = [], ss_assets = [], ss_datasets = [], ss_findings = [], ss_jobs = [], ss_tokens = []\<rparr>"

text \<open>
  The environment: the text of times, and the order in which the database visits the rows of a
  table, which decides among rows with equal sort keys.
\<close>

record store_env =
  sv_ts :: ts_codec
  sv_visit_jobs :: "scan_job_row list \<Rightarrow> scan_job_row list"
  sv_visit_runs :: "scan_run_row list \<Rightarrow> scan_run_row list"
  sv_visit_tokens :: "auth_token_row list \<Rightarrow> auth_token_row list"

section \<open>Statements\<close>

text \<open>\<open>UPDATE\<close>: the number of rows affected and the table after it.\<close>

definition sql_update :: "('r \<Rightarrow> bool) \<Rightarrow> ('r \<Rightarrow> 'r) \<Rightarrow> 'r list \<Rightarrow> nat \<times> 'r list" where
  "sql_update P f rows = (length (filter P rows), map (\<lambda>r. if P r then f r else r) rows)"

definition order_by :: "('r \<Rightarrow> 'k :: linorder) \<Rightarrow> ('r list \<Rightarrow> 'r list) \<Rightarrow> 'r list \<Rightarrow> 'r list" where
  "order_by k visit rows = sort_key k (visit rows)"

definition order_by_desc :: "('r \<Rightarrow> 'k :: linorder) \<Rightarrow> ('r list \<Rightarrow> 'r list) \<Rightarrow> 'r list \<Rightarrow> 'r list" where
  "order_by_desc k visit rows = rev (sort_key k (visit rows))"

text \<open>\<open>LIMIT\<close> and \<open>OFFSET\<close>: SQLite takes a negative limit as no limit and a negative offset as zero.\<close>

definition limit_offset :: "int \<Rightarrow> int \<Rightarrow> 'r list \<Rightarrow> 'r list" where
  "limit_offset lim off rows =
     (let rest = drop (nat off) rows in if lim < 0 then rest else take (nat lim) rest)"

definition as_i64 :: "u64 \<Rightarrow> int" where
  "as_i64 x = sint x"

definition as_i32 :: "u32 \<Rightarrow> int" where
  "as_i32 x = sint x"

text \<open>A transaction: an error leaves the store as it was.\<close>

definition transaction :: "(scan_store, store_error, 'a) eff \<Rightarrow> (scan_store, store_error, 'a) eff" where
  "transaction m s = (case m s of (Inr a, s') \<Rightarrow> (Inr a, s') | (Inl e, _) \<Rightarrow> (Inl e, s))"

definition visits_all :: "('r list \<Rightarrow> 'r list) \<Rightarrow> bool" where
  "visits_all visit \<longleftrightarrow> (\<forall>rows. mset (visit rows) = mset rows)"

lemma visits_all_set: "visits_all visit \<Longrightarrow> set (visit rows) = set rows"
  unfolding visits_all_def by (metis set_mset_mset)

lemma visits_all_length: "visits_all visit \<Longrightarrow> length (visit rows) = length rows"
  unfolding visits_all_def by (metis size_mset)

lemma visits_all_id [simp]: "visits_all (\<lambda>rows. rows)"
  by (simp add: visits_all_def)

lemma order_by_set [simp]: "visits_all visit \<Longrightarrow> set (order_by k visit rows) = set rows"
  by (simp add: order_by_def visits_all_set)

lemma order_by_Cons:
  assumes "visits_all visit" "order_by k visit rows = r # rs"
  shows "r \<in> set rows \<and> (\<forall>q \<in> set rows. k r \<le> k q)"
proof -
  have s: "sorted (map k (r # rs))" using assms(2) sorted_sort_key [of k "visit rows"] by (simp add: order_by_def)
  have "set rows = set (r # rs)" using order_by_set [OF assms(1), of k rows] assms(2) by simp
  with s show ?thesis by auto
qed

lemma order_by_Nil: "visits_all visit \<Longrightarrow> order_by k visit rows = [] \<longleftrightarrow> rows = []"
  using order_by_set [of visit k rows] by (metis set_empty)

text \<open>A map that keeps the key acts on the row that a key finds.\<close>

lemma find_map_key:
  assumes "\<And>r. key (g r) = key r"
  shows "find (\<lambda>r. key r = i) (map g rows) = map_option g (find (\<lambda>r. key r = i) rows)"
  by (induction rows) (auto simp: assms)

lemma find_key_Some: "find (\<lambda>r. key r = i) rows = Some r \<Longrightarrow> r \<in> set rows \<and> key r = i"
  by (auto simp: find_Some_iff)

lemma find_key_distinct:
  "distinct (map key rows) \<Longrightarrow> r \<in> set rows \<Longrightarrow> find (\<lambda>q. key q = key r) rows = Some r"
  by (induction rows) (auto simp: image_iff)

end
