(* ===== verification/Service_Auth.thy ===== *)
theory Service_Auth
  imports Service_Store
begin

text \<open>
  Bearer tokens (\<open>auth.rs\<close>, \<open>auth_store.rs\<close>) and the authentication of requests (\<open>http/auth.rs\<close>):
  tokens are stored by the hash of their secret, may be disabled, rotated and bootstrapped, and every request
  needs a token with a sufficient role. SHA-256, random secrets and identifiers, and the texts of parse errors are
  parameters.
\<close>

section \<open>Roles\<close>

datatype auth_role = Reader | Operator | Admin

instantiation auth_role :: linorder
begin

fun role_rank :: "auth_role \<Rightarrow> nat" where
  "role_rank Reader = 0" | "role_rank Operator = 1" | "role_rank Admin = 2"

definition less_eq_auth_role :: "auth_role \<Rightarrow> auth_role \<Rightarrow> bool" where
  "less_eq_auth_role a b \<longleftrightarrow> role_rank a \<le> role_rank b"

definition less_auth_role :: "auth_role \<Rightarrow> auth_role \<Rightarrow> bool" where
  "less_auth_role a b \<longleftrightarrow> role_rank a < role_rank b"

lemma role_rank_inj: "role_rank a = role_rank b \<Longrightarrow> a = b"
  by (cases a; cases b) simp_all

instance
  by standard (auto simp: less_eq_auth_role_def less_auth_role_def intro: role_rank_inj)

end

definition satisfies :: "auth_role \<Rightarrow> auth_role \<Rightarrow> bool" where
  "satisfies r required = (required \<le> r)"

definition auth_role_from_str :: "string \<Rightarrow> (string, auth_role) res" where
  "auth_role_from_str s =
     (let t = to_lowercase (str_trim s)
      in if t = ''reader'' then Inr Reader
         else if t = ''operator'' then Inr Operator
         else if t = ''admin'' then Inr Admin
         else Inl (''unknown auth role `'' @ s @ ''`''))"

fun auth_role_db :: "auth_role \<Rightarrow> string" where
  "auth_role_db Reader = ''reader''"
| "auth_role_db Operator = ''operator''"
| "auth_role_db Admin = ''admin''"

definition parse_role :: "string \<Rightarrow> (store_error, auth_role) res" where
  "parse_role s = map_err StAuthToken (auth_role_from_str s)"

lemma parse_role_db [simp]: "parse_role (auth_role_db r) = Inr r"
  by (cases r) (simp_all add: parse_role_def auth_role_from_str_def, code_simp+)

section \<open>Tokens\<close>

record auth_env =
  ae_store :: store_env
  ae_hash :: "string \<Rightarrow> string"
  ae_uuid :: "string \<Rightarrow> bool"
  ae_bad_timestamp :: "string \<Rightarrow> string"

record auth_token_summary =
  tk_token_id :: string
  tk_label :: string
  tk_role :: auth_role
  tk_created_at :: timestamp
  tk_disabled_at :: "timestamp option"
  tk_note :: "string option"
  tk_token_prefix :: "string option"
  tk_last_used_at :: "timestamp option"
  tk_replaced_by_token_id :: "string option"

record auth_principal =
  pr_token_id :: string
  pr_label :: string
  pr_role :: auth_role

definition parse_dt :: "auth_env \<Rightarrow> string \<Rightarrow> (store_error, timestamp) res" where
  "parse_dt A s =
     (case parse_from_rfc3339 (sv_ts (ae_store A)) s of
        None \<Rightarrow> Inl (StAuthToken (''bad timestamp: '' @ ae_bad_timestamp A s)) | Some t \<Rightarrow> Inr t)"

definition parse_dt_option :: "auth_env \<Rightarrow> string option \<Rightarrow> (store_error, timestamp option) res" where
  "parse_dt_option A s = (case s of None \<Rightarrow> Inr None | Some t \<Rightarrow> bind_res (parse_dt A t) (\<lambda>d. Inr (Some d)))"

text \<open>\<open>random\<close> is the hexadecimal text of the random bytes.\<close>

definition generate_bearer_secret :: "string \<Rightarrow> string" where
  "generate_bearer_secret random = ''prqnt_'' @ random"

definition token_row ::
  "auth_env \<Rightarrow> timestamp \<Rightarrow> string \<Rightarrow> string \<Rightarrow> string \<Rightarrow> string \<Rightarrow> string option \<Rightarrow> string option \<Rightarrow> auth_token_row" where
  "token_row A now i secret label role note shown =
     \<lparr>at_token_id = i, at_token_hash = ae_hash A secret, at_label = label, at_role = role,
      at_created_at = to_rfc3339 (sv_ts (ae_store A)) now, at_disabled_at = None, at_note = note,
      at_token_prefix = shown, at_last_used_at = None, at_replaced_by_token_id = None\<rparr>"

text \<open>The identifier is the primary key, and hashes are unique.\<close>

definition insert_token :: "auth_token_row \<Rightarrow> (scan_store, store_error, unit) eff" where
  "insert_token w s =
     (if at_token_id w \<in> at_token_id ` set (ss_tokens s)
      then (Inl (StSql ''UNIQUE constraint failed: auth_tokens.token_id''), s)
      else if at_token_hash w \<in> at_token_hash ` set (ss_tokens s)
      then (Inl (StSql ''UNIQUE constraint failed: auth_tokens.token_hash''), s)
      else (Inr (), s\<lparr>ss_tokens := ss_tokens s @ [w]\<rparr>))"

definition insert_auth_token ::
  "auth_env \<Rightarrow> timestamp \<Rightarrow> string \<Rightarrow> string \<Rightarrow> string \<Rightarrow> auth_role \<Rightarrow> (scan_store, store_error, string) eff" where
  "insert_auth_token A now i label secret role =
     eff_bind (insert_token (token_row A now i secret label (auth_role_db role) None None)) (\<lambda>_. eff_return i)"

definition delete_bootstrap :: "(scan_store, store_error, unit) eff" where
  "delete_bootstrap s = (Inr (), s\<lparr>ss_tokens := filter (\<lambda>r. at_label r \<noteq> ''bootstrap'') (ss_tokens s)\<rparr>)"

definition upsert_bootstrap_token ::
  "auth_env \<Rightarrow> timestamp \<Rightarrow> string \<Rightarrow> string \<Rightarrow> auth_role \<Rightarrow> (scan_store, store_error, unit) eff" where
  "upsert_bootstrap_token A now i secret role =
     transaction (eff_bind delete_bootstrap (\<lambda>_.
       insert_token (token_row A now i secret ''bootstrap'' (auth_role_db role) None None)))"

definition create_auth_token ::
  "auth_env \<Rightarrow> timestamp \<Rightarrow> string \<Rightarrow> string \<Rightarrow> string \<Rightarrow> auth_role \<Rightarrow> string option \<Rightarrow> (scan_store, store_error, string \<times> string) eff" where
  "create_auth_token A now i random label role note =
     (let secret = generate_bearer_secret random
      in eff_bind (insert_token (token_row A now i secret label (auth_role_db role) note (Some (take 12 secret))))
           (\<lambda>_. eff_return (i, secret)))"

definition verify_bearer_token ::
  "auth_env \<Rightarrow> timestamp \<Rightarrow> string \<Rightarrow> (scan_store, store_error, auth_principal option) eff" where
  "verify_bearer_token A now plaintext s =
     (case find (\<lambda>r. at_token_hash r = ae_hash A plaintext \<and> at_disabled_at r = None) (ss_tokens s) of
        None \<Rightarrow> (Inr None, s)
      | Some r \<Rightarrow>
          if \<not> ae_uuid A (at_token_id r) then (Inl (StAuthToken ''invalid token_id in auth_tokens''), s)
          else (case parse_role (at_role r) of
              Inl e \<Rightarrow> (Inl e, s)
            | Inr role \<Rightarrow>
                (Inr (Some \<lparr>pr_token_id = at_token_id r, pr_label = at_label r, pr_role = role\<rparr>),
                 s\<lparr>ss_tokens := snd (sql_update (\<lambda>q. at_token_id q = at_token_id r \<and> at_disabled_at q = None)
                    (\<lambda>q. q\<lparr>at_last_used_at := Some (to_rfc3339 (sv_ts (ae_store A)) now)\<rparr>) (ss_tokens s))\<rparr>)))"

definition rotate_auth_token ::
  "auth_env \<Rightarrow> timestamp \<Rightarrow> string \<Rightarrow> string \<Rightarrow> string \<Rightarrow> (scan_store, store_error, string \<times> string) eff" where
  "rotate_auth_token A now old new random = transaction (\<lambda>s.
     case find (\<lambda>r. at_token_id r = old \<and> at_disabled_at r = None) (ss_tokens s) of
       None \<Rightarrow> (Inl (StAuthTokenNotFound old), s)
     | Some o' \<Rightarrow>
         (let secret = generate_bearer_secret random
          in eff_bind (insert_token (token_row A now new secret (at_label o') (at_role o') (at_note o') (Some (take 12 secret))))
               (\<lambda>_ s1. (Inr (new, secret),
                  s1\<lparr>ss_tokens := snd (sql_update (\<lambda>q. at_token_id q = old)
                    (\<lambda>q. q\<lparr>at_disabled_at := Some (to_rfc3339 (sv_ts (ae_store A)) now), at_replaced_by_token_id := Some new\<rparr>)
                    (ss_tokens s1))\<rparr>)) s))"

definition into_summary :: "auth_env \<Rightarrow> auth_token_row \<Rightarrow> (store_error, auth_token_summary) res" where
  "into_summary A r =
     (if \<not> ae_uuid A (at_token_id r) then Inl (StAuthToken ''invalid token_id'')
      else bind_res (parse_role (at_role r)) (\<lambda>role.
        if (case at_replaced_by_token_id r of None \<Rightarrow> False | Some n \<Rightarrow> \<not> ae_uuid A n)
        then Inl (StAuthToken ''invalid replaced_by_token_id'')
        else bind_res (parse_dt A (at_created_at r)) (\<lambda>created.
             bind_res (parse_dt_option A (at_disabled_at r)) (\<lambda>disabled.
             bind_res (parse_dt_option A (at_last_used_at r)) (\<lambda>used.
               Inr \<lparr>tk_token_id = at_token_id r, tk_label = at_label r, tk_role = role, tk_created_at = created,
                 tk_disabled_at = disabled, tk_note = at_note r, tk_token_prefix = at_token_prefix r,
                 tk_last_used_at = used, tk_replaced_by_token_id = at_replaced_by_token_id r\<rparr>)))))"

definition count_auth_tokens :: "(scan_store, store_error, int) eff" where
  "count_auth_tokens s = (Inr (int (length (ss_tokens s))), s)"

definition list_auth_tokens :: "auth_env \<Rightarrow> (scan_store, store_error, auth_token_summary list) eff" where
  "list_auth_tokens A s =
     (collect_res (map (into_summary A) (order_by_desc at_created_at (sv_visit_tokens (ae_store A)) (ss_tokens s))), s)"

definition get_auth_token_summary :: "auth_env \<Rightarrow> string \<Rightarrow> (scan_store, store_error, auth_token_summary option) eff" where
  "get_auth_token_summary A i s =
     (case find (\<lambda>r. at_token_id r = i) (ss_tokens s) of
        None \<Rightarrow> (Inr None, s) | Some r \<Rightarrow> (bind_res (into_summary A r) (\<lambda>t. Inr (Some t)), s))"

definition disable_auth_token :: "auth_env \<Rightarrow> timestamp \<Rightarrow> string \<Rightarrow> (scan_store, store_error, auth_token_summary) eff" where
  "disable_auth_token A now i s =
     (case sql_update (\<lambda>r. at_token_id r = i)
        (\<lambda>r. r\<lparr>at_disabled_at := Some (to_rfc3339 (sv_ts (ae_store A)) now)\<rparr>) (ss_tokens s) of
        (n, rows) \<Rightarrow>
          if n = 0 then (Inl (StAuthTokenNotFound i), s\<lparr>ss_tokens := rows\<rparr>)
          else eff_bind (get_auth_token_summary A i) (\<lambda>t.
                 eff_lift (ok_or (StAuthToken ''token row missing after disable'') t)) (s\<lparr>ss_tokens := rows\<rparr>))"

text \<open>The environment variables: the token of either name, and the role of either name.\<close>

definition bootstrap_auth_from_env ::
  "auth_env \<Rightarrow> timestamp \<Rightarrow> string \<Rightarrow> (string \<Rightarrow> string option) \<Rightarrow> (scan_store, store_error, unit) eff" where
  "bootstrap_auth_from_env A now i var =
     (let raw = (case var ''PRQNT_BOOTSTRAP_ADMIN_TOKEN'' of None \<Rightarrow> var ''PARACLETE_BOOTSTRAP_TOKEN'' | r \<Rightarrow> r);
          role = (case var ''PARACLETE_BOOTSTRAP_ROLE'' of None \<Rightarrow> var ''PRQNT_BOOTSTRAP_ROLE'' | r \<Rightarrow> r)
      in case raw of
           None \<Rightarrow> eff_return ()
         | Some t \<Rightarrow>
             if t = [] then eff_return ()
             else eff_bind (eff_lift (case role of None \<Rightarrow> Inr Admin | Some r \<Rightarrow> parse_role r)) (\<lambda>r.
               upsert_bootstrap_token A now i t r))"

section \<open>Requests\<close>

record http_request =
  hr_method :: string
  hr_path :: string
  hr_authorization :: "string option"

datatype auth_decision = Accept auth_principal | Reject nat string

definition parse_bearer :: "string option \<Rightarrow> string option" where
  "parse_bearer header =
     (case header of None \<Rightarrow> None
      | Some h \<Rightarrow>
          (case (case strip_prefix h ''Bearer '' of None \<Rightarrow> strip_prefix h ''bearer '' | r \<Rightarrow> r) of
             None \<Rightarrow> None
           | Some rest \<Rightarrow> (let t = str_trim rest in if t = [] then None else Some t)))"

definition required_role :: "string \<Rightarrow> string \<Rightarrow> auth_role" where
  "required_role path m =
     (if str_starts_with path ''/admin/tokens'' then Admin else if m = ''POST'' then Operator else Reader)"

definition auth_middleware :: "auth_env \<Rightarrow> timestamp \<Rightarrow> http_request \<Rightarrow> scan_store \<Rightarrow> auth_decision \<times> scan_store" where
  "auth_middleware A now req s =
     (case parse_bearer (hr_authorization req) of
        None \<Rightarrow> (Reject 401 ''missing or invalid Authorization header'', s)
      | Some t \<Rightarrow>
          (case verify_bearer_token A now t s of
             (Inl e, s1) \<Rightarrow> (Reject 500 ''internal error'', s1)
           | (Inr None, s1) \<Rightarrow> (Reject 401 ''invalid or disabled bearer token'', s1)
           | (Inr (Some p), s1) \<Rightarrow>
               if satisfies (pr_role p) (required_role (hr_path req) (hr_method req)) then (Accept p, s1)
               else (Reject 403 ''insufficient role for this operation'', s1)))"

end
