(* ===== verification/Service_Auth_Props.thy ===== *)
theory Service_Auth_Props
  imports Service_Auth Orch_Journal
begin

text \<open>
  Results on tokens: which requests are accepted, that a revoked secret stays revoked, that rotation hands the
  role over to the new secret, and that the bootstrap of a restart revives a disabled bootstrap token.
\<close>

section \<open>Well-formed token tables\<close>

definition tokens_wf :: "scan_store \<Rightarrow> bool" where
  "tokens_wf s \<longleftrightarrow> distinct (map at_token_id (ss_tokens s)) \<and> distinct (map at_token_hash (ss_tokens s))"

text \<open>Every operation on tokens, by any administrator or request, at any time; other tables change at will.\<close>

inductive auth_step :: "auth_env \<Rightarrow> scan_store \<Rightarrow> scan_store \<Rightarrow> bool" for A where
  A_insert: "insert_auth_token A now i label secret role s = (r, s') \<Longrightarrow> auth_step A s s'"
| A_create: "create_auth_token A now i random label role note s = (q, s') \<Longrightarrow> auth_step A s s'"
| A_bootstrap: "bootstrap_auth_from_env A now i var s = (u, s') \<Longrightarrow> auth_step A s s'"
| A_verify: "verify_bearer_token A now t s = (p, s') \<Longrightarrow> auth_step A s s'"
| A_rotate: "rotate_auth_token A now old new random s = (q, s') \<Longrightarrow> auth_step A s s'"
| A_disable: "disable_auth_token A now i s = (d, s') \<Longrightarrow> auth_step A s s'"
| A_other: "ss_tokens s' = ss_tokens s \<Longrightarrow> auth_step A s s'"

abbreviation auth_run :: "auth_env \<Rightarrow> scan_store \<Rightarrow> scan_store \<Rightarrow> bool" where
  "auth_run A \<equiv> (auth_step A)\<^sup>*\<^sup>*"

text \<open>
  How a step changes the table: rows keep identifier, hash, label, role and stay disabled; rows labelled
  \<open>bootstrap\<close> may disappear; new rows have a new identifier and a new hash.
\<close>

definition row_kept :: "auth_token_row \<Rightarrow> auth_token_row \<Rightarrow> bool" where
  "row_kept r r' \<longleftrightarrow> at_token_id r' = at_token_id r \<and> at_token_hash r' = at_token_hash r \<and> at_label r' = at_label r \<and>
     at_role r' = at_role r \<and> (at_disabled_at r \<noteq> None \<longrightarrow> at_disabled_at r' \<noteq> None)"

definition tokens_kept :: "scan_store \<Rightarrow> scan_store \<Rightarrow> bool" where
  "tokens_kept s s' \<longleftrightarrow> tokens_wf s' \<and>
     (\<forall>r \<in> set (ss_tokens s). at_label r \<noteq> ''bootstrap'' \<longrightarrow> (\<exists>r' \<in> set (ss_tokens s'). row_kept r r'))"

lemma row_kept_refl [simp]: "row_kept r r"
  by (simp add: row_kept_def)

lemma row_kept_trans: "row_kept r r1 \<Longrightarrow> row_kept r1 r2 \<Longrightarrow> row_kept r r2"
  by (auto simp: row_kept_def)

lemma tokens_kept_refl: "tokens_wf s \<Longrightarrow> ss_tokens s' = ss_tokens s \<Longrightarrow> tokens_kept s s'"
  by (auto simp: tokens_kept_def tokens_wf_def intro: row_kept_refl)

lemma tokens_kept_trans: "tokens_kept s s1 \<Longrightarrow> tokens_kept s1 s2 \<Longrightarrow> tokens_kept s s2"
  unfolding tokens_kept_def row_kept_def by (metis (no_types, lifting))

lemma insert_token_kept: "tokens_wf s \<Longrightarrow> insert_token w s = (r, s') \<Longrightarrow> tokens_kept s s'"
  by (auto simp: insert_token_def tokens_kept_def tokens_wf_def split: if_splits intro: row_kept_refl)

lemma update_kept:
  assumes "tokens_wf s" "ss_tokens s' = snd (sql_update P f (ss_tokens s))" "\<And>r. row_kept r (f r)"
  shows "tokens_kept s s'"
proof -
  define g where "g r = (if P r then f r else r)" for r
  have kept: "row_kept r (g r)" for r using assms(3) by (simp add: g_def)
  have keys: "at_token_id \<circ> g = at_token_id" "at_token_hash \<circ> g = at_token_hash"
    using kept by (auto simp: row_kept_def fun_eq_iff)
  have "ss_tokens s' = map g (ss_tokens s)" using assms(2) by (simp add: sql_update_def g_def [abs_def])
  then show ?thesis using assms(1) kept by (auto simp: tokens_kept_def tokens_wf_def keys)
qed

lemma transaction_kept:
  assumes "tokens_wf s" "\<And>r s'. m s = (r, s') \<Longrightarrow> tokens_kept s s'" "transaction m s = (r, s')"
  shows "tokens_kept s s'"
  using assms tokens_kept_refl [OF assms(1) refl]
  by (cases "m s") (auto simp: transaction_def split: sum.splits)

lemma bootstrap_kept:
  assumes "tokens_wf s" "upsert_bootstrap_token A now i t role s = (r, s')"
  shows "tokens_kept s s'"
proof (rule transaction_kept [OF assms(1) _ assms(2) [unfolded upsert_bootstrap_token_def]])
  fix r s1
  let ?s0 = "s\<lparr>ss_tokens := filter (\<lambda>r. at_label r \<noteq> ''bootstrap'') (ss_tokens s)\<rparr>"
  assume "eff_bind delete_bootstrap (\<lambda>_. insert_token (token_row A now i t ''bootstrap'' (auth_role_db role) None None)) s = (r, s1)"
  then have run: "insert_token (token_row A now i t ''bootstrap'' (auth_role_db role) None None) ?s0 = (r, s1)"
    by (simp add: eff_bind_apply delete_bootstrap_def)
  have wf0: "tokens_wf ?s0" using assms(1) by (auto simp: tokens_wf_def distinct_map_filter)
  from insert_token_kept [OF this run] show "tokens_kept s s1"
    by (auto simp: tokens_kept_def)
qed

lemma rotate_kept:
  assumes "tokens_wf s" "rotate_auth_token A now old new random s = (r, s')"
  shows "tokens_kept s s'"
proof (rule transaction_kept [OF assms(1) _ assms(2) [unfolded rotate_auth_token_def]])
  fix q s1
  let ?m = "\<lambda>o'. insert_token (token_row A now new (generate_bearer_secret random) (at_label o') (at_role o') (at_note o')
      (Some (take 12 (generate_bearer_secret random))))"
  assume run: "(case find (\<lambda>r. at_token_id r = old \<and> at_disabled_at r = None) (ss_tokens s) of
       None \<Rightarrow> (Inl (StAuthTokenNotFound old), s)
     | Some o' \<Rightarrow> (let secret = generate_bearer_secret random
          in eff_bind (insert_token (token_row A now new secret (at_label o') (at_role o') (at_note o') (Some (take 12 secret))))
               (\<lambda>_ s1. (Inr (new, secret),
                  s1\<lparr>ss_tokens := snd (sql_update (\<lambda>q. at_token_id q = old)
                    (\<lambda>q. q\<lparr>at_disabled_at := Some (to_rfc3339 (sv_ts (ae_store A)) now), at_replaced_by_token_id := Some new\<rparr>)
                    (ss_tokens s1))\<rparr>)) s)) = (q, s1)"
  show "tokens_kept s s1"
  proof (cases "find (\<lambda>r. at_token_id r = old \<and> at_disabled_at r = None) (ss_tokens s)")
    case None
    then show ?thesis using run tokens_kept_refl [OF assms(1)] by simp
  next
    case (Some o')
    obtain e s0 where ins: "?m o' s = (e, s0)" by fastforce
    note k = insert_token_kept [OF assms(1) ins]
    show ?thesis
    proof (cases e)
      case (Inl x)
      then show ?thesis using run k by (simp add: Some Let_def eff_bind_apply ins)
    next
      case (Inr u)
      have "tokens_kept s0 s1"
        by (rule update_kept) (use k run in \<open>auto simp: tokens_kept_def Some Let_def eff_bind_apply ins Inr row_kept_def\<close>)
      then show ?thesis using k tokens_kept_trans by blast
    qed
  qed
qed

lemma disable_kept:
  assumes "tokens_wf s" "disable_auth_token A now i s = (r, s')"
  shows "tokens_kept s s'"
proof -
  have "ss_tokens s' = snd (sql_update (\<lambda>r. at_token_id r = i)
      (\<lambda>r. r\<lparr>at_disabled_at := Some (to_rfc3339 (sv_ts (ae_store A)) now)\<rparr>) (ss_tokens s))"
    using assms(2) by (auto simp: disable_auth_token_def sql_update_def eff_bind_apply get_auth_token_summary_def
        split: if_splits option.splits sum.splits prod.splits)
  then show ?thesis by (rule update_kept [OF assms(1)]) (simp add: row_kept_def)
qed

lemma verify_kept:
  assumes "tokens_wf s" "verify_bearer_token A now t s = (p, s')"
  shows "tokens_kept s s'"
proof -
  let ?f = "\<lambda>q. q\<lparr>at_last_used_at := Some (to_rfc3339 (sv_ts (ae_store A)) now)\<rparr>"
  have "ss_tokens s' = ss_tokens s \<or> (\<exists>P. ss_tokens s' = snd (sql_update P ?f (ss_tokens s)))"
    using assms(2) by (auto simp: verify_bearer_token_def split: option.splits if_splits sum.splits)
  moreover have "row_kept r (?f r)" for r by (simp add: row_kept_def)
  ultimately show ?thesis using tokens_kept_refl [OF assms(1)] update_kept [OF assms(1), where f = ?f] by blast
qed

lemma auth_step_kept:
  assumes "auth_step A s s'" "tokens_wf s"
  shows "tokens_kept s s'"
  using assms
proof (cases rule: auth_step.cases)
  case (A_insert now i label secret role r)
  then show ?thesis using insert_token_kept [OF assms(2)]
    by (auto simp: insert_auth_token_def eff_bind_apply split: prod.splits sum.splits)
next
  case (A_create now i random label role nt q)
  then show ?thesis using insert_token_kept [OF assms(2)]
    by (auto simp: create_auth_token_def Let_def eff_bind_apply split: prod.splits sum.splits)
next
  case (A_bootstrap now i var u)
  then show ?thesis using bootstrap_kept [OF assms(2)] tokens_kept_refl [OF assms(2) refl]
    by (auto simp: bootstrap_auth_from_env_def Let_def eff_bind_apply eff_lift_def split: option.splits if_splits sum.splits)
next
  case (A_verify now t p)
  then show ?thesis by (rule verify_kept [OF assms(2)])
next
  case (A_rotate now old new random q)
  then show ?thesis by (rule rotate_kept [OF assms(2)])
next
  case (A_disable now i d)
  then show ?thesis by (rule disable_kept [OF assms(2)])
next
  case A_other
  then show ?thesis by (rule tokens_kept_refl [OF assms(2)])
qed

lemma auth_run_kept: "auth_run A s s' \<Longrightarrow> tokens_wf s \<Longrightarrow> tokens_kept s s'"
proof (induction rule: rtranclp_induct)
  case base
  then show ?case by (simp add: tokens_kept_refl)
next
  case (step y z)
  then have k: "tokens_kept s y" by simp
  then have "tokens_wf y" by (simp add: tokens_kept_def)
  from tokens_kept_trans [OF k auth_step_kept [OF step(2) this]] show ?case .
qed

lemma verify_disabled:
  assumes "tokens_wf s" "r \<in> set (ss_tokens s)" "at_token_hash r = ae_hash A t" "at_disabled_at r \<noteq> None"
  shows "verify_bearer_token A now t s = (Inr None, s)"
proof -
  have "q = r" if "q \<in> set (ss_tokens s)" "at_token_hash q = ae_hash A t" for q
    using assms(1-3) that by (auto simp: tokens_wf_def distinct_map inj_on_def)
  then have "find (\<lambda>q. at_token_hash q = ae_hash A t \<and> at_disabled_at q = None) (ss_tokens s) = None"
    using assms(4) by (auto simp: find_None_iff)
  then show ?thesis by (simp add: verify_bearer_token_def)
qed

lemma verify_enabled:
  assumes "tokens_wf s" "r \<in> set (ss_tokens s)" "at_token_hash r = ae_hash A t" "at_disabled_at r = None"
    "ae_uuid A (at_token_id r)" "parse_role (at_role r) = Inr role"
  shows "fst (verify_bearer_token A now t s) = Inr (Some \<lparr>pr_token_id = at_token_id r, pr_label = at_label r, pr_role = role\<rparr>)"
proof -
  have u: "q = r" if "q \<in> set (ss_tokens s)" "at_token_hash q = ae_hash A t" for q
    using assms(1-3) that by (auto simp: tokens_wf_def distinct_map inj_on_def)
  have "find (\<lambda>q. at_token_hash q = ae_hash A t \<and> at_disabled_at q = None) (ss_tokens s) \<noteq> None"
    using assms(2-4) by (auto simp: find_None_iff)
  then obtain q where "find (\<lambda>q. at_token_hash q = ae_hash A t \<and> at_disabled_at q = None) (ss_tokens s) = Some q" by blast
  moreover from this have "q = r" using u by (auto simp: find_Some_iff)
  ultimately show ?thesis using assms(5,6) by (simp add: verify_bearer_token_def)
qed

section \<open>Results\<close>

text \<open>
  C30. An accepted request is authorized: its header carries a bearer secret whose hash is stored in a token that is
  not disabled, the principal has the identifier, label and role of that token, and the role is at least the one the
  route needs, so the administration of tokens needs an administrator and every \<open>POST\<close> an operator.
\<close>

theorem accepted_requests_authorized:
  assumes "auth_middleware A now req s = (Accept p, s')"
  shows "\<exists>t r. parse_bearer (hr_authorization req) = Some t \<and> r \<in> set (ss_tokens s) \<and>
    at_token_hash r = ae_hash A t \<and> at_disabled_at r = None \<and> pr_token_id p = at_token_id r \<and>
    pr_label p = at_label r \<and> parse_role (at_role r) = Inr (pr_role p) \<and>
    (str_starts_with (hr_path req) ''/admin/tokens'' \<longrightarrow> pr_role p = Admin) \<and>
    (hr_method req = ''POST'' \<longrightarrow> pr_role p \<noteq> Reader)"
proof -
  obtain t where t: "parse_bearer (hr_authorization req) = Some t"
    using assms by (auto simp: auth_middleware_def split: option.splits)
  have ver: "fst (verify_bearer_token A now t s) = Inr (Some p)"
    and sat: "satisfies (pr_role p) (required_role (hr_path req) (hr_method req))"
    using assms by (auto simp: auth_middleware_def t split: prod.splits sum.splits option.splits if_splits)
  then obtain r where r: "find (\<lambda>q. at_token_hash q = ae_hash A t \<and> at_disabled_at q = None) (ss_tokens s) = Some r"
    "pr_token_id p = at_token_id r" "pr_label p = at_label r" "parse_role (at_role r) = Inr (pr_role p)"
    by (auto simp: verify_bearer_token_def split: option.splits if_splits sum.splits)
  have "r \<in> set (ss_tokens s)" "at_token_hash r = ae_hash A t" "at_disabled_at r = None"
    using r(1) by (auto simp: find_Some_iff)
  moreover have "str_starts_with (hr_path req) ''/admin/tokens'' \<longrightarrow> pr_role p = Admin"
    "hr_method req = ''POST'' \<longrightarrow> pr_role p \<noteq> Reader"
    using sat by (cases "pr_role p"; auto simp: satisfies_def required_role_def less_eq_auth_role_def split: if_splits)+
  ultimately show ?thesis using t r by blast
qed

definition demo_auth :: auth_env where
  "demo_auth = \<lparr>ae_store = \<lparr>sv_ts = demo_ts, sv_visit_jobs = (\<lambda>r. r), sv_visit_runs = (\<lambda>r. r), sv_visit_tokens = (\<lambda>r. r)\<rparr>,
     ae_hash = (\<lambda>s. CHR ''#'' # s), ae_uuid = (\<lambda>_. True), ae_bad_timestamp = (\<lambda>s. s)\<rparr>"

definition token_store :: scan_store where
  "token_store = snd (create_auth_token demo_auth 1 ''t2'' ''ab'' ''ci'' Operator None
     (snd (upsert_bootstrap_token demo_auth 0 ''t1'' ''root'' Admin empty_store)))"

definition demo_request :: http_request where
  "demo_request = \<lparr>hr_method = ''POST'', hr_path = ''/scans'', hr_authorization = Some ''Bearer prqnt_ab''\<rparr>"

theorem accepted_requests_authorized_witness:
  "\<exists>p s'. auth_middleware demo_auth 2 demo_request token_store = (Accept p, s') \<and> pr_role p \<noteq> Reader"
proof -
  have "(case fst (auth_middleware demo_auth 2 demo_request token_store) of Accept p \<Rightarrow> True | Reject _ _ \<Rightarrow> False)" by code_simp
  then obtain p s' where run: "auth_middleware demo_auth 2 demo_request token_store = (Accept p, s')"
    by (cases "auth_middleware demo_auth 2 demo_request token_store"; cases "fst (auth_middleware demo_auth 2 demo_request token_store)") auto
  from accepted_requests_authorized [OF run] run show ?thesis by (auto simp: demo_request_def)
qed

text \<open>
  C31. A revoked secret stays revoked: once a token other than the bootstrap token is disabled, by an administrator or by
  rotation, its secret is rejected in every later state, whatever tokens are created, rotated, disabled, used
  or bootstrapped; not even the same secret can be stored again.
\<close>

theorem revoked_secret_rejected:
  assumes "auth_run A s s'" and "tokens_wf s" and "r \<in> set (ss_tokens s)" and "at_token_hash r = ae_hash A secret"
    and "at_disabled_at r \<noteq> None" and "at_label r \<noteq> ''bootstrap''"
  shows "verify_bearer_token A now secret s' = (Inr None, s')"
proof -
  note k = auth_run_kept [OF assms(1,2)]
  then obtain r' where r': "r' \<in> set (ss_tokens s')" "row_kept r r'" using assms(3,6) by (auto simp: tokens_kept_def)
  show ?thesis
    using verify_disabled [of s' r' A secret now] k r' assms(4,5) by (auto simp: tokens_kept_def row_kept_def)
qed

definition disabled_store :: scan_store where
  "disabled_store = snd (disable_auth_token demo_auth 3 ''t2'' token_store)"

lemma disabled_store_facts: "tokens_wf disabled_store"
  "list_ex (\<lambda>r. at_token_hash r = ae_hash demo_auth ''prqnt_ab'' \<and> at_disabled_at r \<noteq> None \<and> at_label r \<noteq> ''bootstrap'') (ss_tokens disabled_store)"
  by code_simp+

theorem revoked_secret_rejected_witness:
  "verify_bearer_token demo_auth 5 ''prqnt_ab'' (snd (create_auth_token demo_auth 4 ''t3'' ''ab'' ''ci'' Admin None disabled_store)) =
     (Inr None, snd (create_auth_token demo_auth 4 ''t3'' ''ab'' ''ci'' Admin None disabled_store))"
proof -
  let ?s' = "snd (create_auth_token demo_auth 4 ''t3'' ''ab'' ''ci'' Admin None disabled_store)"
  have "auth_step demo_auth disabled_store ?s'" by (rule A_create) (rule prod.collapse [symmetric])
  then have run: "auth_run demo_auth disabled_store ?s'" by blast
  obtain r where "r \<in> set (ss_tokens disabled_store)" "at_token_hash r = ae_hash demo_auth ''prqnt_ab''"
    "at_disabled_at r \<noteq> None" "at_label r \<noteq> ''bootstrap''"
    using disabled_store_facts(2) by (auto simp: list_ex_iff)
  from revoked_secret_rejected [OF run disabled_store_facts(1) this] show ?thesis .
qed

text \<open>
  Rotation hands a token over: when it succeeds, the old token is disabled and names its replacement, the new
  secret is accepted with the label and role of the old token, and the tokens of others keep label, role and state.
\<close>

theorem rotation_transfers_role:
  assumes "tokens_wf s" and "rotate_auth_token A now old new random s = (Inr (i, secret), s')"
    and "r \<in> set (ss_tokens s)" and "at_token_id r = old" and "parse_role (at_role r) = Inr role" and "ae_uuid A new"
  shows "i = new \<and>
    (\<exists>r' \<in> set (ss_tokens s'). row_kept r r' \<and> at_disabled_at r' \<noteq> None \<and> at_replaced_by_token_id r' = Some new) \<and>
    fst (verify_bearer_token A later secret s') = Inr (Some \<lparr>pr_token_id = new, pr_label = at_label r, pr_role = role\<rparr>) \<and>
    (\<forall>q \<in> set (ss_tokens s). at_token_id q \<noteq> old \<longrightarrow> q \<in> set (ss_tokens s'))"
proof -
  let ?w = "token_row A now new (generate_bearer_secret random) (at_label r) (at_role r) (at_note r)
      (Some (take 12 (generate_bearer_secret random)))"
  let ?f = "\<lambda>q. q\<lparr>at_disabled_at := Some (to_rfc3339 (sv_ts (ae_store A)) now), at_replaced_by_token_id := Some new\<rparr>"
  have kept: "tokens_wf s'" using rotate_kept [OF assms(1,2)] by (simp add: tokens_kept_def)
  obtain o' where o': "find (\<lambda>r. at_token_id r = old \<and> at_disabled_at r = None) (ss_tokens s) = Some o'"
    using assms(2) by (auto simp: rotate_auth_token_def transaction_def split: option.splits)
  then have "o' \<in> set (ss_tokens s)" "at_token_id o' = old" by (auto simp: find_Some_iff)
  then have "o' = r" using assms(1,3,4) by (auto simp: tokens_wf_def distinct_map inj_on_def)
  then have i: "i = new" "secret = generate_bearer_secret random"
    and fresh: "new \<notin> at_token_id ` set (ss_tokens s)"
    and s': "ss_tokens s' = snd (sql_update (\<lambda>q. at_token_id q = old) ?f (ss_tokens s @ [?w]))"
    using assms(2) o' by (auto simp: rotate_auth_token_def transaction_def Let_def eff_bind_apply insert_token_def token_row_def
        split: if_splits sum.splits)
  have rows: "ss_tokens s' = map (\<lambda>q. if at_token_id q = old then ?f q else q) (ss_tokens s) @ [?w]"
    using s' fresh assms(3,4) by (auto simp: sql_update_def token_row_def)
  have w: "?w \<in> set (ss_tokens s')" "at_disabled_at ?w = None" "at_token_id ?w = new" "at_label ?w = at_label r"
      "at_role ?w = at_role r" "at_token_hash ?w = ae_hash A secret"
    by (simp_all add: rows token_row_def i(2))
  have "?f r \<in> set (ss_tokens s')" "row_kept r (?f r)" using assms(3,4) by (auto simp: rows row_kept_def)
  moreover have "\<forall>q \<in> set (ss_tokens s). at_token_id q \<noteq> old \<longrightarrow> q \<in> set (ss_tokens s')"
    by (auto simp: rows)
  moreover have "fst (verify_bearer_token A later secret s') = Inr (Some \<lparr>pr_token_id = new, pr_label = at_label r, pr_role = role\<rparr>)"
    using verify_enabled [OF kept w(1) w(6) w(2)] w(3-5) assms(5,6) by simp
  ultimately show ?thesis using i(1) by (auto intro!: bexI [of _ "?f r"])
qed

theorem rotation_transfers_role_witness:
  "\<exists>s'. rotate_auth_token demo_auth 4 ''t2'' ''t3'' ''cd'' token_store = (Inr (''t3'', ''prqnt_cd''), s') \<and>
     fst (verify_bearer_token demo_auth 5 ''prqnt_cd'' s') = Inr (Some \<lparr>pr_token_id = ''t3'', pr_label = ''ci'', pr_role = Operator\<rparr>)"
proof -
  have wf: "tokens_wf token_store" by code_simp
  have "fst (rotate_auth_token demo_auth 4 ''t2'' ''t3'' ''cd'' token_store) = Inr (''t3'', ''prqnt_cd'')" by code_simp
  then obtain s' where run: "rotate_auth_token demo_auth 4 ''t2'' ''t3'' ''cd'' token_store = (Inr (''t3'', ''prqnt_cd''), s')"
    by (metis prod.collapse)
  have "list_ex (\<lambda>r. at_token_id r = ''t2'' \<and> at_label r = ''ci'' \<and> parse_role (at_role r) = Inr Operator) (ss_tokens token_store)"
    by code_simp
  then obtain r where r: "r \<in> set (ss_tokens token_store)" "at_token_id r = ''t2''" "parse_role (at_role r) = Inr Operator" "at_label r = ''ci''"
    by (auto simp: list_ex_iff)
  from rotation_transfers_role [OF wf run r(1-3), of 5] run r(4) show ?thesis by (simp add: demo_auth_def)
qed

text \<open>
  A restart revives a disabled bootstrap token: with the bootstrap secret still in the environment, the start of the
  service deletes the disabled row and stores the secret anew, so that the secret is accepted with its role
  again, as long as no other token has its hash.
\<close>

theorem bootstrap_revives_disabled:
  assumes "tokens_wf s" and "\<And>q. q \<in> set (ss_tokens s) \<Longrightarrow> at_label q \<noteq> ''bootstrap'' \<Longrightarrow> at_token_hash q \<noteq> ae_hash A secret"
    and "i \<notin> at_token_id ` set (ss_tokens s)" and "ae_uuid A i"
    and "upsert_bootstrap_token A now i secret role s = (res, s')"
  shows "res = Inr () \<and> fst (verify_bearer_token A later secret s') =
    Inr (Some \<lparr>pr_token_id = i, pr_label = ''bootstrap'', pr_role = role\<rparr>)"
proof -
  let ?w = "token_row A now i secret ''bootstrap'' (auth_role_db role) None None"
  have "ae_hash A secret \<notin> at_token_hash ` set (filter (\<lambda>r. at_label r \<noteq> ''bootstrap'') (ss_tokens s))"
    using assms(2) by (auto simp: image_iff eq_commute [of "ae_hash A secret"])
  then have res: "res = Inr ()" "ss_tokens s' = filter (\<lambda>r. at_label r \<noteq> ''bootstrap'') (ss_tokens s) @ [?w]"
    using assms(3,5) by (auto simp: upsert_bootstrap_token_def transaction_def eff_bind_apply delete_bootstrap_def
        insert_token_def token_row_def split: if_splits)
  have wf: "tokens_wf s'" using bootstrap_kept [OF assms(1,5)] by (simp add: tokens_kept_def)
  have "?w \<in> set (ss_tokens s')" by (simp add: res(2))
  from verify_enabled [OF wf this, of A secret role later] assms(4) res(1) show ?thesis by (simp add: token_row_def)
qed

theorem bootstrap_revives_disabled_witness:
  "fst (verify_bearer_token demo_auth 4 ''root'' (snd (disable_auth_token demo_auth 3 ''t1'' token_store))) = Inr None \<and>
   fst (verify_bearer_token demo_auth 6 ''root'' (snd (upsert_bootstrap_token demo_auth 5 ''t9'' ''root'' Admin
     (snd (disable_auth_token demo_auth 3 ''t1'' token_store))))) = Inr (Some \<lparr>pr_token_id = ''t9'', pr_label = ''bootstrap'', pr_role = Admin\<rparr>)"
proof -
  let ?s = "snd (disable_auth_token demo_auth 3 ''t1'' token_store)"
  have wf: "tokens_wf ?s" by code_simp
  have "list_all (\<lambda>q. at_token_id q \<noteq> ''t9'' \<and> (at_label q \<noteq> ''bootstrap'' \<longrightarrow> at_token_hash q \<noteq> ae_hash demo_auth ''root'')) (ss_tokens ?s)"
    by code_simp
  then have other: "\<And>q. q \<in> set (ss_tokens ?s) \<Longrightarrow> at_label q \<noteq> ''bootstrap'' \<Longrightarrow> at_token_hash q \<noteq> ae_hash demo_auth ''root''"
    and fresh: "''t9'' \<notin> at_token_id ` set (ss_tokens ?s)" by (auto simp: list_all_iff)
  have "fst (verify_bearer_token demo_auth 4 ''root'' ?s) = Inr None" by code_simp
  moreover have "fst (verify_bearer_token demo_auth 6 ''root'' (snd (upsert_bootstrap_token demo_auth 5 ''t9'' ''root'' Admin ?s))) =
      Inr (Some \<lparr>pr_token_id = ''t9'', pr_label = ''bootstrap'', pr_role = Admin\<rparr>)"
    using bootstrap_revives_disabled [OF wf other fresh _ prod.collapse [symmetric]] by (simp add: demo_auth_def)
  ultimately show ?thesis ..
qed

end
