(* ===== verification/Service_Jobs.thy ===== *)
theory Service_Jobs
  imports Service_Store
begin

text \<open>
  Durable jobs of the service (\<open>job.rs\<close>, \<open>job_recovery.rs\<close>, and the job methods of
  \<open>sqlite_store.rs\<close> and \<open>postgres_store.rs\<close>): submission, claiming under a lease, renewal, recovery
  of jobs whose lease ran out, completion and cancellation. \<open>job_step\<close> interleaves them.
\<close>

section \<open>Kinds, states and the recovery policy\<close>

datatype job_kind = JkScan | JkRepair | JkBatchRepair | JkBatchResume

fun job_kind_as_str :: "job_kind \<Rightarrow> string" where
  "job_kind_as_str JkScan = ''scan''"
| "job_kind_as_str JkRepair = ''repair''"
| "job_kind_as_str JkBatchRepair = ''batch_repair''"
| "job_kind_as_str JkBatchResume = ''batch_resume''"

definition job_kind_parse :: "string \<Rightarrow> job_kind option" where
  "job_kind_parse s =
     (if s = ''scan'' then Some JkScan
      else if s = ''repair'' then Some JkRepair
      else if s = ''batch_repair'' then Some JkBatchRepair
      else if s = ''batch_resume'' then Some JkBatchResume
      else None)"

lemma job_kind_roundtrip [simp]: "job_kind_parse (job_kind_as_str k) = Some k"
  by (cases k) (simp_all add: job_kind_parse_def)

datatype job_status = JsQueued | JsRunning | JsSucceeded | JsFailed | JsCanceled

record job_recovery_policy =
  jp_lease_duration_secs :: u64
  jp_heartbeat_interval_secs :: u64
  jp_max_attempts :: u32

definition recovery_policy_default :: job_recovery_policy where
  "recovery_policy_default = \<lparr>jp_lease_duration_secs = 30, jp_heartbeat_interval_secs = 10, jp_max_attempts = 3\<rparr>"

record stale_recovery_stats =
  rs_requeued :: u64
  rs_failed_retries_exhausted :: u64

datatype job_cancel_outcome = CanceledFromQueued | CancelRequestedForRunning | AlreadyCanceled

section \<open>Submission and claiming\<close>

definition submitted_row ::
  "ts_codec \<Rightarrow> timestamp \<Rightarrow> string \<Rightarrow> job_kind \<Rightarrow> target_identity \<Rightarrow> string \<Rightarrow> scan_job_row" where
  "submitted_row T now job_id kind identity request_json =
     \<lparr>sj_job_id = job_id, sj_submitted_at = to_rfc3339 T now, sj_started_at = None, sj_completed_at = None,
      sj_status = ''queued'', sj_target_kind = ti_target_kind identity,
      sj_normalized_target_key = ti_normalized_key identity, sj_request_json = request_json,
      sj_failure_code = None, sj_failure_message = None, sj_run_id = None, sj_worker_id = None,
      sj_attempt_count = 0, sj_heartbeat_at = None, sj_leased_until = None, sj_recovery_note = None,
      sj_job_kind = job_kind_as_str kind, sj_payload_schema_version = 1, sj_cancel_requested = 0,
      sj_result_ref_json = None\<rparr>"

definition insert_application_job ::
  "store_env \<Rightarrow> timestamp \<Rightarrow> string \<Rightarrow> job_kind \<Rightarrow> target_identity \<Rightarrow> string \<Rightarrow> (scan_store, store_error, unit) eff" where
  "insert_application_job E now job_id kind identity request_json s =
     (if job_id \<in> sj_job_id ` set (ss_jobs s)
      then (Inl (StSql ''UNIQUE constraint failed: application_jobs.job_id''), s)
      else (Inr (), s\<lparr>ss_jobs := ss_jobs s @ [submitted_row (sv_ts E) now job_id kind identity request_json]\<rparr>))"

definition insert_scan_job_queued ::
  "store_env \<Rightarrow> timestamp \<Rightarrow> string \<Rightarrow> target_identity \<Rightarrow> string \<Rightarrow> (scan_store, store_error, unit) eff" where
  "insert_scan_job_queued E now job_id identity request_json =
     insert_application_job E now job_id JkScan identity request_json"

definition get_scan_job :: "string \<Rightarrow> (scan_store, store_error, scan_job_row) eff" where
  "get_scan_job job_id s =
     (case find (\<lambda>r. sj_job_id r = job_id) (ss_jobs s) of
        None \<Rightarrow> (Inl (StJobNotFound job_id), s) | Some r \<Rightarrow> (Inr r, s))"

definition claimed_row :: "ts_codec \<Rightarrow> timestamp \<Rightarrow> string \<Rightarrow> timestamp \<Rightarrow> timestamp \<Rightarrow> scan_job_row \<Rightarrow> scan_job_row" where
  "claimed_row T started worker hb lu r =
     r\<lparr>sj_status := ''running'', sj_started_at := Some (to_rfc3339 T started), sj_worker_id := Some worker,
       sj_heartbeat_at := Some (to_rfc3339 T hb), sj_leased_until := Some (to_rfc3339 T lu),
       sj_attempt_count := sj_attempt_count r + 1\<rparr>"

definition claim_next_queued_scan_job ::
  "store_env \<Rightarrow> timestamp \<Rightarrow> string \<Rightarrow> timestamp \<Rightarrow> timestamp \<Rightarrow> (scan_store, store_error, scan_job_row option) eff" where
  "claim_next_queued_scan_job E started worker hb lu s =
     (case order_by sj_submitted_at (sv_visit_jobs E) (filter (\<lambda>r. sj_status r = ''queued'') (ss_jobs s)) of
        [] \<Rightarrow> (Inr None, s)
      | p # _ \<Rightarrow>
          (let rows = snd (sql_update (\<lambda>r. sj_job_id r = sj_job_id p) (claimed_row (sv_ts E) started worker hb lu) (ss_jobs s))
           in (Inr (find (\<lambda>r. sj_job_id r = sj_job_id p) rows), s\<lparr>ss_jobs := rows\<rparr>)))"

text \<open>
  The statement of the Postgres store picks the row in a query of its own that skips rows locked by
  other transactions.
\<close>

definition pg_claim_next_queued_scan_job ::
  "string set \<Rightarrow> store_env \<Rightarrow> timestamp \<Rightarrow> string \<Rightarrow> timestamp \<Rightarrow> timestamp \<Rightarrow>
   (scan_store, store_error, scan_job_row option) eff" where
  "pg_claim_next_queued_scan_job locked E started worker hb lu s =
     (let picked = limit_offset 1 0 (order_by sj_submitted_at (sv_visit_jobs E)
            (filter (\<lambda>r. sj_status r = ''queued'' \<and> sj_job_id r \<notin> locked) (ss_jobs s)));
          hit = (\<lambda>r. sj_job_id r \<in> sj_job_id ` set picked);
          rows = snd (sql_update hit (claimed_row (sv_ts E) started worker hb lu) (ss_jobs s))
      in (Inr (find hit rows), s\<lparr>ss_jobs := rows\<rparr>))"

section \<open>Leases\<close>

definition renew_scan_job_lease ::
  "store_env \<Rightarrow> string \<Rightarrow> string \<Rightarrow> timestamp \<Rightarrow> timestamp \<Rightarrow> (scan_store, store_error, bool) eff" where
  "renew_scan_job_lease E job_id worker hb lu s =
     (case sql_update (\<lambda>r. sj_job_id r = job_id \<and> sj_worker_id r = Some worker \<and> sj_status r = ''running'')
        (\<lambda>r. r\<lparr>sj_heartbeat_at := Some (to_rfc3339 (sv_ts E) hb), sj_leased_until := Some (to_rfc3339 (sv_ts E) lu)\<rparr>)
        (ss_jobs s) of
        (n, rows) \<Rightarrow> (Inr (0 < n), s\<lparr>ss_jobs := rows\<rparr>))"

definition exhausted_row :: "ts_codec \<Rightarrow> timestamp \<Rightarrow> scan_job_row \<Rightarrow> scan_job_row" where
  "exhausted_row T now r =
     r\<lparr>sj_status := ''failed'', sj_completed_at := Some (to_rfc3339 T now),
       sj_failure_code := Some ''job_retries_exhausted'',
       sj_failure_message := Some ''maximum job execution attempts reached after worker loss or lease expiry'',
       sj_worker_id := None, sj_heartbeat_at := None, sj_leased_until := None,
       sj_recovery_note := Some ''retries_exhausted''\<rparr>"

definition requeued_row :: "scan_job_row \<Rightarrow> scan_job_row" where
  "requeued_row r =
     r\<lparr>sj_status := ''queued'', sj_started_at := None, sj_worker_id := None, sj_heartbeat_at := None,
       sj_leased_until := None,
       sj_recovery_note := Some ''requeued after lease expired without completion (worker lost or process died)''\<rparr>"

text \<open>\<open>leased_until < ?\<close> compares the texts of the times.\<close>

definition lease_expired :: "ts_codec \<Rightarrow> timestamp \<Rightarrow> scan_job_row \<Rightarrow> bool" where
  "lease_expired T now r =
     (sj_status r = ''running'' \<and> (case sj_leased_until r of None \<Rightarrow> False | Some l \<Rightarrow> l < to_rfc3339 T now))"

definition select_stale :: "ts_codec \<Rightarrow> timestamp \<Rightarrow> scan_job_row list \<Rightarrow> (string \<times> int) list" where
  "select_stale T now rows = map (\<lambda>r. (sj_job_id r, sj_attempt_count r)) (filter (lease_expired T now) rows)"

fun recover_jobs ::
  "ts_codec \<Rightarrow> timestamp \<Rightarrow> int \<Rightarrow> (string \<times> int) list \<Rightarrow> scan_job_row list \<times> stale_recovery_stats \<Rightarrow>
   scan_job_row list \<times> stale_recovery_stats" where
  "recover_jobs T now mx [] acc = acc"
| "recover_jobs T now mx ((job_id, attempts) # js) (rows, st) =
     (let hit = (\<lambda>r. sj_job_id r = job_id \<and> sj_status r = ''running'')
      in if attempts \<ge> mx
         then recover_jobs T now mx js (snd (sql_update hit (exhausted_row T now) rows),
                st\<lparr>rs_failed_retries_exhausted := rs_failed_retries_exhausted st + 1\<rparr>)
         else recover_jobs T now mx js (snd (sql_update hit requeued_row rows), st\<lparr>rs_requeued := rs_requeued st + 1\<rparr>))"

definition no_stats :: stale_recovery_stats where
  "no_stats = \<lparr>rs_requeued = 0, rs_failed_retries_exhausted = 0\<rparr>"

text \<open>In SQLite the whole recovery is one transaction on one snapshot.\<close>

definition recover_stale_scan_jobs ::
  "store_env \<Rightarrow> timestamp \<Rightarrow> job_recovery_policy \<Rightarrow> (scan_store, store_error, stale_recovery_stats) eff" where
  "recover_stale_scan_jobs E now policy s =
     (case recover_jobs (sv_ts E) now (as_i32 (jp_max_attempts policy))
        (select_stale (sv_ts E) now (ss_jobs s)) (ss_jobs s, no_stats) of
        (rows, st) \<Rightarrow> (Inr st, s\<lparr>ss_jobs := rows\<rparr>))"

text \<open>In Postgres the updates run under read committed: they see what was committed since the rows were selected.\<close>

definition pg_recover_apply ::
  "store_env \<Rightarrow> timestamp \<Rightarrow> job_recovery_policy \<Rightarrow> (string \<times> int) list \<Rightarrow> (scan_store, store_error, stale_recovery_stats) eff" where
  "pg_recover_apply E now policy stale s =
     (case recover_jobs (sv_ts E) now (as_i32 (jp_max_attempts policy)) stale (ss_jobs s, no_stats) of
        (rows, st) \<Rightarrow> (Inr st, s\<lparr>ss_jobs := rows\<rparr>))"

section \<open>Completion and cancellation\<close>

definition finish_job ::
  "string \<Rightarrow> string \<Rightarrow> (scan_job_row \<Rightarrow> scan_job_row) \<Rightarrow> (scan_store, store_error, unit) eff" where
  "finish_job message job_id f s =
     (case sql_update (\<lambda>r. sj_job_id r = job_id \<and> sj_status r = ''running'') f (ss_jobs s) of
        (n, rows) \<Rightarrow> if n = 0 then (Inl (StReportValidation message), s\<lparr>ss_jobs := rows\<rparr>) else (Inr (), s\<lparr>ss_jobs := rows\<rparr>))"

definition succeeded_row :: "ts_codec \<Rightarrow> timestamp \<Rightarrow> string option \<Rightarrow> string option \<Rightarrow> scan_job_row \<Rightarrow> scan_job_row" where
  "succeeded_row T completed run_id result_ref r =
     r\<lparr>sj_status := ''succeeded'', sj_completed_at := Some (to_rfc3339 T completed), sj_run_id := run_id,
       sj_result_ref_json := result_ref, sj_worker_id := None, sj_heartbeat_at := None, sj_leased_until := None,
       sj_cancel_requested := 0\<rparr>"

text \<open>The run of a job is a foreign key.\<close>

definition complete_application_job_success ::
  "store_env \<Rightarrow> timestamp \<Rightarrow> string \<Rightarrow> string option \<Rightarrow> string option \<Rightarrow> (scan_store, store_error, unit) eff" where
  "complete_application_job_success E completed job_id run_id result_ref s =
     (if (\<exists>r \<in> set (ss_jobs s). sj_job_id r = job_id \<and> sj_status r = ''running'') \<and>
         (case run_id of None \<Rightarrow> False | Some i \<Rightarrow> i \<notin> sr_run_id ` set (ss_runs s))
      then (Inl (StSql ''FOREIGN KEY constraint failed''), s)
      else finish_job ''application job not running or missing when completing success'' job_id
             (succeeded_row (sv_ts E) completed run_id result_ref) s)"

definition complete_scan_job_success ::
  "store_env \<Rightarrow> timestamp \<Rightarrow> string \<Rightarrow> string \<Rightarrow> (scan_store, store_error, unit) eff" where
  "complete_scan_job_success E completed job_id run_id =
     complete_application_job_success E completed job_id (Some run_id) None"

definition canceled_row :: "ts_codec \<Rightarrow> timestamp \<Rightarrow> scan_job_row \<Rightarrow> scan_job_row" where
  "canceled_row T completed r =
     r\<lparr>sj_status := ''canceled'', sj_completed_at := Some (to_rfc3339 T completed),
       sj_failure_code := Some ''canceled'', sj_failure_message := Some ''job canceled by client request'',
       sj_worker_id := None, sj_heartbeat_at := None, sj_leased_until := None, sj_cancel_requested := 0\<rparr>"

definition complete_application_job_canceled ::
  "store_env \<Rightarrow> timestamp \<Rightarrow> string \<Rightarrow> (scan_store, store_error, unit) eff" where
  "complete_application_job_canceled E completed job_id =
     finish_job ''application job not running or missing when completing cancel'' job_id (canceled_row (sv_ts E) completed)"

definition failed_row :: "ts_codec \<Rightarrow> timestamp \<Rightarrow> string \<Rightarrow> string \<Rightarrow> scan_job_row \<Rightarrow> scan_job_row" where
  "failed_row T completed code message r =
     r\<lparr>sj_status := ''failed'', sj_completed_at := Some (to_rfc3339 T completed), sj_failure_code := Some code,
       sj_failure_message := Some message, sj_worker_id := None, sj_heartbeat_at := None, sj_leased_until := None\<rparr>"

definition complete_scan_job_failure ::
  "store_env \<Rightarrow> timestamp \<Rightarrow> string \<Rightarrow> string \<Rightarrow> string \<Rightarrow> (scan_store, store_error, unit) eff" where
  "complete_scan_job_failure E completed job_id code message =
     finish_job ''scan job not running or missing when completing failure'' job_id (failed_row (sv_ts E) completed code message)"

definition canceled_before_start :: "ts_codec \<Rightarrow> timestamp \<Rightarrow> scan_job_row \<Rightarrow> scan_job_row" where
  "canceled_before_start T now r =
     r\<lparr>sj_status := ''canceled'', sj_completed_at := Some (to_rfc3339 T now),
       sj_failure_code := Some ''canceled'', sj_failure_message := Some ''job canceled before start''\<rparr>"

text \<open>
  A cancel request reads the row first and updates it in a statement of its own, guarded by the
  status it read.
\<close>

definition cancel_apply ::
  "store_env \<Rightarrow> timestamp \<Rightarrow> string \<Rightarrow> string \<Rightarrow> (scan_store, store_error, job_cancel_outcome) eff" where
  "cancel_apply E now job_id status s =
     (if status = ''queued'' then
        (case sql_update (\<lambda>r. sj_job_id r = job_id \<and> sj_status r = ''queued'') (canceled_before_start (sv_ts E) now) (ss_jobs s) of
           (n, rows) \<Rightarrow> if n = 0 then (Inl (StReportValidation ''job left queued before cancel could apply''), s\<lparr>ss_jobs := rows\<rparr>)
             else (Inr CanceledFromQueued, s\<lparr>ss_jobs := rows\<rparr>))
      else if status = ''running'' then
        (case sql_update (\<lambda>r. sj_job_id r = job_id \<and> sj_status r = ''running'') (\<lambda>r. r\<lparr>sj_cancel_requested := 1\<rparr>) (ss_jobs s) of
           (n, rows) \<Rightarrow> if n = 0 then (Inl (StReportValidation ''job left running before cancel could apply''), s\<lparr>ss_jobs := rows\<rparr>)
             else (Inr CancelRequestedForRunning, s\<lparr>ss_jobs := rows\<rparr>))
      else if status = ''canceled'' then (Inr AlreadyCanceled, s)
      else if status = ''succeeded'' \<or> status = ''failed''
        then (Inl (StReportValidation (''job '' @ job_id @ '' is already terminal ('' @ status @ '')'')), s)
      else (Inl (StReportValidation (''unknown job status `'' @ status @ ''`'')), s))"

definition request_cancel_job :: "store_env \<Rightarrow> timestamp \<Rightarrow> string \<Rightarrow> (scan_store, store_error, job_cancel_outcome) eff" where
  "request_cancel_job E now job_id =
     eff_bind (get_scan_job job_id) (\<lambda>row. cancel_apply E now job_id (sj_status row))"

definition job_cancel_requested :: "string \<Rightarrow> (scan_store, store_error, bool) eff" where
  "job_cancel_requested job_id s =
     (Inr (case find (\<lambda>r. sj_job_id r = job_id \<and> sj_status r = ''running'') (ss_jobs s) of
        None \<Rightarrow> False | Some r \<Rightarrow> sj_cancel_requested r \<noteq> 0), s)"

section \<open>Lists\<close>

definition has_status :: "string option \<Rightarrow> scan_job_row \<Rightarrow> bool" where
  "has_status status r = (case status of None \<Rightarrow> True | Some st \<Rightarrow> sj_status r = st)"

definition count_scan_jobs :: "string option \<Rightarrow> (scan_store, store_error, u64) eff" where
  "count_scan_jobs status s = (Inr (of_nat (length (filter (has_status status) (ss_jobs s)))), s)"

definition list_scan_jobs_page ::
  "store_env \<Rightarrow> string option \<Rightarrow> u64 \<Rightarrow> u64 \<Rightarrow> (scan_store, store_error, scan_job_row list) eff" where
  "list_scan_jobs_page E status offset lim s =
     (Inr (limit_offset (as_i64 lim) (as_i64 offset)
        (order_by_desc sj_submitted_at (sv_visit_jobs E) (filter (has_status status) (ss_jobs s)))), s)"

section \<open>Interleavings\<close>

text \<open>
  One operation of any worker or client on the SQLite store, at any time and in any order; a cancel request
  may have read its status before. The claim and the recovery of the Postgres store are not steps of it. The label is the job that a claim returns. Other tables change at will, but runs are never deleted.
\<close>

inductive job_step ::
  "store_env \<Rightarrow> job_recovery_policy \<Rightarrow> string option \<Rightarrow> scan_store \<Rightarrow> scan_store \<Rightarrow> bool"
  for E policy where
  J_insert: "insert_application_job E now i kind identity req s = (r, s') \<Longrightarrow> job_step E policy None s s'"
| J_claim: "claim_next_queued_scan_job E started worker hb lu s = (Inr row, s') \<Longrightarrow>
    job_step E policy (map_option sj_job_id row) s s'"
| J_renew: "renew_scan_job_lease E i worker hb lu s = (r, s') \<Longrightarrow> job_step E policy None s s'"
| J_recover: "recover_stale_scan_jobs E now policy s = (r, s') \<Longrightarrow> job_step E policy None s s'"
| J_success: "complete_application_job_success E now i run ref s = (r, s') \<Longrightarrow> job_step E policy None s s'"
| J_canceled: "complete_application_job_canceled E now i s = (r, s') \<Longrightarrow> job_step E policy None s s'"
| J_failure: "complete_scan_job_failure E now i code msg s = (r, s') \<Longrightarrow> job_step E policy None s s'"
| J_cancel: "cancel_apply E now i status s = (r, s') \<Longrightarrow> job_step E policy None s s'"
| J_other: "ss_jobs s' = ss_jobs s \<Longrightarrow> set (ss_runs s) \<subseteq> set (ss_runs s') \<Longrightarrow> job_step E policy None s s'"

inductive job_run ::
  "store_env \<Rightarrow> job_recovery_policy \<Rightarrow> string list \<Rightarrow> scan_store \<Rightarrow> scan_store \<Rightarrow> bool"
  for E policy where
  JR_nil: "job_run E policy [] s s"
| JR_step: "job_run E policy cs s s1 \<Longrightarrow> job_step E policy c s1 s' \<Longrightarrow>
    job_run E policy (cs @ (case c of None \<Rightarrow> [] | Some i \<Rightarrow> [i])) s s'"

end
