(* ===== verification/Service_Worker.thy ===== *)
theory Service_Worker
  imports Service_Jobs
begin

text \<open>
  The job worker (\<open>worker.rs\<close>) and the errors of the service (\<open>error.rs\<close>): the round of a worker up to
  the claim, the heartbeat of a claimed job, running a job of each kind, and settling it. The use cases a
  job runs (scan, repair, batch) are parameters that may change the store, fail or panic.
\<close>

section \<open>Errors\<close>

datatype app_error =
    InvalidRequest string
  | InvalidJsonRequest nat string
  | AppRunNotFound
  | AppJobNotFound
  | TokenNotFound
  | TargetNotFound string
  | AppScanFailed string
  | AppStore string
  | AppInternal string
  | Unauthorized string
  | Forbidden string
  | LocationNotAllowed string

fun app_error_to_string :: "app_error \<Rightarrow> string" where
  "app_error_to_string (InvalidRequest m) = m"
| "app_error_to_string (InvalidJsonRequest st m) = m"
| "app_error_to_string AppRunNotFound = ''run not found''"
| "app_error_to_string AppJobNotFound = ''job not found''"
| "app_error_to_string TokenNotFound = ''token not found''"
| "app_error_to_string (TargetNotFound m) = ''target not found''"
| "app_error_to_string (AppScanFailed m) = ''scan failed: '' @ m"
| "app_error_to_string (AppStore m) = ''store error: '' @ m"
| "app_error_to_string (AppInternal m) = ''internal error: '' @ m"
| "app_error_to_string (Unauthorized m) = m"
| "app_error_to_string (Forbidden m) = m"
| "app_error_to_string (LocationNotAllowed m) = ''location not allowed: '' @ m"

fun app_error_status :: "app_error \<Rightarrow> nat" where
  "app_error_status (InvalidRequest m) = 400"
| "app_error_status (InvalidJsonRequest st m) = st"
| "app_error_status AppRunNotFound = 404"
| "app_error_status AppJobNotFound = 404"
| "app_error_status TokenNotFound = 404"
| "app_error_status (TargetNotFound m) = 404"
| "app_error_status (AppScanFailed m) = 422"
| "app_error_status (AppStore m) = 500"
| "app_error_status (AppInternal m) = 500"
| "app_error_status (Unauthorized m) = 401"
| "app_error_status (Forbidden m) = 403"
| "app_error_status (LocationNotAllowed m) = 403"

fun store_error_to_string :: "store_error \<Rightarrow> string" where
  "store_error_to_string (StMigrate m) = m"
| "store_error_to_string (StSql m) = m"
| "store_error_to_string (StJson m) = m"
| "store_error_to_string (StReportValidation m) = ''report failed validation: '' @ m"
| "store_error_to_string (StRunNotFound i) = ''run not found: '' @ i"
| "store_error_to_string (StJobNotFound i) = ''scan job not found: '' @ i"
| "store_error_to_string (StAuthToken m) = ''auth token: '' @ m"
| "store_error_to_string (StAuthTokenNotFound i) = ''auth token not found: '' @ i"

fun app_error_from_store :: "store_error \<Rightarrow> app_error" where
  "app_error_from_store (StRunNotFound i) = AppRunNotFound"
| "app_error_from_store (StJobNotFound i) = AppJobNotFound"
| "app_error_from_store (StAuthTokenNotFound i) = TokenNotFound"
| "app_error_from_store (StReportValidation m) =
     (if str_contains m ''already terminal'' \<or> str_contains m ''already canceled'' then InvalidRequest m
      else AppStore (store_error_to_string (StReportValidation m)))"
| "app_error_from_store e = AppStore (store_error_to_string e)"

fun app_error_to_job_failure_label :: "app_error \<Rightarrow> string" where
  "app_error_to_job_failure_label (InvalidRequest m) = ''invalid_request''"
| "app_error_to_job_failure_label (InvalidJsonRequest st m) = ''invalid_request''"
| "app_error_to_job_failure_label (TargetNotFound m) = ''target_not_found''"
| "app_error_to_job_failure_label AppRunNotFound = ''store_error''"
| "app_error_to_job_failure_label (AppScanFailed m) = ''scan_failed''"
| "app_error_to_job_failure_label (AppStore m) = ''store_error''"
| "app_error_to_job_failure_label (AppInternal m) = ''internal_error''"
| "app_error_to_job_failure_label AppJobNotFound = ''internal_error''"
| "app_error_to_job_failure_label TokenNotFound = ''internal_error''"
| "app_error_to_job_failure_label (Unauthorized m) = ''internal_error''"
| "app_error_to_job_failure_label (Forbidden m) = ''internal_error''"
| "app_error_to_job_failure_label (LocationNotAllowed m) = ''internal_error''"

section \<open>The round of a worker\<close>

text \<open>Times count nanoseconds.\<close>

definition lease_end :: "job_recovery_policy \<Rightarrow> timestamp \<Rightarrow> timestamp" where
  "lease_end policy now = now + 1000000000 * as_i64 (jp_lease_duration_secs policy)"

text \<open>
  Recovery of stale jobs at time \<open>now\<close>, whose errors are logged only, then a claim with the heartbeat
  \<open>hb\<close>, which the store marks as started at \<open>started\<close>. A claimed job whose id is no UUID is skipped.
  The uuid crate's parser is the parameter \<open>is_uuid\<close>; the jobs counted for the gauges are read only and left out.
\<close>

definition worker_poll ::
  "(string \<Rightarrow> bool) \<Rightarrow> store_env \<Rightarrow> job_recovery_policy \<Rightarrow> string \<Rightarrow> timestamp \<Rightarrow> timestamp \<Rightarrow> timestamp \<Rightarrow> scan_store \<Rightarrow>
   scan_job_row option \<times> scan_store" where
  "worker_poll is_uuid E policy worker now hb started s =
     (case claim_next_queued_scan_job E started worker hb (lease_end policy hb) (snd (recover_stale_scan_jobs E now policy s)) of
        (Inr (Some job), s1) \<Rightarrow> (if is_uuid (sj_job_id job) then Some job else None, s1)
      | (Inr None, s1) \<Rightarrow> (None, s1)
      | (Inl _, s1) \<Rightarrow> (None, s1))"

section \<open>Heartbeat\<close>

text \<open>
  One round of the heartbeat of a job after its pause: whether it goes on, the cancellation flag and the
  store. The query of the cancel request and the renewal are two statements; nothing is assumed about
  what happens between rounds.
\<close>

definition heartbeat_round ::
  "store_env \<Rightarrow> job_recovery_policy \<Rightarrow> string \<Rightarrow> string \<Rightarrow> timestamp \<Rightarrow> bool \<Rightarrow> scan_store \<Rightarrow> bool \<times> bool \<times> scan_store" where
  "heartbeat_round E policy job_id worker now cancelled s =
     (if cancelled then (False, cancelled, s)
      else (case job_cancel_requested job_id s of (q, s1) \<Rightarrow>
        let cancelled' = (q = Inr True)
        in case renew_scan_job_lease E job_id worker now (lease_end policy now) s1 of
             (Inr True, s2) \<Rightarrow> (True, cancelled', s2)
           | (_, s2) \<Rightarrow> (False, cancelled', s2)))"

section \<open>Running a job\<close>

text \<open>A panic carries its message when it has a text.\<close>

datatype work_failure = WorkError app_error | WorkPanic "string option"

fun panic_message :: "string option \<Rightarrow> string" where
  "panic_message None = ''worker panic''"
| "panic_message (Some m) = ''worker panic: '' @ m"

datatype job_result_reference = ScanRunRef string | RepairManifestRef string | BatchRunRef string

text \<open>
  The use cases: each takes the request text; the cancellation flag of batch jobs is read by the batch
  itself. The last field renders a result reference, which may fail.
\<close>

record job_work =
  jw_scan :: "string \<Rightarrow> (scan_store, work_failure, string) eff"
  jw_repair :: "string \<Rightarrow> (scan_store, work_failure, job_result_reference) eff"
  jw_batch_repair :: "string \<Rightarrow> (scan_store, work_failure, job_result_reference) eff"
  jw_batch_resume :: "string \<Rightarrow> (scan_store, work_failure, job_result_reference) eff"
  jw_result_json :: "job_result_reference \<Rightarrow> (app_error, string) res"

definition on_app :: "(scan_store, store_error, 'a) eff \<Rightarrow> (scan_store, work_failure, 'a) eff" where
  "on_app m = eff_map_err (WorkError \<circ> app_error_from_store) m"

definition cancel_running_job :: "store_env \<Rightarrow> timestamp \<Rightarrow> string \<Rightarrow> (scan_store, work_failure, unit) eff" where
  "cancel_running_job E now job_id = on_app (complete_application_job_canceled E now job_id)"

definition complete_with_result_ref ::
  "store_env \<Rightarrow> job_work \<Rightarrow> timestamp \<Rightarrow> string \<Rightarrow> string option \<Rightarrow> job_result_reference \<Rightarrow> (scan_store, work_failure, unit) eff" where
  "complete_with_result_ref E W now job_id run_id ref =
     eff_bind (eff_lift (map_err WorkError (jw_result_json W ref))) (\<lambda>json.
       on_app (complete_application_job_success E now job_id run_id (Some json)))"

definition run_scan_job ::
  "store_env \<Rightarrow> job_work \<Rightarrow> timestamp \<Rightarrow> string \<Rightarrow> string \<Rightarrow> (scan_store, work_failure, unit) eff" where
  "run_scan_job E W now job_id req =
     eff_bind (jw_scan W req) (\<lambda>run_id. on_app (complete_scan_job_success E now job_id run_id))"

text \<open>\<open>cancel\<close> is the flag before the use case and \<open>cancel'\<close> the flag after it.\<close>

definition run_cancellable_job ::
  "store_env \<Rightarrow> job_work \<Rightarrow> timestamp \<Rightarrow> string \<Rightarrow> (scan_store, work_failure, job_result_reference) eff \<Rightarrow> bool \<Rightarrow> bool \<Rightarrow>
   (scan_store, work_failure, unit) eff" where
  "run_cancellable_job E W now job_id work cancel cancel' =
     (if cancel then cancel_running_job E now job_id
      else eff_bind work (\<lambda>ref.
        if cancel' then cancel_running_job E now job_id
        else complete_with_result_ref E W now job_id None ref))"

definition run_claimed_job ::
  "store_env \<Rightarrow> job_work \<Rightarrow> timestamp \<Rightarrow> string \<Rightarrow> job_kind \<Rightarrow> string \<Rightarrow> bool \<Rightarrow> (scan_store, work_failure, unit) eff" where
  "run_claimed_job E W now job_id kind req cancel' =
     eff_bind (on_app (job_cancel_requested job_id)) (\<lambda>cancel.
       case kind of
         JkScan \<Rightarrow> run_scan_job E W now job_id req
       | JkRepair \<Rightarrow> run_cancellable_job E W now job_id (jw_repair W req) cancel (cancel \<or> cancel')
       | JkBatchRepair \<Rightarrow> run_cancellable_job E W now job_id (jw_batch_repair W req) cancel (cancel \<or> cancel')
       | JkBatchResume \<Rightarrow> run_cancellable_job E W now job_id (jw_batch_resume W req) cancel (cancel \<or> cancel'))"

text \<open>A failure is written to the job; an error of that write is dropped.\<close>

definition settle_job ::
  "store_env \<Rightarrow> timestamp \<Rightarrow> string \<Rightarrow> (work_failure, unit) res \<times> scan_store \<Rightarrow> scan_store" where
  "settle_job E now job_id rs =
     (case rs of
        (Inr _, s) \<Rightarrow> s
      | (Inl (WorkError e), s) \<Rightarrow>
          snd (complete_scan_job_failure E now job_id (app_error_to_job_failure_label e) (app_error_to_string e) s)
      | (Inl (WorkPanic m), s) \<Rightarrow> snd (complete_scan_job_failure E now job_id ''internal_error'' (panic_message m) s))"

definition handle_job ::
  "store_env \<Rightarrow> job_work \<Rightarrow> timestamp \<Rightarrow> scan_job_row \<Rightarrow> bool \<Rightarrow> scan_store \<Rightarrow> scan_store" where
  "handle_job E W now job cancel' s =
     settle_job E now (sj_job_id job)
       (run_claimed_job E W now (sj_job_id job)
         (case job_kind_parse (sj_job_kind job) of None \<Rightarrow> JkScan | Some k \<Rightarrow> k) (sj_request_json job) cancel' s)"

end
