(* ===== verification/Scan_Report.thy ===== *)
theory Scan_Report
  imports Repair_Rules
begin

text \<open>
  Scan reports (\<open>paraclete-types\<close>): targets and requests, assets, datasets, findings with their
  evidence and fingerprints, summaries, the validation of a report, redaction and the comparison of
  two reports. Identifiers are the texts of UUIDs; the profiles of columns, which the engine leaves
  empty, are left out of a dataset.
\<close>

section \<open>Targets and requests\<close>

datatype target_kind = LocalFileKind | LocalDirectoryKind | LogicalDatasetKind | ObjectStoreKind

datatype scan_target =
    LocalFile path
  | LocalDirectory path
  | LogicalDataset string "string option"
  | ObjectStorePlaceholder string "string option"

fun target_kind_of :: "scan_target \<Rightarrow> target_kind" where
  "target_kind_of (LocalFile p) = LocalFileKind"
| "target_kind_of (LocalDirectory p) = LocalDirectoryKind"
| "target_kind_of (LogicalDataset i h) = LogicalDatasetKind"
| "target_kind_of (ObjectStorePlaceholder u d) = ObjectStoreKind"

datatype scan_profile = Quick | Standard | Deep | Baseline

datatype scan_mode = FullScan | IncrementalScan

record scan_options =
  so_mode :: scan_mode
  so_max_files :: u64
  so_format_hints :: "data_format list"

definition scan_options_default :: scan_options where
  "scan_options_default = \<lparr>so_mode = FullScan, so_max_files = 100000, so_format_hints = []\<rparr>"

record scan_request =
  rq_scan_id :: string
  rq_target :: scan_target
  rq_profile :: scan_profile
  rq_options :: scan_options

definition scan_request_new :: "string \<Rightarrow> scan_target \<Rightarrow> scan_profile \<Rightarrow> scan_request" where
  "scan_request_new uuid target profile =
     \<lparr>rq_scan_id = uuid, rq_target = target, rq_profile = profile, rq_options = scan_options_default\<rparr>"

section \<open>Assets and datasets\<close>

datatype inspection_status = IsInspected | IsFailed | IsSkipped

datatype probe_depth = FullWithinCap | PartialHead

datatype parse_confidence = HighConfidence | PartialConfidence | LowConfidence

record probe_metadata =
  pm_bytes_sampled :: u64
  pm_file_size_bytes :: "u64 option"
  pm_encoding_assumption :: string
  pm_probe_depth :: probe_depth
  pm_parse_confidence :: parse_confidence
  pm_notes :: "string option"

datatype failure_kind =
  IoErrorKind | FormatReadErrorKind | UnsupportedFormatKind | ProbeDecodeErrorKind | TruncatedByPolicyKind | InternalEngineErrorKind

record report_asset =
  ra_path :: path
  ra_format :: data_format
  ra_size_bytes :: u64
  ra_inspection_status :: inspection_status
  ra_failure_kind :: "failure_kind option"
  ra_failure_message :: "string option"
  ra_dataset_id :: "string option"
  ra_probe :: "probe_metadata option"
  ra_inspection_hints :: "json option"

datatype grouping_kind = SingleFile | PathAnchor | PathAnchorSchemaSplit | PathAnchorPartFilePattern

datatype partition_layout = Unpartitioned | HiveDirectoryKeys

record partition_segment =
  ps_key :: string
  ps_value :: string

record dataset_file =
  df_path :: path
  df_format :: data_format
  df_partitions :: "partition_segment list"
  df_byte_length :: "u64 option"

record report_dataset =
  ds_dataset_id :: string
  ds_grouping_kind :: grouping_kind
  ds_partition_layout :: partition_layout
  ds_files :: "dataset_file list"
  ds_schema :: "field_definition list option"

section \<open>Findings\<close>

datatype finding_severity = InfoSeverity | LowSeverity | MediumSeverity | HighSeverity | CriticalSeverity

datatype finding_category =
  FormatCategory | TargetCategory | SchemaCategory | PartitioningCategory | MetadataCategory
| IntegrityCategory | QualityCategory | PerformanceCategory | CoverageCategory | PluginCategory

datatype evidence_kind =
  FileSlice | ColumnStats | SchemaFragment | MetadataTable | ParquetFooter | PartitionLayoutEvidence | CustomEvidence

record finding_location =
  fl_file :: "path option"
  fl_columns :: "string list"
  fl_partition :: "partition_segment list"
  fl_row_group :: "u32 option"

record evidence_location_ref =
  el_path :: "string option"
  el_row_group_index :: "u32 option"
  el_partition :: "partition_segment list"

record evidence_reference =
  er_label :: string
  er_target :: "string option"

record evidence =
  ev_id :: string
  ev_kind :: evidence_kind
  ev_summary :: string
  ev_location_ref :: "evidence_location_ref option"
  ev_payload :: "json option"
  ev_references :: "evidence_reference list"

record recommendation =
  rc_summary :: string
  rc_detail :: "string option"

datatype fingerprint_algorithm = V1CanonicalJsonSha256 | V2CanonicalSortedJsonSha256

record finding_fingerprint =
  fp_algorithm :: fingerprint_algorithm
  fp_finding_digest :: string

record report_finding =
  rf_id :: string
  rf_code :: string
  rf_severity :: finding_severity
  rf_category :: finding_category
  rf_summary :: string
  rf_detail :: string
  rf_evidence :: "evidence list"
  rf_locations :: "finding_location list"
  rf_recommendations :: "recommendation list"
  rf_fingerprint :: "finding_fingerprint option"
  rf_attributes :: "(string \<times> json) list"

section \<open>Labels\<close>

text \<open>The texts of the enumerations, as serde writes them.\<close>

fun severity_label :: "finding_severity \<Rightarrow> string" where
  "severity_label InfoSeverity = ''info''"
| "severity_label LowSeverity = ''low''"
| "severity_label MediumSeverity = ''medium''"
| "severity_label HighSeverity = ''high''"
| "severity_label CriticalSeverity = ''critical''"

fun category_label :: "finding_category \<Rightarrow> string" where
  "category_label FormatCategory = ''format''"
| "category_label TargetCategory = ''target''"
| "category_label SchemaCategory = ''schema''"
| "category_label PartitioningCategory = ''partitioning''"
| "category_label MetadataCategory = ''metadata''"
| "category_label IntegrityCategory = ''integrity''"
| "category_label QualityCategory = ''quality''"
| "category_label PerformanceCategory = ''performance''"
| "category_label CoverageCategory = ''coverage''"
| "category_label PluginCategory = ''plugin''"

fun evidence_kind_label :: "evidence_kind \<Rightarrow> string" where
  "evidence_kind_label FileSlice = ''file_slice''"
| "evidence_kind_label ColumnStats = ''column_stats''"
| "evidence_kind_label SchemaFragment = ''schema_fragment''"
| "evidence_kind_label MetadataTable = ''metadata_table''"
| "evidence_kind_label ParquetFooter = ''parquet_footer''"
| "evidence_kind_label PartitionLayoutEvidence = ''partition_layout''"
| "evidence_kind_label CustomEvidence = ''custom''"

section \<open>Finding codes\<close>

datatype finding_code_error = CodeEmpty | CodeTooLong | CodeInvalidShape string | CodeInvalidSegment string

definition code_char :: "char \<Rightarrow> bool" where
  "code_char c =
     ((CHR ''a'' \<le> c \<and> c \<le> CHR ''z'') \<or> (CHR ''0'' \<le> c \<and> c \<le> CHR ''9'') \<or> c = CHR ''_'')"

definition validate_segment :: "string \<Rightarrow> (finding_code_error, unit) res" where
  "validate_segment seg =
     (if seg = [] then Inl (CodeInvalidShape ''empty segment'')
      else if \<not> list_all code_char seg then Inl (CodeInvalidSegment seg)
      else Inr ())"

fun validate_segments :: "string list \<Rightarrow> (finding_code_error, unit) res" where
  "validate_segments [] = Inr ()"
| "validate_segments (p # ps) = bind_res (validate_segment p) (\<lambda>_. validate_segments ps)"

definition validate_code_str :: "string \<Rightarrow> (finding_code_error, unit) res" where
  "validate_code_str s =
     (let parts = split_on (CHR ''.'') s
      in if length parts < 2 then Inl (CodeInvalidShape ''need at least two dot-separated segments'')
         else bind_res (validate_segments parts) (\<lambda>_.
           if parts ! 0 = ''system'' then
             (if length parts < 3 then Inl (CodeInvalidShape ''system codes require system.<domain>.<name>'') else Inr ())
           else if parts ! 0 = ''plugin'' then
             (if length parts < 3 then Inl (CodeInvalidShape ''plugin codes require plugin.<plugin_id>.<name>'')
              else if \<not> list_all (\<lambda>c. code_char c \<or> c = CHR ''-'') (parts ! 1) then Inl (CodeInvalidSegment (parts ! 1))
              else Inr ())
           else if parts ! 0 = ''user'' then Inr ()
           else Inl (CodeInvalidShape ''code must start with system., plugin., or user.'')))"

definition try_new_code :: "string \<Rightarrow> (finding_code_error, string) res" where
  "try_new_code s =
     (if s = [] then Inl CodeEmpty
      else if 256 < length s then Inl CodeTooLong
      else bind_res (validate_code_str s) (\<lambda>_. Inr s))"

section \<open>Fingerprints\<close>

text \<open>Objects with their keys sorted at every level; a later entry of an equal key wins.\<close>

fun sort_json_value :: "json \<Rightarrow> json" where
  "sort_json_value (JObj m) =
     JObj (fold (\<lambda>(k, v). bt_insert k v) (map (\<lambda>kv. (fst kv, sort_json_value (snd kv))) m) [])"
| "sort_json_value (JArr items) = JArr (map sort_json_value items)"
| "sort_json_value v = v"

definition opt_json :: "('a \<Rightarrow> json) \<Rightarrow> 'a option \<Rightarrow> json" where
  "opt_json f x = (case x of None \<Rightarrow> JNull | Some y \<Rightarrow> f y)"

text \<open>A field that is left out when it has no value.\<close>

definition opt_field :: "string \<Rightarrow> ('a \<Rightarrow> json) \<Rightarrow> 'a option \<Rightarrow> (string \<times> json) list" where
  "opt_field k f x = (case x of None \<Rightarrow> [] | Some y \<Rightarrow> [(k, f y)])"

definition partition_json :: "partition_segment list \<Rightarrow> json" where
  "partition_json segs = JArr (map (\<lambda>s. JObj [(''key'', JStr (ps_key s)), (''value'', JStr (ps_value s))]) segs)"

definition location_ref_json :: "evidence_location_ref \<Rightarrow> json" where
  "location_ref_json l =
     JObj (opt_field ''path'' JStr (el_path l) @ opt_field ''row_group_index'' (JInt \<circ> uint) (el_row_group_index l) @
       (if el_partition l = [] then [] else [(''partition'', partition_json (el_partition l))]))"

definition reference_json :: "evidence_reference \<Rightarrow> json" where
  "reference_json r = JObj ((''label'', JStr (er_label r)) # opt_field ''target'' JStr (er_target r))"

definition evidence_fingerprint_value :: "evidence \<Rightarrow> json" where
  "evidence_fingerprint_value e =
     sort_json_value (JObj
       ([(''id'', JStr (ev_id e)), (''kind'', JStr (evidence_kind_label (ev_kind e))), (''summary'', JStr (ev_summary e))] @
        opt_field ''location_ref'' location_ref_json (ev_location_ref e) @
        opt_field ''payload'' sort_json_value (ev_payload e) @
        (if ev_references e = [] then [] else [(''references'', JArr (map reference_json (ev_references e)))])))"

definition location_fingerprint_value :: "finding_location \<Rightarrow> json" where
  "location_fingerprint_value l =
     JObj [(''file'', opt_json JStr (fl_file l)), (''columns'', JArr (map JStr (fl_columns l))),
       (''partition'', partition_json (fl_partition l)), (''row_group'', opt_json (JInt \<circ> uint) (fl_row_group l))]"

definition finding_fingerprint_payload :: "report_finding \<Rightarrow> json" where
  "finding_fingerprint_payload f =
     JObj [(''code'', JStr (rf_code f)), (''severity'', JStr (severity_label (rf_severity f))),
       (''category'', JStr (category_label (rf_category f))), (''summary'', JStr (rf_summary f)),
       (''detail'', JStr (rf_detail f)), (''evidence'', JArr (map evidence_fingerprint_value (rf_evidence f))),
       (''locations'', JArr (map location_fingerprint_value (rf_locations f)))]"

definition compute_fingerprint :: "hasher \<Rightarrow> report_finding \<Rightarrow> finding_fingerprint" where
  "compute_fingerprint h f =
     \<lparr>fp_algorithm = V2CanonicalSortedJsonSha256,
      fp_finding_digest = sha256_hex h (render_json h (sort_json_value (finding_fingerprint_payload f)))\<rparr>"

section \<open>Reports\<close>

record scan_summary =
  sm_discovered_assets :: u64
  sm_files_scanned :: u64
  sm_inspected_assets :: u64
  sm_failed_inspection_assets :: u64
  sm_skipped_inspection_assets :: u64
  sm_dataset_member_assets :: u64
  sm_dataset_count :: u64
  sm_partial_inspection :: bool
  sm_scan_truncated :: bool
  sm_findings_total :: u64
  sm_findings_by_severity :: "(string \<times> u64) list"

record dataset_summary =
  dy_dataset_id :: string
  dy_file_count :: u64
  dy_dominant_format :: data_format

record format_summary =
  fs_format :: data_format
  fs_file_count :: u64

record report_metadata =
  rm_scan_id :: string
  rm_generated_at :: int
  rm_contract_schema :: string
  rm_report_format :: string
  rm_engine_revision :: "string option"

definition CONTRACT_SCHEMA_VERSION :: string where
  "CONTRACT_SCHEMA_VERSION = ''0.5.0''"

definition REPORT_FORMAT_VERSION :: string where
  "REPORT_FORMAT_VERSION = ''0.5.0''"

record full_report =
  fr_request :: scan_request
  fr_metadata :: report_metadata
  fr_summary :: scan_summary
  fr_assets :: "report_asset list"
  fr_datasets :: "report_dataset list"
  fr_dataset_summaries :: "dataset_summary list"
  fr_format_summaries :: "format_summary list"
  fr_findings :: "report_finding list"

section \<open>Validation\<close>

datatype validation_error =
  FindingEmptySummary | FindingEmptyDetail | ReportScanIdMismatch | ReportFindingCountMismatch
| ReportDatasetCountMismatch | ReportPartialInspectionMismatch | ReportDiscoveryCountMismatch
| ReportAssetInspectionMismatch | ReportDatasetMemberCountMismatch | ReportDatasetMembershipMismatch
| ReportAssetRecordInconsistent

fun validation_error_to_string :: "validation_error \<Rightarrow> string" where
  "validation_error_to_string FindingEmptySummary = ''finding summary must not be empty''"
| "validation_error_to_string FindingEmptyDetail = ''finding detail must not be empty''"
| "validation_error_to_string ReportScanIdMismatch = ''report metadata scan_id must match request.scan_id''"
| "validation_error_to_string ReportFindingCountMismatch = ''report summary.findings_total must match findings.len()''"
| "validation_error_to_string ReportDatasetCountMismatch = ''report summary.dataset_count must match datasets.len()''"
| "validation_error_to_string ReportPartialInspectionMismatch =
     ''report summary.partial_inspection must align with failures and truncation flags''"
| "validation_error_to_string ReportDiscoveryCountMismatch =
     ''report summary.discovered_assets must match assets.len() and files_scanned''"
| "validation_error_to_string ReportAssetInspectionMismatch =
     ''report summary inspection counters must match asset records''"
| "validation_error_to_string ReportDatasetMemberCountMismatch =
     ''report summary.dataset_member_assets must match assets with dataset_id''"
| "validation_error_to_string ReportDatasetMembershipMismatch =
     ''dataset member path missing from assets or dataset_id mismatch''"
| "validation_error_to_string ReportAssetRecordInconsistent =
     ''asset record fields inconsistent with inspection_status''"

definition validate_finding :: "report_finding \<Rightarrow> (validation_error, unit) res" where
  "validate_finding f =
     (if str_trim (rf_summary f) = [] then Inl FindingEmptySummary
      else if str_trim (rf_detail f) = [] then Inl FindingEmptyDetail
      else Inr ())"

definition len64 :: "'a list \<Rightarrow> u64" where
  "len64 xs = of_nat (length xs)"

definition count_status :: "inspection_status \<Rightarrow> report_asset list \<Rightarrow> u64" where
  "count_status st assets = len64 (filter (\<lambda>a. ra_inspection_status a = st) assets)"

definition asset_consistent :: "report_asset \<Rightarrow> bool" where
  "asset_consistent a =
     (case ra_inspection_status a of
        IsFailed \<Rightarrow> ra_failure_kind a \<noteq> None \<and> str_trim (case ra_failure_message a of None \<Rightarrow> [] | Some m \<Rightarrow> m) \<noteq> []
      | IsInspected \<Rightarrow> ra_failure_message a = None \<and> ra_failure_kind a = None
      | IsSkipped \<Rightarrow> ra_failure_message a = None \<and> ra_failure_kind a = None \<and> ra_probe a = None \<and> ra_dataset_id a = None)"

definition membership :: "report_asset list \<Rightarrow> (string \<times> string) list" where
  "membership assets =
     fold (\<lambda>a m. case ra_dataset_id a of None \<Rightarrow> m | Some d \<Rightarrow> bt_insert (ra_path a) d m) assets []"

definition validate_report :: "full_report \<Rightarrow> (validation_error, unit) res" where
  "validate_report r =
     (let sm = fr_summary r; assets = fr_assets r; n = len64 assets;
          inspected = count_status IsInspected assets; failed = count_status IsFailed assets;
          skipped = count_status IsSkipped assets;
          members = len64 (filter (\<lambda>a. ra_dataset_id a \<noteq> None) assets)
      in if rm_scan_id (fr_metadata r) \<noteq> rq_scan_id (fr_request r) then Inl ReportScanIdMismatch
         else if sm_findings_total sm \<noteq> len64 (fr_findings r) then Inl ReportFindingCountMismatch
         else if sm_dataset_count sm \<noteq> len64 (fr_datasets r) then Inl ReportDatasetCountMismatch
         else if sm_partial_inspection sm \<noteq> (0 < sm_failed_inspection_assets sm \<or> sm_scan_truncated sm)
           then Inl ReportPartialInspectionMismatch
         else if sm_discovered_assets sm \<noteq> n \<or> sm_files_scanned sm \<noteq> n \<or> sm_discovered_assets sm \<noteq> sm_files_scanned sm
           then Inl ReportDiscoveryCountMismatch
         else if \<not> list_all asset_consistent assets then Inl ReportAssetRecordInconsistent
         else if inspected \<noteq> sm_inspected_assets sm \<or> failed \<noteq> sm_failed_inspection_assets sm \<or>
                 skipped \<noteq> sm_skipped_inspection_assets sm \<or> members \<noteq> sm_dataset_member_assets sm
           then Inl ReportAssetInspectionMismatch
         else if inspected + failed + skipped \<noteq> sm_discovered_assets sm then Inl ReportAssetInspectionMismatch
         else if \<not> list_all (\<lambda>d. list_all (\<lambda>f. map_of (membership assets) (df_path f) = Some (ds_dataset_id d)) (ds_files d))
                   (fr_datasets r)
           then Inl ReportDatasetMembershipMismatch
         else Inr ())"

section \<open>Redaction\<close>

record redaction_policy =
  rp_strip_probe_inspection_hints :: bool
  rp_strip_probe_metadata :: bool
  rp_strip_finding_evidence_payloads :: bool
  rp_truncate_failure_messages_to :: "nat option"

definition transport_safe_persist :: redaction_policy where
  "transport_safe_persist =
     \<lparr>rp_strip_probe_inspection_hints = True, rp_strip_probe_metadata = True,
      rp_strip_finding_evidence_payloads = True, rp_truncate_failure_messages_to = Some 8192\<rparr>"

text \<open>The first characters of a text in UTF-8: a character is a byte and the continuation bytes after it.\<close>

definition utf8_continuation :: "char \<Rightarrow> bool" where
  "utf8_continuation c = ((of_char c :: nat) div 64 = 2)"

fun take_chars :: "nat \<Rightarrow> string \<Rightarrow> string" where
  "take_chars 0 s = []"
| "take_chars (Suc n) [] = []"
| "take_chars (Suc n) (c # s) =
     c # takeWhile utf8_continuation s @ take_chars n (dropWhile utf8_continuation s)"

definition redact_asset :: "redaction_policy \<Rightarrow> report_asset \<Rightarrow> report_asset" where
  "redact_asset policy a =
     a\<lparr>ra_inspection_hints := if rp_strip_probe_inspection_hints policy then None else ra_inspection_hints a,
       ra_probe := if rp_strip_probe_metadata policy then None else ra_probe a,
       ra_failure_message := (case rp_truncate_failure_messages_to policy of
           None \<Rightarrow> ra_failure_message a | Some mx \<Rightarrow> map_option (take_chars mx) (ra_failure_message a))\<rparr>"

definition redact_finding :: "redaction_policy \<Rightarrow> report_finding \<Rightarrow> report_finding" where
  "redact_finding policy f =
     (if rp_strip_finding_evidence_payloads policy
      then f\<lparr>rf_evidence := map (\<lambda>e. e\<lparr>ev_payload := None\<rparr>) (rf_evidence f)\<rparr> else f)"

definition apply_redaction_policy :: "redaction_policy \<Rightarrow> full_report \<Rightarrow> full_report" where
  "apply_redaction_policy policy r =
     r\<lparr>fr_assets := map (redact_asset policy) (fr_assets r), fr_findings := map (redact_finding policy) (fr_findings r)\<rparr>"

section \<open>Comparison of reports\<close>

record finding_delta =
  fd_added :: "string list"
  fd_removed :: "string list"

record summary_delta =
  sx_discovered_assets :: int
  sx_inspected_assets :: int
  sx_failed_inspection_assets :: int
  sx_skipped_inspection_assets :: int
  sx_dataset_member_assets :: int
  sx_dataset_count :: int
  sx_findings_total :: int

record run_diff =
  rd_run_a :: string
  rd_run_b :: string
  rd_findings :: finding_delta
  rd_datasets_added :: "string list"
  rd_datasets_removed :: "string list"
  rd_summary_delta :: summary_delta

definition finding_fingerprints :: "full_report \<Rightarrow> string set" where
  "finding_fingerprints r =
     set (map (\<lambda>f. case rf_fingerprint f of None \<Rightarrow> ''fallback:'' @ rf_id f | Some fp \<Rightarrow> fp_finding_digest fp) (fr_findings r))"

definition dataset_ids :: "full_report \<Rightarrow> string set" where
  "dataset_ids r = set (map ds_dataset_id (fr_datasets r))"

text \<open>A counter that does not fit \<open>i64\<close> counts as zero.\<close>

definition try_i64 :: "u64 \<Rightarrow> int" where
  "try_i64 n = (if uint n < 2 ^ 63 then uint n else 0)"

definition diff_summaries :: "scan_summary \<Rightarrow> scan_summary \<Rightarrow> summary_delta" where
  "diff_summaries a b =
     (let d = (\<lambda>f. try_i64 (f b) - try_i64 (f a))
      in \<lparr>sx_discovered_assets = d sm_discovered_assets, sx_inspected_assets = d sm_inspected_assets,
          sx_failed_inspection_assets = d sm_failed_inspection_assets,
          sx_skipped_inspection_assets = d sm_skipped_inspection_assets,
          sx_dataset_member_assets = d sm_dataset_member_assets,
          sx_dataset_count = d sm_dataset_count, sx_findings_total = d sm_findings_total\<rparr>)"

definition diff_reports :: "string \<Rightarrow> string \<Rightarrow> full_report \<Rightarrow> full_report \<Rightarrow> run_diff" where
  "diff_reports run_a run_b a b =
     \<lparr>rd_run_a = run_a, rd_run_b = run_b,
      rd_findings = \<lparr>fd_added = sorted_list_of_set (finding_fingerprints b - finding_fingerprints a),
        fd_removed = sorted_list_of_set (finding_fingerprints a - finding_fingerprints b)\<rparr>,
      rd_datasets_added = sorted_list_of_set (dataset_ids b - dataset_ids a),
      rd_datasets_removed = sorted_list_of_set (dataset_ids a - dataset_ids b),
      rd_summary_delta = diff_summaries (fr_summary a) (fr_summary b)\<rparr>"

end
