(* ===== verification/Scan_Infer.thy ===== *)
theory Scan_Infer
  imports Scan_Report "HOL-Library.Product_Lexorder"
begin

unbundle bit_operations_syntax

text \<open>
  Resolution of a target into files and the inference of logical Parquet datasets
  (\<open>paraclete-core\<close>: \<open>error.rs\<close>, \<open>failure_map.rs\<close>, \<open>format_detection.rs\<close>,
  \<open>local_resolve.rs\<close>, \<open>dataset_infer.rs\<close>). Paths are ordered by their components, as
  \<open>Utf8PathBuf\<close> orders them. The file system, the reader of Parquet footers, the JSON parser and the
  sources of identifiers are fields of the environment.
\<close>

section \<open>Errors\<close>

datatype core_error =
    MissingPath path
  | CoreUnsupported string
  | CorePlugin string
  | CoreIo string
  | NonUtf8Path string
  | CoreParquet string
  | CoreInspect string
  | CoreReportValidation string

fun core_error_to_string :: "core_error \<Rightarrow> string" where
  "core_error_to_string (MissingPath p) = ''target path does not exist: '' @ p"
| "core_error_to_string (CoreUnsupported m) = ''unsupported target for local engine: '' @ m"
| "core_error_to_string (CorePlugin m) = m"
| "core_error_to_string (CoreIo m) = ''I/O error: '' @ m"
| "core_error_to_string (NonUtf8Path m) = ''path is not valid UTF-8: '' @ m"
| "core_error_to_string (CoreParquet m) = ''parquet error: '' @ m"
| "core_error_to_string (CoreInspect m) = ''shallow inspect error: '' @ m"
| "core_error_to_string (CoreReportValidation m) = ''report validation failed: '' @ m"

fun failure_kind_of :: "core_error \<Rightarrow> failure_kind" where
  "failure_kind_of (MissingPath p) = IoErrorKind"
| "failure_kind_of (CoreIo m) = IoErrorKind"
| "failure_kind_of (NonUtf8Path m) = IoErrorKind"
| "failure_kind_of (CoreParquet m) = FormatReadErrorKind"
| "failure_kind_of (CoreInspect m) = ProbeDecodeErrorKind"
| "failure_kind_of (CoreUnsupported m) = UnsupportedFormatKind"
| "failure_kind_of (CoreReportValidation m) = InternalEngineErrorKind"
| "failure_kind_of (CorePlugin m) = InternalEngineErrorKind"

section \<open>Paths\<close>

fun component_str :: "component \<Rightarrow> string" where
  "component_str RootDir = ''/''"
| "component_str CurDir = ''.''"
| "component_str ParentDir = ''..''"
| "component_str (Normal s) = s"

definition path_file_name :: "path \<Rightarrow> string option" where
  "path_file_name p =
     (case rev (path_components p) of Normal s # _ \<Rightarrow> Some s | _ \<Rightarrow> None)"

definition path_extension :: "path \<Rightarrow> string option" where
  "path_extension p =
     (case path_file_name p of
        None \<Rightarrow> None
      | Some s \<Rightarrow>
          (let ext = rev (takeWhile (\<lambda>c. c \<noteq> CHR ''.'') (rev s))
           in if CHR ''.'' \<notin> set s \<or> length s = length ext + 1 then None else Some ext))"

text \<open>\<open>BTreeMap<Utf8PathBuf, _>\<close>: paths with equal components are one key, whose first text stays.\<close>

type_synonym 'v path_map = "(component list \<times> path \<times> 'v) list"

definition pm_get :: "'v path_map \<Rightarrow> path \<Rightarrow> 'v option" where
  "pm_get m p = map_option snd (map_of m (path_components p))"

definition pm_insert :: "path \<Rightarrow> 'v \<Rightarrow> 'v path_map \<Rightarrow> 'v path_map" where
  "pm_insert p v m =
     bt_insert (path_components p) (case map_of m (path_components p) of None \<Rightarrow> p | Some (q, _) \<Rightarrow> q, v) m"

definition pm_keys :: "'v path_map \<Rightarrow> path list" where
  "pm_keys m = map (fst \<circ> snd) m"

definition pm_values :: "'v path_map \<Rightarrow> 'v list" where
  "pm_values m = map (snd \<circ> snd) m"

definition sort_paths :: "path list \<Rightarrow> path list" where
  "sort_paths = sort_key path_components"

section \<open>Resolution\<close>

record resolved_asset =
  rs_path :: path
  rs_format :: data_format
  rs_size_bytes :: u64

record scan_plan =
  pl_root :: path
  pl_assets :: "resolved_asset list"
  pl_truncated :: bool

record row_group_summary =
  rg_index :: nat
  rg_num_rows :: int
  rg_compressed_size :: int
  rg_total_byte_size :: int

record parquet_footer =
  pq_path :: string
  pq_num_rows :: int
  pq_num_row_groups :: nat
  pq_row_groups :: "row_group_summary list"
  pq_schema :: "field_definition list"
  pq_created_by :: "string option"
  pq_compression_codecs :: "string list"
  pq_statistics_present :: bool

text \<open>
  What the \<open>parquet\<close> crate reads from a footer: rows, writer, the columns of the schema with the debug
  texts of their types, and per row group its sizes and, per column chunk, the codec and whether it has statistics.
\<close>

record parquet_column =
  pc_name :: string
  pc_physical_type :: string
  pc_logical_type :: string
  pc_optional :: bool

record parquet_row_group =
  pg_num_rows :: int
  pg_compressed_size :: int
  pg_total_byte_size :: int
  pg_chunks :: "(string \<times> bool) list"

record parquet_metadata =
  pt_num_rows :: int
  pt_created_by :: "string option"
  pt_columns :: "parquet_column list"
  pt_row_groups :: "parquet_row_group list"

definition schema_from_parquet_meta :: "parquet_column list \<Rightarrow> field_definition list" where
  "schema_from_parquet_meta cols =
     map (\<lambda>c. \<lparr>fld_name = pc_name c, fld_logical_type = pc_physical_type c @ '' '' @ pc_logical_type c,
       fld_nullable = pc_optional c\<rparr>) cols"

definition inspection_from_metadata :: "string \<Rightarrow> parquet_metadata \<Rightarrow> parquet_footer" where
  "inspection_from_metadata p meta =
     (let groups = pt_row_groups meta; chunks = concat (map pg_chunks groups)
      in \<lparr>pq_path = p, pq_num_rows = pt_num_rows meta, pq_num_row_groups = length groups,
          pq_row_groups = map (\<lambda>(i, g). \<lparr>rg_index = i, rg_num_rows = pg_num_rows g,
            rg_compressed_size = pg_compressed_size g, rg_total_byte_size = pg_total_byte_size g\<rparr>) (enumerate 0 groups),
          pq_schema = schema_from_parquet_meta (pt_columns meta), pq_created_by = pt_created_by meta,
          pq_compression_codecs = sorted_list_of_set (set (map (to_uppercase \<circ> fst) chunks)),
          pq_statistics_present = (groups \<noteq> [] \<and> list_all snd chunks)\<rparr>)"

text \<open>An entry of a directory walk that could be read: its path, unless it is not UTF-8, and the size of the file.\<close>

record scan_entry =
  we_path :: "path option"
  we_lossy :: string
  we_is_file :: bool
  we_size :: "u64 option"

text \<open>
  The environment of the engine. \<open>new_uuid\<close> gives the random identifiers: each place that draws one has
  a name of its own, so that nothing is assumed about their values.
\<close>

record scan_env =
  sn_exists :: "path \<Rightarrow> bool"
  sn_metadata :: "path \<Rightarrow> (string, u64) res"
  sn_walk :: "path \<Rightarrow> scan_entry list"
  sn_read_head :: "path \<Rightarrow> nat \<Rightarrow> (string, string \<times> u64) res"
  sn_from_utf8_lossy :: "string \<Rightarrow> string"
  sn_alphabetic :: "string \<Rightarrow> bool"
  sn_parse_json :: "string \<Rightarrow> (string, json) res"
  sn_open :: "path \<Rightarrow> (string, string) res"
  sn_read_metadata :: "string \<Rightarrow> (string, parquet_metadata) res"
  sn_uuid :: "string list \<Rightarrow> string"
  sn_hasher :: hasher
  sn_now :: int

definition inspect_parquet_file :: "scan_env \<Rightarrow> path \<Rightarrow> (core_error, parquet_footer) res" where
  "inspect_parquet_file E p =
     bind_res (map_err CoreIo (sn_open E p)) (\<lambda>bytes.
       bind_res (map_err CoreParquet (sn_read_metadata E bytes)) (\<lambda>meta. Inr (inspection_from_metadata p meta)))"

definition eq_ignore_ascii_case :: "string \<Rightarrow> string \<Rightarrow> bool" where
  "eq_ignore_ascii_case a b = (to_lowercase a = to_lowercase b)"

definition classify_format_from_path :: "path \<Rightarrow> data_format" where
  "classify_format_from_path p =
     (case path_extension p of
        None \<Rightarrow> FmtUnknown
      | Some ext \<Rightarrow>
          if eq_ignore_ascii_case ext ''parquet'' \<or> eq_ignore_ascii_case ext ''pq'' then FmtParquet
          else if eq_ignore_ascii_case ext ''csv'' then FmtCsv
          else if eq_ignore_ascii_case ext ''json'' then FmtJson
          else if eq_ignore_ascii_case ext ''ndjson'' \<or> eq_ignore_ascii_case ext ''jsonl'' then FmtNdjson
          else FmtUnknown)"

definition resolve_file :: "scan_env \<Rightarrow> path \<Rightarrow> (core_error, scan_plan) res" where
  "resolve_file E p =
     (if \<not> sn_exists E p then Inl (MissingPath p)
      else bind_res (map_err CoreIo (sn_metadata E p)) (\<lambda>len.
        Inr \<lparr>pl_root = (case path_parent p of None \<Rightarrow> ''.'' | Some d \<Rightarrow> d),
             pl_assets = [\<lparr>rs_path = p, rs_format = classify_format_from_path p, rs_size_bytes = len\<rparr>],
             pl_truncated = False\<rparr>))"

fun walk_assets ::
  "nat \<Rightarrow> scan_entry list \<Rightarrow> resolved_asset list \<Rightarrow> (core_error, resolved_asset list \<times> bool) res" where
  "walk_assets cap [] acc = Inr (acc, False)"
| "walk_assets cap (e # es) acc =
     (if \<not> we_is_file e then walk_assets cap es acc
      else (case we_path e of
        None \<Rightarrow> Inl (NonUtf8Path (we_lossy e))
      | Some p \<Rightarrow> (case we_size e of
          None \<Rightarrow> walk_assets cap es acc
        | Some len \<Rightarrow>
            (let acc' = acc @ [\<lparr>rs_path = p, rs_format = classify_format_from_path p, rs_size_bytes = len\<rparr>]
             in if cap \<le> length acc' then Inr (acc', True) else walk_assets cap es acc'))))"

definition resolve_directory :: "scan_env \<Rightarrow> path \<Rightarrow> scan_options \<Rightarrow> (core_error, scan_plan) res" where
  "resolve_directory E root options =
     (if \<not> sn_exists E root then Inl (MissingPath root)
      else bind_res (walk_assets (unat (max (so_max_files options) 1)) (sn_walk E root) []) (\<lambda>(assets, truncated).
        Inr \<lparr>pl_root = root, pl_assets = assets, pl_truncated = truncated\<rparr>))"

fun resolve_local_scan_plan :: "scan_env \<Rightarrow> scan_target \<Rightarrow> scan_options \<Rightarrow> (core_error, scan_plan) res" where
  "resolve_local_scan_plan E (LocalFile p) options = resolve_file E p"
| "resolve_local_scan_plan E (LocalDirectory p) options = resolve_directory E p options"
| "resolve_local_scan_plan E (LogicalDataset i h) options = Inl (CoreUnsupported ''logical dataset resolution'')"
| "resolve_local_scan_plan E (ObjectStorePlaceholder u d) options = Inl (CoreUnsupported ''object store resolution'')"

section \<open>Hive segments and anchors\<close>

definition hive_key_char :: "char \<Rightarrow> bool" where
  "hive_key_char c = ((CHR ''a'' \<le> c \<and> c \<le> CHR ''z'') \<or> (CHR ''A'' \<le> c \<and> c \<le> CHR ''Z'') \<or>
     (CHR ''0'' \<le> c \<and> c \<le> CHR ''9'') \<or> c = CHR ''_'')"

definition hive_segment :: "string \<Rightarrow> partition_segment option" where
  "hive_segment s =
     (case split_once (CHR ''='') s of
        None \<Rightarrow> None
      | Some (k, v) \<Rightarrow> if k \<noteq> [] \<and> v \<noteq> [] \<and> list_all hive_key_char k then Some \<lparr>ps_key = k, ps_value = v\<rparr> else None)"

definition hive_dir_segment :: "string \<Rightarrow> bool" where
  "hive_dir_segment s = (hive_segment s \<noteq> None)"

definition relative_to_root :: "path \<Rightarrow> path \<Rightarrow> path" where
  "relative_to_root root file =
     (case path_strip_prefix file root of None \<Rightarrow> file | Some rel \<Rightarrow> rel)"

definition hive_partition_segments :: "path \<Rightarrow> path \<Rightarrow> partition_segment list" where
  "hive_partition_segments root file =
     List.map_filter hive_segment
       (filter (\<lambda>s. s \<noteq> []) (concat (map (split_on (CHR ''/'') \<circ> component_str) (path_components (relative_to_root root file)))))"

definition dataset_anchor_key :: "path \<Rightarrow> path \<Rightarrow> string" where
  "dataset_anchor_key root file =
     (let comps = filter (\<lambda>s. s \<noteq> [] \<and> s \<noteq> ''.'') (map component_str (butlast (path_components (relative_to_root root file))))
      in str_join ''/'' (rev (dropWhile hive_dir_segment (rev comps))))"

definition dataset_id_for_anchor :: "path \<Rightarrow> string \<Rightarrow> string" where
  "dataset_id_for_anchor root anchor =
     (if anchor = [] then root @ ''::parquet::default'' else root @ ''::parquet::'' @ anchor)"

section \<open>Schema signatures\<close>

definition parquet_schema_signature :: "parquet_footer \<Rightarrow> string" where
  "parquet_schema_signature i =
     str_join [CHR 0x1F] (sort (map (\<lambda>f. fld_name f @ ''='' @ fld_logical_type f) (pq_schema i)))"

definition stable_fnv1a64 :: "string \<Rightarrow> u64" where
  "stable_fnv1a64 bytes =
     fold (\<lambda>b h. (h XOR of_nat (of_char b)) * 1099511628211) bytes 14695981039346656037"

definition hex_digit :: "nat \<Rightarrow> char" where
  "hex_digit n = ''0123456789abcdef'' ! n"

definition short_sig :: "string \<Rightarrow> string" where
  "short_sig sig =
     (let w = stable_fnv1a64 sig in map (\<lambda>i. hex_digit (unat (drop_bit (4 * i) w AND 15))) (rev [0..<16]))"

section \<open>Datasets\<close>

datatype anchor_inference_note =
    SchemaSplit string "string list"
  | MixedSchemaPartPattern string string

definition looks_like_part_parquet_file :: "string \<Rightarrow> bool" where
  "looks_like_part_parquet_file name =
     (let l = to_lowercase name
      in (str_starts_with l ''part-'' \<or> str_starts_with l ''part_'') \<and> (str_ends_with l ''.parquet'' \<or> str_ends_with l ''.pq''))"

definition path_basename :: "path \<Rightarrow> string" where
  "path_basename p = (case path_file_name p of None \<Rightarrow> [] | Some s \<Rightarrow> s)"

text \<open>\<open>entry(k).or_default().push(v)\<close>\<close>

definition bt_push :: "'k :: linorder \<Rightarrow> 'v \<Rightarrow> ('k \<times> 'v list) list \<Rightarrow> ('k \<times> 'v list) list" where
  "bt_push k v m = bt_insert k ((case map_of m k of None \<Rightarrow> [] | Some vs \<Rightarrow> vs) @ [v]) m"

definition build_dataset ::
  "scan_env \<Rightarrow> scan_plan \<Rightarrow> string \<Rightarrow> path list \<Rightarrow> parquet_footer path_map \<Rightarrow> grouping_kind \<Rightarrow> report_dataset" where
  "build_dataset E plan dataset_id paths inspections kind =
     \<lparr>ds_dataset_id = dataset_id, ds_grouping_kind = kind,
      ds_partition_layout =
        (if \<exists>p \<in> set paths. hive_partition_segments (pl_root plan) p \<noteq> [] then HiveDirectoryKeys else Unpartitioned),
      ds_files = map (\<lambda>p. \<lparr>df_path = p, df_format = FmtParquet,
          df_partitions = hive_partition_segments (pl_root plan) p,
          df_byte_length = (case sn_metadata E p of Inl _ \<Rightarrow> None | Inr len \<Rightarrow> Some len)\<rparr>) paths,
      ds_schema = (case List.map_filter (pm_get inspections) paths of [] \<Rightarrow> None | i # _ \<Rightarrow> Some (pq_schema i))\<rparr>"

definition signature_groups :: "parquet_footer path_map \<Rightarrow> path list \<Rightarrow> (string \<times> path list) list" where
  "signature_groups inspections paths =
     fold (\<lambda>p m. case pm_get inspections p of None \<Rightarrow> m | Some i \<Rightarrow> bt_push (parquet_schema_signature i) p m) paths []"

definition infer_anchor ::
  "scan_env \<Rightarrow> scan_plan \<Rightarrow> parquet_footer path_map \<Rightarrow> string \<times> path list \<Rightarrow> report_dataset list \<times> anchor_inference_note list" where
  "infer_anchor E plan inspections bucket =
     (case bucket of (anchor, bucket_paths) \<Rightarrow>
       let paths = sort_paths bucket_paths;
           base_id = dataset_id_for_anchor (pl_root plan) anchor;
           sigs = signature_groups inspections paths;
           all_part_named = list_all (\<lambda>p. looks_like_part_parquet_file (path_basename p)) paths;
           all_inspected = list_all (\<lambda>p. pm_get inspections p \<noteq> None) paths
       in if 1 < length sigs \<and> \<not> (all_part_named \<and> all_inspected) then
            (let sid = (\<lambda>sig. base_id @ ''::sig'' @ short_sig sig)
             in (map (\<lambda>(sig, ps). build_dataset E plan (sid sig) (sort_paths ps) inspections PathAnchorSchemaSplit) sigs,
                 [SchemaSplit anchor (sort (map (sid \<circ> fst) sigs))]))
          else if length paths \<le> 1 then
            ([build_dataset E plan base_id paths inspections SingleFile], [])
          else if 1 < length sigs \<and> all_part_named then
            ([build_dataset E plan base_id paths inspections PathAnchorPartFilePattern],
             [MixedSchemaPartPattern anchor base_id])
          else ([build_dataset E plan base_id paths inspections PathAnchor], []))"

definition anchor_buckets :: "path \<Rightarrow> path list \<Rightarrow> (string \<times> path list) list" where
  "anchor_buckets root parquet_paths = fold (\<lambda>p m. bt_push (dataset_anchor_key root p) p m) parquet_paths []"

definition infer_parquet_datasets ::
  "scan_env \<Rightarrow> scan_plan \<Rightarrow> path list \<Rightarrow> parquet_footer path_map \<Rightarrow> report_dataset list \<times> anchor_inference_note list" where
  "infer_parquet_datasets E plan parquet_paths inspections =
     (let groups = map (infer_anchor E plan inspections) (anchor_buckets (pl_root plan) parquet_paths)
      in (sort_key ds_dataset_id (concat (map fst groups)), concat (map snd groups)))"

definition partition_keys :: "dataset_file \<Rightarrow> string list" where
  "partition_keys f = sorted_list_of_set (set (map ps_key (df_partitions f)))"

text \<open>The format with most files; among equals the one that was seen last.\<close>

definition count_formats :: "resolved_asset list \<Rightarrow> (data_format \<times> nat) list" where
  "count_formats assets =
     fold (\<lambda>a m. if rs_format a = FmtUnknown then m
        else if rs_format a \<in> fst ` set m then map (\<lambda>(f, c). (f, if f = rs_format a then c + 1 else c)) m
        else m @ [(rs_format a, 1)]) assets []"

definition dominant_format :: "resolved_asset list \<Rightarrow> data_format" where
  "dominant_format assets =
     (case count_formats assets of
        [] \<Rightarrow> FmtUnknown
      | x # xs \<Rightarrow> fst (fold (\<lambda>y best. if snd best \<le> snd y then y else best) xs x))"

end
