(* ===== verification/Scan_Engine.thy ===== *)
theory Scan_Engine
  imports Scan_Infer
begin

text \<open>
  The scan engine (\<open>paraclete-core\<close>): the shallow probes of text files (\<open>shallow_inspect.rs\<close>), the
  findings (\<open>scan_findings.rs\<close>, \<open>schema_findings.rs\<close>, \<open>scan_rules.rs\<close>) and the run that puts a report
  together (\<open>scan_engine.rs\<close>).
\<close>

section \<open>Shallow probes\<close>

definition HEAD_BYTES :: nat where
  "HEAD_BYTES = 64 * 1024"

record shallow_inspect_outcome =
  si_hints :: json
  si_probe :: probe_metadata

definition probe_common :: "nat \<Rightarrow> u64 \<Rightarrow> probe_depth \<times> parse_confidence" where
  "probe_common n_read file_size =
     (let depth = (if file_size \<le> of_nat n_read \<and> file_size \<le> of_nat HEAD_BYTES then FullWithinCap
                   else if of_nat HEAD_BYTES < file_size then PartialHead else FullWithinCap)
      in (depth, if depth = PartialHead then PartialConfidence else HighConfidence))"

definition guess_csv_delimiter :: "string \<Rightarrow> char" where
  "guess_csv_delimiter line =
     fst (foldl (\<lambda>best d. let c = length (filter (\<lambda>x. x = d) line) in if snd best < c then (d, c) else best)
       (CHR '','', 0) [CHR '','', CHR 0x09, CHR '';''])"

definition split_csv_line :: "string \<Rightarrow> char \<Rightarrow> string list" where
  "split_csv_line line delim = filter (\<lambda>s. s \<noteq> []) (map str_trim (split_on delim line))"

definition digit_dot_dash :: "char \<Rightarrow> bool" where
  "digit_dot_dash c = ((CHR ''0'' \<le> c \<and> c \<le> CHR ''9'') \<or> c = CHR ''.'' \<or> c = CHR ''-'')"

definition looks_like_header :: "scan_env \<Rightarrow> string list \<Rightarrow> bool" where
  "looks_like_header E cells =
     (cells \<noteq> [] \<and>
      list_all (\<lambda>c. \<not> list_all digit_dot_dash c \<and> c \<noteq> [] \<and> (sn_alphabetic E c \<or> hd c = CHR ''_'')) cells)"

text \<open>\<open>str::lines\<close>\<close>

definition strip_cr :: "string \<Rightarrow> string" where
  "strip_cr l = (if l \<noteq> [] \<and> last l = CHR 0x0D then butlast l else l)"

definition text_lines :: "string \<Rightarrow> string list" where
  "text_lines s =
     (let ls = split_on (CHR 0x0A) s
      in map strip_cr (if last ls = [] then butlast ls else ls))"

definition trim_line_end :: "string \<Rightarrow> string" where
  "trim_line_end s = rev (dropWhile (\<lambda>c. c = CHR 0x0D \<or> c = CHR 0x0A) (rev s))"

definition inspect_csv_shallow :: "scan_env \<Rightarrow> path \<Rightarrow> (core_error, shallow_inspect_outcome) res" where
  "inspect_csv_shallow E p =
     bind_res (map_err CoreIo (sn_read_head E p HEAD_BYTES)) (\<lambda>(bytes, file_size).
       let (depth, confidence) = probe_common (length bytes) file_size;
           ls = text_lines (sn_from_utf8_lossy E bytes);
           first = (case ls of [] \<Rightarrow> [] | l # _ \<Rightarrow> trim_line_end l);
           delim = guess_csv_delimiter first;
           cells = split_csv_line first delim;
           hints = (if first = [] then
               JObj [(''shallow_format'', JStr ''csv''), (''delimiter'', JStr '',''), (''column_count'', JInt 0),
                     (''header_names'', JNull), (''sample_line_count'', JInt 0)]
             else
               JObj [(''shallow_format'', JStr ''csv''), (''delimiter'', JStr [delim]),
                     (''column_count'', JInt (int (max (length cells) 1))),
                     (''header_names'', if looks_like_header E cells then JArr (map JStr cells) else JNull),
                     (''sample_line_count'', JInt (int (1 + min 7 (length ls - 1))))])
       in Inr \<lparr>si_hints = hints, si_probe =
            \<lparr>pm_bytes_sampled = of_nat (length bytes), pm_file_size_bytes = Some file_size,
             pm_encoding_assumption = ''utf-8-lossy'', pm_probe_depth = depth,
             pm_parse_confidence = (if first = [] then LowConfidence else confidence),
             pm_notes = (if depth = PartialHead then Some ''only leading bytes read; file exceeds probe cap'' else None)\<rparr>\<rparr>)"

fun json_kind :: "json \<Rightarrow> string" where
  "json_kind (JObj m) = ''object''"
| "json_kind (JArr a) = ''array''"
| "json_kind (JStr s) = ''string''"
| "json_kind (JInt i) = ''number''"
| "json_kind (JBool b) = ''bool''"
| "json_kind JNull = ''null''"

fun sample_keys :: "json \<Rightarrow> json" where
  "sample_keys (JObj m) = JArr (map JStr (take 24 (sort (map fst m))))"
| "sample_keys (JArr (v # vs)) = sample_keys v"
| "sample_keys v = JArr []"

definition inspect_json_like_shallow :: "scan_env \<Rightarrow> path \<Rightarrow> bool \<Rightarrow> (core_error, shallow_inspect_outcome) res" where
  "inspect_json_like_shallow E p ndjson =
     bind_res (map_err CoreIo (sn_read_head E p HEAD_BYTES)) (\<lambda>(bytes, file_size).
       let (depth, _) = probe_common (length bytes) file_size;
           text = sn_from_utf8_lossy E bytes;
           probe = (\<lambda>confidence notes.
             \<lparr>pm_bytes_sampled = of_nat (length bytes), pm_file_size_bytes = Some file_size,
              pm_encoding_assumption = ''utf-8-lossy'', pm_probe_depth = depth,
              pm_parse_confidence = confidence, pm_notes = notes\<rparr>)
       in if ndjson then
            (let line = (case find (\<lambda>l. str_trim l \<noteq> []) (text_lines text) of None \<Rightarrow> [] | Some l \<Rightarrow> str_trim l);
                 pr = probe PartialConfidence (Some ''ndjson semantics: only first non-empty line parsed'')
             in if line = [] then
                  Inr \<lparr>si_hints = JObj [(''shallow_format'', JStr ''ndjson''), (''first_line_kind'', JStr ''empty'')], si_probe = pr\<rparr>
                else bind_res (map_err CoreInspect (sn_parse_json E line)) (\<lambda>v.
                  Inr \<lparr>si_hints = JObj [(''shallow_format'', JStr ''ndjson''), (''first_line_kind'', JStr (json_kind v)),
                         (''sample_keys'', sample_keys v)], si_probe = pr\<rparr>))
          else bind_res (map_err CoreInspect (sn_parse_json E (str_trim text))) (\<lambda>v.
            Inr \<lparr>si_hints = JObj [(''shallow_format'', JStr ''json''), (''top_level_kind'', JStr (json_kind v)),
                   (''sample_keys'', sample_keys v)],
                 si_probe = (if of_nat HEAD_BYTES < file_size
                   then probe PartialConfidence (Some ''json parsed from bounded head only; file exceeds probe cap'')
                   else probe HighConfidence None)\<rparr>))"

section \<open>Findings\<close>

text \<open>
  The parts the findings share: evidence of a kind at a path with a payload, the locations of files, and
  the finding itself, whose fingerprint is computed last.
\<close>

definition path_ref :: "string \<Rightarrow> evidence_location_ref option" where
  "path_ref p = Some \<lparr>el_path = Some p, el_row_group_index = None, el_partition = []\<rparr>"

definition mk_evidence ::
  "string \<Rightarrow> evidence_kind \<Rightarrow> string \<Rightarrow> evidence_location_ref option \<Rightarrow> json \<Rightarrow> evidence" where
  "mk_evidence i kind summary loc payload =
     \<lparr>ev_id = i, ev_kind = kind, ev_summary = summary, ev_location_ref = loc, ev_payload = Some payload, ev_references = []\<rparr>"

definition file_location :: "path option \<Rightarrow> finding_location" where
  "file_location p = \<lparr>fl_file = p, fl_columns = [], fl_partition = [], fl_row_group = None\<rparr>"

definition finalize :: "scan_env \<Rightarrow> report_finding \<Rightarrow> report_finding" where
  "finalize E f = f\<lparr>rf_fingerprint := Some (compute_fingerprint (sn_hasher E) f)\<rparr>"

definition mk_finding ::
  "scan_env \<Rightarrow> string list \<Rightarrow> string \<Rightarrow> finding_severity \<Rightarrow> finding_category \<Rightarrow> string \<Rightarrow> string \<Rightarrow>
   evidence list \<Rightarrow> finding_location list \<Rightarrow> report_finding" where
  "mk_finding E site code severity category summary detail evs locs =
     finalize E \<lparr>rf_id = sn_uuid E (code # ''finding'' # site), rf_code = code, rf_severity = severity,
       rf_category = category, rf_summary = summary, rf_detail = detail, rf_evidence = evs, rf_locations = locs,
       rf_recommendations = [], rf_fingerprint = None, rf_attributes = []\<rparr>"

definition FORMAT_UNKNOWN :: string where "FORMAT_UNKNOWN = ''system.format.unknown''"
definition FORMAT_MIXED_DATASET :: string where "FORMAT_MIXED_DATASET = ''system.format.mixed_dataset''"
definition PARTITION_INCONSISTENT_KEYS :: string where "PARTITION_INCONSISTENT_KEYS = ''system.partition.inconsistent_keys''"
definition METADATA_FILE_TOO_SMALL :: string where "METADATA_FILE_TOO_SMALL = ''system.metadata.file_too_small''"
definition TARGET_SCAN_TRUNCATED :: string where "TARGET_SCAN_TRUNCATED = ''system.target.scan_truncated''"
definition DATASET_MULTIPLE_DETECTED :: string where "DATASET_MULTIPLE_DETECTED = ''system.dataset.multiple_datasets_detected''"
definition PARTITION_UNPARTITIONED_COLLECTION :: string where
  "PARTITION_UNPARTITIONED_COLLECTION = ''system.partition.unpartitioned_collection''"
definition FORMAT_TEXT_PROBE_BOUNDED :: string where "FORMAT_TEXT_PROBE_BOUNDED = ''system.format.text_probe_bounded''"
definition DATASET_GROUPING_AMBIGUOUS :: string where "DATASET_GROUPING_AMBIGUOUS = ''system.dataset.grouping_ambiguous''"
definition ASSET_INSPECTION_SKIPPED :: string where "ASSET_INSPECTION_SKIPPED = ''system.asset.inspection_skipped''"
definition ASSET_INSPECTION_PARTIAL :: string where "ASSET_INSPECTION_PARTIAL = ''system.asset.inspection_partial''"

lemmas code_defs =
  FORMAT_UNKNOWN_def FORMAT_MIXED_DATASET_def PARTITION_INCONSISTENT_KEYS_def METADATA_FILE_TOO_SMALL_def
  TARGET_SCAN_TRUNCATED_def FORMAT_PARQUET_READ_FAILED_def DATASET_MULTIPLE_DETECTED_def
  PARTITION_UNPARTITIONED_COLLECTION_def FORMAT_TEXT_PROBE_BOUNDED_def DATASET_GROUPING_AMBIGUOUS_def
  ASSET_INSPECTION_SKIPPED_def ASSET_INSPECTION_PARTIAL_def SMALL_ROW_GROUP_def

definition scan_truncated_finding :: "scan_env \<Rightarrow> string \<Rightarrow> u64 \<Rightarrow> report_finding" where
  "scan_truncated_finding E root max_files =
     mk_finding E [] TARGET_SCAN_TRUNCATED MediumSeverity TargetCategory
       ''Scan resolution was truncated by max_files''
       (''The local resolver stopped after reaching the configured max_files cap ('' @ show_u64 max_files @
         ''); some paths may be missing from this report.'')
       [mk_evidence (sn_uuid E [TARGET_SCAN_TRUNCATED, ''evidence'']) FileSlice ''Truncation context'' (path_ref root)
         (JObj [(''max_files'', json_u64 max_files)])]
       [file_location None]"

definition parquet_read_failed_finding :: "scan_env \<Rightarrow> path \<Rightarrow> core_error \<Rightarrow> report_finding" where
  "parquet_read_failed_finding E p err =
     mk_finding E [p] FORMAT_PARQUET_READ_FAILED HighSeverity FormatCategory
       ''Parquet metadata could not be read''
       (''The engine could not deserialize Parquet footer metadata for this path: '' @ core_error_to_string err)
       [mk_evidence (sn_uuid E [FORMAT_PARQUET_READ_FAILED, ''evidence'', p]) ParquetFooter ''Read or parse failure'' (path_ref p)
         (JObj [(''error'', JStr (core_error_to_string err))])]
       [file_location (Some p)]"

definition multiple_datasets_finding :: "scan_env \<Rightarrow> string \<Rightarrow> nat \<Rightarrow> report_finding" where
  "multiple_datasets_finding E root n =
     mk_finding E [] DATASET_MULTIPLE_DETECTED InfoSeverity CoverageCategory
       ''Multiple logical Parquet datasets detected under one scan root''
       ''Parquet files were grouped into more than one dataset anchor; treat each dataset summary independently.''
       [mk_evidence (sn_uuid E [DATASET_MULTIPLE_DETECTED, ''evidence'']) PartitionLayoutEvidence ''Dataset count'' (path_ref root)
         (JObj [(''dataset_count'', JInt (int n))])]
       [file_location None]"

definition unpartitioned_collection_finding :: "scan_env \<Rightarrow> string \<Rightarrow> nat \<Rightarrow> report_finding" where
  "unpartitioned_collection_finding E dataset_id file_count =
     mk_finding E [dataset_id] PARTITION_UNPARTITIONED_COLLECTION InfoSeverity PartitioningCategory
       ''Parquet files form a collection without Hive-style partition directories''
       ''Multiple readable Parquet files share a dataset anchor but no Hive `key=value` path segments were observed.''
       [mk_evidence (sn_uuid E [PARTITION_UNPARTITIONED_COLLECTION, ''evidence'', dataset_id]) PartitionLayoutEvidence
         ''Co-located Parquet files'' None
         (JObj [(''dataset_id'', JStr dataset_id), (''file_count'', JInt (int file_count))])]
       [file_location None]"

fun depth_label :: "probe_depth \<Rightarrow> string" where
  "depth_label FullWithinCap = ''full_within_cap''"
| "depth_label PartialHead = ''partial_head''"

fun confidence_label :: "parse_confidence \<Rightarrow> string" where
  "confidence_label HighConfidence = ''high''"
| "confidence_label PartialConfidence = ''partial''"
| "confidence_label LowConfidence = ''low''"

definition probe_json :: "probe_metadata \<Rightarrow> json" where
  "probe_json pr =
     JObj ([(''bytes_sampled'', json_u64 (pm_bytes_sampled pr))] @
       opt_field ''file_size_bytes'' json_u64 (pm_file_size_bytes pr) @
       [(''encoding_assumption'', JStr (pm_encoding_assumption pr)),
        (''probe_depth'', JStr (depth_label (pm_probe_depth pr))),
        (''parse_confidence'', JStr (confidence_label (pm_parse_confidence pr)))] @
       opt_field ''notes'' JStr (pm_notes pr))"

definition text_probe_bounded_finding :: "scan_env \<Rightarrow> path \<Rightarrow> json \<Rightarrow> probe_metadata \<Rightarrow> report_finding" where
  "text_probe_bounded_finding E p hints pr =
     mk_finding E [p] FORMAT_TEXT_PROBE_BOUNDED InfoSeverity FormatCategory
       ''Bounded shallow text probe completed''
       ''Second-class text formats are only sampled within configured byte limits; see probe metadata for coverage and confidence.''
       [mk_evidence (sn_uuid E [FORMAT_TEXT_PROBE_BOUNDED, ''evidence'', p]) FileSlice ''Probe bounds and hints'' (path_ref p)
         (JObj [(''hints'', hints), (''probe'', probe_json pr)])]
       [file_location (Some p)]"

definition inspection_partial_finding :: "scan_env \<Rightarrow> path \<Rightarrow> string \<Rightarrow> report_finding" where
  "inspection_partial_finding E p reason =
     mk_finding E [p] ASSET_INSPECTION_PARTIAL LowSeverity CoverageCategory
       ''Inspection was only partial for this asset'' reason
       [mk_evidence (sn_uuid E [ASSET_INSPECTION_PARTIAL, ''evidence'', p]) FileSlice ''Partial inspection context'' (path_ref p)
         (JObj [(''reason'', JStr reason)])]
       [file_location (Some p)]"

definition inspection_skipped_aggregate_finding :: "scan_env \<Rightarrow> u64 \<Rightarrow> path list \<Rightarrow> report_finding" where
  "inspection_skipped_aggregate_finding E skipped sample_paths =
     mk_finding E [] ASSET_INSPECTION_SKIPPED InfoSeverity CoverageCategory
       (show_u64 skipped @ '' asset(s) skipped format-specific inspection'')
       ''Unknown or unsupported extensions do not receive Parquet footer or shallow text probes in this engine revision.''
       [mk_evidence (sn_uuid E [ASSET_INSPECTION_SKIPPED, ''evidence'']) FileSlice ''Skipped count and sample paths'' None
         (JObj [(''skipped_assets'', json_u64 skipped), (''sample_paths'', JArr (map JStr (take 8 sample_paths)))])]
       [file_location None]"

fun grouping_ambiguous_finding :: "scan_env \<Rightarrow> anchor_inference_note \<Rightarrow> report_finding" where
  "grouping_ambiguous_finding E (SchemaSplit anchor ids) =
     mk_finding E [''split'', anchor] DATASET_GROUPING_AMBIGUOUS MediumSeverity PartitioningCategory
       ''Parquet grouping under one path anchor was ambiguous''
       ''Multiple readable Parquet schemas were detected under the same anchor; datasets were split by schema signature.''
       [mk_evidence (sn_uuid E [DATASET_GROUPING_AMBIGUOUS, ''evidence'', ''split'', anchor]) PartitionLayoutEvidence
         ''Anchor and resulting dataset ids'' None
         (JObj [(''anchor'', JStr anchor), (''resolution'', JStr ''schema_split''), (''dataset_ids'', JArr (map JStr ids))])]
       [file_location None]"
| "grouping_ambiguous_finding E (MixedSchemaPartPattern anchor i) =
     mk_finding E [''mixed'', anchor] DATASET_GROUPING_AMBIGUOUS LowSeverity PartitioningCategory
       ''Mixed Parquet schemas co-located under part-file naming''
       (''Schemas differ but filenames resemble Parquet shard parts; the engine kept a single dataset'' @
         [CHR 0xE2, CHR 0x80, CHR 0x94] @ ''verify writer intent.'')
       [mk_evidence (sn_uuid E [DATASET_GROUPING_AMBIGUOUS, ''evidence'', ''mixed'', anchor]) PartitionLayoutEvidence
         ''Anchor and dataset'' None
         (JObj [(''anchor'', JStr anchor), (''resolution'', JStr ''part_file_pattern_merge''), (''dataset_id'', JStr i)])]
       [file_location None]"

definition grouping_ambiguous_from_notes :: "scan_env \<Rightarrow> anchor_inference_note list \<Rightarrow> report_finding list" where
  "grouping_ambiguous_from_notes E notes = map (grouping_ambiguous_finding E) notes"

section \<open>Rules\<close>

definition FILE_TOO_SMALL_BYTES :: u64 where "FILE_TOO_SMALL_BYTES = 4096"
definition ROW_GROUP_SMALL_ROWS :: int where "ROW_GROUP_SMALL_ROWS = 48"
definition ROW_GROUP_RULE_MIN_TOTAL_ROWS :: int where "ROW_GROUP_RULE_MIN_TOTAL_ROWS = 200"
definition ROW_GROUP_RULE_MIN_GROUPS :: nat where "ROW_GROUP_RULE_MIN_GROUPS = 4"

fun format_label :: "data_format \<Rightarrow> string" where
  "format_label FmtParquet = ''parquet''"
| "format_label FmtCsv = ''csv''"
| "format_label FmtJson = ''json''"
| "format_label FmtNdjson = ''ndjson''"
| "format_label FmtUnknown = ''unknown''"

definition unknown_format_findings :: "scan_env \<Rightarrow> resolved_asset list \<Rightarrow> report_finding list" where
  "unknown_format_findings E assets =
     (let unknown = filter (\<lambda>a. rs_format a = FmtUnknown) assets
      in if unknown = [] then []
         else [mk_finding E [] FORMAT_UNKNOWN MediumSeverity FormatCategory
           ''One or more files use an unknown format''
           ''Extension and naming did not map to a supported tabular format.''
           (map (\<lambda>a. mk_evidence (sn_uuid E [FORMAT_UNKNOWN, ''evidence'', rs_path a]) FileSlice
              (''Unknown format for '' @ rs_path a) (path_ref (rs_path a)) (JObj [(''size_bytes'', json_u64 (rs_size_bytes a))])) unknown)
           (map (\<lambda>a. file_location (Some (rs_path a))) unknown)])"

definition mixed_format_findings :: "scan_env \<Rightarrow> scan_plan \<Rightarrow> resolved_asset list \<Rightarrow> report_finding list" where
  "mixed_format_findings E plan assets =
     (let formats = remdups (filter (\<lambda>f. f \<noteq> FmtUnknown) (map rs_format assets))
      in if length formats < 2 then []
         else [mk_finding E [] FORMAT_MIXED_DATASET MediumSeverity FormatCategory
           ''Directory contains multiple tabular formats''
           ''Mixed formats reduce shared diagnostics depth; isolate Parquet datasets where possible.''
           [mk_evidence (sn_uuid E [FORMAT_MIXED_DATASET, ''evidence'']) PartitionLayoutEvidence
             ''Detected format mixture under scan root'' (path_ref (pl_root plan))
             (JObj [(''formats'', JArr (map JStr (sort (map format_label formats))))])]
           [file_location None]])"

definition inconsistent_partitions :: "report_dataset \<Rightarrow> bool" where
  "inconsistent_partitions d =
     (let keys = map partition_keys (ds_files d); nonempty = filter (\<lambda>k. k \<noteq> []) keys
      in (nonempty \<noteq> [] \<and> [] \<in> set keys) \<or> 1 < card (set nonempty))"

definition partition_findings :: "scan_env \<Rightarrow> report_dataset \<Rightarrow> report_finding list" where
  "partition_findings E d =
     (if \<not> (inconsistent_partitions d \<and> ds_files d \<noteq> []) then []
      else [mk_finding E [ds_dataset_id d] PARTITION_INCONSISTENT_KEYS HighSeverity PartitioningCategory
        ''Hive-style partition keys are inconsistent across files''
        (''Dataset `'' @ ds_dataset_id d @ ''` mixes partition key sets or combines partitioned and unpartitioned paths.'')
        (mk_evidence (sn_uuid E [PARTITION_INCONSISTENT_KEYS, ''evidence'', ds_dataset_id d]) PartitionLayoutEvidence
           ''Affected dataset'' None (JObj [(''dataset_id'', JStr (ds_dataset_id d))]) #
         map (\<lambda>f. mk_evidence (sn_uuid E [PARTITION_INCONSISTENT_KEYS, ''evidence'', ds_dataset_id d, df_path f])
           PartitionLayoutEvidence (''Partition keys for '' @ df_path f) (path_ref (df_path f))
           (JObj [(''dataset_id'', JStr (ds_dataset_id d)), (''keys'', JArr (map JStr (partition_keys f)))])) (ds_files d))
        (map (\<lambda>f. file_location (Some (df_path f))) (ds_files d))])"

definition small_file_findings :: "scan_env \<Rightarrow> resolved_asset \<Rightarrow> report_finding list" where
  "small_file_findings E a =
     (if \<not> (rs_format a = FmtParquet \<and> rs_size_bytes a < FILE_TOO_SMALL_BYTES) then []
      else [mk_finding E [rs_path a] METADATA_FILE_TOO_SMALL LowSeverity MetadataCategory
        (''Parquet file is very small ('' @ show_u64 (rs_size_bytes a) @ '' bytes)'')
        (''Files under '' @ show_u64 FILE_TOO_SMALL_BYTES @
          '' bytes are often incomplete, truncated, or unsuitable for reliable metadata heuristics.'')
        [mk_evidence (sn_uuid E [METADATA_FILE_TOO_SMALL, ''evidence'', rs_path a]) ParquetFooter ''File size on disk''
          (path_ref (rs_path a)) (JObj [(''size_bytes'', json_u64 (rs_size_bytes a))])]
        [file_location (Some (rs_path a))]])"

definition row_group_findings :: "scan_env \<Rightarrow> parquet_footer \<Rightarrow> report_finding list" where
  "row_group_findings E i =
     (let rows = map rg_num_rows (pq_row_groups i)
      in if ROW_GROUP_RULE_MIN_GROUPS \<le> pq_num_row_groups i \<and> ROW_GROUP_RULE_MIN_TOTAL_ROWS \<le> pq_num_rows i \<and>
            rows \<noteq> [] \<and> Min (set rows) < ROW_GROUP_SMALL_ROWS
         then [mk_finding E [pq_path i] SMALL_ROW_GROUP MediumSeverity MetadataCategory
           ''Parquet row groups look suspiciously small''
           (''At least one row group has fewer than '' @ show_int ROW_GROUP_SMALL_ROWS @ '' rows while the file has '' @
             show_int (pq_num_rows i) @ '' rows across '' @ show_nat (pq_num_row_groups i) @
             '' row groups, suggesting fragmentation or suboptimal write patterns.'')
           [mk_evidence (sn_uuid E [SMALL_ROW_GROUP, ''evidence'', pq_path i]) ParquetFooter
             ''Row group row counts from footer'' (path_ref (pq_path i))
             (JObj [(''num_rows'', JInt (pq_num_rows i)), (''num_row_groups'', JInt (int (pq_num_row_groups i))),
                    (''min_row_group_rows'', JInt (Min (set rows)))])]
           [file_location (Some (pq_path i))]]
         else [])"

definition evaluate_scan_rules ::
  "scan_env \<Rightarrow> scan_plan \<Rightarrow> resolved_asset list \<Rightarrow> parquet_footer list \<Rightarrow> report_dataset list \<Rightarrow> report_finding list" where
  "evaluate_scan_rules E plan assets inspections datasets =
     unknown_format_findings E assets @ mixed_format_findings E plan assets @
     concat (map (partition_findings E) datasets) @ concat (map (small_file_findings E) assets) @
     concat (map (row_group_findings E) inspections)"

section \<open>Inspection of the assets\<close>

text \<open>
  What one round of the inspection loop gives: the record of the asset, the footer of a Parquet file or
  the error that kept it from being read, and the findings of a text probe.
\<close>

record asset_step =
  st_record :: report_asset
  st_footer :: "parquet_footer option"
  st_error :: "core_error option"
  st_findings :: "report_finding list"

definition skipped_record :: "resolved_asset \<Rightarrow> report_asset" where
  "skipped_record a =
     \<lparr>ra_path = rs_path a, ra_format = rs_format a, ra_size_bytes = rs_size_bytes a, ra_inspection_status = IsSkipped,
      ra_failure_kind = None, ra_failure_message = None, ra_dataset_id = None, ra_probe = None, ra_inspection_hints = None\<rparr>"

definition failed_record :: "resolved_asset \<Rightarrow> core_error \<Rightarrow> report_asset" where
  "failed_record a e =
     (skipped_record a)\<lparr>ra_inspection_status := IsFailed, ra_failure_kind := Some (failure_kind_of e),
       ra_failure_message := Some (core_error_to_string e)\<rparr>"

definition probed_step ::
  "scan_env \<Rightarrow> resolved_asset \<Rightarrow> (shallow_inspect_outcome \<Rightarrow> bool) \<Rightarrow> string \<Rightarrow> (core_error, shallow_inspect_outcome) res \<Rightarrow> asset_step" where
  "probed_step E a partial reason out =
     (case out of
        Inl e \<Rightarrow> \<lparr>st_record = failed_record a e, st_footer = None, st_error = None, st_findings = []\<rparr>
      | Inr oc \<Rightarrow>
          \<lparr>st_record = (skipped_record a)\<lparr>ra_inspection_status := IsInspected, ra_probe := Some (si_probe oc),
             ra_inspection_hints := Some (si_hints oc)\<rparr>,
           st_footer = None, st_error = None,
           st_findings = text_probe_bounded_finding E (rs_path a) (si_hints oc) (si_probe oc) #
             (if partial oc then [inspection_partial_finding E (rs_path a) reason] else [])\<rparr>)"

definition low_confidence :: "shallow_inspect_outcome \<Rightarrow> bool" where
  "low_confidence oc = (pm_parse_confidence (si_probe oc) \<in> {PartialConfidence, LowConfidence})"

definition inspect_asset :: "scan_env \<Rightarrow> resolved_asset \<Rightarrow> asset_step" where
  "inspect_asset E a =
     (case rs_format a of
        FmtParquet \<Rightarrow>
          (case inspect_parquet_file E (rs_path a) of
             Inr i \<Rightarrow> \<lparr>st_record = (skipped_record a)\<lparr>ra_inspection_status := IsInspected\<rparr>, st_footer = Some i,
                       st_error = None, st_findings = []\<rparr>
           | Inl e \<Rightarrow> \<lparr>st_record = failed_record a e, st_footer = None, st_error = Some e, st_findings = []\<rparr>)
      | FmtCsv \<Rightarrow> probed_step E a low_confidence ''csv shallow probe used partial coverage or low-confidence parse''
          (inspect_csv_shallow E (rs_path a))
      | FmtJson \<Rightarrow> probed_step E a low_confidence ''json probe used bounded bytes or partial structural parse''
          (inspect_json_like_shallow E (rs_path a) False)
      | FmtNdjson \<Rightarrow> probed_step E a (\<lambda>_. True) ''ndjson probe evaluates first non-empty line only''
          (inspect_json_like_shallow E (rs_path a) True)
      | FmtUnknown \<Rightarrow> \<lparr>st_record = skipped_record a, st_footer = None, st_error = None, st_findings = []\<rparr>)"

definition collect_footers :: "asset_step list \<Rightarrow> parquet_footer path_map" where
  "collect_footers steps =
     fold (\<lambda>st m. case st_footer st of None \<Rightarrow> m | Some i \<Rightarrow> pm_insert (ra_path (st_record st)) i m) steps []"

section \<open>The run\<close>

definition path_to_dataset :: "report_dataset list \<Rightarrow> string path_map" where
  "path_to_dataset datasets =
     fold (\<lambda>(p, i) m. pm_insert p i m) (concat (map (\<lambda>d. map (\<lambda>f. (df_path f, ds_dataset_id d)) (ds_files d)) datasets)) []"

definition assign_dataset :: "string path_map \<Rightarrow> report_asset \<Rightarrow> report_asset" where
  "assign_dataset m r =
     (if ra_inspection_status r = IsInspected \<and> ra_format r = FmtParquet then
        (case pm_get m (ra_path r) of None \<Rightarrow> r | Some i \<Rightarrow> r\<lparr>ra_dataset_id := Some i\<rparr>)
      else r)"

definition dominant_format_in_dataset :: "resolved_asset list \<Rightarrow> report_dataset \<Rightarrow> data_format" where
  "dominant_format_in_dataset assets d =
     dominant_format (filter (\<lambda>a. path_components (rs_path a) \<in> path_components ` df_path ` set (ds_files d)) assets)"

definition summarize_formats :: "resolved_asset list \<Rightarrow> format_summary list" where
  "summarize_formats assets =
     map (\<lambda>f. \<lparr>fs_format = f, fs_file_count = len64 (filter (\<lambda>a. rs_format a = f) assets)\<rparr>)
       (filter (\<lambda>f. f \<in> rs_format ` set assets) [FmtParquet, FmtCsv, FmtJson, FmtNdjson, FmtUnknown])"

definition count_severities :: "report_finding list \<Rightarrow> (string \<times> u64) list" where
  "count_severities findings =
     fold (\<lambda>f m. bt_insert (severity_label (rf_severity f))
       ((case map_of m (severity_label (rf_severity f)) of None \<Rightarrow> 0 | Some n \<Rightarrow> n) + 1) m) findings []"

definition structural_findings ::
  "scan_env \<Rightarrow> scan_request \<Rightarrow> scan_plan \<Rightarrow> asset_step list \<Rightarrow> report_dataset list \<Rightarrow> anchor_inference_note list \<Rightarrow>
   report_finding list" where
  "structural_findings E req plan steps datasets notes =
     (let skipped = map (ra_path \<circ> st_record) (filter (\<lambda>st. ra_format (st_record st) = FmtUnknown) steps)
      in concat (map st_findings steps) @
         List.map_filter (\<lambda>st. map_option (parquet_read_failed_finding E (ra_path (st_record st))) (st_error st)) steps @
         (if pl_truncated plan then [scan_truncated_finding E (pl_root plan) (so_max_files (rq_options req))] else []) @
         (if skipped \<noteq> [] then [inspection_skipped_aggregate_finding E (len64 skipped) skipped] else []) @
         grouping_ambiguous_from_notes E notes @
         (if 2 \<le> length datasets then [multiple_datasets_finding E (pl_root plan) (length datasets)] else []) @
         map (\<lambda>d. unpartitioned_collection_finding E (ds_dataset_id d) (length (ds_files d)))
           (filter (\<lambda>d. ds_partition_layout d = Unpartitioned \<and> 2 \<le> length (ds_files d)) datasets))"

definition assemble_report ::
  "scan_env \<Rightarrow> scan_request \<Rightarrow> bool \<Rightarrow> resolved_asset list \<Rightarrow> report_asset list \<Rightarrow> report_dataset list \<Rightarrow>
   report_finding list \<Rightarrow> full_report" where
  "assemble_report E req truncated assets records datasets findings =
     \<lparr>fr_request = req,
      fr_metadata = \<lparr>rm_scan_id = rq_scan_id req, rm_generated_at = sn_now E, rm_contract_schema = CONTRACT_SCHEMA_VERSION,
        rm_report_format = REPORT_FORMAT_VERSION, rm_engine_revision = Some ''phase-3''\<rparr>,
      fr_summary = \<lparr>sm_discovered_assets = len64 records, sm_files_scanned = len64 records,
        sm_inspected_assets = count_status IsInspected records, sm_failed_inspection_assets = count_status IsFailed records,
        sm_skipped_inspection_assets = count_status IsSkipped records,
        sm_dataset_member_assets = len64 (filter (\<lambda>r. ra_dataset_id r \<noteq> None) records),
        sm_dataset_count = len64 datasets,
        sm_partial_inspection = (0 < count_status IsFailed records \<or> truncated), sm_scan_truncated = truncated,
        sm_findings_total = len64 findings, sm_findings_by_severity = count_severities findings\<rparr>,
      fr_assets = records, fr_datasets = datasets,
      fr_dataset_summaries = map (\<lambda>d. \<lparr>dy_dataset_id = ds_dataset_id d, dy_file_count = len64 (ds_files d),
        dy_dominant_format = dominant_format_in_dataset assets d\<rparr>) datasets,
      fr_format_summaries = summarize_formats assets, fr_findings = findings\<rparr>"

definition scan_report_of :: "scan_env \<Rightarrow> scan_request \<Rightarrow> scan_plan \<Rightarrow> full_report" where
  "scan_report_of E req plan =
     (let assets = sort_key (path_components \<circ> rs_path) (pl_assets plan);
          steps = map (inspect_asset E) assets;
          footers = collect_footers steps;
          (datasets, notes) = infer_parquet_datasets E plan (pm_keys footers) footers;
          records = map (assign_dataset (path_to_dataset datasets)) (map st_record steps);
          findings = sort_key rf_code (evaluate_scan_rules E plan assets (pm_values footers) datasets @
            structural_findings E req plan steps datasets notes)
      in assemble_report E req (pl_truncated plan) assets records datasets findings)"

definition scan_engine_run :: "scan_env \<Rightarrow> scan_request \<Rightarrow> (core_error, full_report) res" where
  "scan_engine_run E req =
     bind_res (resolve_local_scan_plan E (rq_target req) (rq_options req)) (\<lambda>plan.
       let report = scan_report_of E req plan
       in bind_res (map_err (CoreReportValidation \<circ> validation_error_to_string) (validate_report report)) (\<lambda>_. Inr report))"

end
