(* ===== verification/Service_Runs.thy ===== *)
theory Service_Runs
  imports Service_Worker Scan_Engine
begin

text \<open>
  Persisted scans: the location policy and the scan of the application (\<open>parqonaut-app\<close>), the tables of
  runs, reports, assets, datasets and findings (\<open>paraclete-store\<close>: \<open>sqlite_store.rs\<close>, \<open>labels.rs\<close>), and
  the use case that scans a target and persists its report (\<open>paraclete-service\<close>: \<open>service.rs\<close>).
\<close>

section \<open>Location policy\<close>

datatype application_error =
    AeInvalidRequest string
  | AeLocationNotAllowed string
  | AeTargetNotFound string
  | AeScanFailed string
  | AeRepairFailed string
  | AeBatchFailed string
  | AeConflict string
  | AeReviewRequired
  | AeBlockedRepair string
  | AeStaleSource string
  | AeInternal string

fun application_error_from_core :: "core_error \<Rightarrow> application_error" where
  "application_error_from_core (MissingPath p) = AeTargetNotFound p"
| "application_error_from_core (CoreUnsupported m) = AeInvalidRequest m"
| "application_error_from_core e = AeInternal (core_error_to_string e)"

fun app_error_from_application :: "application_error \<Rightarrow> app_error" where
  "app_error_from_application (AeInvalidRequest m) = InvalidRequest m"
| "app_error_from_application (AeLocationNotAllowed m) = LocationNotAllowed m"
| "app_error_from_application (AeTargetNotFound m) = TargetNotFound m"
| "app_error_from_application (AeScanFailed m) = AppScanFailed m"
| "app_error_from_application (AeConflict m) = InvalidRequest m"
| "app_error_from_application AeReviewRequired = InvalidRequest ''review authorization required''"
| "app_error_from_application (AeBlockedRepair m) = InvalidRequest m"
| "app_error_from_application (AeStaleSource m) = InvalidRequest m"
| "app_error_from_application (AeRepairFailed m) = AppScanFailed m"
| "app_error_from_application (AeBatchFailed m) = AppScanFailed m"
| "app_error_from_application (AeInternal m) = AppInternal m"

record storage_policy =
  sp_allow_unrestricted_local :: bool
  sp_allowed_local_roots :: "path list"
  sp_allowed_s3_buckets :: "string list"
  sp_allowed_s3_prefixes :: "string list"

definition cli_unrestricted_local :: storage_policy where
  "cli_unrestricted_local = \<lparr>sp_allow_unrestricted_local = True, sp_allowed_local_roots = [],
     sp_allowed_s3_buckets = [], sp_allowed_s3_prefixes = []\<rparr>"

text \<open>\<open>canonicalize\<close> resolves symbolic links and fails on a path that does not exist.\<close>

definition validate_local_path ::
  "(path \<Rightarrow> (string, path) res) \<Rightarrow> storage_policy \<Rightarrow> path \<Rightarrow> (application_error, unit) res" where
  "validate_local_path canonicalize P p =
     (if sp_allow_unrestricted_local P then Inr ()
      else if sp_allowed_local_roots P = [] then Inl (AeLocationNotAllowed
        ''local filesystem access is disabled; configure server.storage.allowed_local_roots'')
      else bind_res (map_err AeInvalidRequest (canonicalize p)) (\<lambda>abs.
        if \<exists>root \<in> set (sp_allowed_local_roots P).
             path_starts_with abs (case canonicalize root of Inl _ \<Rightarrow> root | Inr r \<Rightarrow> r)
        then Inr ()
        else Inl (AeLocationNotAllowed (''path `'' @ p @ ''` is outside configured allowed_local_roots''))))"

definition s3_entry_allows :: "s3_location \<Rightarrow> string \<Rightarrow> bool" where
  "s3_entry_allows loc allowed =
     (case split_once (CHR ''/'') allowed of
        None \<Rightarrow> s3_bucket loc = allowed
      | Some (bucket, pre) \<Rightarrow>
          s3_bucket loc = bucket \<and> (pre = [] \<or> str_starts_with (s3_prefix loc) (trim_end_matches (CHR ''/'') pre)))"

definition validate_s3 :: "storage_policy \<Rightarrow> s3_location \<Rightarrow> (application_error, unit) res" where
  "validate_s3 P loc =
     (if sp_allowed_s3_buckets P \<noteq> [] \<and> s3_bucket loc \<notin> set (sp_allowed_s3_buckets P)
      then Inl (AeLocationNotAllowed (''s3 bucket `'' @ s3_bucket loc @ ''` is not allowed''))
      else if sp_allowed_s3_prefixes P = [] then Inr ()
      else if \<exists>allowed \<in> set (sp_allowed_s3_prefixes P). s3_entry_allows loc allowed then Inr ()
      else Inl (AeLocationNotAllowed (''s3 location `'' @ s3_display_uri loc @ ''` is outside configured allowed_s3_prefixes'')))"

fun validate_dataset ::
  "(path \<Rightarrow> (string, path) res) \<Rightarrow> storage_policy \<Rightarrow> dataset_location \<Rightarrow> (application_error, unit) res" where
  "validate_dataset canonicalize P (DatasetLocal p) = validate_local_path canonicalize P p"
| "validate_dataset canonicalize P (DatasetS3 s) = validate_s3 P s"

section \<open>Scans of the application\<close>

text \<open>
  The environment of the service: the database, the engine, the URL of an object-store target, the scan of remote
  datasets, and the texts of reports, summaries and targets with their digests.
\<close>

record service_env =
  sx_store :: store_env
  sx_scan :: scan_env
  sx_canonicalize :: "path \<Rightarrow> (string, path) res"
  sx_is_file :: "path \<Rightarrow> bool"
  sx_url_parse :: url_parser
  sx_scan_remote :: "dataset_location \<Rightarrow> (application_error, full_report) res"
  sx_report_json :: "full_report \<Rightarrow> string"
  sx_parse_report :: "string \<Rightarrow> (string, full_report) res"
  sx_summary_json :: "scan_summary \<Rightarrow> string"
  sx_parse_summary :: "string \<Rightarrow> (string, scan_summary) res"
  sx_target_json :: "scan_target \<Rightarrow> string"
  sx_parse_json :: "string \<Rightarrow> (string, json) res"
  sx_sha256_hex :: "string \<Rightarrow> string"
  sx_is_uuid :: "string \<Rightarrow> bool"

text \<open>The text of an object-store target is a valid URL: a request with another text is not decoded.\<close>

definition object_uri_to_location :: "service_env \<Rightarrow> string \<Rightarrow> (application_error, dataset_location) res" where
  "object_uri_to_location X uri =
     bind_res (map_err AeInvalidRequest (sx_url_parse X uri)) (\<lambda>u.
       if url_scheme u = ''s3'' then
         bind_res (ok_or (AeInvalidRequest ''s3 URI missing bucket host'') (url_host u)) (\<lambda>bucket.
           map_err (AeInvalidRequest \<circ> storage_error_to_string) (parse_dataset_location (sx_url_parse X)
             (''s3://'' @ bucket @ ''/'' @ trim_start_matches (CHR ''/'') (url_path u))))
       else if url_scheme u = ''file'' then
         bind_res (ok_or (AeInvalidRequest ''invalid file:// URI'') (url_file_path u)) (\<lambda>p. Inr (DatasetLocal p))
       else Inl (AeInvalidRequest (''unsupported object store URI scheme `'' @ url_scheme u @ ''`'')))"

fun dataset_location_from_scan_target :: "service_env \<Rightarrow> scan_target \<Rightarrow> (application_error, dataset_location) res" where
  "dataset_location_from_scan_target X (LocalFile p) = Inr (DatasetLocal p)"
| "dataset_location_from_scan_target X (LocalDirectory p) = Inr (DatasetLocal p)"
| "dataset_location_from_scan_target X (ObjectStorePlaceholder u d) = object_uri_to_location X u"
| "dataset_location_from_scan_target X (LogicalDataset i h) =
     Inl (AeInvalidRequest (''logical dataset `'' @ i @ ''` is not supported over the application server yet''))"

definition run_scan ::
  "service_env \<Rightarrow> storage_policy \<Rightarrow> string \<Rightarrow> dataset_location \<Rightarrow> scan_profile \<Rightarrow> (application_error, full_report) res" where
  "run_scan X P uuid loc profile =
     bind_res (validate_dataset (sx_canonicalize X) P loc) (\<lambda>_.
       case loc of
         DatasetLocal p \<Rightarrow>
           map_err application_error_from_core (scan_engine_run (sx_scan X)
             (scan_request_new uuid (if sx_is_file X p then LocalFile p else LocalDirectory p) profile))
       | DatasetS3 s \<Rightarrow> sx_scan_remote X loc)"

section \<open>Labels of the rows\<close>

datatype run_outcome = RunCompleted | RunCompletedPartial

fun run_outcome_db :: "run_outcome \<Rightarrow> string" where
  "run_outcome_db RunCompleted = ''completed''"
| "run_outcome_db RunCompletedPartial = ''completed_partial''"

definition parse_run_outcome :: "string \<Rightarrow> (store_error, run_outcome) res" where
  "parse_run_outcome s =
     (if s = ''completed'' then Inr RunCompleted
      else if s = ''completed_partial'' then Inr RunCompletedPartial
      else Inl (StReportValidation (''unknown run_outcome '' @ s)))"

fun inspection_status_db :: "inspection_status \<Rightarrow> string" where
  "inspection_status_db IsInspected = ''inspected''"
| "inspection_status_db IsFailed = ''failed''"
| "inspection_status_db IsSkipped = ''skipped''"

definition parse_inspection_status :: "string \<Rightarrow> (store_error, inspection_status) res" where
  "parse_inspection_status s =
     (if s = ''inspected'' then Inr IsInspected
      else if s = ''failed'' then Inr IsFailed
      else if s = ''skipped'' then Inr IsSkipped
      else Inl (StReportValidation (''unknown inspection_status '' @ s)))"

fun failure_kind_db :: "failure_kind \<Rightarrow> string" where
  "failure_kind_db IoErrorKind = ''io_error''"
| "failure_kind_db FormatReadErrorKind = ''format_read_error''"
| "failure_kind_db UnsupportedFormatKind = ''unsupported_format''"
| "failure_kind_db ProbeDecodeErrorKind = ''probe_decode_error''"
| "failure_kind_db TruncatedByPolicyKind = ''truncated_by_policy''"
| "failure_kind_db InternalEngineErrorKind = ''internal_engine_error''"

definition parse_failure_kind :: "string \<Rightarrow> failure_kind option" where
  "parse_failure_kind s =
     find (\<lambda>k. failure_kind_db k = s)
       [IoErrorKind, FormatReadErrorKind, UnsupportedFormatKind, ProbeDecodeErrorKind, TruncatedByPolicyKind, InternalEngineErrorKind]"

fun data_format_label :: "data_format \<Rightarrow> string" where
  "data_format_label FmtParquet = ''parquet''"
| "data_format_label FmtCsv = ''csv''"
| "data_format_label FmtJson = ''json''"
| "data_format_label FmtNdjson = ''ndjson''"
| "data_format_label FmtUnknown = ''unknown''"

definition parse_data_format :: "string \<Rightarrow> data_format option" where
  "parse_data_format s =
     (if s = ''parquet'' then Some FmtParquet else if s = ''csv'' then Some FmtCsv
      else if s = ''json'' then Some FmtJson else if s = ''ndjson'' then Some FmtNdjson
      else if s = ''unknown'' then Some FmtUnknown else None)"

fun grouping_kind_label :: "grouping_kind \<Rightarrow> string" where
  "grouping_kind_label SingleFile = ''single_file''"
| "grouping_kind_label PathAnchor = ''path_anchor''"
| "grouping_kind_label PathAnchorSchemaSplit = ''path_anchor_schema_split''"
| "grouping_kind_label PathAnchorPartFilePattern = ''path_anchor_part_file_pattern''"

fun partition_layout_label :: "partition_layout \<Rightarrow> string" where
  "partition_layout_label Unpartitioned = ''unpartitioned''"
| "partition_layout_label HiveDirectoryKeys = ''hive_directory_keys''"

fun identity_from_scan_target :: "scan_target \<Rightarrow> target_identity" where
  "identity_from_scan_target (LocalFile p) = \<lparr>ti_target_kind = ''local_file'', ti_normalized_key = p\<rparr>"
| "identity_from_scan_target (LocalDirectory p) = \<lparr>ti_target_kind = ''local_directory'', ti_normalized_key = p\<rparr>"
| "identity_from_scan_target (LogicalDataset i h) = \<lparr>ti_target_kind = ''logical_dataset'', ti_normalized_key = i\<rparr>"
| "identity_from_scan_target (ObjectStorePlaceholder u d) = \<lparr>ti_target_kind = ''object_store_placeholder'', ti_normalized_key = u\<rparr>"

section \<open>Persisting a run\<close>

text \<open>\<open>INSERT\<close> into a table with a primary key, and of many rows one after the other.\<close>

definition insert_row ::
  "('r \<Rightarrow> 'k) \<Rightarrow> (scan_store \<Rightarrow> 'r list) \<Rightarrow> (('r list \<Rightarrow> 'r list) \<Rightarrow> scan_store \<Rightarrow> scan_store) \<Rightarrow> string \<Rightarrow> 'r \<Rightarrow>
   (scan_store, store_error, unit) eff" where
  "insert_row key rows upd table w s =
     (if key w \<in> key ` set (rows s) then (Inl (StSql (''UNIQUE constraint failed: '' @ table)), s)
      else (Inr (), upd (\<lambda>ws. ws @ [w]) s))"

fun insert_rows :: "('r \<Rightarrow> (scan_store, store_error, unit) eff) \<Rightarrow> 'r list \<Rightarrow> (scan_store, store_error, unit) eff" where
  "insert_rows ins [] = eff_return ()"
| "insert_rows ins (w # ws) = eff_bind (ins w) (\<lambda>_. insert_rows ins ws)"

definition scan_run_row_of ::
  "service_env \<Rightarrow> string \<Rightarrow> timestamp \<Rightarrow> timestamp \<Rightarrow> full_report \<Rightarrow> scan_run_row" where
  "scan_run_row_of X run_id started completed stored =
     (let identity = identity_from_scan_target (rq_target (fr_request stored))
      in \<lparr>sr_run_id = run_id, sr_request_scan_id = rq_scan_id (fr_request stored),
          sr_target_kind = ti_target_kind identity, sr_normalized_target_key = ti_normalized_key identity,
          sr_target_json = sx_target_json X (rq_target (fr_request stored)),
          sr_started_at = to_rfc3339 (sv_ts (sx_store X)) started, sr_completed_at = to_rfc3339 (sv_ts (sx_store X)) completed,
          sr_run_outcome = run_outcome_db (if sm_partial_inspection (fr_summary stored) then RunCompletedPartial else RunCompleted),
          sr_engine_revision = rm_engine_revision (fr_metadata stored),
          sr_contract_schema_version = rm_contract_schema (fr_metadata stored),
          sr_report_format_version = rm_report_format (fr_metadata stored),
          sr_report_sha256 = sx_sha256_hex X (sx_report_json X stored),
          sr_summary_json = sx_summary_json X (fr_summary stored)\<rparr>)"

definition scan_asset_row_of :: "string \<Rightarrow> report_asset \<Rightarrow> scan_asset_row" where
  "scan_asset_row_of run_id a =
     \<lparr>sa_run_id = run_id, sa_path = ra_path a, sa_format = data_format_label (ra_format a),
      sa_inspection_status = inspection_status_db (ra_inspection_status a),
      sa_failure_kind = map_option failure_kind_db (ra_failure_kind a), sa_failure_message = ra_failure_message a,
      sa_dataset_id = ra_dataset_id a\<rparr>"

definition scan_dataset_row_of :: "string \<Rightarrow> report_dataset \<Rightarrow> scan_dataset_row" where
  "scan_dataset_row_of run_id d =
     \<lparr>sd_run_id = run_id, sd_dataset_id = ds_dataset_id d, sd_grouping_kind = grouping_kind_label (ds_grouping_kind d),
      sd_partition_layout = partition_layout_label (ds_partition_layout d), sd_file_count = int (length (ds_files d))\<rparr>"

fun json_as_str :: "json \<Rightarrow> string option" where
  "json_as_str (JStr s) = Some s"
| "json_as_str _ = None"

definition scan_finding_row_of :: "string \<Rightarrow> report_finding \<Rightarrow> scan_finding_row" where
  "scan_finding_row_of run_id f =
     \<lparr>sf_run_id = run_id,
      sf_fingerprint = (case rf_fingerprint f of None \<Rightarrow> ''missing_fingerprint'' | Some fp \<Rightarrow> fp_finding_digest fp),
      sf_code = rf_code f, sf_severity = severity_label (rf_severity f), sf_category = category_label (rf_category f),
      sf_asset_path = (case rf_locations f of [] \<Rightarrow> None | l # _ \<Rightarrow> fl_file l),
      sf_dataset_id = Option.bind (map_of (rf_attributes f) ''dataset_id'') json_as_str\<rparr>"

definition persist_rows ::
  "service_env \<Rightarrow> string \<Rightarrow> timestamp \<Rightarrow> timestamp \<Rightarrow> full_report \<Rightarrow> (scan_store, store_error, unit) eff" where
  "persist_rows X run_id started completed stored =
     eff_bind (insert_row sr_run_id ss_runs ss_runs_update ''scan_runs.run_id'' (scan_run_row_of X run_id started completed stored)) (\<lambda>_.
     eff_bind (insert_row fst ss_reports ss_reports_update ''scan_reports.run_id'' (run_id, sx_report_json X stored)) (\<lambda>_.
     eff_bind (insert_rows (insert_row (\<lambda>w. (sa_run_id w, sa_path w)) ss_assets ss_assets_update
       ''scan_assets.run_id, scan_assets.path'') (map (scan_asset_row_of run_id) (fr_assets stored))) (\<lambda>_.
     eff_bind (insert_rows (insert_row (\<lambda>w. (sd_run_id w, sd_dataset_id w)) ss_datasets ss_datasets_update
       ''scan_datasets.run_id, scan_datasets.dataset_id'') (map (scan_dataset_row_of run_id) (fr_datasets stored))) (\<lambda>_.
     insert_rows (insert_row (\<lambda>w. (sf_run_id w, sf_fingerprint w)) ss_findings ss_findings_update
       ''scan_findings.run_id, scan_findings.fingerprint'') (map (scan_finding_row_of run_id) (fr_findings stored))))))"

definition check_report_valid :: "full_report \<Rightarrow> (scan_store, store_error, unit) eff" where
  "check_report_valid r = eff_lift (map_err (StReportValidation \<circ> validation_error_to_string) (validate_report r))"

definition persist_scan_run ::
  "service_env \<Rightarrow> string \<Rightarrow> timestamp \<Rightarrow> timestamp \<Rightarrow> full_report \<Rightarrow> redaction_policy \<Rightarrow> (scan_store, store_error, unit) eff" where
  "persist_scan_run X run_id started completed report redaction =
     eff_bind (check_report_valid report) (\<lambda>_.
       let stored = apply_redaction_policy redaction report
       in eff_bind (check_report_valid stored) (\<lambda>_. transaction (persist_rows X run_id started completed stored)))"

section \<open>Reading runs\<close>

definition ensure_run_exists :: "string \<Rightarrow> (scan_store, store_error, unit) eff" where
  "ensure_run_exists run_id s =
     (if filter (\<lambda>r. sr_run_id r = run_id) (ss_runs s) = [] then (Inl (StRunNotFound run_id), s) else (Inr (), s))"

definition load_report :: "service_env \<Rightarrow> string \<Rightarrow> (scan_store, store_error, full_report) eff" where
  "load_report X run_id s =
     (case find (\<lambda>r. fst r = run_id) (ss_reports s) of
        None \<Rightarrow> (Inl (StRunNotFound run_id), s)
      | Some r \<Rightarrow> (map_err StJson (sx_parse_report X (snd r)), s))"

definition find_run :: "string \<Rightarrow> (scan_store, store_error, scan_run_row) eff" where
  "find_run run_id s =
     (case find (\<lambda>r. sr_run_id r = run_id) (ss_runs s) of
        None \<Rightarrow> (Inl (StRunNotFound run_id), s) | Some r \<Rightarrow> (Inr r, s))"

text \<open>A summary that does not parse is taken from the report.\<close>

definition summary_or_report :: "service_env \<Rightarrow> string \<Rightarrow> string \<Rightarrow> (scan_store, store_error, scan_summary) eff" where
  "summary_or_report X run_id raw =
     (case sx_parse_summary X raw of
        Inr sm \<Rightarrow> eff_return sm
      | Inl _ \<Rightarrow> eff_bind (load_report X run_id) (\<lambda>r. eff_return (fr_summary r)))"

definition load_stored_scan_summary :: "service_env \<Rightarrow> string \<Rightarrow> (scan_store, store_error, scan_summary) eff" where
  "load_stored_scan_summary X run_id =
     eff_bind (find_run run_id) (\<lambda>r. summary_or_report X run_id (sr_summary_json r))"

definition matches :: "string option \<Rightarrow> string \<Rightarrow> bool" where
  "matches wanted v = (case wanted of None \<Rightarrow> True | Some w \<Rightarrow> v = w)"

definition asset_rows :: "string \<Rightarrow> string option \<Rightarrow> scan_store \<Rightarrow> scan_asset_row list" where
  "asset_rows run_id status s = filter (\<lambda>w. sa_run_id w = run_id \<and> matches status (sa_inspection_status w)) (ss_assets s)"

definition finding_rows :: "string \<Rightarrow> string option \<Rightarrow> string option \<Rightarrow> scan_store \<Rightarrow> scan_finding_row list" where
  "finding_rows run_id severity code s =
     filter (\<lambda>w. sf_run_id w = run_id \<and> matches severity (sf_severity w) \<and> matches code (sf_code w)) (ss_findings s)"

definition count_assets :: "string \<Rightarrow> string option \<Rightarrow> (scan_store, store_error, u64) eff" where
  "count_assets run_id status =
     eff_bind (ensure_run_exists run_id) (\<lambda>_ s. (Inr (len64 (asset_rows run_id status s)), s))"

record stored_asset_row =
  sw_path :: path
  sw_format :: data_format
  sw_inspection_status :: inspection_status
  sw_failure_kind :: "failure_kind option"
  sw_failure_message :: "string option"
  sw_dataset_id :: "string option"

definition stored_asset_row_from_sql :: "scan_asset_row \<Rightarrow> (store_error, stored_asset_row) res" where
  "stored_asset_row_from_sql w =
     bind_res (ok_or (StReportValidation ''unknown asset format label'') (parse_data_format (sa_format w))) (\<lambda>format.
     bind_res (parse_inspection_status (sa_inspection_status w)) (\<lambda>status.
       Inr \<lparr>sw_path = sa_path w, sw_format = format, sw_inspection_status = status,
            sw_failure_kind = Option.bind (sa_failure_kind w) parse_failure_kind,
            sw_failure_message = sa_failure_message w, sw_dataset_id = sa_dataset_id w\<rparr>))"

definition list_assets_page ::
  "string \<Rightarrow> string option \<Rightarrow> u64 \<Rightarrow> u64 \<Rightarrow> (scan_store, store_error, stored_asset_row list) eff" where
  "list_assets_page run_id status offset lim =
     eff_bind (ensure_run_exists run_id) (\<lambda>_ s.
       (collect_res (map stored_asset_row_from_sql
          (limit_offset (as_i64 lim) (as_i64 offset) (sort_key sa_path (asset_rows run_id status s)))), s))"

definition count_findings :: "string \<Rightarrow> string option \<Rightarrow> string option \<Rightarrow> (scan_store, store_error, u64) eff" where
  "count_findings run_id severity code =
     eff_bind (ensure_run_exists run_id) (\<lambda>_ s. (Inr (len64 (finding_rows run_id severity code s)), s))"

definition list_findings_page ::
  "string \<Rightarrow> string option \<Rightarrow> string option \<Rightarrow> u64 \<Rightarrow> u64 \<Rightarrow> (scan_store, store_error, scan_finding_row list) eff" where
  "list_findings_page run_id severity code offset lim =
     eff_bind (ensure_run_exists run_id) (\<lambda>_ s.
       (Inr (limit_offset (as_i64 lim) (as_i64 offset) (sort_key sf_fingerprint (finding_rows run_id severity code s))), s))"

record scan_run_list_item =
  li_run_id :: string
  li_request_scan_id :: string
  li_completed_at :: timestamp
  li_run_outcome :: run_outcome
  li_target_identity :: target_identity

definition parse_uuid :: "service_env \<Rightarrow> string \<Rightarrow> string \<Rightarrow> (store_error, string) res" where
  "parse_uuid X what s = (if sx_is_uuid X s then Inr s else Inl (StReportValidation (''invalid '' @ what)))"

definition parse_time :: "service_env \<Rightarrow> string \<Rightarrow> string \<Rightarrow> (store_error, timestamp) res" where
  "parse_time X what s = ok_or (StReportValidation (''invalid '' @ what)) (parse_from_rfc3339 (sv_ts (sx_store X)) s)"

definition run_list_item :: "service_env \<Rightarrow> scan_run_row \<Rightarrow> (store_error, scan_run_list_item) res" where
  "run_list_item X r =
     bind_res (parse_uuid X ''run_id'' (sr_run_id r)) (\<lambda>run_id.
     bind_res (parse_uuid X ''request_scan_id'' (sr_request_scan_id r)) (\<lambda>scan_id.
     bind_res (parse_time X ''completed_at'' (sr_completed_at r)) (\<lambda>completed.
     bind_res (parse_run_outcome (sr_run_outcome r)) (\<lambda>outcome.
       Inr \<lparr>li_run_id = run_id, li_request_scan_id = scan_id, li_completed_at = completed, li_run_outcome = outcome,
            li_target_identity = \<lparr>ti_target_kind = sr_target_kind r, ti_normalized_key = sr_normalized_target_key r\<rparr>\<rparr>))))"

definition list_runs_for_target ::
  "service_env \<Rightarrow> target_identity \<Rightarrow> int \<Rightarrow> (scan_store, store_error, scan_run_list_item list) eff" where
  "list_runs_for_target X identity lim s =
     (collect_res (map (run_list_item X) (limit_offset lim 0 (order_by_desc sr_completed_at (sv_visit_runs (sx_store X))
        (filter (\<lambda>r. sr_target_kind r = ti_target_kind identity \<and> sr_normalized_target_key r = ti_normalized_key identity) (ss_runs s))))), s)"

record run_public_meta =
  pm_run_id :: string
  pm_request_scan_id :: string
  pm_target_identity :: target_identity
  pm_target_json :: json
  pm_started_at :: timestamp
  pm_completed_at :: timestamp
  pm_run_outcome :: run_outcome
  pm_engine_revision :: "string option"
  pm_contract_schema_version :: string
  pm_report_format_version :: string
  pm_report_sha256 :: string
  pm_summary :: scan_summary

definition run_meta_from_row ::
  "service_env \<Rightarrow> scan_run_row \<Rightarrow> json \<Rightarrow> scan_summary \<Rightarrow> (store_error, run_public_meta) res" where
  "run_meta_from_row X r target summary =
     bind_res (parse_uuid X ''run_id'' (sr_run_id r)) (\<lambda>run_id.
     bind_res (parse_uuid X ''request_scan_id'' (sr_request_scan_id r)) (\<lambda>scan_id.
     bind_res (parse_time X ''started_at'' (sr_started_at r)) (\<lambda>started.
     bind_res (parse_time X ''completed_at'' (sr_completed_at r)) (\<lambda>completed.
     bind_res (parse_run_outcome (sr_run_outcome r)) (\<lambda>outcome.
       Inr \<lparr>pm_run_id = run_id, pm_request_scan_id = scan_id,
            pm_target_identity = \<lparr>ti_target_kind = sr_target_kind r, ti_normalized_key = sr_normalized_target_key r\<rparr>,
            pm_target_json = target, pm_started_at = started, pm_completed_at = completed, pm_run_outcome = outcome,
            pm_engine_revision = sr_engine_revision r, pm_contract_schema_version = sr_contract_schema_version r,
            pm_report_format_version = sr_report_format_version r, pm_report_sha256 = sr_report_sha256 r,
            pm_summary = summary\<rparr>)))))"

definition get_run_public_meta :: "service_env \<Rightarrow> string \<Rightarrow> (scan_store, store_error, run_public_meta) eff" where
  "get_run_public_meta X run_id =
     eff_bind (find_run run_id) (\<lambda>r.
     eff_bind (eff_lift (map_err (\<lambda>_. StReportValidation ''invalid target_json'') (sx_parse_json X (sr_target_json r)))) (\<lambda>target.
     eff_bind (summary_or_report X run_id (sr_summary_json r)) (\<lambda>summary. eff_lift (run_meta_from_row X r target summary))))"

definition verify_projection_integrity :: "service_env \<Rightarrow> string \<Rightarrow> (scan_store, store_error, unit) eff" where
  "verify_projection_integrity X run_id =
     eff_bind (load_report X run_id) (\<lambda>report s.
       (if length (filter (\<lambda>w. sa_run_id w = run_id) (ss_assets s)) \<noteq> length (fr_assets report) \<or>
           length (filter (\<lambda>w. sd_run_id w = run_id) (ss_datasets s)) \<noteq> length (fr_datasets report) \<or>
           length (filter (\<lambda>w. sf_run_id w = run_id) (ss_findings s)) \<noteq> length (fr_findings report)
        then Inl (StReportValidation ''projection row counts do not match report'') else Inr (), s))"

definition diff_runs :: "service_env \<Rightarrow> string \<Rightarrow> string \<Rightarrow> (scan_store, store_error, run_diff) eff" where
  "diff_runs X left right =
     eff_bind (load_report X left) (\<lambda>a. eff_bind (load_report X right) (\<lambda>b. eff_return (diff_reports left right a b)))"

section \<open>Scan and persist\<close>

record start_scan_request =
  sq_target :: scan_target
  sq_profile :: scan_profile
  sq_options :: scan_options
  sq_scan_id :: "string option"
  sq_redaction :: "redaction_policy option"

record start_scan_response =
  sz_run_id :: string
  sz_target_kind :: string
  sz_normalized_target_key :: string
  sz_run_outcome :: run_outcome
  sz_summary :: scan_summary
  sz_report_url :: string

text \<open>The identifiers that are drawn and the times are arguments: the scan, the run, the start and the end.\<close>

definition execute_scan_and_persist ::
  "service_env \<Rightarrow> storage_policy \<Rightarrow> string \<Rightarrow> string \<Rightarrow> timestamp \<Rightarrow> timestamp \<Rightarrow> start_scan_request \<Rightarrow>
   (scan_store, app_error, start_scan_response) eff" where
  "execute_scan_and_persist X P scan_uuid run_id started completed req =
     eff_bind (eff_lift (map_err app_error_from_application (dataset_location_from_scan_target X (sq_target req)))) (\<lambda>loc.
     eff_bind (eff_lift (map_err app_error_from_application (validate_dataset (sx_canonicalize X) P loc))) (\<lambda>_.
     eff_bind (eff_lift (map_err app_error_from_application (run_scan X P scan_uuid loc (sq_profile req)))) (\<lambda>scanned.
       let report = (case sq_scan_id req of None \<Rightarrow> scanned
             | Some i \<Rightarrow> scanned\<lparr>fr_request := (fr_request scanned)\<lparr>rq_scan_id := i\<rparr>\<rparr>);
           redaction = (case sq_redaction req of None \<Rightarrow> transport_safe_persist | Some p \<Rightarrow> p);
           identity = identity_from_scan_target (sq_target req)
       in eff_bind (eff_lift (map_err (InvalidRequest \<circ> validation_error_to_string) (validate_report report))) (\<lambda>_.
          eff_bind (eff_map_err app_error_from_store (persist_scan_run X run_id started completed report redaction)) (\<lambda>_.
          eff_return \<lparr>sz_run_id = run_id, sz_target_kind = ti_target_kind identity,
            sz_normalized_target_key = ti_normalized_key identity,
            sz_run_outcome = (if sm_partial_inspection (fr_summary report) then RunCompletedPartial else RunCompleted),
            sz_summary = fr_summary report, sz_report_url = ''/api/v1/runs/'' @ run_id @ ''/report''\<rparr>)))))"

record job_submission =
  jb_job_id :: string
  jb_status :: job_status
  jb_submitted_at :: timestamp
  jb_target_kind :: string
  jb_normalized_target_key :: string
  jb_job_url :: string

definition job_submission_view :: "timestamp \<Rightarrow> string \<Rightarrow> target_identity \<Rightarrow> job_submission" where
  "job_submission_view now job_id identity =
     \<lparr>jb_job_id = job_id, jb_status = JsQueued, jb_submitted_at = now, jb_target_kind = ti_target_kind identity,
      jb_normalized_target_key = ti_normalized_key identity, jb_job_url = ''/api/v1/jobs/'' @ job_id\<rparr>"

definition submit_scan_job ::
  "service_env \<Rightarrow> storage_policy \<Rightarrow> (start_scan_request \<Rightarrow> string) \<Rightarrow> timestamp \<Rightarrow> string \<Rightarrow> start_scan_request \<Rightarrow>
   (scan_store, app_error, job_submission) eff" where
  "submit_scan_job X P render now job_id req =
     eff_bind (eff_lift (map_err app_error_from_application (dataset_location_from_scan_target X (sq_target req)))) (\<lambda>loc.
     eff_bind (eff_lift (map_err app_error_from_application (validate_dataset (sx_canonicalize X) P loc))) (\<lambda>_.
       let identity = identity_from_scan_target (sq_target req)
       in eff_bind (eff_map_err app_error_from_store (insert_scan_job_queued (sx_store X) now job_id identity (render req))) (\<lambda>_.
          eff_return (job_submission_view now job_id identity))))"

text \<open>The scan of a job: the payload is parsed and the scan run and persisted.\<close>

definition scan_job_work ::
  "service_env \<Rightarrow> storage_policy \<Rightarrow> (string \<Rightarrow> (string, start_scan_request) res) \<Rightarrow> string \<Rightarrow> string \<Rightarrow> timestamp \<Rightarrow> timestamp \<Rightarrow>
   string \<Rightarrow> (scan_store, work_failure, string) eff" where
  "scan_job_work X P parse scan_uuid run_id started completed payload =
     eff_bind (eff_lift (map_err (\<lambda>e. WorkError (InvalidRequest (''invalid scan job payload: '' @ e))) (parse payload))) (\<lambda>req.
     eff_bind (eff_map_err WorkError (execute_scan_and_persist X P scan_uuid run_id started completed req)) (\<lambda>resp.
       eff_return (sz_run_id resp)))"

end
