(* ===== verification/Scan_Infer_Props.thy ===== *)
theory Scan_Infer_Props
  imports Scan_Engine
begin

text \<open>
  The inferred datasets partition the Parquet files they are built from: lemmas on grouping into
  ordered maps, on maps keyed by paths, and on the inference itself.
\<close>

section \<open>Grouping\<close>

lemma map_of_above: "sorted_wrt (<) (map fst m) \<Longrightarrow> \<forall>a \<in> fst ` set m. k < a \<Longrightarrow> map_of m (k :: 'k :: linorder) = None"
  by (induction m) auto

lemma mset_concat_bt_insert:
  fixes m :: "('k :: linorder \<times> 'v list) list"
  assumes "bt_sorted m"
  shows "mset (concat (map snd (bt_insert k w m))) + mset (case map_of m k of None \<Rightarrow> [] | Some v \<Rightarrow> v) =
     mset w + mset (concat (map snd m))"
  using assms
proof (induction k w m rule: bt_insert.induct)
  case (2 k w a b m)
  show ?case
  proof (cases "k < a")
    case True
    then have "map_of m k = None"
      using "2.prems" by (intro map_of_above) (auto simp: bt_sorted_def)
    with True show ?thesis by simp
  next
    case False
    have "bt_sorted m" using "2.prems" by (simp add: bt_sorted_def)
    with False show ?thesis using "2.IH" by (auto simp: ac_simps)
  qed
qed simp

lemma bt_push_sorted [simp]: "bt_sorted m \<Longrightarrow> bt_sorted (bt_push k v m)"
  by (simp add: bt_push_def)

lemma mset_bt_push:
  "bt_sorted m \<Longrightarrow> mset (concat (map snd (bt_push k v m))) = add_mset v (mset (concat (map snd m)))"
  using mset_concat_bt_insert [of m k "(case map_of m k of None \<Rightarrow> [] | Some vs \<Rightarrow> vs) @ [v]"]
  by (simp add: bt_push_def ac_simps)

definition group_by_key :: "('v \<Rightarrow> 'k :: linorder) \<Rightarrow> 'v list \<Rightarrow> ('k \<times> 'v list) list" where
  "group_by_key key vs = fold (\<lambda>v m. bt_push (key v) v m) vs []"

lemma group_by_key_snoc: "group_by_key key (vs @ [v]) = bt_push (key v) v (group_by_key key vs)"
  by (simp add: group_by_key_def)

lemma group_by_key_sorted [simp]: "bt_sorted (group_by_key key vs)"
  by (induction vs rule: rev_induct) (simp_all add: group_by_key_snoc, simp add: group_by_key_def)

lemma mset_group_by_key: "mset (concat (map snd (group_by_key key vs))) = mset vs"
  by (induction vs rule: rev_induct) (simp_all add: group_by_key_snoc mset_bt_push, simp add: group_by_key_def)

lemma map_of_group_by_key:
  "map_of (group_by_key key vs) k = (if k \<in> key ` set vs then Some (filter (\<lambda>v. key v = k) vs) else None)"
proof (induction vs rule: rev_induct)
  case (snoc x xs)
  have none: "key x \<notin> key ` set xs \<Longrightarrow> filter (\<lambda>v. key v = key x) xs = []"
    by (metis (mono_tags, lifting) filter_False image_eqI)
  show ?case
    using snoc none by (auto simp: group_by_key_snoc bt_push_def)
qed (simp add: group_by_key_def)

lemma in_group_by_key:
  "(k, us) \<in> set (group_by_key key vs) \<longleftrightarrow> k \<in> key ` set vs \<and> us = filter (\<lambda>v. key v = k) vs"
proof -
  have "(k, us) \<in> set (group_by_key key vs) \<longleftrightarrow> map_of (group_by_key key vs) k = Some us"
    using map_of_eq_Some_iff [OF bt_sorted_distinct [OF group_by_key_sorted]] by metis
  then show ?thesis by (auto simp: map_of_group_by_key)
qed

section \<open>Maps keyed by paths\<close>

definition pm_wf :: "'v path_map \<Rightarrow> bool" where
  "pm_wf m = (bt_sorted m \<and> (\<forall>(c, p, v) \<in> set m. path_components p = c))"

lemma pm_wf_insert: "pm_wf m \<Longrightarrow> pm_wf (pm_insert p v m)"
  using set_bt_insert [of "path_components p" "(case map_of m (path_components p) of None \<Rightarrow> p | Some (q, _) \<Rightarrow> q, v)" m]
  by (fastforce simp: pm_wf_def pm_insert_def split: option.splits dest: map_of_SomeD)

lemma pm_wf_Nil [simp]: "pm_wf []"
  by (simp add: pm_wf_def)

lemma pm_get_insert: "pm_get (pm_insert p v m) q = (if path_components q = path_components p then Some v else pm_get m q)"
  by (simp add: pm_get_def pm_insert_def)

lemma pm_keys_components: "pm_wf m \<Longrightarrow> map path_components (pm_keys m) = map fst m"
  by (induction m) (auto simp: pm_wf_def pm_keys_def bt_sorted_def)

lemma pm_keys_distinct: "pm_wf m \<Longrightarrow> distinct (map path_components (pm_keys m))"
  using pm_keys_components [of m] bt_sorted_distinct [of m] by (simp add: pm_wf_def)

lemma pm_get_key: "pm_wf m \<Longrightarrow> p \<in> set (pm_keys m) \<Longrightarrow> pm_get m p \<noteq> None"
  by (auto simp: pm_wf_def pm_keys_def pm_get_def map_of_eq_None_iff rev_image_eqI)

section \<open>Inference\<close>

definition dataset_paths :: "report_dataset \<Rightarrow> path list" where
  "dataset_paths d = map df_path (ds_files d)"

lemma build_dataset_simps [simp]:
  "dataset_paths (build_dataset E plan i ps insp k) = ps"
  "ds_dataset_id (build_dataset E plan i ps insp k) = i"
  "ds_grouping_kind (build_dataset E plan i ps insp k) = k"
  by (simp_all add: dataset_paths_def build_dataset_def comp_def)

lemma mset_sort_paths [simp]: "mset (sort_paths ps) = mset ps" "set (sort_paths ps) = set ps"
  by (simp_all add: sort_paths_def)

lemma signature_groups_inspected:
  assumes "\<forall>p \<in> set ps. pm_get insp p \<noteq> None"
  shows "signature_groups insp ps = group_by_key (\<lambda>p. parquet_schema_signature (the (pm_get insp p))) ps"
  using assms unfolding signature_groups_def group_by_key_def by (intro fold_cong) auto

lemma mset_concat_sorted: "mset (concat (map (\<lambda>g. sort_paths (snd g)) gs)) = mset (concat (map snd gs))"
  by (induction gs) auto

lemma infer_anchor_paths:
  assumes "\<forall>p \<in> set ps. pm_get insp p \<noteq> None"
  shows "mset (concat (map dataset_paths (fst (infer_anchor E plan insp (anchor, ps))))) = mset ps"
proof -
  have "\<forall>p \<in> set (sort_paths ps). pm_get insp p \<noteq> None" using assms by simp
  note groups = signature_groups_inspected [OF this]
  show ?thesis
    using mset_concat_sorted [of "signature_groups insp (sort_paths ps)"]
    by (auto simp: infer_anchor_def Let_def comp_def case_prod_beta groups mset_group_by_key)
qed

lemma anchor_buckets_group: "anchor_buckets root ps = group_by_key (dataset_anchor_key root) ps"
  by (simp add: anchor_buckets_def group_by_key_def)

lemma mset_concat_map_cong:
  "(\<And>x. x \<in> set xs \<Longrightarrow> mset (f x) = mset (g x)) \<Longrightarrow> mset (concat (map f xs)) = mset (concat (map g xs))"
  by (induction xs) auto

lemma concat_map_concat: "concat (map f (concat xss)) = concat (map (\<lambda>xs. concat (map f xs)) xss)"
  by (induction xss) auto

lemma mset_concat_map_mset: "mset xs = mset ys \<Longrightarrow> mset (concat (map f xs)) = mset (concat (map f ys))"
  by (simp add: mset_concat flip: sum_mset_sum_list)

lemma infer_paths:
  assumes "\<forall>p \<in> set ps. pm_get insp p \<noteq> None"
  shows "mset (concat (map dataset_paths (fst (infer_parquet_datasets E plan ps insp)))) = mset ps"
proof -
  let ?gs = "anchor_buckets (pl_root plan) ps"
  have sub: "set (snd g) \<subseteq> set ps" if "g \<in> set ?gs" for g
    using that in_group_by_key [of "fst g" "snd g" "dataset_anchor_key (pl_root plan)" ps]
    by (simp add: anchor_buckets_group)
  have each: "mset (concat (map dataset_paths (fst (infer_anchor E plan insp g)))) = mset (snd g)" if "g \<in> set ?gs" for g
    using infer_anchor_paths [of "snd g" insp E plan "fst g"] assms sub [OF that] by auto
  have "mset (concat (map dataset_paths (fst (infer_parquet_datasets E plan ps insp)))) =
        mset (concat (map dataset_paths (concat (map (fst \<circ> infer_anchor E plan insp) ?gs))))"
    by (intro mset_concat_map_mset) (simp add: infer_parquet_datasets_def Let_def)
  also have "\<dots> = mset (concat (map (\<lambda>g. concat (map dataset_paths (fst (infer_anchor E plan insp g)))) ?gs))"
    by (simp add: concat_map_concat comp_def)
  also have "\<dots> = mset (concat (map snd ?gs))"
    by (intro mset_concat_map_cong each)
  also have "\<dots> = mset ps" by (simp add: anchor_buckets_group mset_group_by_key)
  finally show ?thesis .
qed

end
