(* ===== verification/Scan_Engine_Props.thy ===== *)
theory Scan_Engine_Props
  imports Scan_Infer_Props
begin

text \<open>
  What the engine guarantees of its reports: they validate, they account for every file, and their
  datasets partition the readable Parquet files.
\<close>

section \<open>Footers and records\<close>

lemma collect_footers_snoc:
  "collect_footers (sts @ [st]) =
     (case st_footer st of None \<Rightarrow> collect_footers sts
      | Some i \<Rightarrow> pm_insert (ra_path (st_record st)) i (collect_footers sts))"
  by (simp add: collect_footers_def split: option.split)

lemma collect_footers_Nil [simp]: "collect_footers [] = []"
  by (simp add: collect_footers_def)

lemma collect_footers_wf [simp]: "pm_wf (collect_footers sts)"
  by (induction sts rule: rev_induct) (auto simp: collect_footers_snoc pm_wf_insert split: option.split)

lemma pm_keys_insert: "set (pm_keys (pm_insert p v m)) \<subseteq> insert p (set (pm_keys m))"
proof -
  define q where "q = (case map_of m (path_components p) of None \<Rightarrow> p | Some (q, _) \<Rightarrow> q)"
  have q: "q \<in> insert p ((fst \<circ> snd) ` set m)"
    by (cases "map_of m (path_components p)") (auto simp: q_def dest!: map_of_SomeD intro: rev_image_eqI)
  have "(fst \<circ> snd) ` set (pm_insert p v m) \<subseteq> insert q ((fst \<circ> snd) ` set m)"
    using image_mono [OF set_bt_insert [of "path_components p" "(q, v)" m], of "fst \<circ> snd"]
    by (simp add: pm_insert_def q_def)
  with q show ?thesis by (auto simp: pm_keys_def)
qed

lemma collect_footers_keys:
  "p \<in> set (pm_keys (collect_footers sts)) \<Longrightarrow> \<exists>st \<in> set sts. ra_path (st_record st) = p \<and> st_footer st \<noteq> None"
proof (induction sts rule: rev_induct)
  case (snoc st sts)
  have "p \<in> set (pm_keys (collect_footers sts)) \<or> (p = ra_path (st_record st) \<and> st_footer st \<noteq> None)"
    using snoc.prems by (cases "st_footer st") (auto simp: collect_footers_snoc dest: subsetD [OF pm_keys_insert])
  with snoc.IH show ?case by auto
qed (simp add: pm_keys_def)

lemma collect_footers_get:
  "st \<in> set sts \<Longrightarrow> st_footer st \<noteq> None \<Longrightarrow> pm_get (collect_footers sts) (ra_path (st_record st)) \<noteq> None"
  by (induction sts rule: rev_induct) (auto simp: collect_footers_snoc pm_get_insert split: option.split)

lemma inspect_asset_path [simp]:
  "ra_path (st_record (inspect_asset E a)) = rs_path a" "ra_format (st_record (inspect_asset E a)) = rs_format a"
  by (simp_all add: inspect_asset_def probed_step_def skipped_record_def failed_record_def split: data_format.split sum.split)

lemma inspect_asset_footer:
  "st_footer (inspect_asset E a) \<noteq> None \<longleftrightarrow> rs_format a = FmtParquet \<and> is_ok (inspect_parquet_file E (rs_path a))"
  by (simp add: inspect_asset_def probed_step_def split: data_format.split sum.split)

lemma inspect_asset_inspected:
  "st_footer (inspect_asset E a) \<noteq> None \<Longrightarrow> ra_inspection_status (st_record (inspect_asset E a)) = IsInspected"
  by (auto simp: inspect_asset_def probed_step_def split: data_format.splits sum.splits)

lemma str_trim_ne: "\<not> is_ascii_space c \<Longrightarrow> str_trim (c # s) \<noteq> []"
  by (auto simp: str_trim_def dropWhile_eq_Nil_conv)

lemma bind_res_Inl_iff: "bind_res r f = Inl e \<longleftrightarrow> r = Inl e \<or> (\<exists>x. r = Inr x \<and> f x = Inl e)"
  by (cases r) auto

lemma inspection_error_text:
  "inspect_parquet_file E p = Inl e \<Longrightarrow> str_trim (core_error_to_string e) \<noteq> []"
  "inspect_csv_shallow E p = Inl e \<Longrightarrow> str_trim (core_error_to_string e) \<noteq> []"
  "inspect_json_like_shallow E p nd = Inl e \<Longrightarrow> str_trim (core_error_to_string e) \<noteq> []"
  by (auto simp: inspect_parquet_file_def inspect_csv_shallow_def inspect_json_like_shallow_def Let_def
      bind_res_Inl_iff map_err_Inl_iff case_prod_beta str_trim_ne is_ascii_space_def split: if_splits)

lemma inspect_asset_consistent: "asset_consistent (st_record (inspect_asset E a)) \<and> ra_dataset_id (st_record (inspect_asset E a)) = None"
  using inspection_error_text [of E "rs_path a"]
  by (auto simp: inspect_asset_def probed_step_def asset_consistent_def skipped_record_def failed_record_def
      split: data_format.split sum.split)

lemma assign_dataset_simps [simp]:
  "ra_path (assign_dataset m r) = ra_path r" "ra_format (assign_dataset m r) = ra_format r"
  "ra_inspection_status (assign_dataset m r) = ra_inspection_status r"
  by (simp_all add: assign_dataset_def split: option.split)

lemma assign_dataset_consistent: "asset_consistent r \<Longrightarrow> asset_consistent (assign_dataset m r)"
  by (auto simp: assign_dataset_def asset_consistent_def split: option.split inspection_status.splits)

section \<open>Membership\<close>

lemma pm_get_fold:
  "distinct (map (path_components \<circ> fst) kvs) \<Longrightarrow> (p, i) \<in> set kvs \<Longrightarrow>
   pm_get (fold (\<lambda>(p, i) m. pm_insert p i m) kvs m) p = Some i"
  by (induction kvs rule: rev_induct) (auto simp: pm_get_insert split: prod.splits, force)

lemma path_to_dataset_get:
  assumes "distinct (map path_components (concat (map dataset_paths ds)))" and "d \<in> set ds" and "p \<in> set (dataset_paths d)"
  shows "pm_get (path_to_dataset ds) p = Some (ds_dataset_id d)"
proof -
  let ?kvs = "concat (map (\<lambda>d. map (\<lambda>f. (df_path f, ds_dataset_id d)) (ds_files d)) ds)"
  have "map fst ?kvs = concat (map dataset_paths ds)"
    by (simp add: map_concat comp_def dataset_paths_def [abs_def])
  then have "distinct (map (path_components \<circ> fst) ?kvs)"
    using assms(1) by (metis map_map)
  then show ?thesis
    unfolding path_to_dataset_def using assms(2,3) by (intro pm_get_fold) (auto simp: dataset_paths_def)
qed

lemma membership_get:
  assumes "\<exists>a \<in> set assets. ra_path a = p \<and> ra_dataset_id a = Some i"
    and "\<forall>a \<in> set assets. \<forall>j. ra_path a = p \<longrightarrow> ra_dataset_id a = Some j \<longrightarrow> j = i"
  shows "map_of (membership assets) p = Some i"
  using assms
proof (induction assets rule: rev_induct)
  case (snoc a assets)
  have step: "membership (assets @ [a]) = (case ra_dataset_id a of None \<Rightarrow> membership assets
      | Some d \<Rightarrow> bt_insert (ra_path a) d (membership assets))"
    by (simp add: membership_def split: option.split)
  show ?case using snoc by (cases "ra_dataset_id a") (auto simp: step)
qed simp

section \<open>Results\<close>

lemma counts_add: "count_status IsInspected rs + count_status IsFailed rs + count_status IsSkipped rs = len64 rs"
proof (induction rs)
  case (Cons r rs)
  then show ?case
    by (cases "ra_inspection_status r") (simp_all add: count_status_def len64_def algebra_simps)
qed (simp add: count_status_def len64_def)

text \<open>The parts of the report of a plan.\<close>

definition plan_assets :: "scan_plan \<Rightarrow> resolved_asset list" where
  "plan_assets plan = sort_key (path_components \<circ> rs_path) (pl_assets plan)"

definition plan_footers :: "scan_env \<Rightarrow> scan_plan \<Rightarrow> parquet_footer path_map" where
  "plan_footers E plan = collect_footers (map (inspect_asset E) (plan_assets plan))"

definition inferred_datasets :: "scan_env \<Rightarrow> scan_plan \<Rightarrow> report_dataset list" where
  "inferred_datasets E plan = fst (infer_parquet_datasets E plan (pm_keys (plan_footers E plan)) (plan_footers E plan))"

definition plan_record :: "scan_env \<Rightarrow> scan_plan \<Rightarrow> resolved_asset \<Rightarrow> report_asset" where
  "plan_record E plan a = assign_dataset (path_to_dataset (inferred_datasets E plan)) (st_record (inspect_asset E a))"

definition plan_findings :: "scan_env \<Rightarrow> scan_request \<Rightarrow> scan_plan \<Rightarrow> report_finding list" where
  "plan_findings E req plan =
     sort_key rf_code (evaluate_scan_rules E plan (plan_assets plan) (pm_values (plan_footers E plan)) (inferred_datasets E plan) @
       structural_findings E req plan (map (inspect_asset E) (plan_assets plan)) (inferred_datasets E plan)
         (snd (infer_parquet_datasets E plan (pm_keys (plan_footers E plan)) (plan_footers E plan))))"

lemma scan_report_parts:
  "scan_report_of E req plan =
     assemble_report E req (pl_truncated plan) (plan_assets plan) (map (plan_record E plan) (plan_assets plan))
       (inferred_datasets E plan) (plan_findings E req plan)"
  by (simp add: scan_report_of_def Let_def case_prod_beta plan_findings_def plan_record_def [abs_def] inferred_datasets_def
      plan_footers_def plan_assets_def comp_def)

lemma plan_datasets_paths:
  "mset (concat (map dataset_paths (inferred_datasets E plan))) = mset (pm_keys (plan_footers E plan))"
  unfolding inferred_datasets_def by (rule infer_paths) (simp add: plan_footers_def pm_get_key)

lemma plan_datasets_distinct:
  "distinct (map path_components (concat (map dataset_paths (inferred_datasets E plan))))"
proof -
  have "mset (map path_components (concat (map dataset_paths (inferred_datasets E plan)))) =
        mset (map path_components (pm_keys (plan_footers E plan)))"
    using plan_datasets_paths [of E plan] by simp
  moreover have "distinct (map path_components (pm_keys (plan_footers E plan)))"
    by (simp add: plan_footers_def pm_keys_distinct)
  ultimately show ?thesis by (metis distinct_count_atmost_1 set_mset_mset)
qed

lemma plan_member:
  assumes "d \<in> set (inferred_datasets E plan)" and "p \<in> set (dataset_paths d)"
  shows "\<exists>a \<in> set (plan_assets plan). rs_path a = p \<and> rs_format a = FmtParquet \<and> is_ok (inspect_parquet_file E p) \<and>
    ra_dataset_id (plan_record E plan a) = Some (ds_dataset_id d)"
proof -
  have "p \<in> set (pm_keys (plan_footers E plan))"
    using assms plan_datasets_paths [of E plan, THEN mset_eq_setD] by auto
  then obtain a where a: "a \<in> set (plan_assets plan)" "rs_path a = p" "st_footer (inspect_asset E a) \<noteq> None"
    using collect_footers_keys by (fastforce simp: plan_footers_def)
  moreover have "pm_get (path_to_dataset (inferred_datasets E plan)) p = Some (ds_dataset_id d)"
    by (rule path_to_dataset_get [OF plan_datasets_distinct assms])
  ultimately show ?thesis
    using inspect_asset_footer [of E a] inspect_asset_inspected [of E a]
    by (intro bexI [of _ a]) (auto simp: plan_record_def assign_dataset_def)
qed

lemma plan_record_dataset:
  assumes "ra_dataset_id (plan_record E plan a) = Some i"
  shows "pm_get (path_to_dataset (inferred_datasets E plan)) (rs_path a) = Some i"
  using assms inspect_asset_consistent [of E a]
  by (auto simp: plan_record_def assign_dataset_def split: if_splits option.splits)

lemma plan_membership:
  assumes "d \<in> set (inferred_datasets E plan)" and "p \<in> set (dataset_paths d)"
  shows "map_of (membership (map (plan_record E plan) (plan_assets plan))) p = Some (ds_dataset_id d)"
proof (rule membership_get)
  show "\<exists>r \<in> set (map (plan_record E plan) (plan_assets plan)). ra_path r = p \<and> ra_dataset_id r = Some (ds_dataset_id d)"
    using plan_member [OF assms] by (auto simp: plan_record_def)
  have "ra_path (plan_record E plan a) = rs_path a" for a by (simp add: plan_record_def)
  then show "\<forall>r \<in> set (map (plan_record E plan) (plan_assets plan)). \<forall>j. ra_path r = p \<longrightarrow> ra_dataset_id r = Some j \<longrightarrow> j = ds_dataset_id d"
    using path_to_dataset_get [OF plan_datasets_distinct assms] plan_record_dataset by fastforce
qed

lemma report_of_plan_valid: "validate_report (scan_report_of E req plan) = Inr ()"
proof -
  let ?rs = "map (plan_record E plan) (plan_assets plan)"
  have "list_all asset_consistent ?rs"
    using inspect_asset_consistent by (auto simp: list_all_iff plan_record_def intro: assign_dataset_consistent)
  moreover have "list_all (\<lambda>d. list_all (\<lambda>f. map_of (membership ?rs) (df_path f) = Some (ds_dataset_id d)) (ds_files d)) (inferred_datasets E plan)"
    using plan_membership by (fastforce simp: list_all_iff dataset_paths_def)
  ultimately show ?thesis
    unfolding scan_report_parts validate_report_def Let_def assemble_report_def
    by (simp add: counts_add)
qed

lemma scan_engine_run_plan:
  "scan_engine_run E req = bind_res (resolve_local_scan_plan E (rq_target req) (rq_options req)) (\<lambda>plan. Inr (scan_report_of E req plan))"
  by (simp add: scan_engine_run_def report_of_plan_valid)

text \<open>Which files are readable, and that the keys of the footers are just these.\<close>

definition readable_parquet :: "scan_env \<Rightarrow> resolved_asset \<Rightarrow> bool" where
  "readable_parquet E a = (rs_format a = FmtParquet \<and> is_ok (inspect_parquet_file E (rs_path a)))"

lemma pm_get_key_ex: "pm_wf m \<Longrightarrow> pm_get m p \<noteq> None \<Longrightarrow> \<exists>q \<in> set (pm_keys m). path_components q = path_components p"
proof -
  assume wf: "pm_wf m" and "pm_get m p \<noteq> None"
  then obtain q v where "(path_components p, q, v) \<in> set m"
    by (auto simp: pm_get_def dest: map_of_SomeD)
  with wf show ?thesis
    by (intro bexI [of _ q]) (auto simp: pm_wf_def pm_keys_def intro: rev_image_eqI)
qed

lemma set_plan_assets [simp]: "set (plan_assets plan) = set (pl_assets plan)"
  by (simp add: plan_assets_def)

lemma same_path:
  "distinct (map (path_components \<circ> rs_path) xs) \<Longrightarrow> a \<in> set xs \<Longrightarrow> b \<in> set xs \<Longrightarrow>
   path_components (rs_path a) = path_components (rs_path b) \<Longrightarrow> a = b"
  by (metis comp_apply distinct_map inj_onD)

lemma plan_footer_keys:
  assumes "distinct (map (path_components \<circ> rs_path) (pl_assets plan))"
  shows "set (pm_keys (plan_footers E plan)) = rs_path ` {a \<in> set (pl_assets plan). readable_parquet E a}"
proof (intro equalityI subsetI)
  fix p assume "p \<in> set (pm_keys (plan_footers E plan))"
  then show "p \<in> rs_path ` {a \<in> set (pl_assets plan). readable_parquet E a}"
    using collect_footers_keys inspect_asset_footer by (fastforce simp: plan_footers_def readable_parquet_def)
next
  fix p assume "p \<in> rs_path ` {a \<in> set (pl_assets plan). readable_parquet E a}"
  then obtain a where a: "a \<in> set (pl_assets plan)" "readable_parquet E a" "p = rs_path a" by auto
  then have "pm_get (plan_footers E plan) p \<noteq> None"
    using collect_footers_get [of "inspect_asset E a" "map (inspect_asset E) (plan_assets plan)"] inspect_asset_footer [of E a]
    by (simp add: plan_footers_def readable_parquet_def)
  then obtain q where q: "q \<in> set (pm_keys (plan_footers E plan))" "path_components q = path_components p"
    using pm_get_key_ex [of "plan_footers E plan" p] by (auto simp: plan_footers_def)
  moreover obtain b where "b \<in> set (pl_assets plan)" "rs_path b = q"
    using q(1) collect_footers_keys [of q] by (fastforce simp: plan_footers_def)
  ultimately show "p \<in> set (pm_keys (plan_footers E plan))"
    using same_path [OF assms, of a b] a by auto
qed

lemma fold_pm_get_SomeD:
  "pm_get (fold (\<lambda>(p, i) m. pm_insert p i m) kvs []) p = Some i \<Longrightarrow> \<exists>q. (q, i) \<in> set kvs \<and> path_components q = path_components p"
proof (induction kvs rule: rev_induct)
  case (snoc kv kvs)
  then show ?case by (cases kv) (auto simp: pm_get_insert split: if_splits)
qed (simp add: pm_get_def)

lemma path_to_dataset_SomeD:
  assumes "pm_get (path_to_dataset ds) p = Some i"
  shows "\<exists>d \<in> set ds. \<exists>q \<in> set (dataset_paths d). ds_dataset_id d = i \<and> path_components q = path_components p"
  using fold_pm_get_SomeD [OF assms [unfolded path_to_dataset_def]] by (auto simp: dataset_paths_def)

lemma plan_dataset_paths_set:
  "set (concat (map dataset_paths (inferred_datasets E plan))) = set (pm_keys (plan_footers E plan))"
  by (rule mset_eq_setD [OF plan_datasets_paths])

lemma plan_dataset_id_iff:
  assumes dist: "distinct (map (path_components \<circ> rs_path) (pl_assets plan))" and a: "a \<in> set (pl_assets plan)"
  shows "ra_dataset_id (plan_record E plan a) = Some i \<longleftrightarrow>
    (\<exists>d \<in> set (inferred_datasets E plan). ds_dataset_id d = i \<and> rs_path a \<in> set (dataset_paths d))"
proof
  assume "ra_dataset_id (plan_record E plan a) = Some i"
  then obtain d q where d: "d \<in> set (inferred_datasets E plan)" "q \<in> set (dataset_paths d)" "ds_dataset_id d = i"
      "path_components q = path_components (rs_path a)"
    using path_to_dataset_SomeD [OF plan_record_dataset] by metis
  then obtain b where "b \<in> set (pl_assets plan)" "rs_path b = q"
    using plan_member by (metis set_plan_assets)
  with d same_path [OF dist, of b a] a show "\<exists>d \<in> set (inferred_datasets E plan). ds_dataset_id d = i \<and> rs_path a \<in> set (dataset_paths d)"
    by auto
next
  assume "\<exists>d \<in> set (inferred_datasets E plan). ds_dataset_id d = i \<and> rs_path a \<in> set (dataset_paths d)"
  then obtain d where d: "d \<in> set (inferred_datasets E plan)" "ds_dataset_id d = i" "rs_path a \<in> set (dataset_paths d)" by auto
  obtain b where "b \<in> set (pl_assets plan)" "rs_path b = rs_path a" "ra_dataset_id (plan_record E plan b) = Some i"
    using plan_member [OF d(1,3)] d(2) by auto
  with same_path [OF dist, of b a] a show "ra_dataset_id (plan_record E plan a) = Some i" by simp
qed

lemma infer_anchor_paths_subset:
  assumes "\<forall>p \<in> set ps. pm_get insp p \<noteq> None" and "d \<in> set (fst (infer_anchor E plan insp (anchor, ps)))"
  shows "set (dataset_paths d) \<subseteq> set ps"
proof -
  have "set (dataset_paths d) \<subseteq> set (concat (map dataset_paths (fst (infer_anchor E plan insp (anchor, ps)))))"
    using assms(2) by auto
  also have "\<dots> = set ps" by (rule mset_eq_setD [OF infer_anchor_paths [OF assms(1)]])
  finally show ?thesis .
qed

lemma plan_dataset_anchor:
  assumes "d \<in> set (inferred_datasets E plan)"
  shows "\<exists>anchor. \<forall>p \<in> set (dataset_paths d). dataset_anchor_key (pl_root plan) p = anchor"
proof -
  let ?m = "plan_footers E plan"
  obtain g where g: "g \<in> set (anchor_buckets (pl_root plan) (pm_keys ?m))" and d: "d \<in> set (fst (infer_anchor E plan ?m g))"
    using assms by (auto simp: inferred_datasets_def infer_parquet_datasets_def Let_def)
  have bucket: "snd g = filter (\<lambda>p. dataset_anchor_key (pl_root plan) p = fst g) (pm_keys ?m)"
    using g in_group_by_key [of "fst g" "snd g"] by (simp add: anchor_buckets_group)
  then have "\<forall>p \<in> set (snd g). pm_get ?m p \<noteq> None"
    using pm_get_key [of ?m] by (simp add: plan_footers_def)
  then have "set (dataset_paths d) \<subseteq> set (snd g)"
    using infer_anchor_paths_subset [of "snd g" ?m d E plan "fst g"] d by simp
  then show ?thesis by (intro exI [of _ "fst g"]) (auto simp: bucket)
qed

text \<open>A small tree: a Parquet file at the root, one in the directory \<open>default\<close>, and a text file.\<close>

definition demo_footer_metadata :: parquet_metadata where
  "demo_footer_metadata = \<lparr>pt_num_rows = 3, pt_created_by = None,
     pt_columns = [\<lparr>pc_name = ''x'', pc_physical_type = ''INT64'', pc_logical_type = ''None'', pc_optional = True\<rparr>], pt_row_groups = []\<rparr>"

definition demo_walk_entry :: "path \<Rightarrow> scan_entry" where
  "demo_walk_entry p = \<lparr>we_path = Some p, we_lossy = p, we_is_file = True, we_size = Some 9000\<rparr>"

definition demo_scan_env :: "hasher \<Rightarrow> (string list \<Rightarrow> string) \<Rightarrow> scan_env" where
  "demo_scan_env h uuid =
     \<lparr>sn_exists = (\<lambda>p. p = ''/d''), sn_metadata = (\<lambda>_. Inr 9000),
      sn_walk = (\<lambda>_. map demo_walk_entry [''/d/a.parquet'', ''/d/default/b.parquet'', ''/d/readme'']),
      sn_read_head = (\<lambda>_ _. Inl ''not found''), sn_from_utf8_lossy = (\<lambda>s. s), sn_alphabetic = (\<lambda>_. True),
      sn_parse_json = (\<lambda>_. Inl ''eof''), sn_open = Inr, sn_read_metadata = (\<lambda>_. Inr demo_footer_metadata),
      sn_uuid = uuid, sn_hasher = h, sn_now = 5\<rparr>"

definition demo_scan_request :: scan_request where
  "demo_scan_request = scan_request_new ''s1'' (LocalDirectory ''/d'') Quick"

definition demo_scan_plan :: scan_plan where
  "demo_scan_plan = \<lparr>pl_root = ''/d'', pl_assets =
     [\<lparr>rs_path = ''/d/a.parquet'', rs_format = FmtParquet, rs_size_bytes = 9000\<rparr>,
      \<lparr>rs_path = ''/d/default/b.parquet'', rs_format = FmtParquet, rs_size_bytes = 9000\<rparr>,
      \<lparr>rs_path = ''/d/readme'', rs_format = FmtUnknown, rs_size_bytes = 9000\<rparr>], pl_truncated = False\<rparr>"

lemma demo_classify:
  "classify_format_from_path ''/d/a.parquet'' = FmtParquet" "classify_format_from_path ''/d/default/b.parquet'' = FmtParquet"
  "classify_format_from_path ''/d/readme'' = FmtUnknown"
  by code_simp+

lemma demo_resolves: "resolve_local_scan_plan (demo_scan_env h uuid) (rq_target demo_scan_request) (rq_options demo_scan_request) = Inr demo_scan_plan"
proof -
  have "unat (max (so_max_files scan_options_default) 1) = 100000"
    by (simp add: scan_options_default_def max_def word_le_nat_alt)
  then show ?thesis
    by (simp add: demo_scan_request_def scan_request_new_def demo_scan_env_def demo_scan_plan_def resolve_directory_def demo_walk_entry_def
        demo_classify Let_def)
qed

lemma demo_distinct: "distinct (map (path_components \<circ> rs_path) (pl_assets demo_scan_plan))"
  by code_simp

text \<open>
  C32. A scan fails only when its target cannot be resolved: otherwise the report passes its own validation, so
  that the validation at the end of a run never rejects it, and it has one record for every resolved file and is
  marked partial exactly when an inspection failed or the walk stopped early.
\<close>

theorem scan_reports_valid:
  assumes "resolve_local_scan_plan E (rq_target req) (rq_options req) = Inr plan"
  shows "\<exists>r. scan_engine_run E req = Inr r \<and> validate_report r = Inr () \<and>
    mset (map ra_path (fr_assets r)) = mset (map rs_path (pl_assets plan)) \<and>
    (sm_partial_inspection (fr_summary r) \<longleftrightarrow> 0 < count_status IsFailed (fr_assets r) \<or> pl_truncated plan)"
proof (intro exI conjI)
  show "scan_engine_run E req = Inr (scan_report_of E req plan)"
    by (simp add: scan_engine_run_plan assms)
  show "validate_report (scan_report_of E req plan) = Inr ()" by (rule report_of_plan_valid)
  show "mset (map ra_path (fr_assets (scan_report_of E req plan))) = mset (map rs_path (pl_assets plan))"
    by (simp add: scan_report_parts assemble_report_def comp_def plan_record_def plan_assets_def)
  show "sm_partial_inspection (fr_summary (scan_report_of E req plan)) \<longleftrightarrow>
      0 < count_status IsFailed (fr_assets (scan_report_of E req plan)) \<or> pl_truncated plan"
    by (simp add: scan_report_parts assemble_report_def)
qed

theorem scan_reports_valid_witness:
  "\<exists>r. scan_engine_run (demo_scan_env undefined concat) demo_scan_request = Inr r \<and> validate_report r = Inr () \<and> length (fr_assets r) = 3"
proof -
  obtain r where r: "scan_engine_run (demo_scan_env undefined concat) demo_scan_request = Inr r" "validate_report r = Inr ()"
      "mset (map ra_path (fr_assets r)) = mset (map rs_path (pl_assets demo_scan_plan))"
    using scan_reports_valid [OF demo_resolves, of undefined concat] by auto
  from r(3) have "length (fr_assets r) = 3"
    by (drule_tac arg_cong [where f = size]) (simp add: demo_scan_plan_def)
  with r show ?thesis by auto
qed

text \<open>
  C33. The datasets of a report partition the readable Parquet files: every such file belongs to exactly one
  dataset, no other file belongs to any, the files of one dataset have the same anchor, and the record of a file names
  the dataset that lists it.
\<close>

theorem datasets_partition_files:
  assumes "resolve_local_scan_plan E (rq_target req) (rq_options req) = Inr plan" and "scan_engine_run E req = Inr r"
    and "distinct (map (path_components \<circ> rs_path) (pl_assets plan))"
  shows "distinct (concat (map dataset_paths (fr_datasets r))) \<and>
    set (concat (map dataset_paths (fr_datasets r))) = rs_path ` {a \<in> set (pl_assets plan). readable_parquet E a} \<and>
    (\<forall>d \<in> set (fr_datasets r). \<exists>anchor. \<forall>p \<in> set (dataset_paths d). dataset_anchor_key (pl_root plan) p = anchor) \<and>
    (\<forall>a \<in> set (fr_assets r). \<forall>i. ra_dataset_id a = Some i \<longleftrightarrow>
      (\<exists>d \<in> set (fr_datasets r). ds_dataset_id d = i \<and> ra_path a \<in> set (dataset_paths d)))"
proof -
  have r: "fr_datasets r = inferred_datasets E plan" "fr_assets r = map (plan_record E plan) (plan_assets plan)"
    using assms(1,2) by (auto simp: scan_engine_run_plan scan_report_parts assemble_report_def)
  have path: "ra_path (plan_record E plan x) = rs_path x" for x by (simp add: plan_record_def)
  have "distinct (concat (map dataset_paths (fr_datasets r)))"
    using plan_datasets_distinct [of E plan] unfolding r using distinct_map by blast
  moreover have "set (concat (map dataset_paths (fr_datasets r))) = rs_path ` {a \<in> set (pl_assets plan). readable_parquet E a}"
    unfolding r plan_dataset_paths_set plan_footer_keys [OF assms(3)] ..
  ultimately show ?thesis
    using plan_dataset_anchor plan_dataset_id_iff [OF assms(3)] by (simp add: r path)
qed

theorem datasets_partition_files_witness:
  "\<exists>r. scan_engine_run (demo_scan_env undefined concat) demo_scan_request = Inr r \<and>
     set (concat (map dataset_paths (fr_datasets r))) = {''/d/a.parquet'', ''/d/default/b.parquet''}"
proof -
  let ?E = "demo_scan_env undefined concat"
  obtain r where r: "scan_engine_run ?E demo_scan_request = Inr r"
    by (simp add: scan_engine_run_plan demo_resolves)
  have "rs_path ` {a \<in> set (pl_assets demo_scan_plan). readable_parquet ?E a} = {''/d/a.parquet'', ''/d/default/b.parquet''}"
  proof -
    have "set (filter (readable_parquet ?E) (pl_assets demo_scan_plan)) = set (take 2 (pl_assets demo_scan_plan))"
      by (simp add: demo_scan_plan_def readable_parquet_def inspect_parquet_file_def demo_scan_env_def)
    then have "rs_path ` {a \<in> set (pl_assets demo_scan_plan). readable_parquet ?E a} = rs_path ` set (take 2 (pl_assets demo_scan_plan))"
      by simp
    then show ?thesis by (simp add: demo_scan_plan_def)
  qed
  with r datasets_partition_files [OF demo_resolves r demo_distinct] show ?thesis by auto
qed

end
