(* ===== verification/Service_Jobs_Props.thy ===== *)
theory Service_Jobs_Props
  imports Service_Jobs
begin

text \<open>
  The life of a job in the SQLite store. An abstract machine says which changes of status and
  attempts a job may make; every interleaving of the operations of the SQLite store refines it, job
  by job. From it follow the finality of terminal states, the bound on attempts and the effect of
  recovery. None of this is claimed of the Postgres store: its recovery, whose updates are not
  atomic with its selection, requeues a job with no attempt left (\<open>pg_recovery_not_atomic\<close>).
\<close>

section \<open>The abstract machine\<close>

type_synonym life = "job_status \<times> int"

definition terminal_statuses :: "job_status set" where
  "terminal_statuses = {JsSucceeded, JsFailed, JsCanceled}"

inductive life_step :: "int \<Rightarrow> bool \<Rightarrow> life \<Rightarrow> life \<Rightarrow> bool" for mx where
  L_claim: "life_step mx True (JsQueued, n) (JsRunning, n + 1)"
| L_requeue: "n < mx \<Longrightarrow> life_step mx False (JsRunning, n) (JsQueued, n)"
| L_finish: "st \<in> terminal_statuses \<Longrightarrow> life_step mx False (JsRunning, n) (st, n)"
| L_cancel: "life_step mx False (JsQueued, n) (JsCanceled, n)"

inductive_cases life_step_terminal: "life_step mx b (st, n) l"

definition life_move :: "int \<Rightarrow> bool \<Rightarrow> life \<Rightarrow> life \<Rightarrow> bool" where
  "life_move mx b l l' \<longleftrightarrow> (\<not> b \<and> l' = l) \<or> life_step mx b l l'"

text \<open>Queued jobs have attempts left, running ones have used one.\<close>

definition life_ok :: "int \<Rightarrow> life \<Rightarrow> bool" where
  "life_ok mx l \<longleftrightarrow> 0 \<le> snd l \<and> snd l \<le> mx \<and> (fst l = JsQueued \<longrightarrow> snd l < mx) \<and> (fst l = JsRunning \<longrightarrow> 0 < snd l)"

lemma life_move_ok: "life_move mx b l l' \<Longrightarrow> life_ok mx l \<Longrightarrow> life_ok mx l'"
  unfolding life_move_def by (auto simp: life_ok_def terminal_statuses_def elim!: life_step.cases)

lemma life_move_terminal: "life_move mx b l l' \<Longrightarrow> fst l \<in> terminal_statuses \<Longrightarrow> \<not> b \<and> l' = l"
  unfolding life_move_def by (auto simp: terminal_statuses_def elim: life_step.cases)

lemma life_move_attempts: "life_move mx b l l' \<Longrightarrow> snd l' = snd l + (if b then 1 else 0)"
  unfolding life_move_def by (auto elim: life_step.cases)

section \<open>Abstraction\<close>

definition job_status_of :: "string \<Rightarrow> job_status option" where
  "job_status_of s =
     (if s = ''queued'' then Some JsQueued else if s = ''running'' then Some JsRunning
      else if s = ''succeeded'' then Some JsSucceeded else if s = ''failed'' then Some JsFailed
      else if s = ''canceled'' then Some JsCanceled else None)"

lemma job_status_of_simps [simp]:
  "job_status_of ''queued'' = Some JsQueued" "job_status_of ''running'' = Some JsRunning"
  "job_status_of ''succeeded'' = Some JsSucceeded" "job_status_of ''failed'' = Some JsFailed"
  "job_status_of ''canceled'' = Some JsCanceled"
  by (simp_all add: job_status_of_def)

definition row_life :: "scan_job_row \<Rightarrow> life option" where
  "row_life r = map_option (\<lambda>st. (st, sj_attempt_count r)) (job_status_of (sj_status r))"

definition job_of :: "scan_store \<Rightarrow> string \<Rightarrow> scan_job_row option" where
  "job_of s i = find (\<lambda>r. sj_job_id r = i) (ss_jobs s)"

definition life_of :: "scan_store \<Rightarrow> string \<Rightarrow> life option" where
  "life_of s i = Option.bind (job_of s i) row_life"

definition jobs_wf :: "scan_store \<Rightarrow> bool" where
  "jobs_wf s \<longleftrightarrow> distinct (map sj_job_id (ss_jobs s)) \<and> (\<forall>r \<in> set (ss_jobs s). job_status_of (sj_status r) \<noteq> None)"

lemma jobs_wf_empty [simp]: "jobs_wf empty_store"
  by (simp add: jobs_wf_def empty_store_def)

definition terminal_row :: "scan_job_row \<Rightarrow> bool" where
  "terminal_row r \<longleftrightarrow> (\<exists>st \<in> terminal_statuses. job_status_of (sj_status r) = Some st)"

lemma not_terminal_row: "sj_status r = ''queued'' \<or> sj_status r = ''running'' \<Longrightarrow> \<not> terminal_row r"
  by (auto simp: terminal_row_def terminal_statuses_def)

definition refines_job :: "int \<Rightarrow> string option \<Rightarrow> scan_store \<Rightarrow> scan_store \<Rightarrow> bool" where
  "refines_job mx c s s' \<longleftrightarrow> jobs_wf s' \<and>
     (\<forall>i r. job_of s i = Some r \<and> terminal_row r \<longrightarrow> job_of s' i = Some r) \<and>
     (\<forall>i. case life_of s i of
        None \<Rightarrow> c \<noteq> Some i \<and> (life_of s' i = None \<or> life_of s' i = Some (JsQueued, 0))
      | Some l \<Rightarrow> \<exists>l'. life_of s' i = Some l' \<and> life_move mx (c = Some i) l l')"

lemma job_of_Some: "job_of s i = Some r \<Longrightarrow> r \<in> set (ss_jobs s) \<and> sj_job_id r = i"
  unfolding job_of_def by (rule find_key_Some)

lemma job_of_None: "job_of s i = None \<longleftrightarrow> i \<notin> sj_job_id ` set (ss_jobs s)"
  by (auto simp: job_of_def find_None_iff)

lemma job_of_row: "jobs_wf s \<Longrightarrow> r \<in> set (ss_jobs s) \<Longrightarrow> job_of s (sj_job_id r) = Some r"
  unfolding job_of_def jobs_wf_def by (blast intro: find_key_distinct)

lemma life_of_Some_iff: "life_of s i = Some l \<longleftrightarrow> (\<exists>r. job_of s i = Some r \<and> row_life r = Some l)"
  by (auto simp: life_of_def bind_eq_Some_conv)

lemma life_of_None_iff: "jobs_wf s \<Longrightarrow> life_of s i = None \<longleftrightarrow> job_of s i = None"
  by (cases "job_of s i") (auto simp: life_of_def row_life_def jobs_wf_def dest!: job_of_Some)

text \<open>An operation that maps the rows refines the machine when it does so row by row.\<close>

lemma map_refines:
  assumes wf: "jobs_wf s" and eq: "ss_jobs s' = map g (ss_jobs s)" and key: "\<And>r. sj_job_id (g r) = sj_job_id r"
    and c: "\<And>i. c = Some i \<Longrightarrow> i \<in> sj_job_id ` set (ss_jobs s)"
    and keep: "\<And>r. r \<in> set (ss_jobs s) \<Longrightarrow> terminal_row r \<Longrightarrow> g r = r"
    and move: "\<And>r l. r \<in> set (ss_jobs s) \<Longrightarrow> row_life r = Some l \<Longrightarrow>
      \<exists>l'. row_life (g r) = Some l' \<and> life_move mx (c = Some (sj_job_id r)) l l'"
  shows "refines_job mx c s s'"
proof -
  have life: "row_life (g r) \<noteq> None" if r: "r \<in> set (ss_jobs s)" for r
  proof -
    obtain l where "row_life r = Some l" using r wf by (fastforce simp: jobs_wf_def row_life_def)
    from move [OF r this] show ?thesis by auto
  qed
  have wf': "jobs_wf s'"
    using wf life by (auto simp: jobs_wf_def eq key row_life_def comp_def)
  have job: "job_of s' i = map_option g (job_of s i)" for i
    by (simp add: job_of_def eq find_map_key key)
  show ?thesis
    unfolding refines_job_def
  proof (intro conjI allI impI)
    show "jobs_wf s'" by (rule wf')
  next
    fix i r
    assume "job_of s i = Some r \<and> terminal_row r"
    then show "job_of s' i = Some r" using keep [of r] job_of_Some [of s i r] by (simp add: job)
  next
    fix i
    show "case life_of s i of
        None \<Rightarrow> c \<noteq> Some i \<and> (life_of s' i = None \<or> life_of s' i = Some (JsQueued, 0))
      | Some l \<Rightarrow> \<exists>l'. life_of s' i = Some l' \<and> life_move mx (c = Some i) l l'"
    proof (cases "life_of s i")
      case None
      then have n: "job_of s i = None" using life_of_None_iff [OF wf] by simp
      then have "c \<noteq> Some i" using c [of i] job_of_None [of s i] by blast
      then show ?thesis using n None by (simp add: life_of_def job)
    next
      case (Some l)
      then obtain r where r: "job_of s i = Some r" "row_life r = Some l" by (auto simp: life_of_Some_iff)
      note m = job_of_Some [OF r(1)]
      from move [OF conjunct1 [OF m] r(2)] r m show ?thesis
        by (auto simp: Some life_of_def job)
    qed
  qed
qed

lemma row_life_Some: "row_life r = Some l \<longleftrightarrow> job_status_of (sj_status r) = Some (fst l) \<and> snd l = sj_attempt_count r"
  by (cases l) (auto simp: row_life_def)

lemma refl_refines: "jobs_wf s \<Longrightarrow> ss_jobs s' = ss_jobs s \<Longrightarrow> refines_job mx None s s'"
  by (rule map_refines [where g = id]) (auto simp: life_move_def)

lemma update_refines:
  assumes "jobs_wf s" "ss_jobs s' = snd (sql_update P f (ss_jobs s))" "\<And>r. sj_job_id (f r) = sj_job_id r"
    "\<And>r l. P r \<Longrightarrow> row_life r = Some l \<Longrightarrow> \<exists>l'. row_life (f r) = Some l' \<and> life_move mx False l l'"
    "\<And>r. P r \<Longrightarrow> \<not> terminal_row r"
  shows "refines_job mx None s s'"
  by (rule map_refines [where g = "\<lambda>r. if P r then f r else r"]) (use assms in \<open>auto simp: sql_update_def life_move_def\<close>)

lemma finish_refines:
  assumes "jobs_wf s" "finish_job msg i f s = (r, s')" "\<And>r. sj_job_id (f r) = sj_job_id r"
    "\<And>r. sj_attempt_count (f r) = sj_attempt_count r"
    "\<And>r. \<exists>st \<in> terminal_statuses. job_status_of (sj_status (f r)) = Some st"
  shows "refines_job mx None s s'"
proof (rule update_refines [OF assms(1), where P = "\<lambda>r. sj_job_id r = i \<and> sj_status r = ''running''" and f = f])
  show "ss_jobs s' = snd (sql_update (\<lambda>r. sj_job_id r = i \<and> sj_status r = ''running'') f (ss_jobs s))"
    using assms(2) by (auto simp: finish_job_def sql_update_def split: if_splits)
next
  fix r l
  assume "sj_job_id r = i \<and> sj_status r = ''running''" "row_life r = Some l"
  moreover obtain st where "st \<in> terminal_statuses" "job_status_of (sj_status (f r)) = Some st" using assms(5) by blast
  ultimately show "\<exists>l'. row_life (f r) = Some l' \<and> life_move mx False l l'"
    by (auto simp: row_life_def assms(4) life_move_def intro!: life_step.intros)
qed (use assms(3) not_terminal_row in auto)

lemmas final_rows = succeeded_row_def canceled_row_def failed_row_def

lemma complete_refines:
  assumes "jobs_wf s"
  shows "complete_application_job_success E now i run ref s = (r, s') \<Longrightarrow> refines_job mx None s s'"
    and "complete_application_job_canceled E now i s = (r, s') \<Longrightarrow> refines_job mx None s s'"
    and "complete_scan_job_failure E now i code msg s = (r, s') \<Longrightarrow> refines_job mx None s s'"
proof -
  have fin: "finish_job m i f s = (r, s') \<Longrightarrow> refines_job mx None s s'"
    if "f = succeeded_row T now run ref \<or> f = canceled_row T now \<or> f = failed_row T now code msg" for m f T
    by (erule finish_refines [OF assms]) (use that in \<open>auto simp: final_rows terminal_statuses_def\<close>)
  show "complete_application_job_success E now i run ref s = (r, s') \<Longrightarrow> refines_job mx None s s'"
    using fin refl_refines [OF assms] by (auto simp: complete_application_job_success_def split: if_splits)
  show "complete_application_job_canceled E now i s = (r, s') \<Longrightarrow> refines_job mx None s s'"
    and "complete_scan_job_failure E now i code msg s = (r, s') \<Longrightarrow> refines_job mx None s s'"
    using fin by (auto simp: complete_application_job_canceled_def complete_scan_job_failure_def)
qed

lemma renew_refines:
  assumes "jobs_wf s" "renew_scan_job_lease E i worker hb lu s = (r, s')"
  shows "refines_job mx None s s'"
  using assms
  by (intro update_refines [where P = "\<lambda>r. sj_job_id r = i \<and> sj_worker_id r = Some worker \<and> sj_status r = ''running''" and
      f = "\<lambda>r. r\<lparr>sj_heartbeat_at := Some (to_rfc3339 (sv_ts E) hb), sj_leased_until := Some (to_rfc3339 (sv_ts E) lu)\<rparr>"])
    (auto simp: renew_scan_job_lease_def row_life_def life_move_def not_terminal_row split: prod.splits)

lemma cancel_refines:
  assumes "jobs_wf s" "cancel_apply E now i status s = (r, s')"
  shows "refines_job mx None s s'"
proof -
  consider (queued) "ss_jobs s' = snd (sql_update (\<lambda>r. sj_job_id r = i \<and> sj_status r = ''queued'') (canceled_before_start (sv_ts E) now) (ss_jobs s))"
    | (running) "ss_jobs s' = snd (sql_update (\<lambda>r. sj_job_id r = i \<and> sj_status r = ''running'') (\<lambda>r. r\<lparr>sj_cancel_requested := 1\<rparr>) (ss_jobs s))"
    | (same) "ss_jobs s' = ss_jobs s"
    using assms(2) by (auto simp: cancel_apply_def split: if_splits prod.splits)
  then show ?thesis
  proof cases
    case queued
    then show ?thesis
      by (rule update_refines [OF assms(1)])
        (auto simp: canceled_before_start_def row_life_def life_move_def not_terminal_row intro: life_step.intros)
  next
    case running
    then show ?thesis by (rule update_refines [OF assms(1)]) (auto simp: row_life_def life_move_def not_terminal_row)
  qed (rule refl_refines [OF assms(1)])
qed

lemma insert_refines:
  assumes wf: "jobs_wf s" and run: "insert_application_job E now i kind identity req s = (r, s')"
  shows "refines_job mx None s s'"
proof (cases "i \<in> sj_job_id ` set (ss_jobs s)")
  case True
  then show ?thesis using run refl_refines [OF wf] by (simp add: insert_application_job_def)
next
  case False
  let ?new = "submitted_row (sv_ts E) now i kind identity req"
  have jobs: "ss_jobs s' = ss_jobs s @ [?new]" using run False by (auto simp: insert_application_job_def)
  have new: "row_life ?new = Some (JsQueued, 0)" "sj_job_id ?new = i"
    by (simp_all add: submitted_row_def row_life_def)
  have wf': "jobs_wf s'"
    using wf False new by (auto simp: jobs_wf_def jobs row_life_def)
  have job: "job_of s' k = (case job_of s k of None \<Rightarrow> if k = i then Some ?new else None | Some q \<Rightarrow> Some q)" for k
    using new(2) by (auto simp: job_of_def jobs find_append split: option.splits)
  have "life_of s' k = (case life_of s k of None \<Rightarrow> if k = i then Some (JsQueued, 0) else None | Some l \<Rightarrow> Some l)" for k
  proof (cases "job_of s k")
    case None
    then show ?thesis using new(1) by (simp add: life_of_def job)
  next
    case (Some q)
    then have "life_of s k \<noteq> None" using life_of_None_iff [OF wf, of k] by simp
    then show ?thesis using Some by (auto simp: life_of_def job split: option.splits)
  qed
  then show ?thesis using wf' job by (auto simp: refines_job_def life_move_def split: option.splits)
qed

section \<open>Claims\<close>

lemma claim_spec:
  assumes wf: "jobs_wf s" and visit: "visits_all (sv_visit_jobs E)"
    and run: "claim_next_queued_scan_job E started worker hb lu s = (res, s')"
  shows "(res = Inr None \<and> s' = s \<and> (\<forall>r \<in> set (ss_jobs s). sj_status r \<noteq> ''queued'')) \<or>
    (\<exists>p \<in> set (ss_jobs s). sj_status p = ''queued'' \<and>
      (\<forall>r \<in> set (ss_jobs s). sj_status r = ''queued'' \<longrightarrow> sj_submitted_at p \<le> sj_submitted_at r) \<and>
      res = Inr (Some (claimed_row (sv_ts E) started worker hb lu p)) \<and>
      s' = s\<lparr>ss_jobs := map (\<lambda>r. if sj_job_id r = sj_job_id p then claimed_row (sv_ts E) started worker hb lu r else r) (ss_jobs s)\<rparr>)"
proof (cases "order_by sj_submitted_at (sv_visit_jobs E) (filter (\<lambda>r. sj_status r = ''queued'') (ss_jobs s))")
  case Nil
  then have "filter (\<lambda>r. sj_status r = ''queued'') (ss_jobs s) = []" using order_by_Nil [OF visit] by blast
  then show ?thesis using run Nil by (auto simp: claim_next_queued_scan_job_def filter_empty_conv)
next
  case (Cons p ps)
  let ?g = "\<lambda>r. if sj_job_id r = sj_job_id p then claimed_row (sv_ts E) started worker hb lu r else r"
  from order_by_Cons [OF visit Cons] have p: "p \<in> set (ss_jobs s)" "sj_status p = ''queued''"
    "\<forall>r \<in> set (ss_jobs s). sj_status r = ''queued'' \<longrightarrow> sj_submitted_at p \<le> sj_submitted_at r" by auto
  have key: "sj_job_id (?g r) = sj_job_id r" for r by (simp add: claimed_row_def)
  have found: "find (\<lambda>r. sj_job_id r = sj_job_id p) (map ?g (ss_jobs s)) = Some (?g p)"
    using find_map_key [where key = sj_job_id and g = ?g, OF key] job_of_row [OF wf p(1)] by (simp add: job_of_def)
  have "(res, s') = (Inr (Some (claimed_row (sv_ts E) started worker hb lu p)), s\<lparr>ss_jobs := map ?g (ss_jobs s)\<rparr>)"
    using run found by (simp add: claim_next_queued_scan_job_def Cons Let_def sql_update_def)
  with p show ?thesis by blast
qed

lemma claim_refines:
  assumes wf: "jobs_wf s" and visit: "visits_all (sv_visit_jobs E)"
    and run: "claim_next_queued_scan_job E started worker hb lu s = (Inr row, s')"
  shows "refines_job mx (map_option sj_job_id row) s s'"
  using claim_spec [OF wf visit run]
proof (elim disjE bexE conjE)
  assume "Inr row = (Inr None :: (store_error, scan_job_row option) res)" "s' = s"
  then show ?thesis using refl_refines [OF wf, of s] by simp
next
  fix p
  let ?c = "claimed_row (sv_ts E) started worker hb lu"
  assume p: "p \<in> set (ss_jobs s)" "sj_status p = ''queued''" and row: "Inr row = (Inr (Some (?c p)) :: (store_error, _) res)"
    and s': "s' = s\<lparr>ss_jobs := map (\<lambda>r. if sj_job_id r = sj_job_id p then ?c r else r) (ss_jobs s)\<rparr>"
  have only: "r = p" if "r \<in> set (ss_jobs s)" "sj_job_id r = sj_job_id p" for r
    using job_of_row [OF wf that(1)] job_of_row [OF wf p(1)] that(2) by (metis option.inject)
  have c: "map_option sj_job_id row = Some (sj_job_id p)" using row by (simp add: claimed_row_def)
  show ?thesis
  proof (rule map_refines [OF wf, where g = "\<lambda>r. if sj_job_id r = sj_job_id p then ?c r else r"])
    fix r l
    assume r: "r \<in> set (ss_jobs s)" "row_life r = Some l"
    show "\<exists>l'. row_life (if sj_job_id r = sj_job_id p then ?c r else r) = Some l' \<and>
        life_move mx (map_option sj_job_id row = Some (sj_job_id r)) l l'"
      using r only [OF r(1)] p(2) unfolding c
      by (cases "sj_job_id r = sj_job_id p")
        (auto simp: row_life_def claimed_row_def life_move_def intro: life_step.intros)
  next
    fix r
    assume "r \<in> set (ss_jobs s)" "terminal_row r"
    then show "(if sj_job_id r = sj_job_id p then ?c r else r) = r"
      using only [of r] not_terminal_row [of p] p(2) by auto
  qed (use p(1) s' c in \<open>auto simp: claimed_row_def\<close>)
qed

section \<open>Recovery\<close>

definition recovered_job :: "ts_codec \<Rightarrow> timestamp \<Rightarrow> int \<Rightarrow> scan_job_row \<Rightarrow> scan_job_row" where
  "recovered_job T now mx r =
     (if \<not> lease_expired T now r then r
      else if mx \<le> sj_attempt_count r then exhausted_row T now r else requeued_row r)"

lemma recover_jobs_rows:
  assumes "distinct (map fst js)"
  shows "fst (recover_jobs T now mx js (rows, st)) =
    map (\<lambda>r. case map_of js (sj_job_id r) of None \<Rightarrow> r
      | Some a \<Rightarrow> if sj_status r = ''running'' then (if mx \<le> a then exhausted_row T now r else requeued_row r) else r) rows"
  using assms
proof (induction js arbitrary: rows st)
  case (Cons j js)
  obtain i a where j: "j = (i, a)" by (cases j)
  have fresh: "map_of js i = None" using Cons.prems by (simp add: j map_of_eq_None_iff)
  show ?case
    using Cons by (cases "mx \<le> a")
      (auto simp: j fresh sql_update_def comp_def exhausted_row_def requeued_row_def Let_def split: option.splits)
qed simp

lemma recover_jobs_stats:
  "snd (recover_jobs T now mx js (rows, st)) =
    st\<lparr>rs_requeued := rs_requeued st + of_nat (length (filter (\<lambda>(i, a). a < mx) js)),
       rs_failed_retries_exhausted := rs_failed_retries_exhausted st + of_nat (length (filter (\<lambda>(i, a). mx \<le> a) js))\<rparr>"
proof (induction js arbitrary: rows st)
  case (Cons j js)
  obtain i a where j: "j = (i, a)" by (cases j)
  show ?case by (cases "mx \<le> a") (simp_all add: j Let_def Cons.IH)
qed simp

lemma map_of_select_stale:
  assumes "distinct (map sj_job_id rows)" "r \<in> set rows"
  shows "map_of (select_stale T now rows) (sj_job_id r) = (if lease_expired T now r then Some (sj_attempt_count r) else None)"
  using assms by (induction rows) (auto simp: select_stale_def image_iff map_of_eq_None_iff)

lemma distinct_select_stale: "distinct (map sj_job_id rows) \<Longrightarrow> distinct (map fst (select_stale T now rows))"
  by (simp add: select_stale_def comp_def distinct_map_filter)

lemma recover_spec_jobs:
  assumes "jobs_wf s" "recover_stale_scan_jobs E now policy s = (r, s')"
  shows "s' = s\<lparr>ss_jobs := map (recovered_job (sv_ts E) now (as_i32 (jp_max_attempts policy))) (ss_jobs s)\<rparr>"
proof -
  have d: "distinct (map sj_job_id (ss_jobs s))" using assms(1) by (simp add: jobs_wf_def)
  have "fst (recover_jobs (sv_ts E) now (as_i32 (jp_max_attempts policy)) (select_stale (sv_ts E) now (ss_jobs s)) (ss_jobs s, no_stats)) =
      map (recovered_job (sv_ts E) now (as_i32 (jp_max_attempts policy))) (ss_jobs s)"
    unfolding recover_jobs_rows [OF distinct_select_stale [OF d]]
    by (intro map_cong) (auto simp: map_of_select_stale [OF d] recovered_job_def lease_expired_def)
  then show ?thesis
    using assms(2) by (simp add: recover_stale_scan_jobs_def split: prod.splits)
qed

lemma recovered_life:
  assumes "row_life r = Some l"
  shows "\<exists>l'. row_life (recovered_job T now mx r) = Some l' \<and> life_move mx False l l'"
proof (cases "lease_expired T now r")
  case True
  then have "l = (JsRunning, sj_attempt_count r)" using assms by (simp add: lease_expired_def row_life_def)
  moreover have "life_step mx False (JsRunning, n) (JsFailed, n)" for n
    by (rule L_finish) (simp add: terminal_statuses_def)
  ultimately show ?thesis
    using True L_requeue [of "sj_attempt_count r" mx]
    by (auto simp: recovered_job_def exhausted_row_def requeued_row_def row_life_def life_move_def)
qed (use assms in \<open>simp add: recovered_job_def life_move_def\<close>)

lemma recover_refines:
  assumes "jobs_wf s" "recover_stale_scan_jobs E now policy s = (r, s')"
  shows "refines_job (as_i32 (jp_max_attempts policy)) None s s'"
  by (rule map_refines [OF assms(1), where g = "recovered_job (sv_ts E) now (as_i32 (jp_max_attempts policy))"])
    (use recovered_life not_terminal_row in \<open>auto simp: lease_expired_def recover_spec_jobs [OF assms] recovered_job_def exhausted_row_def requeued_row_def\<close>)

section \<open>Refinement\<close>

lemma step_refines:
  assumes "job_step E policy c s s'" "visits_all (sv_visit_jobs E)" "jobs_wf s"
  shows "refines_job (as_i32 (jp_max_attempts policy)) c s s'"
  using assms
  by (cases rule: job_step.cases)
    (auto intro: insert_refines claim_refines renew_refines recover_refines complete_refines cancel_refines refl_refines)

lemma run_refines:
  assumes "job_run E policy cs s s'" "visits_all (sv_visit_jobs E)" "jobs_wf s"
  shows "jobs_wf s' \<and> (\<forall>i r. job_of s i = Some r \<and> terminal_row r \<longrightarrow> job_of s' i = Some r)"
  using assms
proof (induction rule: job_run.induct)
  case (JR_step cs s s1 c s')
  then show ?case using step_refines [OF JR_step(2) assms(2)] by (auto simp: refines_job_def)
qed simp

text \<open>The claims in a run account for the attempts of every job, and keep them within the bound.\<close>

lemma run_attempts:
  assumes "job_run E policy cs s s'" "visits_all (sv_visit_jobs E)" "s = empty_store" "0 < as_i32 (jp_max_attempts policy)"
  shows "jobs_wf s' \<and> (\<forall>i. case life_of s' i of None \<Rightarrow> count_list cs i = 0
    | Some l \<Rightarrow> life_ok (as_i32 (jp_max_attempts policy)) l \<and> snd l = int (count_list cs i))"
  using assms
proof (induction rule: job_run.induct)
  case (JR_nil s)
  then show ?case by (simp add: life_of_def job_of_def) (simp add: empty_store_def)
next
  case (JR_step cs s s1 c s')
  let ?mx = "as_i32 (jp_max_attempts policy)"
  let ?cs = "cs @ (case c of None \<Rightarrow> [] | Some i \<Rightarrow> [i])"
  have IH: "jobs_wf s1" "\<And>i. case life_of s1 i of None \<Rightarrow> count_list cs i = 0
      | Some l \<Rightarrow> life_ok ?mx l \<and> snd l = int (count_list cs i)"
    using JR_step by blast+
  note ref = step_refines [OF JR_step(2) assms(2) IH(1), unfolded refines_job_def]
  have step: "case life_of s1 i of
        None \<Rightarrow> c \<noteq> Some i \<and> (life_of s' i = None \<or> life_of s' i = Some (JsQueued, 0))
      | Some l \<Rightarrow> \<exists>l'. life_of s' i = Some l' \<and> life_move ?mx (c = Some i) l l'" for i
    using ref by blast
  have cnt: "count_list ?cs i = count_list cs i + (if c = Some i then 1 else 0)" for i
    by (auto split: option.splits)
  have "case life_of s' i of None \<Rightarrow> count_list ?cs i = 0
      | Some l \<Rightarrow> life_ok ?mx l \<and> snd l = int (count_list ?cs i)" for i
  proof (cases "life_of s1 i")
    case None
    then have "c \<noteq> Some i" "life_of s' i = None \<or> life_of s' i = Some (JsQueued, 0)" "count_list cs i = 0"
      using step [of i] IH(2) [of i] by simp_all
    then show ?thesis using assms(4) unfolding cnt by (auto simp: life_ok_def)
  next
    case (Some l)
    then obtain l' where l': "life_of s' i = Some l'" "life_move ?mx (c = Some i) l l'" using step [of i] by auto
    have "life_ok ?mx l" "snd l = int (count_list cs i)" using IH(2) [of i] by (simp_all add: Some)
    then show ?thesis
      using life_move_ok [OF l'(2)] life_move_attempts [OF l'(2)] unfolding l'(1) cnt by auto
  qed
  then show ?case using ref by blast
qed

section \<open>Leases\<close>

text \<open>What is relied on of chrono for the comparison of columns: the texts of UTC times sort as the times do.\<close>

definition ts_ordered :: "ts_codec \<Rightarrow> bool" where
  "ts_ordered T \<longleftrightarrow> (\<forall>t t'. to_rfc3339 T t < to_rfc3339 T t' \<longleftrightarrow> t < t')"

text \<open>A codec with this law: unary numbers behind a sign.\<close>

definition unary_ts :: ts_codec where
  "unary_ts = \<lparr>to_rfc3339 = (\<lambda>t. if t < 0 then ''n'' @ replicate (nat (- t)) (CHR ''a'') @ ''b'' else CHR ''p'' # replicate (nat t) (CHR ''x'')),
     parse_from_rfc3339 = (\<lambda>s. case s of [] \<Rightarrow> None
       | c # cs \<Rightarrow> Some (if c = CHR ''n'' then 1 - int (length cs) else int (length cs)))\<rparr>"

lemma replicate_less: "replicate m (c :: char) < replicate n c \<longleftrightarrow> m < n"
proof (induction m arbitrary: n)
  case 0
  then show ?case by (cases n) simp_all
next
  case (Suc m)
  then show ?case by (cases n) simp_all
qed

lemma replicate_sentinel_less:
  "replicate m (CHR ''a'') @ ''b'' < replicate n (CHR ''a'') @ ''b'' \<longleftrightarrow> n < m"
proof (induction m arbitrary: n)
  case 0
  then show ?case by (cases n) (simp_all add: less_char_def)
next
  case (Suc m)
  then show ?case by (cases n) (simp_all add: less_char_def)
qed

lemma unary_ts_ordered: "ts_ordered unary_ts"
  by (auto simp: ts_ordered_def unary_ts_def replicate_less replicate_sentinel_less less_char_def)

lemma unary_ts_roundtrip: "ts_roundtrip unary_ts"
  by (auto simp: ts_roundtrip_def unary_ts_def)

lemma job_of_map:
  "(\<And>r. sj_job_id (g r) = sj_job_id r) \<Longrightarrow> job_of (s\<lparr>ss_jobs := map g (ss_jobs s)\<rparr>) i = map_option g (job_of s i)"
  by (simp add: job_of_def find_map_key)

lemma lease_not_expired:
  "ts_ordered T \<Longrightarrow> sj_leased_until r = Some (to_rfc3339 T lu) \<Longrightarrow> now \<le> lu \<Longrightarrow> \<not> lease_expired T now r"
  by (auto simp: lease_expired_def ts_ordered_def)

lemma recover_keeps_leased:
  assumes "jobs_wf s" "job_of s i = Some r" "\<not> lease_expired (sv_ts E) now r"
  shows "job_of (snd (recover_stale_scan_jobs E now policy s)) i = Some r"
proof -
  obtain res s' where run: "recover_stale_scan_jobs E now policy s = (res, s')" by fastforce
  have key: "sj_job_id (recovered_job (sv_ts E) now mx q) = sj_job_id q" for mx q
    by (simp add: recovered_job_def exhausted_row_def requeued_row_def)
  show ?thesis
    using assms(2,3) unfolding run snd_conv recover_spec_jobs [OF assms(1) run]
    by (simp add: job_of_map [OF key] recovered_job_def)
qed

lemma claim_keeps_running:
  assumes "jobs_wf s" "visits_all (sv_visit_jobs E)" "job_of s i = Some r" "sj_status r \<noteq> ''queued''"
  shows "job_of (snd (claim_next_queued_scan_job E started w hb lu s)) i = Some r"
proof -
  obtain res s' where run: "claim_next_queued_scan_job E started w hb lu s = (res, s')" by fastforce
  from claim_spec [OF assms(1,2) run] show ?thesis
  proof (elim disjE bexE conjE)
    fix p
    assume p: "p \<in> set (ss_jobs s)" "sj_status p = ''queued''"
      and s': "s' = s\<lparr>ss_jobs := map (\<lambda>q. if sj_job_id q = sj_job_id p then claimed_row (sv_ts E) started w hb lu q else q) (ss_jobs s)\<rparr>"
    have "sj_job_id r \<noteq> sj_job_id p"
      using job_of_row [OF assms(1) p(1)] job_of_Some [OF assms(3)] assms(3,4) p(2) by (metis option.inject)
    then show ?thesis
      using assms(3) unfolding run snd_conv s'
      by (subst job_of_map) (auto simp: claimed_row_def)
  qed (use run assms(3) in simp)
qed

lemma renew_keeps_others:
  assumes "job_of s i = Some r" "sj_worker_id r \<noteq> Some w"
  shows "job_of (snd (renew_scan_job_lease E k w hb lu s)) i = Some r"
  using assms unfolding renew_scan_job_lease_def sql_update_def prod.case snd_conv
  by (subst job_of_map) auto

section \<open>Results\<close>

definition demo_service_env :: store_env where
  "demo_service_env = \<lparr>sv_ts = unary_ts, sv_visit_jobs = (\<lambda>r. r), sv_visit_runs = (\<lambda>r. r), sv_visit_tokens = (\<lambda>r. r)\<rparr>"

definition demo_target :: target_identity where
  "demo_target = \<lparr>ti_target_kind = ''local_file'', ti_normalized_key = ''/d/x.parquet''\<rparr>"

definition submitted_store :: scan_store where
  "submitted_store = snd (insert_scan_job_queued demo_service_env 0 ''j1'' demo_target ''{}'' empty_store)"

definition claimed_store :: scan_store where
  "claimed_store = snd (claim_next_queued_scan_job demo_service_env 1 ''w1'' 1 5 submitted_store)"

lemma demo_service_env_ok [simp]: "visits_all (sv_visit_jobs demo_service_env)" "sv_ts demo_service_env = unary_ts"
  by (simp_all add: demo_service_env_def)

lemma demo_job_run: "job_run demo_service_env recovery_policy_default [''j1''] empty_store claimed_store"
proof -
  have "job_step demo_service_env recovery_policy_default None empty_store submitted_store"
    unfolding submitted_store_def insert_scan_job_queued_def by (rule J_insert) (rule prod.collapse [symmetric])
  from JR_step [OF JR_nil this] have 1: "job_run demo_service_env recovery_policy_default [] empty_store submitted_store" by simp
  have "fst (claim_next_queued_scan_job demo_service_env 1 ''w1'' 1 5 submitted_store) =
      Inr (Some (claimed_row unary_ts 1 ''w1'' 1 5 (submitted_row unary_ts 0 ''j1'' JkScan demo_target ''{}'')))"
    by code_simp
  then have "claim_next_queued_scan_job demo_service_env 1 ''w1'' 1 5 submitted_store =
      (Inr (Some (claimed_row unary_ts 1 ''w1'' 1 5 (submitted_row unary_ts 0 ''j1'' JkScan demo_target ''{}''))), claimed_store)"
    unfolding claimed_store_def by (metis prod.collapse)
  from J_claim [OF this] JR_step [OF 1] show ?thesis
    by (fastforce simp: claimed_row_def submitted_row_def)
qed

text \<open>
  C25. In the SQLite store, jobs refine the abstract life cycle: every operation of any worker or client
  on the jobs table leaves each job as it is or moves it along one step of the machine (claim a queued job
  and count the attempt, requeue a running one that has attempts left, finish a running one, cancel a queued
  one); new jobs start queued with no attempt. The recovery of the Postgres store is no such step.
\<close>

theorem job_lifecycle_refined:
  assumes "job_step E policy c s s'" and "visits_all (sv_visit_jobs E)" and "jobs_wf s"
  shows "jobs_wf s' \<and>
    (\<forall>i. case life_of s i of
        None \<Rightarrow> c \<noteq> Some i \<and> (life_of s' i = None \<or> life_of s' i = Some (JsQueued, 0))
      | Some l \<Rightarrow> \<exists>l'. life_of s' i = Some l' \<and> life_move (as_i32 (jp_max_attempts policy)) (c = Some i) l l')"
  using step_refines [OF assms] by (simp add: refines_job_def)

theorem job_lifecycle_refined_witness:
  "\<exists>l. life_of (snd (recover_stale_scan_jobs demo_service_env 9 recovery_policy_default claimed_store)) ''j1'' = Some l \<and>
     life_move 3 False (JsRunning, 1) l"
proof -
  let ?s' = "snd (recover_stale_scan_jobs demo_service_env 9 recovery_policy_default claimed_store)"
  have step: "job_step demo_service_env recovery_policy_default None claimed_store ?s'"
    by (rule J_recover) (rule prod.collapse [symmetric])
  have wf: "jobs_wf claimed_store" using run_refines [OF demo_job_run] by simp
  have "life_of claimed_store ''j1'' = Some (JsRunning, 1)" by code_simp
  moreover have "as_i32 (jp_max_attempts recovery_policy_default) = 3" by code_simp
  ultimately show ?thesis
    using job_lifecycle_refined [OF step _ wf] by (auto dest: spec [of _ "''j1''"])
qed

text \<open>
  C26. In the SQLite store the attempts of a job are bounded, when the recovery policy allows at least one:
  in every run of operations from an empty store, under any interleaving of workers and clients, a job is
  claimed as often as its attempt counter says and at most as often as the policy allows, and no job waits
  in the queue without an attempt left. With the Postgres store a job can get one attempt more.
\<close>

theorem job_attempts_bounded:
  assumes "job_run E policy claims empty_store s" and "visits_all (sv_visit_jobs E)"
    and "0 < as_i32 (jp_max_attempts policy)" and "job_of s i = Some r"
  shows "sj_attempt_count r = int (count_list claims i) \<and> sj_attempt_count r \<le> as_i32 (jp_max_attempts policy) \<and>
    (sj_status r = ''queued'' \<longrightarrow> sj_attempt_count r < as_i32 (jp_max_attempts policy))"
proof -
  note run = run_attempts [OF assms(1,2) refl assms(3)]
  obtain l where l: "life_of s i = Some l" using run life_of_None_iff [of s i] assms(4) by fastforce
  then have "life_ok (as_i32 (jp_max_attempts policy)) l" "snd l = int (count_list claims i)"
    using conjunct2 [OF run, THEN spec, of i] by simp_all
  moreover have "row_life r = Some l" using l assms(4) by (simp add: life_of_Some_iff)
  ultimately show ?thesis by (auto simp: life_ok_def row_life_Some)
qed

theorem job_attempts_bounded_witness:
  "\<exists>r. job_of claimed_store ''j1'' = Some r \<and> sj_attempt_count r = 1 \<and> sj_attempt_count r \<le> 3"
proof -
  have mx: "as_i32 (jp_max_attempts recovery_policy_default) = 3" by code_simp
  have "job_of claimed_store ''j1'' \<noteq> None" by code_simp
  then obtain r where r: "job_of claimed_store ''j1'' = Some r" by blast
  from job_attempts_bounded [OF demo_job_run demo_service_env_ok(1) _ r] r show ?thesis by (simp add: mx)
qed

text \<open>
  The row of a job that succeeded, failed or was canceled never changes again, whatever workers and
  clients do: no late completion, renewal, recovery or cancel request touches it.
\<close>

theorem terminal_jobs_final:
  assumes "job_run E policy claims s s'" and "visits_all (sv_visit_jobs E)" and "jobs_wf s"
    and "job_of s i = Some r" and "sj_status r \<in> {''succeeded'', ''failed'', ''canceled''}"
  shows "job_of s' i = Some r"
proof -
  have "terminal_row r" using assms(5) by (auto simp: terminal_row_def terminal_statuses_def)
  then show ?thesis using run_refines [OF assms(1-3)] assms(4) by blast
qed

definition failed_store :: scan_store where
  "failed_store = snd (complete_scan_job_failure demo_service_env 3 ''j1'' ''scan_failed'' ''boom'' claimed_store)"

theorem terminal_jobs_final_witness:
  "job_of (snd (complete_scan_job_success demo_service_env 4 ''j1'' ''r'' failed_store)) ''j1'' = job_of failed_store ''j1''"
proof -
  let ?s' = "snd (complete_scan_job_success demo_service_env 4 ''j1'' ''r'' failed_store)"
  have "job_step demo_service_env recovery_policy_default None claimed_store failed_store"
    unfolding failed_store_def by (rule J_failure) (rule prod.collapse [symmetric])
  then have wf: "jobs_wf failed_store"
    using step_refines run_refines [OF demo_job_run] by (fastforce simp: refines_job_def)
  have "job_step demo_service_env recovery_policy_default None failed_store ?s'"
    unfolding complete_scan_job_success_def by (rule J_success) (rule prod.collapse [symmetric])
  from JR_step [OF JR_nil this] have run: "job_run demo_service_env recovery_policy_default [] failed_store ?s'" by simp
  have "map_option sj_status (job_of failed_store ''j1'') = Some ''failed''" by code_simp
  then obtain r where r: "job_of failed_store ''j1'' = Some r" "sj_status r = ''failed''" by auto
  show ?thesis using terminal_jobs_final [OF run _ wf r(1)] r by simp
qed

text \<open>
  C27. In the SQLite store a lease protects a running job: as long as its lease has not run out, recovery
  leaves the job alone, no other worker can claim it, and no other worker can renew its lease. (The recovery
  of the Postgres store can requeue a job whose lease was renewed after the rows were selected.)
\<close>

theorem lease_protects:
  assumes "jobs_wf s" and "visits_all (sv_visit_jobs E)" and "ts_ordered (sv_ts E)"
    and "job_of s i = Some r" and "sj_status r = ''running''" and "sj_worker_id r = Some w"
    and "sj_leased_until r = Some (to_rfc3339 (sv_ts E) lu)" and "now \<le> lu" and "w' \<noteq> w"
  shows "job_of (snd (recover_stale_scan_jobs E now policy s)) i = Some r \<and>
    job_of (snd (claim_next_queued_scan_job E started w' hb lu' s)) i = Some r \<and>
    job_of (snd (renew_scan_job_lease E i w' hb lu' s)) i = Some r"
  using recover_keeps_leased [OF assms(1,4) lease_not_expired [OF assms(3,7,8)]]
    claim_keeps_running [OF assms(1,2,4)] renew_keeps_others [OF assms(4)] assms(5,6,9) by auto

theorem lease_protects_witness:
  "job_of (snd (recover_stale_scan_jobs demo_service_env 5 recovery_policy_default claimed_store)) ''j1'' = job_of claimed_store ''j1''"
proof -
  have wf: "jobs_wf claimed_store" using run_refines [OF demo_job_run] by simp
  have "map_option (\<lambda>r. (sj_status r, sj_worker_id r, sj_leased_until r)) (job_of claimed_store ''j1'') =
      Some (''running'', Some ''w1'', Some (to_rfc3339 unary_ts 5))" by code_simp
  then obtain r where r: "job_of claimed_store ''j1'' = Some r" "sj_status r = ''running''" "sj_worker_id r = Some ''w1''"
      "sj_leased_until r = Some (to_rfc3339 (sv_ts demo_service_env) 5)" by auto
  show ?thesis
    using lease_protects [OF wf _ _ r, of 5 "''w2''" recovery_policy_default] r(1) unary_ts_ordered by simp
qed

end
