(* ===== verification/Service_Worker_Props.thy ===== *)
theory Service_Worker_Props
  imports Service_Worker Service_Jobs_Props
begin

text \<open>
  Results on workers: a job that is handled without interference is settled; a scan job does not
  heed a cancel request; a job whose cancellation was seen loses its lease; a worker that lost its lease
  can still complete the job of another; and the recovery of the Postgres store is not atomic.
\<close>

section \<open>Settling a job\<close>

text \<open>The job is in a terminal state, without worker and lease.\<close>

definition settled :: "scan_store \<Rightarrow> string \<Rightarrow> bool" where
  "settled s i \<longleftrightarrow> (\<exists>r. job_of s i = Some r \<and> terminal_row r \<and> sj_worker_id r = None \<and> sj_leased_until r = None)"

definition running :: "scan_store \<Rightarrow> string \<Rightarrow> bool" where
  "running s i \<longleftrightarrow> (\<exists>r. job_of s i = Some r \<and> sj_status r = ''running'')"

lemma running_cong: "ss_jobs s' = ss_jobs s \<Longrightarrow> running s' i = running s i"
  by (simp add: running_def job_of_def)

text \<open>Finishing a running job rewrites its row and nothing else.\<close>

lemma finish_row:
  assumes "job_of s i = Some r" and "sj_status r = ''running''" and "\<And>q. sj_job_id (f q) = sj_job_id q"
  shows "\<exists>jobs. finish_job m i f s = (Inr (), s\<lparr>ss_jobs := jobs\<rparr>) \<and> job_of (s\<lparr>ss_jobs := jobs\<rparr>) i = Some (f r)"
proof -
  let ?g = "\<lambda>q. if sj_job_id q = i \<and> sj_status q = ''running'' then f q else q"
  have r: "r \<in> set (ss_jobs s)" "sj_job_id r = i" using job_of_Some [OF assms(1)] by auto
  then have "filter (\<lambda>q. sj_job_id q = i \<and> sj_status q = ''running'') (ss_jobs s) \<noteq> []"
    using assms(2) by (auto simp: filter_empty_conv)
  then have "finish_job m i f s = (Inr (), s\<lparr>ss_jobs := map ?g (ss_jobs s)\<rparr>)"
    by (auto simp: finish_job_def sql_update_def)
  moreover have "job_of (s\<lparr>ss_jobs := map ?g (ss_jobs s)\<rparr>) i = map_option ?g (job_of s i)"
    by (rule job_of_map) (simp add: assms(3))
  ultimately show ?thesis using assms(1,2) r(2) by auto
qed

lemma finish_running:
  assumes "running s i" and "\<And>r. sj_job_id (f r) = sj_job_id r"
    and "\<And>r. terminal_row (f r) \<and> sj_worker_id (f r) = None \<and> sj_leased_until (f r) = None"
  shows "\<exists>s'. finish_job m i f s = (Inr (), s') \<and> settled s' i"
proof -
  obtain r where "job_of s i = Some r" "sj_status r = ''running''" using assms(1) by (auto simp: running_def)
  from finish_row [OF this assms(2), of m] show ?thesis using assms(3) by (auto simp: settled_def)
qed

lemma complete_running:
  assumes "running s i"
  shows "\<exists>s'. complete_application_job_canceled E now i s = (Inr (), s') \<and> settled s' i"
    and "\<exists>s'. complete_scan_job_failure E now i code msg s = (Inr (), s') \<and> settled s' i"
    and "(\<exists>s'. complete_application_job_success E now i run ref s = (Inr (), s') \<and> settled s' i) \<or>
      (\<exists>e. complete_application_job_success E now i run ref s = (Inl e, s))"
proof -
  have fin: "\<exists>s'. finish_job m i f s = (Inr (), s') \<and> settled s' i"
    if "f \<in> {succeeded_row T now run ref, canceled_row T now, failed_row T now code msg}" for f T m
    by (rule finish_running [OF assms]) (use that in \<open>auto simp: final_rows terminal_row_def terminal_statuses_def\<close>)
  show "\<exists>s'. complete_application_job_canceled E now i s = (Inr (), s') \<and> settled s' i"
    unfolding complete_application_job_canceled_def by (rule fin [of _ "sv_ts E"]) simp
  show "\<exists>s'. complete_scan_job_failure E now i code msg s = (Inr (), s') \<and> settled s' i"
    unfolding complete_scan_job_failure_def by (rule fin [of _ "sv_ts E"]) simp
  have "\<exists>s'. finish_job m i (succeeded_row (sv_ts E) now run ref) s = (Inr (), s') \<and> settled s' i" for m
    by (rule fin [of _ "sv_ts E"]) simp
  then show "(\<exists>s'. complete_application_job_success E now i run ref s = (Inr (), s') \<and> settled s' i) \<or>
      (\<exists>e. complete_application_job_success E now i run ref s = (Inl e, s))"
    unfolding complete_application_job_success_def by auto
qed

text \<open>An action on a running job either settles it or leaves it running and fails.\<close>

definition settles :: "string \<Rightarrow> (scan_store, work_failure, unit) eff \<Rightarrow> bool" where
  "settles i m \<longleftrightarrow> (\<forall>s. running s i \<longrightarrow> (case m s of (Inr _, s') \<Rightarrow> settled s' i | (Inl _, s') \<Rightarrow> running s' i))"

definition keeps_jobs :: "(scan_store, work_failure, 'a) eff \<Rightarrow> bool" where
  "keeps_jobs m \<longleftrightarrow> (\<forall>s. ss_jobs (snd (m s)) = ss_jobs s)"

lemma settles_bind:
  assumes "keeps_jobs m" "\<And>a. settles i (f a)"
  shows "settles i (eff_bind m f)"
  unfolding settles_def
proof (intro allI impI)
  fix s assume "running s i"
  moreover obtain r s1 where m: "m s = (r, s1)" by fastforce
  ultimately have "running s1 i" using assms(1) running_cong [of s1 s i] unfolding keeps_jobs_def by (metis snd_conv)
  then show "case eff_bind m f s of (Inr _, s') \<Rightarrow> settled s' i | (Inl _, s') \<Rightarrow> running s' i"
    using assms(2) by (cases r) (auto simp: eff_bind_apply m settles_def)
qed

lemma on_app_apply: "on_app m s = (map_err (WorkError \<circ> app_error_from_store) (fst (m s)), snd (m s))"
  by (simp add: on_app_def eff_map_err_def split: prod.split)

lemma settles_complete:
  "settles i (cancel_running_job E now i)" "settles i (on_app (complete_application_job_success E now i run ref))"
proof -
  have 1: "case on_app (complete_application_job_canceled E now i) s of (Inr _, s') \<Rightarrow> settled s' i | (Inl _, s') \<Rightarrow> running s' i"
    if "running s i" for s
    using complete_running(1) [OF that, of E now] by (auto simp: on_app_apply)
  have 2: "case on_app (complete_application_job_success E now i run ref) s of (Inr _, s') \<Rightarrow> settled s' i | (Inl _, s') \<Rightarrow> running s' i"
    if "running s i" for s
    using complete_running(3) [OF that, of E now run ref] that by (auto simp: on_app_apply)
  show "settles i (cancel_running_job E now i)" "settles i (on_app (complete_application_job_success E now i run ref))"
    using 1 2 by (simp_all add: settles_def cancel_running_job_def)
qed

lemma keeps_jobs_query [simp]: "keeps_jobs (on_app (job_cancel_requested i))" "keeps_jobs (eff_lift r)"
  by (simp_all add: keeps_jobs_def on_app_apply job_cancel_requested_def)

definition work_keeps_jobs :: "job_work \<Rightarrow> bool" where
  "work_keeps_jobs W \<longleftrightarrow> (\<forall>req. keeps_jobs (jw_scan W req) \<and> keeps_jobs (jw_repair W req) \<and>
     keeps_jobs (jw_batch_repair W req) \<and> keeps_jobs (jw_batch_resume W req))"

lemma settles_cancellable:
  "keeps_jobs work \<Longrightarrow> settles i (run_cancellable_job E W now i work c c')"
  by (auto simp: run_cancellable_job_def complete_with_result_ref_def intro!: settles_bind settles_complete)

lemma settles_claimed: "work_keeps_jobs W \<Longrightarrow> settles i (run_claimed_job E W now i kind req c')"
  unfolding run_claimed_job_def work_keeps_jobs_def
  by (intro settles_bind keeps_jobs_query)
    (auto simp: run_scan_job_def complete_scan_job_success_def intro!: settles_bind settles_complete settles_cancellable
      split: job_kind.split)

lemma handle_settles:
  assumes "work_keeps_jobs W" "running s (sj_job_id job)"
  shows "settled (handle_job E W now job c s) (sj_job_id job)"
proof -
  let ?m = "run_claimed_job E W now (sj_job_id job) (case job_kind_parse (sj_job_kind job) of None \<Rightarrow> JkScan | Some k \<Rightarrow> k)
      (sj_request_json job) c"
  obtain r s1 where m: "?m s = (r, s1)" by fastforce
  have *: "case ?m s of (Inr _, s') \<Rightarrow> settled s' (sj_job_id job) | (Inl _, s') \<Rightarrow> running s' (sj_job_id job)"
    by (rule settles_claimed [OF assms(1), unfolded settles_def, rule_format, OF assms(2)])
  show ?thesis
  proof (cases r)
    case (Inl f)
    then have "running s1 (sj_job_id job)" using * by (simp add: m)
    then have "settled (snd (complete_scan_job_failure E now (sj_job_id job) code msg s1)) (sj_job_id job)" for code msg
      using complete_running(2) [of s1 "sj_job_id job" E now code msg] by auto
    then show ?thesis by (cases f) (simp_all add: handle_job_def settle_job_def m Inl)
  next
    case (Inr u)
    then show ?thesis using * by (simp add: handle_job_def settle_job_def m)
  qed
qed

section \<open>Results\<close>

text \<open>
  C28. A worker that claimed a job with a UUID settles it: when no one else touches the job in the meantime, the
  job ends succeeded, failed or canceled, without worker and lease, whatever the use case does, be it an
  error, a panic or a result whose run is missing.
\<close>

theorem claimed_job_settled:
  assumes "jobs_wf s" and "visits_all (sv_visit_jobs E)" and "worker_poll is_uuid E policy worker now hb started s = (Some job, s1)"
    and "ss_jobs s2 = ss_jobs s1" and "work_keeps_jobs W"
  shows "settled (handle_job E W now' job cancel s2) (sj_job_id job)"
proof -
  let ?s0 = "snd (recover_stale_scan_jobs E now policy s)"
  have wf: "jobs_wf ?s0"
    using recover_refines [OF assms(1) prod.collapse [symmetric]] by (simp add: refines_job_def)
  have claim: "claim_next_queued_scan_job E started worker hb (lease_end policy hb) ?s0 = (Inr (Some job), s1)"
    using assms(3) by (auto simp: worker_poll_def split: prod.splits sum.splits option.splits if_splits)
  have "running s1 (sj_job_id job)"
    using claim_spec [OF wf assms(2) claim]
  proof (elim disjE bexE conjE)
    fix p :: scan_job_row
    let ?c = "claimed_row (sv_ts E) started worker hb (lease_end policy hb)"
    let ?g = "\<lambda>r. if sj_job_id r = sj_job_id p then ?c r else r"
    assume p: "p \<in> set (ss_jobs ?s0)" and job: "Inr (Some job) = (Inr (Some (?c p)) :: (store_error, _) res)"
      and s1: "s1 = ?s0\<lparr>ss_jobs := map ?g (ss_jobs ?s0)\<rparr>"
    have "job_of s1 (sj_job_id p) = Some (?c p)"
      unfolding s1 by (subst job_of_map) (auto simp: claimed_row_def job_of_row [OF wf p])
    then show ?thesis using job by (simp add: running_def claimed_row_def)
  qed simp
  then have "running s2 (sj_job_id job)" using running_cong [OF assms(4)] by simp
  then show ?thesis by (rule handle_settles [OF assms(5)])
qed

definition panicking_work :: job_work where
  "panicking_work = \<lparr>jw_scan = (\<lambda>_. eff_fail (WorkPanic None)), jw_repair = (\<lambda>_. eff_fail (WorkPanic None)),
     jw_batch_repair = (\<lambda>_. eff_fail (WorkPanic None)), jw_batch_resume = (\<lambda>_. eff_fail (WorkPanic None)),
     jw_result_json = (\<lambda>_. Inr [])\<rparr>"

lemma panicking_work_keeps: "work_keeps_jobs panicking_work"
  by (simp add: work_keeps_jobs_def panicking_work_def keeps_jobs_def)

definition short_lease :: job_recovery_policy where
  "short_lease = recovery_policy_default\<lparr>jp_lease_duration_secs := 0\<rparr>"

lemma submitted_store_wf: "jobs_wf submitted_store"
  using insert_refines [OF jobs_wf_empty prod.collapse [symmetric]]
  by (simp add: submitted_store_def insert_scan_job_queued_def refines_job_def)

theorem claimed_job_settled_witness:
  "\<exists>job s1. worker_poll (\<lambda>_. True) demo_service_env short_lease ''w1'' 1 2 3 submitted_store = (Some job, s1) \<and>
     settled (handle_job demo_service_env panicking_work 2 job False s1) (sj_job_id job)"
proof -
  have "fst (worker_poll (\<lambda>_. True) demo_service_env short_lease ''w1'' 1 2 3 submitted_store) \<noteq> None" by code_simp
  then obtain job s1 where poll: "worker_poll (\<lambda>_. True) demo_service_env short_lease ''w1'' 1 2 3 submitted_store = (Some job, s1)"
    by (metis prod.collapse not_None_eq)
  from claimed_job_settled [OF submitted_store_wf demo_service_env_ok(1) poll refl panicking_work_keeps] poll
  show ?thesis by blast
qed

text \<open>
  A scan job does not heed a cancel request: although the client was told that the worker will stop, a running
  scan job whose cancellation was requested is completed as succeeded when its scan is stored, and the request
  is erased.
\<close>

theorem scan_job_ignores_cancel:
  assumes "jw_scan W (sj_request_json job) s = (Inr run, s1)" and "ss_jobs s1 = ss_jobs s"
    and "run \<in> sr_run_id ` set (ss_runs s1)" and "sj_job_kind job = ''scan''"
    and "job_of s (sj_job_id job) = Some r" and "sj_status r = ''running''" and "sj_cancel_requested r = 1"
  shows "\<exists>r'. job_of (handle_job E W now job cancel s) (sj_job_id job) = Some r' \<and>
    sj_status r' = ''succeeded'' \<and> sj_cancel_requested r' = 0"
proof -
  let ?i = "sj_job_id job"
  have "job_of s1 ?i = Some r" using assms(2,5) by (simp add: job_of_def)
  from finish_row [OF this assms(6), of "succeeded_row (sv_ts E) now (Some run) None"]
  obtain jobs where fin: "complete_scan_job_success E now ?i run s1 = (Inr (), s1\<lparr>ss_jobs := jobs\<rparr>)"
    and row: "job_of (s1\<lparr>ss_jobs := jobs\<rparr>) ?i = Some (succeeded_row (sv_ts E) now (Some run) None r)"
    using assms(3) by (fastforce simp: complete_scan_job_success_def complete_application_job_success_def succeeded_row_def)
  have "handle_job E W now job cancel s = s1\<lparr>ss_jobs := jobs\<rparr>"
    using assms(1,4) fin
    by (simp add: handle_job_def run_claimed_job_def run_scan_job_def eff_bind_apply on_app_apply job_cancel_requested_def
        job_kind_parse_def settle_job_def)
  with row show ?thesis by (simp add: succeeded_row_def)
qed

definition scanning_work :: job_work where
  "scanning_work = panicking_work\<lparr>jw_scan := (\<lambda>_ s. (Inr ''r1'', s\<lparr>ss_runs := [\<lparr>sr_run_id = ''r1'', sr_request_scan_id = [],
     sr_target_kind = [], sr_normalized_target_key = [], sr_target_json = [], sr_started_at = [], sr_completed_at = [],
     sr_run_outcome = [], sr_engine_revision = None, sr_contract_schema_version = [], sr_report_format_version = [],
     sr_report_sha256 = [], sr_summary_json = []\<rparr>]\<rparr>))\<rparr>"

definition cancel_requested_store :: scan_store where
  "cancel_requested_store = snd (request_cancel_job demo_service_env 2 ''j1'' claimed_store)"

theorem scan_job_ignores_cancel_witness:
  "\<exists>job r'. job_of cancel_requested_store ''j1'' = Some job \<and> sj_cancel_requested job = 1 \<and>
     job_of (handle_job demo_service_env scanning_work 3 job True cancel_requested_store) ''j1'' = Some r' \<and> sj_status r' = ''succeeded''"
proof -
  have "map_option (\<lambda>r. (sj_job_id r, sj_status r, sj_cancel_requested r, sj_job_kind r)) (job_of cancel_requested_store ''j1'') =
      Some (''j1'', ''running'', 1, ''scan'')" by code_simp
  then obtain r where r: "job_of cancel_requested_store ''j1'' = Some r" "sj_job_id r = ''j1''" "sj_status r = ''running''"
      "sj_cancel_requested r = 1" "sj_job_kind r = ''scan''" by auto
  obtain s1 where s1: "jw_scan scanning_work (sj_request_json r) cancel_requested_store = (Inr ''r1'', s1)"
      "ss_jobs s1 = ss_jobs cancel_requested_store" "''r1'' \<in> sr_run_id ` set (ss_runs s1)"
    by (simp add: scanning_work_def)
  from scan_job_ignores_cancel [OF s1 r(5) _ r(3,4), of demo_service_env 3 True] r show ?thesis by auto
qed

text \<open>
  C29. The lease of a job is given up when its cancellation is seen: the round of the heartbeat that finds the
  cancel request renews the lease once, every later round ends the heartbeat without touching the store, and
  when the renewed lease has run out, recovery queues the job again although its worker may still be running it.
\<close>

theorem cancelled_job_loses_lease:
  assumes "jobs_wf s" and "ts_ordered (sv_ts E)" and "job_of s i = Some r" and "sj_status r = ''running''"
    and "sj_worker_id r = Some w" and "sj_cancel_requested r \<noteq> 0"
    and "sj_attempt_count r < as_i32 (jp_max_attempts policy)" and "lease_end policy now < later"
  shows "\<exists>s1. heartbeat_round E policy i w now False s = (True, True, s1) \<and>
    (\<forall>t. heartbeat_round E policy i w t True s1 = (False, True, s1)) \<and>
    (\<exists>r'. job_of (snd (recover_stale_scan_jobs E later policy s1)) i = Some r' \<and> sj_status r' = ''queued'')"
proof -
  let ?f = "\<lambda>q. q\<lparr>sj_heartbeat_at := Some (to_rfc3339 (sv_ts E) now), sj_leased_until := Some (to_rfc3339 (sv_ts E) (lease_end policy now))\<rparr>"
  let ?P = "\<lambda>q. sj_job_id q = i \<and> sj_worker_id q = Some w \<and> sj_status q = ''running''"
  let ?s1 = "s\<lparr>ss_jobs := map (\<lambda>q. if ?P q then ?f q else q) (ss_jobs s)\<rparr>"
  note r = job_of_Some [OF assms(3)]
  have "filter ?P (ss_jobs s) \<noteq> []" using r assms(4,5) by (auto simp: filter_empty_conv)
  then have renew: "renew_scan_job_lease E i w now (lease_end policy now) s = (Inr True, ?s1)"
    by (simp add: renew_scan_job_lease_def sql_update_def)
  have "find (\<lambda>q. sj_job_id q = i \<and> sj_status q = ''running'') (ss_jobs s) = Some r"
  proof -
    have "find (\<lambda>q. sj_job_id q = i) rows = Some r \<Longrightarrow> find (\<lambda>q. sj_job_id q = i \<and> sj_status q = ''running'') rows = Some r" for rows
      using assms(4) by (induction rows) (auto split: if_splits)
    then show ?thesis using assms(3) by (simp add: job_of_def)
  qed
  then have round: "heartbeat_round E policy i w now False s = (True, True, ?s1)"
    using assms(6) by (simp add: heartbeat_round_def job_cancel_requested_def renew)
  have wf1: "jobs_wf ?s1" using renew_refines [OF assms(1) renew] by (simp add: refines_job_def)
  have job1: "job_of ?s1 i = Some (?f r)" using r assms(3-5) by (subst job_of_map) auto
  have expired: "lease_expired (sv_ts E) later (?f r)" using assms(2,4,8) by (simp add: lease_expired_def ts_ordered_def)
  have key: "sj_job_id (recovered_job (sv_ts E) later mx q) = sj_job_id q" for mx q
    by (simp add: recovered_job_def exhausted_row_def requeued_row_def)
  define s1 where "s1 = ?s1"
  note facts = round wf1 job1
  note facts = facts [folded s1_def]
  obtain res s2 where rec: "recover_stale_scan_jobs E later policy s1 = (res, s2)" by fastforce
  have "job_of s2 i = Some (requeued_row (?f r))"
    using facts(3) expired assms(7) unfolding recover_spec_jobs [OF facts(2) rec] job_of_map [OF key]
    by (simp add: recovered_job_def)
  then show ?thesis using facts(1) rec by (auto simp: heartbeat_round_def requeued_row_def)
qed

theorem cancelled_job_loses_lease_witness:
  "\<exists>s1 r'. heartbeat_round demo_service_env short_lease ''j1'' ''w1'' 3 False cancel_requested_store = (True, True, s1) \<and>
     job_of (snd (recover_stale_scan_jobs demo_service_env 4 short_lease s1)) ''j1'' = Some r' \<and>
     sj_status r' = ''queued''"
proof -
  have "map_option (\<lambda>r. (sj_status r, sj_worker_id r, sj_cancel_requested r, sj_attempt_count r)) (job_of cancel_requested_store ''j1'') =
      Some (''running'', Some ''w1'', 1, 1)" by code_simp
  then obtain r where r: "job_of cancel_requested_store ''j1'' = Some r" "sj_status r = ''running''"
      "sj_worker_id r = Some ''w1''" "sj_cancel_requested r = 1" "sj_attempt_count r = 1" by auto
  have "job_step demo_service_env short_lease None claimed_store (snd (cancel_apply demo_service_env 2 ''j1'' ''running'' claimed_store))"
    by (rule J_cancel) (rule prod.collapse [symmetric])
  moreover have "cancel_requested_store = snd (cancel_apply demo_service_env 2 ''j1'' ''running'' claimed_store)" by code_simp
  ultimately have wf: "jobs_wf cancel_requested_store"
    using step_refines run_refines [OF demo_job_run] by (fastforce simp: refines_job_def)
  have "as_i32 (jp_max_attempts short_lease) = 3" "lease_end short_lease 3 = 3" by code_simp+
  then show ?thesis
    using cancelled_job_loses_lease [OF wf _ r(1-3), where E = demo_service_env and policy = short_lease and now = 3 and later = 4] r(4,5) unary_ts_ordered by auto
qed

definition reclaimed_store :: scan_store where
  "reclaimed_store = snd (claim_next_queued_scan_job demo_service_env 9 ''w2'' 9 20
     (snd (recover_stale_scan_jobs demo_service_env 9 recovery_policy_default claimed_store)))"

text \<open>
  Completion is not tied to the claim: the completion of a job names the job and not the worker. In this
  schedule the lease of worker \<open>w1\<close> runs out, the job is queued again and claimed by \<open>w2\<close>; the late
  failure of \<open>w1\<close> is accepted while \<open>w2\<close> holds the job under a live lease, and the success of \<open>w2\<close> is then rejected.
\<close>

theorem late_completion_accepted:
  "map_option (\<lambda>r. (sj_worker_id r, sj_leased_until r)) (job_of reclaimed_store ''j1'') =
     Some (Some ''w2'', Some (to_rfc3339 unary_ts 20)) \<and>
   fst (complete_scan_job_failure demo_service_env 10 ''j1'' ''scan_failed'' ''late'' reclaimed_store) = Inr () \<and>
   fst (complete_application_job_success demo_service_env 11 ''j1'' None None
     (snd (complete_scan_job_failure demo_service_env 10 ''j1'' ''scan_failed'' ''late'' reclaimed_store))) =
     Inl (StReportValidation ''application job not running or missing when completing success'')"
  by (intro conjI; code_simp)

definition pg_schedule :: "scan_store \<times> scan_store" where
  "pg_schedule =
     (let E = demo_service_env; P = recovery_policy_default;
          stale = snd (claim_next_queued_scan_job E 9 ''w1'' 9 12 (snd (recover_stale_scan_jobs E 9 P claimed_store)));
          selected = select_stale (sv_ts E) 20 (ss_jobs stale);
          taken = snd (claim_next_queued_scan_job E 20 ''w2'' 20 40 (snd (pg_recover_apply E 20 P selected stale)))
      in (taken, snd (claim_next_queued_scan_job E 21 ''w3'' 21 50 (snd (pg_recover_apply E 21 P selected taken)))))"

text \<open>
  The recovery of the Postgres store can take a job from a live worker and exceed the attempts: two recoveries select
  the same stale job; the first queues it and worker \<open>w2\<close> claims it for the last allowed attempt; the updates of
  the second, guarded by the status alone, queue it again although its lease runs until 40, and \<open>w3\<close> claims
  it for a fourth attempt of three.
\<close>

theorem pg_recovery_not_atomic:
  "map_option (\<lambda>r. (sj_worker_id r, sj_leased_until r, sj_attempt_count r)) (job_of (fst pg_schedule) ''j1'') =
     Some (Some ''w2'', Some (to_rfc3339 unary_ts 40), 3) \<and>
   map_option (\<lambda>r. (sj_worker_id r, sj_attempt_count r)) (job_of (snd pg_schedule) ''j1'') = Some (Some ''w3'', 4) \<and>
   jp_max_attempts recovery_policy_default = 3"
  by (intro conjI; code_simp)

text \<open>
  The two stores claim alike: when no row is locked by another transaction, the claim of the Postgres store,
  a query that picks a row followed by an update, is the claim of the SQLite store.
\<close>

theorem pg_claim_equivalent:
  "pg_claim_next_queued_scan_job {} E started worker hb lu s = claim_next_queued_scan_job E started worker hb lu s"
proof (cases "order_by sj_submitted_at (sv_visit_jobs E) (filter (\<lambda>r. sj_status r = ''queued'') (ss_jobs s))")
  case Nil
  have none: "find (\<lambda>r. False) rows = None" for rows :: "scan_job_row list" by (induction rows) simp_all
  show ?thesis
    by (simp add: pg_claim_next_queued_scan_job_def claim_next_queued_scan_job_def Nil limit_offset_def sql_update_def none)
next
  case (Cons p ps)
  then show ?thesis
    by (simp add: pg_claim_next_queued_scan_job_def claim_next_queued_scan_job_def limit_offset_def Let_def)
qed

end
