(* ===== verification/Service_Runs_Props.thy ===== *)
theory Service_Runs_Props
  imports Service_Runs Scan_Engine_Props Service_Worker_Props
begin

text \<open>
  Persisted runs: when a report is stored and what is read back, which scans can be stored at all, and the
  composition of the scan with the job worker.
\<close>

section \<open>Tables\<close>

text \<open>A table of the store: its rows and the update of its rows.\<close>

locale table =
  fixes key :: "'r \<Rightarrow> 'k" and rows :: "scan_store \<Rightarrow> 'r list"
    and upd :: "('r list \<Rightarrow> 'r list) \<Rightarrow> scan_store \<Rightarrow> scan_store"
  assumes rows_upd: "rows (upd f s) = f (rows s)"
    and upd_upd: "upd f (upd g s) = upd (\<lambda>x. f (g x)) s"
    and upd_id: "upd (\<lambda>x. x) s = s"
begin

lemma insert_row_ok: "key w \<notin> key ` set (rows s) \<Longrightarrow> insert_row key rows upd t w s = (Inr (), upd (\<lambda>ws. ws @ [w]) s)"
  by (simp add: insert_row_def)

lemma insert_rows_ok:
  "distinct (map key ws) \<Longrightarrow> key ` set ws \<inter> key ` set (rows s) = {} \<Longrightarrow>
   insert_rows (insert_row key rows upd t) ws s = (Inr (), upd (\<lambda>rs. rs @ ws) s)"
proof (induction ws arbitrary: s)
  case Nil
  then show ?case by (simp add: eff_return_def upd_id)
next
  case (Cons w ws)
  have "key ` set ws \<inter> key ` set (rows (upd (\<lambda>rs. rs @ [w]) s)) = {}"
    using Cons.prems by (auto simp: rows_upd)
  with Cons show ?case by (simp add: eff_bind_apply insert_row_ok upd_upd)
qed

lemma insert_rows_fails:
  "\<not> (distinct (map key ws) \<and> key ` set ws \<inter> key ` set (rows s) = {}) \<Longrightarrow>
   \<exists>m s'. insert_rows (insert_row key rows upd t) ws s = (Inl (StSql m), s')"
proof (induction ws arbitrary: s)
  case (Cons w ws)
  show ?case
  proof (cases "key w \<in> key ` set (rows s)")
    case True
    then show ?thesis by (simp add: eff_bind_apply insert_row_def)
  next
    case False
    have "\<not> (distinct (map key ws) \<and> key ` set ws \<inter> key ` set (rows (upd (\<lambda>rs. rs @ [w]) s)) = {})"
      using Cons.prems False by (auto simp: rows_upd)
    from Cons.IH [OF this] False show ?thesis by (simp add: eff_bind_apply insert_row_ok)
  qed
qed simp

lemma insert_rows_cases:
  "insert_rows (insert_row key rows upd t) ws s = (r, s') \<Longrightarrow>
   if distinct (map key ws) \<and> key ` set ws \<inter> key ` set (rows s) = {}
   then r = Inr () \<and> s' = upd (\<lambda>rs. rs @ ws) s else \<exists>m. r = Inl (StSql m)"
  using insert_rows_ok [of ws s t] insert_rows_fails [of ws s t] by (auto split: if_split)

end

interpretation runs: table sr_run_id ss_runs ss_runs_update
  by unfold_locales simp_all

interpretation reports: table fst ss_reports ss_reports_update
  by unfold_locales simp_all

interpretation assets: table "\<lambda>w. (sa_run_id w, sa_path w)" ss_assets ss_assets_update
  by unfold_locales simp_all

interpretation datasets: table "\<lambda>w. (sd_run_id w, sd_dataset_id w)" ss_datasets ss_datasets_update
  by unfold_locales simp_all

interpretation findings: table "\<lambda>w. (sf_run_id w, sf_fingerprint w)" ss_findings ss_findings_update
  by unfold_locales simp_all

section \<open>Persisting\<close>

text \<open>Every row belongs to a run.\<close>

definition runs_wf :: "scan_store \<Rightarrow> bool" where
  "runs_wf s \<longleftrightarrow> distinct (map sr_run_id (ss_runs s)) \<and> distinct (map fst (ss_reports s)) \<and>
     fst ` set (ss_reports s) = sr_run_id ` set (ss_runs s) \<and>
     sa_run_id ` set (ss_assets s) \<subseteq> sr_run_id ` set (ss_runs s) \<and>
     sd_run_id ` set (ss_datasets s) \<subseteq> sr_run_id ` set (ss_runs s) \<and>
     sf_run_id ` set (ss_findings s) \<subseteq> sr_run_id ` set (ss_runs s)"

definition finding_key :: "report_finding \<Rightarrow> string" where
  "finding_key f = (case rf_fingerprint f of None \<Rightarrow> ''missing_fingerprint'' | Some fp \<Rightarrow> fp_finding_digest fp)"

definition storable :: "full_report \<Rightarrow> bool" where
  "storable r \<longleftrightarrow> distinct (map ra_path (fr_assets r)) \<and> distinct (map ds_dataset_id (fr_datasets r)) \<and>
     distinct (map finding_key (fr_findings r))"

definition with_run :: "service_env \<Rightarrow> string \<Rightarrow> timestamp \<Rightarrow> timestamp \<Rightarrow> full_report \<Rightarrow> scan_store \<Rightarrow> scan_store" where
  "with_run X i t0 t1 r s =
     s\<lparr>ss_runs := ss_runs s @ [scan_run_row_of X i t0 t1 r], ss_reports := ss_reports s @ [(i, sx_report_json X r)],
       ss_assets := ss_assets s @ map (scan_asset_row_of i) (fr_assets r),
       ss_datasets := ss_datasets s @ map (scan_dataset_row_of i) (fr_datasets r),
       ss_findings := ss_findings s @ map (scan_finding_row_of i) (fr_findings r)\<rparr>"

lemma row_keys [simp]:
  "sr_run_id (scan_run_row_of X i t0 t1 r) = i" "sa_run_id (scan_asset_row_of i a) = i" "sa_path (scan_asset_row_of i a) = ra_path a"
  "sd_run_id (scan_dataset_row_of i d) = i" "sd_dataset_id (scan_dataset_row_of i d) = ds_dataset_id d"
  "sf_run_id (scan_finding_row_of i f) = i" "sf_fingerprint (scan_finding_row_of i f) = finding_key f"
  by (simp_all add: scan_run_row_of_def scan_asset_row_of_def scan_dataset_row_of_def scan_finding_row_of_def finding_key_def Let_def)

lemma distinct_pair [simp]: "distinct (map (\<lambda>x. (i, f x)) xs) \<longleftrightarrow> distinct (map f xs)"
  by (induction xs) auto

lemma persist_rows_ok:
  assumes "runs_wf s" and "i \<notin> sr_run_id ` set (ss_runs s)" and "storable r"
  shows "persist_rows X i t0 t1 r s = (Inr (), with_run X i t0 t1 r s)"
proof -
  have new: "i \<notin> fst ` set (ss_reports s)" "i \<notin> sa_run_id ` set (ss_assets s)" "i \<notin> sd_run_id ` set (ss_datasets s)"
      "i \<notin> sf_run_id ` set (ss_findings s)"
    using assms(1,2) by (auto simp: runs_wf_def)
  have "(\<lambda>w. (sa_run_id w, sa_path w)) ` (scan_asset_row_of i) ` X \<inter> (\<lambda>w. (sa_run_id w, sa_path w)) ` set (ss_assets s) = {}" for X
    using new by (auto simp: image_iff)
  moreover have "(\<lambda>w. (sd_run_id w, sd_dataset_id w)) ` (scan_dataset_row_of i) ` X \<inter> (\<lambda>w. (sd_run_id w, sd_dataset_id w)) ` set (ss_datasets s) = {}" for X
    using new by (auto simp: image_iff)
  moreover have "(\<lambda>w. (sf_run_id w, sf_fingerprint w)) ` (scan_finding_row_of i) ` X \<inter> (\<lambda>w. (sf_run_id w, sf_fingerprint w)) ` set (ss_findings s) = {}" for X
    using new by (auto simp: image_iff)
  ultimately show ?thesis
    using assms(2,3) new(1)
    by (simp add: persist_rows_def eff_bind_apply runs.insert_row_ok reports.insert_row_ok assets.insert_rows_ok
        datasets.insert_rows_ok findings.insert_rows_ok storable_def comp_def with_run_def)
qed

lemma persist_rows_sql:
  assumes "persist_rows X i t0 t1 r s = (Inl e, s')"
  shows "\<exists>m. e = StSql m"
  using assms unfolding persist_rows_def
  by (auto simp: eff_bind_apply split: sum.splits prod.splits if_splits
      dest!: assets.insert_rows_cases datasets.insert_rows_cases findings.insert_rows_cases)
    (auto simp: insert_row_def split: if_splits)

lemma persist_rows_fails:
  assumes "\<not> (i \<notin> sr_run_id ` set (ss_runs s) \<and> storable r)"
  shows "\<exists>m s'. persist_rows X i t0 t1 r s = (Inl (StSql m), s')"
proof (rule ccontr)
  assume *: "\<not> ?thesis"
  obtain res s' where p: "persist_rows X i t0 t1 r s = (res, s')" by fastforce
  with * persist_rows_sql [of X i t0 t1 r s] have "persist_rows X i t0 t1 r s = (Inr (), s')" by (cases res) fastforce+
  then have "i \<notin> sr_run_id ` set (ss_runs s) \<and> storable r"
    unfolding persist_rows_def storable_def
    by (auto simp: eff_bind_apply comp_def split: sum.splits prod.splits if_splits
        dest!: assets.insert_rows_cases datasets.insert_rows_cases findings.insert_rows_cases)
      (auto simp: insert_row_def split: if_splits)
  with assms show False by simp
qed

lemma redaction_storable [simp]: "storable (apply_redaction_policy pol r) = storable r"
proof -
  have "ra_path (redact_asset pol a) = ra_path a" for a by (simp add: redact_asset_def)
  moreover have "finding_key (redact_finding pol f) = finding_key f" for f by (simp add: redact_finding_def finding_key_def)
  ultimately show ?thesis by (simp add: storable_def apply_redaction_policy_def comp_def)
qed

lemma check_report_apply:
  "check_report_valid r s = (map_err (StReportValidation \<circ> validation_error_to_string) (validate_report r), s)"
  by (simp add: check_report_valid_def)

lemma persist_scan_run_ok:
  assumes "runs_wf s" and "i \<notin> sr_run_id ` set (ss_runs s)" and "storable report" and "validate_report report = Inr ()"
    and "validate_report (apply_redaction_policy pol report) = Inr ()"
  shows "persist_scan_run X i t0 t1 report pol s = (Inr (), with_run X i t0 t1 (apply_redaction_policy pol report) s)"
  using assms persist_rows_ok [OF assms(1,2), of "apply_redaction_policy pol report" X t0 t1]
  by (simp add: persist_scan_run_def Let_def eff_bind_apply check_report_apply transaction_def)

lemma persist_scan_run_fails:
  assumes "\<not> (i \<notin> sr_run_id ` set (ss_runs s) \<and> storable report \<and> validate_report report = Inr () \<and>
    validate_report (apply_redaction_policy pol report) = Inr ())"
  shows "\<exists>e. persist_scan_run X i t0 t1 report pol s = (Inl e, s)"
proof (cases "validate_report report = Inr () \<and> validate_report (apply_redaction_policy pol report) = Inr ()")
  case True
  then have "\<not> (i \<notin> sr_run_id ` set (ss_runs s) \<and> storable (apply_redaction_policy pol report))" using assms by simp
  from persist_rows_fails [OF this, of X t0 t1] True show ?thesis
    by (auto simp: persist_scan_run_def Let_def eff_bind_apply check_report_apply transaction_def)
next
  case False
  have "\<exists>e. v = Inl e" if "v \<noteq> Inr ()" for v :: "(validation_error, unit) res"
    using that by (cases v) auto
  with False show ?thesis
    by (cases "validate_report report")
      (auto simp: persist_scan_run_def Let_def eff_bind_apply check_report_apply split: sum.split)
qed

lemma persist_unstorable:
  assumes "\<not> storable report" and "validate_report report = Inr ()" and "validate_report (apply_redaction_policy pol report) = Inr ()"
  shows "\<exists>m. persist_scan_run X i t0 t1 report pol s = (Inl (StSql m), s)"
  using assms persist_rows_fails [of i s "apply_redaction_policy pol report" X t0 t1]
  by (auto simp: persist_scan_run_def Let_def eff_bind_apply check_report_apply transaction_def)

lemma with_run_simps [simp]:
  "ss_runs (with_run X i t0 t1 r s) = ss_runs s @ [scan_run_row_of X i t0 t1 r]"
  "ss_reports (with_run X i t0 t1 r s) = ss_reports s @ [(i, sx_report_json X r)]"
  "ss_assets (with_run X i t0 t1 r s) = ss_assets s @ map (scan_asset_row_of i) (fr_assets r)"
  "ss_datasets (with_run X i t0 t1 r s) = ss_datasets s @ map (scan_dataset_row_of i) (fr_datasets r)"
  "ss_findings (with_run X i t0 t1 r s) = ss_findings s @ map (scan_finding_row_of i) (fr_findings r)"
  "ss_jobs (with_run X i t0 t1 r s) = ss_jobs s"
  by (simp_all add: with_run_def)

lemma runs_wf_with_run: "runs_wf s \<Longrightarrow> i \<notin> sr_run_id ` set (ss_runs s) \<Longrightarrow> runs_wf (with_run X i t0 t1 r s)"
  by (auto simp: runs_wf_def)

section \<open>Reading back\<close>

lemma load_report_with_run:
  assumes "runs_wf s" and "i \<notin> sr_run_id ` set (ss_runs s)"
  shows "load_report X i (with_run X i t0 t1 r s) =
      (map_err StJson (sx_parse_report X (sx_report_json X r)), with_run X i t0 t1 r s)"
    and "j \<noteq> i \<Longrightarrow> fst (load_report X j (with_run X i t0 t1 r s)) = fst (load_report X j s)"
proof -
  have "find (\<lambda>r. fst r = i) (ss_reports s) = None"
    using assms by (intro find_key_None) (simp add: runs_wf_def)
  then show "load_report X i (with_run X i t0 t1 r s) =
      (map_err StJson (sx_parse_report X (sx_report_json X r)), with_run X i t0 t1 r s)"
    by (simp add: load_report_def find_append)
  show "j \<noteq> i \<Longrightarrow> fst (load_report X j (with_run X i t0 t1 r s)) = fst (load_report X j s)"
    by (simp add: load_report_def find_append split: option.split)
qed

lemma find_run_with_run:
  assumes "i \<notin> sr_run_id ` set (ss_runs s)"
  shows "find_run i (with_run X i t0 t1 r s) = (Inr (scan_run_row_of X i t0 t1 r), with_run X i t0 t1 r s)"
  using find_key_None [OF assms] by (simp add: find_run_def find_append)

lemma filter_other: "i \<notin> key ` set rows \<Longrightarrow> filter (\<lambda>w. key w = i \<and> P w) rows = []"
  by (auto simp: filter_empty_conv)

lemma sort_key_map: "sort_key f (map g xs) = map g (sort_key (\<lambda>x. f (g x)) xs)"
proof -
  have "insort_key f (g x) (map g ys) = map g (insort_key (\<lambda>x. f (g x)) x ys)" for x ys by (induction ys) auto
  then show ?thesis by (induction xs) simp_all
qed

lemma limit_offset_map: "limit_offset lim off (map f xs) = map f (limit_offset lim off xs)"
  by (simp add: limit_offset_def Let_def drop_map take_map)

lemma label_roundtrips:
  "parse_data_format (data_format_label f) = Some f" "parse_inspection_status (inspection_status_db st) = Inr st"
  "parse_failure_kind (failure_kind_db k) = Some k" "parse_run_outcome (run_outcome_db out) = Inr out"
proof -
  show "parse_data_format (data_format_label f) = Some f" by (cases f) (simp_all add: parse_data_format_def)
  show "parse_inspection_status (inspection_status_db st) = Inr st" by (cases st) (simp_all add: parse_inspection_status_def)
  show "parse_failure_kind (failure_kind_db k) = Some k" by (cases k) (simp_all add: parse_failure_kind_def)
  show "parse_run_outcome (run_outcome_db out) = Inr out" by (cases out) (simp_all add: parse_run_outcome_def)
qed

definition stored_asset :: "report_asset \<Rightarrow> stored_asset_row" where
  "stored_asset a = \<lparr>sw_path = ra_path a, sw_format = ra_format a, sw_inspection_status = ra_inspection_status a,
     sw_failure_kind = ra_failure_kind a, sw_failure_message = ra_failure_message a, sw_dataset_id = ra_dataset_id a\<rparr>"

lemma stored_asset_row_from_sql_row [simp]: "stored_asset_row_from_sql (scan_asset_row_of i a) = Inr (stored_asset a)"
  by (cases "ra_failure_kind a")
    (simp_all add: stored_asset_row_from_sql_def scan_asset_row_of_def stored_asset_def label_roundtrips)

lemma asset_rows_with_run:
  assumes "runs_wf s" and "i \<notin> sr_run_id ` set (ss_runs s)"
  shows "asset_rows i None (with_run X i t0 t1 r s) = map (scan_asset_row_of i) (fr_assets r)"
proof -
  have "i \<notin> sa_run_id ` set (ss_assets s)" using assms by (auto simp: runs_wf_def)
  then show ?thesis by (auto simp: asset_rows_def matches_def filter_empty_conv)
qed

lemma list_assets_with_run:
  assumes "runs_wf s" and "i \<notin> sr_run_id ` set (ss_runs s)"
  shows "list_assets_page i None off lim (with_run X i t0 t1 r s) =
    (Inr (map stored_asset (limit_offset (as_i64 lim) (as_i64 off) (sort_key ra_path (fr_assets r)))), with_run X i t0 t1 r s)"
proof -
  have "collect_res (map (\<lambda>a. stored_asset_row_from_sql (scan_asset_row_of i a)) xs) = Inr (map stored_asset xs)" for xs
    by (induction xs) simp_all
  then show ?thesis
    by (simp add: list_assets_page_def eff_bind_apply ensure_run_exists_def asset_rows_with_run [OF assms]
        sort_key_map limit_offset_map comp_def)
qed

lemma verify_with_run:
  assumes "runs_wf s" and "i \<notin> sr_run_id ` set (ss_runs s)" and "sx_parse_report X (sx_report_json X r) = Inr r"
  shows "verify_projection_integrity X i (with_run X i t0 t1 r s) = (Inr (), with_run X i t0 t1 r s)"
proof -
  have "filter (\<lambda>w. sa_run_id w = i) (ss_assets s) = []" "filter (\<lambda>w. sd_run_id w = i) (ss_datasets s) = []"
      "filter (\<lambda>w. sf_run_id w = i) (ss_findings s) = []"
    using assms(1,2) by (auto simp: runs_wf_def filter_empty_conv)
  then show ?thesis
    by (simp add: verify_projection_integrity_def eff_bind_apply load_report_with_run [OF assms(1,2)] assms(3) comp_def)
qed

section \<open>Scans of the engine\<close>

lemma inspection_error_head:
  "inspect_parquet_file E p = Inl e \<Longrightarrow> \<exists>c t. core_error_to_string e = c # t \<and> \<not> is_ascii_space c"
  "inspect_csv_shallow E p = Inl e \<Longrightarrow> \<exists>c t. core_error_to_string e = c # t \<and> \<not> is_ascii_space c"
  "inspect_json_like_shallow E p nd = Inl e \<Longrightarrow> \<exists>c t. core_error_to_string e = c # t \<and> \<not> is_ascii_space c"
  by (auto simp: inspect_parquet_file_def inspect_csv_shallow_def inspect_json_like_shallow_def Let_def
      bind_res_Inl_iff map_err_Inl_iff case_prod_beta is_ascii_space_def split: if_splits)

lemma failed_record_head:
  "ra_inspection_status (st_record (inspect_asset E a)) = IsFailed \<Longrightarrow>
   \<exists>c t. ra_failure_message (st_record (inspect_asset E a)) = Some (c # t) \<and> \<not> is_ascii_space c"
  using inspection_error_head [of E "rs_path a"]
  by (auto simp: inspect_asset_def probed_step_def skipped_record_def failed_record_def split: data_format.splits sum.splits)

lemma redacted_record_consistent:
  "asset_consistent (redact_asset transport_safe_persist (plan_record E plan a))"
proof -
  let ?r = "plan_record E plan a"
  have r: "asset_consistent ?r"
    using inspect_asset_consistent [of E a] unfolding plan_record_def by (simp add: assign_dataset_consistent)
  have "ra_inspection_status ?r = ra_inspection_status (st_record (inspect_asset E a))"
      "ra_failure_message ?r = ra_failure_message (st_record (inspect_asset E a))"
    by (simp_all add: plan_record_def assign_dataset_def split: option.split)
  note r = r this
  have "str_trim (take_chars (Suc n) (c # t)) \<noteq> []" if "\<not> is_ascii_space c" for n c t
    using str_trim_ne [OF that] by simp
  then have "str_trim (take_chars 8192 (c # t)) \<noteq> []" if "\<not> is_ascii_space c" for c t
    using that by (metis numeral_eq_Suc)
  then show ?thesis
    using r failed_record_head [of E a]
    by (auto simp: asset_consistent_def redact_asset_def transport_safe_persist_def split: inspection_status.splits)
qed

lemma membership_redacted: "membership (map (redact_asset pol) rs) = membership rs"
  by (simp add: membership_def fold_map comp_def redact_asset_def cong: option.case_cong)

lemma len64_map [simp]: "len64 (map f xs) = len64 xs"
  by (simp add: len64_def)

lemma redacted_plan_valid: "validate_report (apply_redaction_policy transport_safe_persist (scan_report_of E req plan)) = Inr ()"
proof -
  let ?r = "scan_report_of E req plan" and ?red = "redact_asset transport_safe_persist"
  have "list_all asset_consistent (map ?red (fr_assets ?r))"
    using redacted_record_consistent by (auto simp: list_all_iff scan_report_parts assemble_report_def)
  moreover have "ra_inspection_status (?red a) = ra_inspection_status a" "ra_dataset_id (?red a) = ra_dataset_id a" for a
    by (simp_all add: redact_asset_def)
  then have "count_status st (map ?red rs) = count_status st rs"
      "len64 (filter (\<lambda>a. ra_dataset_id a \<noteq> None) (map ?red rs)) = len64 (filter (\<lambda>a. ra_dataset_id a \<noteq> None) rs)" for st rs
    by (simp_all add: count_status_def filter_map comp_def len64_def)
  ultimately show ?thesis
    using report_of_plan_valid [of E req plan]
    unfolding validate_report_def apply_redaction_policy_def Let_def
    by (simp add: membership_redacted split: if_splits)
qed

text \<open>The scan that a request for a local path makes.\<close>

definition local_request :: "service_env \<Rightarrow> string \<Rightarrow> path \<Rightarrow> scan_profile \<Rightarrow> scan_request" where
  "local_request X uuid p profile =
     scan_request_new uuid (if sx_is_file X p then LocalFile p else LocalDirectory p) profile"

lemma execute_local:
  assumes "sq_target req \<in> {LocalFile p, LocalDirectory p}" and "validate_local_path (sx_canonicalize X) P p = Inr ()"
    and "scan_engine_run (sx_scan X) (local_request X uuid p (sq_profile req)) = Inr r"
    and "report = (case sq_scan_id req of None \<Rightarrow> r | Some i \<Rightarrow> r\<lparr>fr_request := (fr_request r)\<lparr>rq_scan_id := i\<rparr>\<rparr>)"
  shows "validate_report report = Inl e \<Longrightarrow>
      execute_scan_and_persist X P uuid i t0 t1 req s = (Inl (InvalidRequest (validation_error_to_string e)), s)"
    and "validate_report report = Inr () \<Longrightarrow>
      (case persist_scan_run X i t0 t1 report (case sq_redaction req of None \<Rightarrow> transport_safe_persist | Some p \<Rightarrow> p) s of
         (Inl e, s') \<Rightarrow> execute_scan_and_persist X P uuid i t0 t1 req s = (Inl (app_error_from_store e), s')
       | (Inr _, s') \<Rightarrow> \<exists>resp. execute_scan_and_persist X P uuid i t0 t1 req s = (Inr resp, s') \<and> sz_run_id resp = i \<and>
            sz_summary resp = fr_summary report)"
proof -
  have loc: "dataset_location_from_scan_target X (sq_target req) = Inr (DatasetLocal p)" using assms(1) by auto
  have run: "run_scan X P uuid (DatasetLocal p) (sq_profile req) = Inr r"
    using assms(2,3) by (simp add: run_scan_def local_request_def)
  show "validate_report report = Inl e \<Longrightarrow>
      execute_scan_and_persist X P uuid i t0 t1 req s = (Inl (InvalidRequest (validation_error_to_string e)), s)"
    unfolding execute_scan_and_persist_def Let_def assms(4)
    by (simp add: eff_bind_apply loc run assms(2))
  show "validate_report report = Inr () \<Longrightarrow>
      (case persist_scan_run X i t0 t1 report (case sq_redaction req of None \<Rightarrow> transport_safe_persist | Some p \<Rightarrow> p) s of
         (Inl e, s') \<Rightarrow> execute_scan_and_persist X P uuid i t0 t1 req s = (Inl (app_error_from_store e), s')
       | (Inr _, s') \<Rightarrow> \<exists>resp. execute_scan_and_persist X P uuid i t0 t1 req s = (Inr resp, s') \<and> sz_run_id resp = i \<and>
            sz_summary resp = fr_summary report)"
    unfolding execute_scan_and_persist_def Let_def assms(4)
    by (simp add: eff_bind_apply loc run assms(2) eff_map_err_def eff_return_def split: prod.split sum.split)
qed

end
