(* ===== verification/Service_Runs_Results.thy ===== *)
theory Service_Runs_Results
  imports Service_Runs_Props Repair_Plan_Props
begin

text \<open>
  The results on persisted runs, each with an application to a small tree of files.
\<close>

section \<open>Identifiers of datasets\<close>

text \<open>When the readable files share one schema, a dataset is named after the anchor of its files.\<close>

definition one_schema :: "scan_env \<Rightarrow> scan_plan \<Rightarrow> bool" where
  "one_schema E plan \<longleftrightarrow> (\<exists>sig. \<forall>p i. pm_get (plan_footers E plan) p = Some i \<longrightarrow> parquet_schema_signature i = sig)"

lemma one_key_groups: "(\<forall>v \<in> set vs. key v = k) \<Longrightarrow> length (group_by_key key vs) \<le> 1"
proof -
  assume "\<forall>v \<in> set vs. key v = k"
  then have "set (map fst (group_by_key key vs)) \<subseteq> {k}"
    using in_group_by_key [of _ _ key vs] by auto
  moreover have "distinct (map fst (group_by_key key vs))" by (simp add: bt_sorted_distinct)
  ultimately have "card (set (map fst (group_by_key key vs))) \<le> 1"
    by (metis card.empty card_insert_disjoint card_mono empty_iff finite.intros One_nat_def)
  with \<open>distinct _\<close> show ?thesis by (metis distinct_card length_map)
qed

lemma one_schema_dataset_id:
  assumes "one_schema E plan" and "d \<in> set (inferred_datasets E plan)" and "p \<in> set (dataset_paths d)"
  shows "ds_dataset_id d = dataset_id_for_anchor (pl_root plan) (dataset_anchor_key (pl_root plan) p)"
proof -
  let ?m = "plan_footers E plan"
  obtain g where g: "g \<in> set (anchor_buckets (pl_root plan) (pm_keys ?m))" and d: "d \<in> set (fst (infer_anchor E plan ?m g))"
    using assms(2) by (auto simp: inferred_datasets_def infer_parquet_datasets_def Let_def)
  have bucket: "snd g = filter (\<lambda>p. dataset_anchor_key (pl_root plan) p = fst g) (pm_keys ?m)"
    using g in_group_by_key [of "fst g" "snd g"] by (simp add: anchor_buckets_group)
  then have insp: "\<forall>p \<in> set (snd g). pm_get ?m p \<noteq> None"
    using pm_get_key [of ?m] by (simp add: plan_footers_def)
  obtain sig where "\<forall>p \<in> set (sort_paths (snd g)). parquet_schema_signature (the (pm_get ?m p)) = sig"
    using assms(1) insp by (fastforce simp: one_schema_def)
  then have "length (signature_groups ?m (sort_paths (snd g))) \<le> 1"
    using insp one_key_groups [of "sort_paths (snd g)" _ sig] by (simp add: signature_groups_inspected)
  then have "ds_dataset_id d = dataset_id_for_anchor (pl_root plan) (fst g)"
    using d by (auto simp: infer_anchor_def Let_def case_prod_beta split: if_splits)
  moreover have "p \<in> set (snd g)"
    using infer_anchor_paths_subset [of "snd g" ?m d E plan "fst g"] insp d assms(3) by auto
  ultimately show ?thesis by (simp add: bucket)
qed

lemma default_anchor_collides:
  assumes "one_schema E plan" and "distinct (map (path_components \<circ> rs_path) (pl_assets plan))"
    and "a \<in> set (pl_assets plan)" "readable_parquet E a" "dataset_anchor_key (pl_root plan) (rs_path a) = []"
    and "b \<in> set (pl_assets plan)" "readable_parquet E b" "dataset_anchor_key (pl_root plan) (rs_path b) = ''default''"
  shows "\<not> distinct (map ds_dataset_id (inferred_datasets E plan))"
proof
  assume dist: "distinct (map ds_dataset_id (inferred_datasets E plan))"
  have paths: "rs_path a \<in> set (concat (map dataset_paths (inferred_datasets E plan)))" "rs_path b \<in> set (concat (map dataset_paths (inferred_datasets E plan)))"
    unfolding plan_dataset_paths_set plan_footer_keys [OF assms(2)] using assms(3,4,6,7) by auto
  then obtain d d' where d: "d \<in> set (inferred_datasets E plan)" "rs_path a \<in> set (dataset_paths d)"
      "d' \<in> set (inferred_datasets E plan)" "rs_path b \<in> set (dataset_paths d')" by auto
  have "ds_dataset_id d = ds_dataset_id d'"
    using one_schema_dataset_id [OF assms(1) d(1,2)] one_schema_dataset_id [OF assms(1) d(3,4)] assms(5,8)
    by (simp add: dataset_id_for_anchor_def)
  then have "d = d'" using dist d(1,3) by (meson distinct_map inj_onD)
  then show False using plan_dataset_anchor [OF d(1)] d(2,4) assms(5,8) by force
qed

section \<open>Scan jobs\<close>

lemma persistD:
  assumes "runs_wf s"
  shows "persist_scan_run X i t0 t1 r pol s = (Inl e, s') \<Longrightarrow> s' = s"
    and "persist_scan_run X i t0 t1 r pol s = (Inr u, s') \<Longrightarrow>
      i \<notin> sr_run_id ` set (ss_runs s) \<and> (\<exists>stored. s' = with_run X i t0 t1 stored s)"
  using persist_scan_run_ok [OF assms, of i r pol X t0 t1] persist_scan_run_fails [of i s r pol X t0 t1] by force+

lemma execute_cases:
  assumes "runs_wf s"
  shows "(\<exists>e. execute_scan_and_persist X P uuid i t0 t1 req s = (Inl e, s)) \<or>
    (\<exists>resp stored. execute_scan_and_persist X P uuid i t0 t1 req s = (Inr resp, with_run X i t0 t1 stored s) \<and>
      sz_run_id resp = i \<and> i \<notin> sr_run_id ` set (ss_runs s))"
  unfolding execute_scan_and_persist_def Let_def
  by (auto simp: eff_bind_apply eff_map_err_def eff_return_def map_err_Inl_iff split: sum.splits prod.splits
      dest!: persistD [OF assms])

lemma scan_job_work_cases:
  assumes "runs_wf s"
  shows "(\<exists>e. scan_job_work X P parse uuid i t0 t1 payload s = (Inl (WorkError e), s)) \<or>
    (\<exists>stored. scan_job_work X P parse uuid i t0 t1 payload s = (Inr i, with_run X i t0 t1 stored s) \<and> i \<notin> sr_run_id ` set (ss_runs s))"
proof (cases "parse payload")
  case (Inr req)
  with execute_cases [OF assms, of X P uuid i t0 t1 req] show ?thesis
    by (auto simp: scan_job_work_def eff_bind_apply eff_map_err_def eff_return_def)
qed (simp add: scan_job_work_def eff_bind_apply)

lemma handle_scan_job:
  assumes "sj_job_kind job = ''scan''"
  shows "handle_job E W now job cancel s = settle_job E now (sj_job_id job)
    (case jw_scan W (sj_request_json job) s of
       (Inl e, s1) \<Rightarrow> (Inl e, s1) | (Inr run, s1) \<Rightarrow> on_app (complete_scan_job_success E now (sj_job_id job) run) s1)"
  using assms
  by (simp add: handle_job_def run_claimed_job_def run_scan_job_def eff_bind_apply on_app_apply job_cancel_requested_def
      job_kind_parse_def)

section \<open>A small tree\<close>

text \<open>A tree with one Parquet file, and an environment of the service over it.\<close>

definition one_file_env :: scan_env where
  "one_file_env = (demo_scan_env plain_hasher concat)\<lparr>sn_walk := (\<lambda>_. [demo_walk_entry ''/d/a.parquet''])\<rparr>"

definition one_file_plan :: scan_plan where
  "one_file_plan = \<lparr>pl_root = ''/d'', pl_assets = [\<lparr>rs_path = ''/d/a.parquet'', rs_format = FmtParquet, rs_size_bytes = 9000\<rparr>], pl_truncated = False\<rparr>"

lemma one_file_resolves:
  "resolve_directory one_file_env ''/d'' scan_options_default = Inr one_file_plan"
proof -
  have "unat (max (so_max_files scan_options_default) 1) = 100000"
    by (simp add: scan_options_default_def max_def word_le_nat_alt)
  then show ?thesis
    by (simp add: one_file_env_def demo_scan_env_def one_file_plan_def resolve_directory_def demo_walk_entry_def demo_classify Let_def)
qed

lemma one_file_storable: "storable (scan_report_of one_file_env req one_file_plan)"
proof -
  have "length (inferred_datasets one_file_env one_file_plan) = 1" by code_simp
  moreover have "evaluate_scan_rules one_file_env one_file_plan (plan_assets one_file_plan) (pm_values (plan_footers one_file_env one_file_plan))
      (inferred_datasets one_file_env one_file_plan) = []" by code_simp
  moreover have "structural_findings one_file_env req one_file_plan (map (inspect_asset one_file_env) (plan_assets one_file_plan))
    (inferred_datasets one_file_env one_file_plan) (snd (infer_parquet_datasets one_file_env one_file_plan (pm_keys (plan_footers one_file_env one_file_plan)) (plan_footers one_file_env one_file_plan))) = []" by code_simp
  ultimately show ?thesis
    by (auto simp: storable_def scan_report_parts assemble_report_def plan_findings_def length_Suc_conv plan_assets_def one_file_plan_def)
qed
definition runs_env :: "scan_env \<Rightarrow> full_report \<Rightarrow> service_env" where
  "runs_env E r = \<lparr>sx_store = demo_service_env, sx_scan = E, sx_canonicalize = Inr, sx_is_file = (\<lambda>_. False),
     sx_url_parse = (\<lambda>_. Inl ''no url''), sx_scan_remote = (\<lambda>_. Inl (AeInternal ''no remote'')),
     sx_report_json = (\<lambda>_. ''report''), sx_parse_report = (\<lambda>_. Inr r),
     sx_summary_json = (\<lambda>_. ''summary''), sx_parse_summary = (\<lambda>_. Inr (fr_summary r)),
     sx_target_json = (\<lambda>_. ''target''), sx_parse_json = (\<lambda>_. Inr JNull), sx_sha256_hex = sha256_hex plain_hasher,
     sx_is_uuid = (\<lambda>_. True)\<rparr>"

definition directory_request :: "string option \<Rightarrow> start_scan_request" where
  "directory_request i = \<lparr>sq_target = LocalDirectory ''/d'', sq_profile = Quick, sq_options = scan_options_default,
     sq_scan_id = i, sq_redaction = None\<rparr>"

definition one_file_report :: full_report where
  "one_file_report = scan_report_of one_file_env (scan_request_new ''s1'' (LocalDirectory ''/d'') Quick) one_file_plan"

lemma one_file_valid:
  "validate_report one_file_report = Inr ()" "validate_report (apply_redaction_policy transport_safe_persist one_file_report) = Inr ()"
  "storable one_file_report"
  unfolding one_file_report_def by (rule report_of_plan_valid redacted_plan_valid one_file_storable)+

lemma runs_wf_empty [simp]: "runs_wf empty_store"
  by (simp add: runs_wf_def empty_store_def)

lemma one_file_run:
  "scan_engine_run (sx_scan (runs_env one_file_env r)) (local_request (runs_env one_file_env r) ''s1'' ''/d'' (sq_profile (directory_request i))) = Inr one_file_report"
  by (simp add: runs_env_def local_request_def directory_request_def scan_engine_run_plan scan_request_new_def one_file_resolves one_file_report_def)

lemma runs_env_local:
  "sq_target (directory_request i) \<in> {LocalFile ''/d'', LocalDirectory ''/d''}"
  "validate_local_path (sx_canonicalize (runs_env E r)) cli_unrestricted_local ''/d'' = Inr ()"
  "sq_scan_id (directory_request i) = i" "sq_redaction (directory_request i) = None"
  by (simp_all add: directory_request_def validate_local_path_def cli_unrestricted_local_def)

section \<open>Results\<close>

text \<open>
  C35. Storing a run is all or nothing: it succeeds exactly when the report and its redaction are valid, the run
  is new, and no two assets have one path, no two datasets one identifier and no two findings one fingerprint; then the
  store gains the rows of the run, and otherwise it is unchanged.
\<close>

theorem persist_all_or_nothing:
  assumes "runs_wf s"
  shows "if validate_report report = Inr () \<and> validate_report (apply_redaction_policy pol report) = Inr () \<and>
      i \<notin> sr_run_id ` set (ss_runs s) \<and> storable report
    then persist_scan_run X i t0 t1 report pol s = (Inr (), with_run X i t0 t1 (apply_redaction_policy pol report) s) \<and>
      runs_wf (with_run X i t0 t1 (apply_redaction_policy pol report) s)
    else \<exists>e. persist_scan_run X i t0 t1 report pol s = (Inl e, s)"
  using persist_scan_run_ok [OF assms, of i report pol X t0 t1] persist_scan_run_fails [of i s report pol X t0 t1]
    runs_wf_with_run [OF assms, of i] by (simp split: if_split) blast

theorem persist_all_or_nothing_witness:
  "persist_scan_run (runs_env one_file_env one_file_report) ''r1'' 1 2 one_file_report transport_safe_persist empty_store =
     (Inr (), with_run (runs_env one_file_env one_file_report) ''r1'' 1 2 (apply_redaction_policy transport_safe_persist one_file_report) empty_store)"
  using persist_all_or_nothing [OF runs_wf_empty, of one_file_report transport_safe_persist "''r1''"] one_file_valid
  by (simp add: empty_store_def)

text \<open>
  C36. A stored run reads back: after a successful store the report of the run is the redacted report, its summary
  is the summary of the scan, the projection agrees with it, the pages of its assets hold the records of the scan in
  the order of their paths, and every other run still has its report.
\<close>

theorem persisted_run_reads_back:
  assumes "runs_wf s" and "persist_scan_run X i t0 t1 report pol s = (Inr (), s')"
    and "sx_parse_report X (sx_report_json X (apply_redaction_policy pol report)) = Inr (apply_redaction_policy pol report)"
    and "sx_parse_summary X (sx_summary_json X (fr_summary report)) = Inr (fr_summary report)"
  shows "load_report X i s' = (Inr (apply_redaction_policy pol report), s') \<and>
    load_stored_scan_summary X i s' = (Inr (fr_summary report), s') \<and>
    verify_projection_integrity X i s' = (Inr (), s') \<and>
    list_assets_page i None off lim s' = (Inr (map stored_asset (limit_offset (as_i64 lim) (as_i64 off)
      (sort_key ra_path (fr_assets (apply_redaction_policy pol report))))), s') \<and>
    (\<forall>j. j \<noteq> i \<longrightarrow> fst (load_report X j s') = fst (load_report X j s))"
proof -
  let ?r = "apply_redaction_policy pol report"
  have new: "i \<notin> sr_run_id ` set (ss_runs s)" and s': "s' = with_run X i t0 t1 ?r s"
    using persist_scan_run_fails [of i s report pol X t0 t1] persist_scan_run_ok [OF assms(1), of i report pol X t0 t1] assms(2)
    by (metis Inl_Inr_False prod.inject, metis Inl_Inr_False prod.inject)
  have "sr_summary_json (scan_run_row_of X i t0 t1 ?r) = sx_summary_json X (fr_summary report)"
    by (simp add: scan_run_row_of_def Let_def apply_redaction_policy_def)
  then have "load_stored_scan_summary X i s' = (Inr (fr_summary report), s')"
    unfolding s' load_stored_scan_summary_def
    by (simp add: eff_bind_apply find_run_with_run [OF new] summary_or_report_def assms(4) eff_return_def)
  then show ?thesis
    using load_report_with_run [OF assms(1) new, where X = X and r = ?r] verify_with_run [OF assms(1) new assms(3)]
      list_assets_with_run [OF assms(1) new, where off = off and lim = lim and r = ?r]
    by (simp add: s' assms(3))
qed

theorem persisted_run_reads_back_witness:
  "\<exists>s'. persist_scan_run (runs_env one_file_env (apply_redaction_policy transport_safe_persist one_file_report)) ''r1'' 1 2
       one_file_report transport_safe_persist empty_store = (Inr (), s') \<and>
     load_report (runs_env one_file_env (apply_redaction_policy transport_safe_persist one_file_report)) ''r1'' s' =
       (Inr (apply_redaction_policy transport_safe_persist one_file_report), s')"
proof -
  let ?X = "runs_env one_file_env (apply_redaction_policy transport_safe_persist one_file_report)"
  let ?p = "persist_scan_run ?X ''r1'' 1 2 one_file_report transport_safe_persist empty_store"
  have p: "?p = (Inr (), snd ?p)"
    using persist_scan_run_ok [OF runs_wf_empty, of "''r1''" one_file_report transport_safe_persist ?X 1 2] one_file_valid
    by (simp add: empty_store_def)
  from persisted_run_reads_back [OF runs_wf_empty p] p show ?thesis
    by (auto simp: runs_env_def apply_redaction_policy_def)
qed

lemma scan_report_id: "scan_engine_run E (local_request X uuid p prof) = Inr r \<Longrightarrow>
    rm_scan_id (fr_metadata r) = uuid \<and> rq_scan_id (fr_request r) = uuid"
  by (auto simp: scan_engine_run_plan bind_res_Inr_iff scan_report_parts assemble_report_def local_request_def scan_request_new_def)

lemma mismatched_scan_refused:
  assumes "sq_target req \<in> {LocalFile p, LocalDirectory p}" and "validate_local_path (sx_canonicalize X) P p = Inr ()"
    and "scan_engine_run (sx_scan X) (local_request X uuid p (sq_profile req)) = Inr r"
    and "sq_scan_id req = Some k" and "k \<noteq> uuid"
  shows "execute_scan_and_persist X P uuid i t0 t1 req s =
    (Inl (InvalidRequest ''report metadata scan_id must match request.scan_id''), s)"
proof -
  have "validate_report (r\<lparr>fr_request := (fr_request r)\<lparr>rq_scan_id := k\<rparr>\<rparr>) = Inl ReportScanIdMismatch"
    using assms(5) scan_report_id [OF assms(3)] by (simp add: validate_report_def Let_def)
  with execute_local(1) [OF assms(1-3), where i = i and ?t0.0 = t0 and ?t1.0 = t1 and s = s] show ?thesis
    by (simp add: assms(4))
qed

text \<open>A request that names the scan id the scan has anyway does not change the report.\<close>

lemma named_report:
  assumes "scan_engine_run E (local_request X uuid p prof) = Inr r" "\<not> k \<notin> {None, Some uuid}"
  shows "(case k of None \<Rightarrow> r | Some i \<Rightarrow> r\<lparr>fr_request := (fr_request r)\<lparr>rq_scan_id := i\<rparr>\<rparr>) = r"
  using assms(2) scan_report_id [OF assms(1)] by (cases k) auto

text \<open>
  C37. A request for a scan of a local path with the default redaction, when the engine returns a report: if the
  request names a scan id other than that of the scan, it is refused as invalid; otherwise the report is stored, under
  the run id, exactly when its paths, dataset identifiers and fingerprints are distinct, and the validations in between
  never reject it. A request that is refused, and a scan that is not stored, leave the store as it was.
\<close>

theorem scan_stored_iff_storable:
  assumes "runs_wf s" and "i \<notin> sr_run_id ` set (ss_runs s)" and "sq_target req \<in> {LocalFile p, LocalDirectory p}"
    and "validate_local_path (sx_canonicalize X) P p = Inr ()" and "sq_redaction req = None"
    and "scan_engine_run (sx_scan X) (local_request X uuid p (sq_profile req)) = Inr r"
  shows "if sq_scan_id req \<notin> {None, Some uuid}
    then execute_scan_and_persist X P uuid i t0 t1 req s =
        (Inl (InvalidRequest ''report metadata scan_id must match request.scan_id''), s)
    else if storable r
    then \<exists>resp. execute_scan_and_persist X P uuid i t0 t1 req s =
        (Inr resp, with_run X i t0 t1 (apply_redaction_policy transport_safe_persist r) s) \<and>
      sz_run_id resp = i \<and> sz_summary resp = fr_summary r
    else \<exists>e. execute_scan_and_persist X P uuid i t0 t1 req s = (Inl (AppStore e), s)"
proof (cases "sq_scan_id req \<notin> {None, Some uuid}")
  case True
  then obtain k where "sq_scan_id req = Some k" "k \<noteq> uuid" by (cases "sq_scan_id req") auto
  then show ?thesis using mismatched_scan_refused [OF assms(3,4,6), of k i t0 t1 s] True by simp
next
  case named: False
  obtain plan where plan: "r = scan_report_of (sx_scan X) (local_request X uuid p (sq_profile req)) plan"
    using assms(6) by (auto simp: scan_engine_run_plan bind_res_Inr_iff)
  note valid = report_of_plan_valid redacted_plan_valid
  note exec = execute_local(2) [OF assms(3,4,6) named_report [OF assms(6) named, symmetric], where i = i and ?t0.0 = t0 and ?t1.0 = t1 and s = s]
  show ?thesis
  proof (cases "storable r")
    case True
    with persist_scan_run_ok [OF assms(1,2) True, of transport_safe_persist X t0 t1] exec named show ?thesis
      by (simp add: assms(5) plan valid)
  next
    case False
    then obtain m where "persist_scan_run X i t0 t1 r transport_safe_persist s = (Inl (StSql m), s)"
      using persist_unstorable [OF False, where pol = transport_safe_persist] valid unfolding plan by blast
    with False exec named show ?thesis by (simp add: assms(5) plan valid)
  qed
qed

theorem scan_stored_iff_storable_witness:
  "\<exists>resp s'. execute_scan_and_persist (runs_env one_file_env one_file_report) cli_unrestricted_local ''s1'' ''r1'' 1 2
      (directory_request None) empty_store = (Inr resp, s') \<and> sz_run_id resp = ''r1''"
  using scan_stored_iff_storable [OF runs_wf_empty _ runs_env_local(1,2,4) one_file_run, of "''r1''" None one_file_report 1 2] one_file_valid(3)
    runs_env_local(3) [of None] by (auto simp: empty_store_def)

text \<open>
  C38. A tree with Parquet files both at its root and in a directory \<open>default\<close> is never stored when its
  files share one schema: the report of its scan has two datasets with one identifier, and every request to scan it, with
  whatever scan id and redaction, fails and leaves the store as it was. A request without scan id and redaction fails
  with a store error, as the second row of the identifier is refused.
\<close>

theorem default_directory_never_stored:
  assumes "sq_target req \<in> {LocalFile p, LocalDirectory p}"
    and "validate_local_path (sx_canonicalize X) P p = Inr ()"
    and "resolve_local_scan_plan (sx_scan X) (rq_target (local_request X uuid p (sq_profile req)))
      (rq_options (local_request X uuid p (sq_profile req))) = Inr plan"
    and "one_schema (sx_scan X) plan" and "distinct (map (path_components \<circ> rs_path) (pl_assets plan))"
    and "a \<in> set (pl_assets plan)" "readable_parquet (sx_scan X) a" "dataset_anchor_key (pl_root plan) (rs_path a) = []"
    and "b \<in> set (pl_assets plan)" "readable_parquet (sx_scan X) b" "dataset_anchor_key (pl_root plan) (rs_path b) = ''default''"
  shows "\<exists>r e. scan_engine_run (sx_scan X) (local_request X uuid p (sq_profile req)) = Inr r \<and>
    \<not> distinct (map ds_dataset_id (fr_datasets r)) \<and>
    execute_scan_and_persist X P uuid i t0 t1 req s = (Inl e, s) \<and>
    (sq_scan_id req = None \<and> sq_redaction req = None \<longrightarrow> (\<exists>m. e = AppStore m))"
proof -
  let ?q = "local_request X uuid p (sq_profile req)"
  define r where "r = scan_report_of (sx_scan X) ?q plan"
  have run: "scan_engine_run (sx_scan X) ?q = Inr r" using assms(3) by (simp add: scan_engine_run_plan r_def)
  have twice: "\<not> distinct (map ds_dataset_id (fr_datasets r))"
    using default_anchor_collides [OF assms(4-11)] by (simp add: r_def scan_report_parts assemble_report_def)
  then have uns: "\<not> storable r" by (simp add: storable_def)
  show ?thesis
  proof (cases "sq_scan_id req \<notin> {None, Some uuid}")
    case True
    then obtain k where "sq_scan_id req = Some k" "k \<noteq> uuid" by (cases "sq_scan_id req") auto
    then show ?thesis using mismatched_scan_refused [OF assms(1,2) run] run twice by auto
  next
    case False
    note exec = execute_local(2) [OF assms(1,2) run named_report [OF run False, symmetric],
        where i = i and ?t0.0 = t0 and ?t1.0 = t1 and s = s]
    let ?pol = "case sq_redaction req of None \<Rightarrow> transport_safe_persist | Some p \<Rightarrow> p"
    obtain e where e: "persist_scan_run X i t0 t1 r ?pol s = (Inl e, s)"
      using persist_scan_run_fails [of i s r ?pol X t0 t1] uns by blast
    have "\<exists>m. e = StSql m" if "sq_redaction req = None"
      using persist_unstorable [OF uns, of transport_safe_persist X i t0 t1 s] e that report_of_plan_valid redacted_plan_valid
      by (auto simp: r_def)
    then show ?thesis using exec e run twice by (auto simp: r_def report_of_plan_valid)
  qed
qed

theorem default_directory_never_stored_witness:
  "\<exists>e. execute_scan_and_persist (runs_env (demo_scan_env plain_hasher concat) one_file_report) cli_unrestricted_local ''s1'' ''r1'' 1 2
      (directory_request None) empty_store = (Inl (AppStore e), empty_store)"
proof -
  let ?E = "demo_scan_env plain_hasher concat" and ?X = "runs_env (demo_scan_env plain_hasher concat) one_file_report"
  let ?a = "pl_assets demo_scan_plan ! 0" and ?b = "pl_assets demo_scan_plan ! 1"
  have sx: "sx_scan ?X = ?E" by (simp add: runs_env_def)
  have req: "local_request ?X ''s1'' ''/d'' (sq_profile (directory_request None)) = demo_scan_request"
    by (simp add: local_request_def runs_env_def directory_request_def demo_scan_request_def)
  have res: "resolve_local_scan_plan (sx_scan ?X) (rq_target (local_request ?X ''s1'' ''/d'' (sq_profile (directory_request None))))
      (rq_options (local_request ?X ''s1'' ''/d'' (sq_profile (directory_request None)))) = Inr demo_scan_plan"
    unfolding req sx by (rule demo_resolves)
  have "map (pq_schema \<circ> snd \<circ> snd) (plan_footers ?E demo_scan_plan) =
      replicate 2 (pq_schema (snd (snd (hd (plan_footers ?E demo_scan_plan)))))" by code_simp
  then have "\<forall>x \<in> set (plan_footers ?E demo_scan_plan). pq_schema (snd (snd x)) = pq_schema (snd (snd (hd (plan_footers ?E demo_scan_plan))))"
    by (metis (no_types, lifting) comp_apply image_eqI in_set_replicate list.set_map)
  then have one: "one_schema (sx_scan ?X) demo_scan_plan"
    unfolding one_schema_def sx
    by (fastforce simp: pm_get_def parquet_schema_signature_def dest: map_of_SomeD)
  have ab: "?a \<in> set (pl_assets demo_scan_plan)" "?b \<in> set (pl_assets demo_scan_plan)"
    by (simp_all add: demo_scan_plan_def)
  have readable: "readable_parquet (sx_scan ?X) ?a" "readable_parquet (sx_scan ?X) ?b"
    unfolding sx by (simp_all add: readable_parquet_def demo_scan_plan_def inspect_parquet_file_def demo_scan_env_def)
  have anchors: "dataset_anchor_key (pl_root demo_scan_plan) (rs_path ?a) = []" "dataset_anchor_key (pl_root demo_scan_plan) (rs_path ?b) = ''default''"
    by code_simp+
  show ?thesis
    using default_directory_never_stored [OF runs_env_local(1,2) res one demo_distinct ab(1) readable(1) anchors(1)
      ab(2) readable(2) anchors(2), of "''r1''" 1 2 empty_store] runs_env_local(3,4) by auto
qed

text \<open>
  A request that names its scan is always refused: the identifier is written to the request of the report only,
  so that the report no longer matches its metadata, and a scan of a local path that would have been stored ends as an
  invalid request.
\<close>

theorem named_scan_refused:
  assumes "sq_target req \<in> {LocalFile p, LocalDirectory p}" and "validate_local_path (sx_canonicalize X) P p = Inr ()"
    and "scan_engine_run (sx_scan X) (local_request X uuid p (sq_profile req)) = Inr r"
    and "sq_scan_id req = Some k" and "k \<noteq> uuid"
  shows "execute_scan_and_persist X P uuid i t0 t1 req s =
    (Inl (InvalidRequest ''report metadata scan_id must match request.scan_id''), s)"
  by (rule mismatched_scan_refused [OF assms])

theorem named_scan_refused_witness:
  "execute_scan_and_persist (runs_env one_file_env one_file_report) cli_unrestricted_local ''s1'' ''r1'' 1 2
      (directory_request (Some ''s2'')) empty_store =
    (Inl (InvalidRequest ''report metadata scan_id must match request.scan_id''), empty_store)"
  using named_scan_refused [OF runs_env_local(1,2) one_file_run runs_env_local(3)] by simp

text \<open>
  C39. A scan job and its run agree: when a worker handles a running scan job, the job either succeeds and names a
  run that is new in the store with its report, or it fails and the store has no row of the run, neither run nor
  report, assets, datasets or findings.
\<close>

theorem scan_job_and_run_agree:
  assumes "runs_wf s" and "job_of s (sj_job_id job) = Some row" and "sj_status row = ''running''"
    and "sj_job_kind job = ''scan''" and "jw_scan W = scan_job_work X P parse uuid run t0 t1"
  shows "\<exists>row'. job_of (handle_job E W now job cancel s) (sj_job_id job) = Some row' \<and>
    runs_wf (handle_job E W now job cancel s) \<and>
    (sj_status row' = ''succeeded'' \<and> sj_run_id row' = Some run \<and> run \<notin> sr_run_id ` set (ss_runs s) \<and>
       (\<exists>stored. handle_job E W now job cancel s = (with_run X run t0 t1 stored s)\<lparr>ss_jobs := ss_jobs (handle_job E W now job cancel s)\<rparr>) \<or>
     sj_status row' = ''failed'' \<and>
       handle_job E W now job cancel s = s\<lparr>ss_jobs := ss_jobs (handle_job E W now job cancel s)\<rparr>)"
proof -
  let ?i = "sj_job_id job" and ?h = "handle_job E W now job cancel s"
  have wf: "runs_wf (s'\<lparr>ss_jobs := jobs\<rparr>) = runs_wf s'" for s' jobs by (simp add: runs_wf_def)
  consider (failed) e where "scan_job_work X P parse uuid run t0 t1 (sj_request_json job) s = (Inl (WorkError e), s)"
    | (stored) stored where "scan_job_work X P parse uuid run t0 t1 (sj_request_json job) s = (Inr run, with_run X run t0 t1 stored s)"
        "run \<notin> sr_run_id ` set (ss_runs s)"
    using scan_job_work_cases [OF assms(1)] by metis
  then show ?thesis
  proof cases
    case failed
    from finish_row [OF assms(2,3), of "failed_row (sv_ts E) now (app_error_to_job_failure_label e) (app_error_to_string e)"]
    obtain jobs where fin: "complete_scan_job_failure E now ?i (app_error_to_job_failure_label e) (app_error_to_string e) s =
        (Inr (), s\<lparr>ss_jobs := jobs\<rparr>)" and row: "\<exists>row'. job_of (s\<lparr>ss_jobs := jobs\<rparr>) ?i = Some row' \<and> sj_status row' = ''failed''"
      by (fastforce simp: complete_scan_job_failure_def failed_row_def)
    have "?h = s\<lparr>ss_jobs := jobs\<rparr>"
      using fin failed by (simp add: handle_scan_job assms(4,5) settle_job_def)
    with row wf assms(1) show ?thesis by auto
  next
    case stored
    let ?s1 = "with_run X run t0 t1 stored s"
    have "job_of ?s1 ?i = Some row" using assms(2) by (simp add: job_of_def)
    from finish_row [OF this assms(3), of "succeeded_row (sv_ts E) now (Some run) None"]
    obtain jobs where fin: "complete_scan_job_success E now ?i run ?s1 = (Inr (), ?s1\<lparr>ss_jobs := jobs\<rparr>)"
      and row: "\<exists>row'. job_of (?s1\<lparr>ss_jobs := jobs\<rparr>) ?i = Some row' \<and> sj_status row' = ''succeeded'' \<and> sj_run_id row' = Some run"
      by (fastforce simp: complete_scan_job_success_def complete_application_job_success_def succeeded_row_def)
    have "?h = ?s1\<lparr>ss_jobs := jobs\<rparr>"
      using fin stored(1) by (simp add: handle_scan_job assms(4,5) settle_job_def on_app_apply)
    with row stored(2) wf runs_wf_with_run [OF assms(1) stored(2)] show ?thesis by auto
  qed
qed

theorem scan_job_and_run_agree_witness:
  "\<exists>job row'. job_of claimed_store ''j1'' = Some job \<and>
     job_of (handle_job demo_service_env (panicking_work\<lparr>jw_scan := scan_job_work (runs_env one_file_env one_file_report)
       cli_unrestricted_local (\<lambda>_. Inr (directory_request None)) ''s1'' ''r1'' 1 2\<rparr>) 3 job False claimed_store) ''j1'' = Some row' \<and>
     sj_status row' \<in> {''succeeded'', ''failed''}"
proof -
  have "map_option (\<lambda>r. (sj_job_id r, sj_status r, sj_job_kind r)) (job_of claimed_store ''j1'') = Some (''j1'', ''running'', ''scan'')"
    by code_simp
  then obtain r where r: "job_of claimed_store ''j1'' = Some r" "sj_job_id r = ''j1''" "sj_status r = ''running''" "sj_job_kind r = ''scan''"
    by auto
  have "(ss_runs claimed_store, ss_reports claimed_store, ss_assets claimed_store, ss_datasets claimed_store, ss_findings claimed_store) = ([], [], [], [], [])"
    by code_simp
  then have "runs_wf claimed_store" by (simp add: runs_wf_def)
  from scan_job_and_run_agree [OF this, of r r "panicking_work\<lparr>jw_scan := scan_job_work (runs_env one_file_env one_file_report)
       cli_unrestricted_local (\<lambda>_. Inr (directory_request None)) ''s1'' ''r1'' 1 2\<rparr>"] r show ?thesis
    by fastforce
qed

end
