(* ===== verification/Scan_Fingerprint_Props.thy ===== *)
theory Scan_Fingerprint_Props
  imports Scan_Engine_Props Repair_Plan_Props
begin

text \<open>
  Fingerprints of findings: the payload that is hashed holds the identifiers of the evidence, which are drawn
  anew in every scan.
\<close>

section \<open>Fields of sorted objects\<close>

fun jget :: "string \<Rightarrow> json \<Rightarrow> json option" where
  "jget k (JObj m) = map_of m k"
| "jget k v = None"

lemma map_of_fold_insert:
  "map_of (fold (\<lambda>(k, v). bt_insert k v) kvs m) k = (case map_of (rev kvs) k of None \<Rightarrow> map_of m k | Some v \<Rightarrow> Some v)"
proof (induction kvs arbitrary: m)
  case (Cons kv kvs)
  then show ?case by (cases kv) (auto simp: map_of_append map_add_def split: option.split)
qed simp

lemma fold_insert_sorted: "bt_sorted m \<Longrightarrow> bt_sorted (fold (\<lambda>(k, v). bt_insert k v) kvs m)"
  by (induction kvs arbitrary: m) auto

lemma map_of_map_snd: "map_of (map (\<lambda>kv. (fst kv, f (snd kv))) m) k = map_option f (map_of m k)"
  by (induction m) auto

lemma jget_sort: "jget k (sort_json_value (JObj m)) = map_option sort_json_value (map_of (rev m) k)"
  by (simp add: map_of_fold_insert rev_map map_of_map_snd split: option.split)

lemma map_of_rev_distinct: "distinct (map fst m) \<Longrightarrow> map_of (rev m) = map_of m"
  by (metis map_of_eqI rev_map distinct_rev set_rev map_of_eq_Some_iff ext option.exhaust not_Some_eq)

lemma jget_sort_sort: "jget k (sort_json_value (sort_json_value (JObj m))) =
   map_option (sort_json_value \<circ> sort_json_value) (map_of (rev m) k)"
proof -
  obtain m' where m': "sort_json_value (JObj m) = JObj m'" "bt_sorted m'"
    by (simp add: fold_insert_sorted)
  have "jget k (sort_json_value (JObj m')) = map_option sort_json_value (map_of m' k)"
    unfolding jget_sort map_of_rev_distinct [OF bt_sorted_distinct [OF m'(2)]] ..
  also have "map_of m' k = map_option sort_json_value (map_of (rev m) k)"
    using jget_sort [of k m] m'(1) by simp
  finally show ?thesis using m'(1) by (simp add: option.map_comp)
qed

lemma evidence_id_sorted: "jget ''id'' (sort_json_value (evidence_fingerprint_value e)) = Some (JStr (ev_id e))"
  unfolding evidence_fingerprint_value_def jget_sort_sort
  by (simp add: opt_field_def split: option.split)

lemma payload_evidence:
  "jget ''evidence'' (sort_json_value (finding_fingerprint_payload f)) =
     Some (JArr (map (sort_json_value \<circ> evidence_fingerprint_value) (rf_evidence f)))"
  unfolding finding_fingerprint_payload_def jget_sort by simp

lemma payload_eq_evidence:
  assumes "sort_json_value (finding_fingerprint_payload f) = sort_json_value (finding_fingerprint_payload g)"
    and "rf_evidence f \<noteq> []"
  shows "rf_evidence g \<noteq> [] \<and> ev_id (hd (rf_evidence f)) = ev_id (hd (rf_evidence g))"
proof -
  have eq: "map (sort_json_value \<circ> evidence_fingerprint_value) (rf_evidence f) =
            map (sort_json_value \<circ> evidence_fingerprint_value) (rf_evidence g)"
    using arg_cong [OF assms(1), of "jget ''evidence''"] by (simp only: payload_evidence option.inject json.inject)
  then have g: "rf_evidence g \<noteq> []" using assms(2) by auto
  have "sort_json_value (evidence_fingerprint_value (hd (rf_evidence f))) =
        sort_json_value (evidence_fingerprint_value (hd (rf_evidence g)))"
    using arg_cong [OF eq, of hd] assms(2) g by (simp add: hd_map)
  then show ?thesis
    using g evidence_id_sorted [of "hd (rf_evidence f)"] evidence_id_sorted [of "hd (rf_evidence g)"] by simp
qed

section \<open>The findings of a scan\<close>

definition drawn :: "scan_env \<Rightarrow> report_finding \<Rightarrow> bool" where
  "drawn E f = (rf_fingerprint f = Some (compute_fingerprint (sn_hasher E) f) \<and> rf_evidence f \<noteq> [] \<and>
     ev_id (hd (rf_evidence f)) \<in> range (sn_uuid E))"

lemma drawn_mk_finding:
  "evs \<noteq> [] \<Longrightarrow> ev_id (hd evs) \<in> range (sn_uuid E) \<Longrightarrow> drawn E (mk_finding E site c sev cat s d evs locs)"
  by (simp add: drawn_def mk_finding_def finalize_def compute_fingerprint_def finding_fingerprint_payload_def)

lemma ev_id_mk [simp]: "ev_id (mk_evidence i k s l p) = i"
  by (simp add: mk_evidence_def)

lemma drawn_rules:
  "f \<in> set (unknown_format_findings E assets) \<Longrightarrow> drawn E f"
  "f \<in> set (mixed_format_findings E plan assets) \<Longrightarrow> drawn E f"
  "f \<in> set (partition_findings E d) \<Longrightarrow> drawn E f"
  "f \<in> set (small_file_findings E a) \<Longrightarrow> drawn E f"
  "f \<in> set (row_group_findings E i) \<Longrightarrow> drawn E f"
  by (auto simp: unknown_format_findings_def mixed_format_findings_def partition_findings_def small_file_findings_def
      row_group_findings_def Let_def hd_map split: if_splits intro!: drawn_mk_finding)

lemma drawn_structural:
  "drawn E (scan_truncated_finding E root n)" "drawn E (parquet_read_failed_finding E p e)"
  "drawn E (multiple_datasets_finding E root k)" "drawn E (unpartitioned_collection_finding E i k)"
  "drawn E (text_probe_bounded_finding E p hints pr)" "drawn E (inspection_partial_finding E p reason)"
  "drawn E (inspection_skipped_aggregate_finding E n ps)" "drawn E (grouping_ambiguous_finding E note')"
  by (auto simp: scan_truncated_finding_def parquet_read_failed_finding_def multiple_datasets_finding_def
      unpartitioned_collection_finding_def text_probe_bounded_finding_def inspection_partial_finding_def
      inspection_skipped_aggregate_finding_def intro!: drawn_mk_finding)
    (cases note'; auto intro!: drawn_mk_finding)

lemma drawn_step: "f \<in> set (st_findings (inspect_asset E a)) \<Longrightarrow> drawn E f"
  by (auto simp: inspect_asset_def probed_step_def drawn_structural split: data_format.splits sum.splits if_splits)

lemma drawn_plan_findings: "f \<in> set (plan_findings E req plan) \<Longrightarrow> drawn E f"
  by (auto simp: plan_findings_def evaluate_scan_rules_def structural_findings_def Let_def grouping_ambiguous_from_notes_def
      map_filter_def drawn_structural split: if_splits option.splits dest: drawn_rules drawn_step)

text \<open>The text of a finding that is hashed.\<close>

definition hashed_text :: "hasher \<Rightarrow> report_finding \<Rightarrow> string" where
  "hashed_text h f = render_json h (sort_json_value (finding_fingerprint_payload f))"

lemma drawn_fingerprints:
  assumes "drawn E f" and "drawn E' g" and "sn_hasher E' = sn_hasher E"
    and "inj_on (sha256_hex (sn_hasher E)) {hashed_text (sn_hasher E) f, hashed_text (sn_hasher E) g}"
    and "inj (render_json (sn_hasher E))" and "range (sn_uuid E) \<inter> range (sn_uuid E') = {}"
  shows "rf_fingerprint f \<noteq> None \<and> rf_fingerprint g \<noteq> None \<and>
    fp_finding_digest (the (rf_fingerprint f)) \<noteq> fp_finding_digest (the (rf_fingerprint g))"
proof -
  have "hashed_text (sn_hasher E) f \<noteq> hashed_text (sn_hasher E) g"
    using assms(1,2,5,6) payload_eq_evidence [of f g] by (auto simp: drawn_def hashed_text_def inj_eq)
  then show ?thesis using assms(1-4) by (auto simp: drawn_def compute_fingerprint_def inj_on_def hashed_text_def)
qed

lemma scan_findings_drawn: "scan_engine_run E req = Inr r \<Longrightarrow> f \<in> set (fr_findings r) \<Longrightarrow> drawn E f"
  by (auto simp: scan_engine_run_plan bind_res_Inr_iff scan_report_parts assemble_report_def intro: drawn_plan_findings)

text \<open>
  C34. The fingerprints of findings are not stable: two scans whose evidence identifiers differ, as random
  identifiers do, have no fingerprint in common, even when nothing changed in between, so that the comparison of their
  reports lists every finding of the first as removed and every finding of the second as added. The hash is assumed
  not to collide on the texts of the findings of the two scans.
\<close>

theorem rescan_changes_every_fingerprint:
  assumes "scan_engine_run E req = Inr r" and "scan_engine_run E' req' = Inr r'"
    and "sn_hasher E' = sn_hasher E"
    and "inj_on (sha256_hex (sn_hasher E)) (hashed_text (sn_hasher E) ` (set (fr_findings r) \<union> set (fr_findings r')))"
    and "inj (render_json (sn_hasher E))"
    and "range (sn_uuid E) \<inter> range (sn_uuid E') = {}"
  shows "finding_fingerprints r \<inter> finding_fingerprints r' = {} \<and>
    set (fd_added (rd_findings (diff_reports a b r r'))) = finding_fingerprints r' \<and>
    set (fd_removed (rd_findings (diff_reports a b r r'))) = finding_fingerprints r"
proof -
  have "rf_fingerprint f \<noteq> None \<and> rf_fingerprint g \<noteq> None \<and>
      fp_finding_digest (the (rf_fingerprint f)) \<noteq> fp_finding_digest (the (rf_fingerprint g))"
    if "f \<in> set (fr_findings r)" "g \<in> set (fr_findings r')" for f g
    using drawn_fingerprints [OF scan_findings_drawn [OF assms(1) that(1)] scan_findings_drawn [OF assms(2) that(2)] assms(3)
        inj_on_subset [OF assms(4)] assms(5,6)] that by blast
  then have "finding_fingerprints r \<inter> finding_fingerprints r' = {}"
    by (fastforce simp: finding_fingerprints_def split: option.splits)
  moreover have "finite (finding_fingerprints x)" for x by (simp add: finding_fingerprints_def)
  ultimately show ?thesis by (auto simp: diff_reports_def)
qed

theorem rescan_changes_every_fingerprint_witness:
  "\<exists>r r'. scan_engine_run (demo_scan_env plain_hasher (\<lambda>k. ''a'' @ concat k)) demo_scan_request = Inr r \<and>
     scan_engine_run (demo_scan_env plain_hasher (\<lambda>k. ''b'' @ concat k)) demo_scan_request = Inr r' \<and>
     finding_fingerprints r \<inter> finding_fingerprints r' = {} \<and> finding_fingerprints r \<noteq> {}"
proof -
  let ?E = "\<lambda>u. demo_scan_env plain_hasher (\<lambda>k. u @ concat k)"
  obtain r r' where r: "scan_engine_run (?E ''a'') demo_scan_request = Inr r" "scan_engine_run (?E ''b'') demo_scan_request = Inr r'"
    by (simp add: scan_engine_run_plan demo_resolves)
  have "finding_fingerprints r \<inter> finding_fingerprints r' = {}"
    using rescan_changes_every_fingerprint [OF r, of "''1''" "''2''"] plain_hasher_inj inj_on_subset [OF plain_hasher_inj(2) subset_UNIV]
    by (auto simp: demo_scan_env_def)
  moreover have "unknown_format_findings E (plan_assets demo_scan_plan) \<noteq> []" for E
  proof -
    have "last (pl_assets demo_scan_plan) \<in> set (filter (\<lambda>a. rs_format a = FmtUnknown) (plan_assets demo_scan_plan))"
      by (simp add: demo_scan_plan_def)
    then have "filter (\<lambda>a. rs_format a = FmtUnknown) (plan_assets demo_scan_plan) \<noteq> []"
      by (metis empty_iff empty_set)
    then show ?thesis by (simp add: unknown_format_findings_def Let_def)
  qed
  then have "set (plan_findings E req demo_scan_plan) \<noteq> {}" for E req
    by (simp add: plan_findings_def evaluate_scan_rules_def)
  then have "finding_fingerprints r \<noteq> {}"
    using r(1) by (auto simp: scan_engine_run_plan demo_resolves scan_report_parts assemble_report_def finding_fingerprints_def)
  ultimately show ?thesis using r by blast
qed

end
