(* ===== verification/Spec2Isabelle.thy ===== *)
theory Spec2Isabelle
  imports Publication_Results Local_Backend_Props Repair_Plan_Props Repair_Execute_Storage Orch_Run_Props Service_Auth_Props Service_Runs_Results Scan_Fingerprint_Props
begin

text \<open>
  Verification of PARQONAUT.

  PARQONAUT scans, diagnoses, repairs and publishes Parquet datasets on local disks and object stores, one
  dataset at a time, as a batch, or through a job service. This development models its core as HOL functions and
  step relations and proves what makes each part correct, and where the code does not do what it means to.

  \<^bold>\<open>Parts of the program.\<close> A \<^emph>\<open>scan\<close> (\<open>paraclete-types\<close>, \<open>paraclete-core\<close>) lists the files of a target, reads Parquet footers
  and the heads of text files, groups Parquet files into datasets, and gives a report with findings. A \<^emph>\<open>repair\<close>
  (\<open>parqonaut-repair\<close>, \<open>parqonaut-transform\<close>, \<open>parqonaut-columnar\<close>) turns a scan into a plan of operations with dependencies and
  safety classes, runs the authorized ones on a copy of the dataset, verifies the result and delivers it. Results
  go to object stores by the \<^emph>\<open>publication protocol\<close> (\<open>parqonaut-storage\<close>): versions under a prefix, a writer lock, a
  manifest, a commit marker and a pointer to the current version. The \<^emph>\<open>orchestrator\<close> (\<open>parqonaut-orchestrator\<close>) plans and runs
  many datasets with bounded concurrency, retries and a journal from which a run resumes. The \<^emph>\<open>service\<close>
  (\<open>parqonaut-app\<close>, \<open>paraclete-store\<close>, \<open>paraclete-service\<close>) keeps reports, jobs and tokens in a database, and workers claim jobs under
  leases and run scans and repairs.

  \<^bold>\<open>Conventions.\<close> Texts, paths and bytes are \<open>string\<close>; \<open>u64\<close> and \<open>u32\<close> are words where their width matters;
  times are integers. A fallible function returns \<open>('e, 'a) res\<close>, a sum with the error left; stateful code is
  \<open>('s, 'e, 'a) eff\<close>, a function from the state to result and state. Ordered maps (\<open>BTreeMap\<close>) are sorted association
  lists (\<open>bt_insert\<close>). Code outside the repository (arrow, parquet, sqlx, chrono, serde, sha2, url, the file system) is a
  parameter, a field of an environment record or an argument; what is assumed of it stands as a named hypothesis of
  the theorem that needs it, and the witness of the theorem instantiates it by a concrete function. Random
  identifiers and the clock are arguments.

  \<^bold>\<open>Theories.\<close>
  \<^item> \<open>Parq_Prelude\<close>: results, effects, texts, ordered maps, shared list lemmas.
  \<^item> \<open>Storage_Location\<close>, \<open>Plain_Paths\<close>, \<open>Storage_Backend\<close>: paths and locations (\<open>location.rs\<close>, \<open>error.rs\<close>), paths without
    \<open>.\<close> and \<open>..\<close> on which a directory is a prefix of the text, the trait of a backend
    (\<open>backend.rs\<close>) as a record of operations, and its contracts as locales: \<open>safe_store\<close> says what holds whatever fails,
    \<open>live_store\<close> that fault-free calls succeed. \<open>Memory_Backend\<close> (\<open>memory.rs\<close>, \<open>chaos.rs\<close>) interprets them: the in-memory backend
    is a live store and the fault-injecting wrapper of a safe store is safe again. \<open>Local_Backend\<close> (\<open>local.rs\<close>) is the filesystem
    backend over a tree of files with the times of their last change and a schedule of failing writes; \<open>Local_Backend_Props\<close> proves that it
    refines a map on plain objects, a safe store when no write fails, and shows what a failed create leaves and when a stale
    entity tag is accepted.
  \<^item> \<open>Publication\<close> models the lock and the session (\<open>locking.rs\<close>, \<open>publication.rs\<close>); \<open>Publication_Spec\<close> is the abstract machine of
    guarded writes; \<open>Publication_Refine\<close> proves in \<open>safe_store\<close> that every method refines it; \<open>Publication_System\<close> interleaves
    any number of sessions, one per run id at a time, with crashes and proves the invariant, for sessions that leave the state
    \<open>ManifestWritten\<close> to \<open>write_manifest\<close> where the manifest matters (the public \<open>advance_to\<close> can skip it); \<open>Publication_Publish\<close> is the publication of a work directory and
    its liveness in \<open>live_store\<close>; \<open>Publication_Results\<close> states the properties for the backends. \<open>Storage_Inventory\<close> is the
    listing of a remote dataset (\<open>inventory.rs\<close>); its paging loop has fuel, and a backend that ends its pages needs no more fuel than it
    has pages.
  \<^item> \<open>Repair_Error\<close>, \<open>Repair_Plan\<close>, \<open>Repair_Deps\<close>, \<open>Schema_Compat\<close>, \<open>Repair_Rules\<close>: plans, policies, the topological sort
    (\<open>deps.rs\<close>), type compatibility, inventory, diagnosis, rules, fingerprint and the CI check. \<open>Repair_Deps\<close> shows when a plan
    sorts and that the order respects the dependencies; \<open>Repair_Plan_Props\<close> the safety of generated plans and what the
    fingerprint detects.
  \<^item> \<open>Transform_Engine\<close>: merging, splitting and rewriting (\<open>engine/*.rs\<close>) over a file map, with the laws of the Parquet crates as
    hypotheses; row preservation. \<open>Repair_Execute\<close>: execution on local directories (\<open>execute.rs\<close>, \<open>verify.rs\<close>, \<open>manifest.rs\<close>);
    \<open>Repair_Execute_Rows\<close>, \<open>_Confined\<close>, \<open>_Props\<close> prove authorization, losslessness, confinement and the guards;
    \<open>Repair_Execute_Storage\<close> (\<open>execute_storage.rs\<close>) composes execution, inventory and publication.
  \<^item> \<open>Orch_State\<close>, \<open>Orch_Journal\<close>, \<open>Orch_Scheduler\<close>, \<open>Orch_Batch\<close>, \<open>Orch_Executor\<close>, \<open>Orch_Run\<close> with their \<open>_Props\<close>: the states
    of a dataset, the journal (a locale, interpreted by the SQLite rows), the scheduler as an interleaving step relation
    with its bound and termination, batch plans and their disjoint locations, the retry loop (a function with a
    termination proof on the attempts that are left), resume, reports and verification.
  \<^item> \<open>Scan_Report\<close>, \<open>Scan_Infer\<close>, \<open>Scan_Engine\<close>: the report types with validation, redaction and comparison, the
    resolution of targets and the inference of datasets (\<open>dataset_infer.rs\<close>), the probes, findings and the run
    (\<open>scan_engine.rs\<close>). \<open>Scan_Infer_Props\<close>, \<open>Scan_Engine_Props\<close> and \<open>Scan_Fingerprint_Props\<close> show that reports validate, that datasets
    partition the readable files, and that fingerprints do not survive a rescan.
  \<^item> \<open>Service_Store\<close>: the tables and statements of the database. \<open>Service_Jobs\<close>, \<open>Service_Worker\<close>: the jobs table and its operations
    as a step relation of the SQLite store, claims, leases, recovery, the worker and its heartbeat; their \<open>_Props\<close> refine the life
    cycle of a job, bound its attempts and settle it, for the SQLite store; the recovery of the Postgres store breaks the bound
    (\<open>pg_recovery_not_atomic\<close>). \<open>Service_Auth\<close>: tokens, bootstrap and the middleware, with \<open>Service_Auth_Props\<close>.
    \<open>Service_Runs\<close>: the location policy, storing a scan in a transaction, every query on runs, and the scan of a job;
    \<open>Service_Runs_Props\<close> has a locale of keyed tables, interpreted for the five tables of a run, and \<open>Service_Runs_Results\<close> composes
    engine, store and worker.

  \<^bold>\<open>Bounds and fuel.\<close> The listing of an inventory is the only loop with fuel; the other loops are structural or have a
  termination proof. Counters of reports, metrics and faults are 64-bit words and wrap; lengths of files and lists are
  natural numbers. \<open>LIMIT\<close> and \<open>OFFSET\<close> are signed, as the cast of the code makes them.

  \<^bold>\<open>Not modelled.\<close> The S3 client and the arrow and columnar readers and writers are
  I/O behind the parameters named above; failures of the disk and of the database other than missing files, violated
  constraints and the failing writes of the filesystem backend are left out, and so are symbolic links. The command line, the HTTP handlers, the OpenAPI description, metrics, audit logs and the report
  printers only call and render what is modelled. The streaming conversion (\<open>parqonaut-stream\<close>), the declarative workflows and the filter
  language of \<open>parqonaut-transform\<close>, plugins, and the comparison and canonical form of plan files are separate features that are
  not modelled yet. The Postgres store repeats the SQLite store; it is modelled where its statements differ in a way
  that matters (claim and recovery of jobs).
\<close>

end
